(* ===== verification/Prelude.thy ===== *)
theory Prelude
  imports Main "HOL-Library.Word"
begin

text \<open>
  Shared vocabulary of the development: the C integer types as machine words, the error
  numbers of \<^verbatim>\<open>uapi/asm-generic/errno-base.h\<close>, C strings and fixed-size character
  buffers, and the generic facts on lists and words that several components use.  C strings
  are HOL strings without a NUL character; a character array is a list of characters of the
  array's length.
\<close>

unbundle bit_operations_syntax

named_theorems inv_intros \<open>preservation lemmas of the components' invariants\<close>
named_theorems frame_simps \<open>fields an operation leaves unchanged\<close>

section \<open>Machine integers\<close>

type_synonym u8 = "8 word"
type_synonym u16 = "16 word"
type_synonym u32 = "32 word"
type_synonym u64 = "64 word"
type_synonym s32 = "32 word" \<comment> \<open>a C \<open>int\<close>: read with \<open>sint\<close>, compared with \<open><s\<close>\<close>

lemma uint_eq_sint:
  fixes w :: "'a::len word"
  assumes "0 \<le> sint w"
  shows "uint w = sint w"
proof -
  have "sint w < 2 ^ (LENGTH('a) - 1)" by (rule sint_lt)
  also have "\<dots> \<le> (2 :: int) ^ LENGTH('a)" by (rule power_increasing) simp_all
  finally show ?thesis using assms by (simp add: uint_sint take_bit_int_eq_self)
qed

lemma unat_bounds:
  "unat (a :: u8) < 256" "unat (b :: u32) < 2 ^ 32" "unat (c :: u64) < 2 ^ 64"
  using unsigned_less[of a, where ?'a = nat] unsigned_less[of b, where ?'a = nat]
    unsigned_less[of c, where ?'a = nat] by simp_all

lemma unat_of_nat_u64: "n < 2 ^ 64 \<Longrightarrow> unat (of_nat n :: u64) = n"
  by (simp add: unat_of_nat take_bit_nat_eq_self)

lemma unat_diff_u64: "m \<le> n \<Longrightarrow> n < 2 ^ 64 \<Longrightarrow> unat (of_nat n - of_nat m :: u64) = n - m"
  by (simp add: unat_of_nat_u64 flip: of_nat_diff)

text \<open>Errors of Linux as negative \<open>int\<close> values.\<close>

abbreviation (input) ENOENT :: s32 where "ENOENT \<equiv> 2"
abbreviation (input) ESRCH :: s32 where "ESRCH \<equiv> 3"
abbreviation (input) ENOMEM :: s32 where "ENOMEM \<equiv> 12"
abbreviation (input) EFAULT :: s32 where "EFAULT \<equiv> 14"
abbreviation (input) EINVAL :: s32 where "EINVAL \<equiv> 22"
abbreviation (input) ENOSYS :: s32 where "ENOSYS \<equiv> 38"
abbreviation (input) ENOBUFS :: s32 where "ENOBUFS \<equiv> 105"

text \<open>A pointer result in the last page of the address space encodes an error.\<close>

definition IS_ERR :: "u64 \<Rightarrow> bool" where
  "IS_ERR p \<longleftrightarrow> (- 4095 :: u64) \<le> p"

lemma IS_ERR_0 [simp]: "\<not> IS_ERR 0"
  by (simp add: IS_ERR_def)

section \<open>C strings and character arrays\<close>

abbreviation (input) NUL :: char where "NUL \<equiv> CHR 0x00"

definition cstr :: "char list \<Rightarrow> string" where
  "cstr buf = takeWhile (\<lambda>c. c \<noteq> NUL) buf"

text \<open>
  The library's \<open>strncpy\<close>: it writes exactly \<open>n\<close> characters, the string first and NULs
  after it; the rest of the array keeps its contents.
\<close>

definition c_strncpy :: "nat \<Rightarrow> string \<Rightarrow> char list \<Rightarrow> char list" where
  "c_strncpy n s buf = take n s @ replicate (n - length s) NUL @ drop n buf"

text \<open>The library's \<open>snprintf\<close> into a buffer of \<open>n\<close> bytes: what the buffer reads as a string.\<close>

definition snprintf_str :: "nat \<Rightarrow> string \<Rightarrow> string" where
  "snprintf_str n s = take (n - 1) s"

definition no_nul :: "string \<Rightarrow> bool" where
  "no_nul s \<longleftrightarrow> NUL \<notin> set s"

lemma length_c_strncpy [simp]: "n \<le> length buf \<Longrightarrow> length (c_strncpy n s buf) = length buf"
  by (simp add: c_strncpy_def)

lemma no_nul_simps [simp]:
  "no_nul []" "no_nul (c # s) \<longleftrightarrow> c \<noteq> NUL \<and> no_nul s" "no_nul (s @ t) \<longleftrightarrow> no_nul s \<and> no_nul t"
  by (auto simp: no_nul_def)

lemma no_nul_take [intro]: "no_nul s \<Longrightarrow> no_nul (take n s)"
  by (auto simp: no_nul_def dest: in_set_takeD)

lemma no_nul_drop [intro]: "no_nul s \<Longrightarrow> no_nul (drop n s)"
  by (auto simp: no_nul_def dest: in_set_dropD)

lemma no_nul_cstr [simp]: "no_nul (cstr buf)"
  by (auto simp: no_nul_def cstr_def dest: set_takeWhileD)

lemma cstr_append: "no_nul s \<Longrightarrow> cstr (s @ t) = s @ cstr t"
  by (induction s) (auto simp: cstr_def)

lemma cstr_NUL [simp]: "cstr (NUL # t) = []"
  by (simp add: cstr_def)

lemma cstr_Nil [simp]: "cstr [] = []"
  by (simp add: cstr_def)

lemma cstr_strncpy:
  assumes "no_nul s" and "n < length buf" and "buf ! n = NUL"
  shows "cstr (c_strncpy n s buf) = take n s"
proof -
  have d: "drop n buf = NUL # drop (Suc n) buf"
    using assms(2,3) by (simp add: Cons_nth_drop_Suc [symmetric])
  show ?thesis
  proof (cases "n \<le> length s")
    case True
    with assms d show ?thesis by (simp add: c_strncpy_def cstr_append no_nul_take)
  next
    case False
    then obtain k where "n - length s = Suc k" by (cases "n - length s") auto
    with assms(1) False show ?thesis by (simp add: c_strncpy_def cstr_append)
  qed
qed

lemma strncpy_terminate:
  assumes "n < length buf"
  shows "(c_strncpy n s buf)[n := NUL] = c_strncpy n s (buf[n := NUL])"
proof -
  let ?A = "take n s @ replicate (n - length s) NUL"
  have "length ?A = n" by simp
  then have "(?A @ drop n buf)[n := NUL] = ?A @ (drop n buf)[0 := NUL]"
    by (simp add: list_update_append del: length_append append_assoc)
  then show ?thesis by (simp add: c_strncpy_def drop_update_swap)
qed

lemma cstr_strncpy_terminated:
  assumes "no_nul s" "n < length buf"
  shows "cstr ((c_strncpy n s buf)[n := NUL]) = take n s"
  using assms by (simp add: strncpy_terminate cstr_strncpy)

text \<open>An error code is zero exactly when the register it is returned in is.\<close>

lemma scast_eq_0: "(scast (x :: s32) :: u64) = 0 \<longleftrightarrow> x = 0"
proof
  assume "(scast x :: u64) = 0"
  then have "sint (scast x :: u64) = 0" by simp
  then have "sint x = sint (0 :: s32)" by (simp add: sint_up_scast is_up)
  then show "x = 0" by (rule signed_word_eqI)
qed simp

section \<open>Digits\<close>

text \<open>The numeric value of a character, and the two digit classes the command parsers test for.\<close>

abbreviation code_of :: "char \<Rightarrow> nat" where "code_of c \<equiv> of_char c"

definition is_dec :: "char \<Rightarrow> bool" where
  "is_dec c \<longleftrightarrow> 48 \<le> code_of c \<and> code_of c \<le> 57"

lemma is_dec_NUL [simp]: "\<not> is_dec NUL"
  by (simp add: is_dec_def)

end
