(* ===== verification/Hw_Breakpoint.thy ===== *)
theory Hw_Breakpoint
  imports Prelude "HOL-Library.Multiset"
begin

text \<open>
  \<^verbatim>\<open>kpms/demo_accessOffstinlineHook/hw_breakpoint.c\<close>: the table of four hardware
  breakpoints, the overflow handler with its move-to-next-instruction mechanism, and the
  operations that set, clear, count and list breakpoints.  The kernel's perf interface is not
  part of the repository: its functions are fields of \<open>kernel_api\<close>, and every call the module
  makes is recorded with its result in \<open>calls\<close>, newest first, so that the events the kernel
  holds for the module (\<open>live\<close>) and the attributes they are armed with (\<open>armed\<close>) can be read
  off the history.
\<close>

section \<open>Kernel interface\<close>

text \<open>The fields of \<open>perf_event_attr_minimal\<close> the code sets; the others are zeroed by \<open>memset\<close>.\<close>

record perf_attr =
  attr_type :: u32
  attr_size :: u32
  sample_period :: u64
  disabled :: bool
  freq :: bool
  exclude_user :: bool
  exclude_kernel :: bool
  exclude_hv :: bool
  attr_bp_type :: u32
  attr_bp_addr :: u64
  attr_bp_len :: u64

definition attr_zero :: perf_attr where
  "attr_zero = \<lparr>attr_type = 0, attr_size = 0, sample_period = 0, disabled = False, freq = False,
     exclude_user = False, exclude_kernel = False, exclude_hv = False,
     attr_bp_type = 0, attr_bp_addr = 0, attr_bp_len = 0\<rparr>"

datatype kcall =
    KRegisterWide perf_attr u64
  | KRegisterUser perf_attr u64 u64
  | KUnregisterWide u64
  | KUnregisterUser u64
  | KModify u64 perf_attr s32

record kernel_api =
  kallsyms_lookup_name :: "string \<Rightarrow> u64"
  k_register_wide :: "kcall list \<Rightarrow> perf_attr \<Rightarrow> u64"
  k_register_user :: "kcall list \<Rightarrow> perf_attr \<Rightarrow> u64 \<Rightarrow> u64"
  k_modify :: "kcall list \<Rightarrow> u64 \<Rightarrow> perf_attr \<Rightarrow> s32"
  k_find_vpid :: "s32 \<Rightarrow> u64"
  k_pid_task :: "u64 \<Rightarrow> s32 \<Rightarrow> u64"

text \<open>
  What the documentation of \<open>register_wide_hw_breakpoint\<close> and \<open>register_user_hw_breakpoint\<close>
  promises: an event or an error pointer, never NULL.
\<close>

definition registers_nonnull :: "kernel_api \<Rightarrow> bool" where
  "registers_nonnull k \<longleftrightarrow>
     (\<forall>cs a. k_register_wide k cs a \<noteq> 0) \<and> (\<forall>cs a t. k_register_user k cs a t \<noteq> 0)"

text \<open>The events registered and not yet unregistered, and the attributes an event is armed with.\<close>

fun live :: "kcall list \<Rightarrow> u64 list" where
  "live [] = []"
| "live (KRegisterWide a r # cs) = (if IS_ERR r then live cs else r # live cs)"
| "live (KRegisterUser a t r # cs) = (if IS_ERR r then live cs else r # live cs)"
| "live (KUnregisterWide e # cs) = remove1 e (live cs)"
| "live (KUnregisterUser e # cs) = remove1 e (live cs)"
| "live (KModify e a r # cs) = live cs"

fun armed :: "kcall list \<Rightarrow> u64 \<Rightarrow> perf_attr option" where
  "armed [] e = None"
| "armed (KRegisterWide a r # cs) e = (if \<not> IS_ERR r \<and> r = e then Some a else armed cs e)"
| "armed (KRegisterUser a t r # cs) e = (if \<not> IS_ERR r \<and> r = e then Some a else armed cs e)"
| "armed (KUnregisterWide e' # cs) e = (if e' = e then None else armed cs e)"
| "armed (KUnregisterUser e' # cs) e = (if e' = e then None else armed cs e)"
| "armed (KModify e' a r # cs) e = (if e' = e \<and> r = 0 then Some a else armed cs e)"

section \<open>State\<close>

abbreviation (input) MAX_HW_BREAKPOINTS :: nat where "MAX_HW_BREAKPOINTS \<equiv> 4"

abbreviation (input) HW_BP_TYPE_EXEC :: s32 where "HW_BP_TYPE_EXEC \<equiv> 0"
abbreviation (input) HW_BP_TYPE_WRITE :: s32 where "HW_BP_TYPE_WRITE \<equiv> 1"
abbreviation (input) HW_BP_TYPE_READ :: s32 where "HW_BP_TYPE_READ \<equiv> 2"
abbreviation (input) HW_BP_TYPE_RW :: s32 where "HW_BP_TYPE_RW \<equiv> 3"

abbreviation (input) HW_BP_SIZE_1 :: s32 where "HW_BP_SIZE_1 \<equiv> 0"
abbreviation (input) HW_BP_SIZE_2 :: s32 where "HW_BP_SIZE_2 \<equiv> 1"
abbreviation (input) HW_BP_SIZE_4 :: s32 where "HW_BP_SIZE_4 \<equiv> 2"
abbreviation (input) HW_BP_SIZE_8 :: s32 where "HW_BP_SIZE_8 \<equiv> 3"

abbreviation (input) HW_BREAKPOINT_R :: u32 where "HW_BREAKPOINT_R \<equiv> 1"
abbreviation (input) HW_BREAKPOINT_W :: u32 where "HW_BREAKPOINT_W \<equiv> 2"
abbreviation (input) HW_BREAKPOINT_RW :: u32 where "HW_BREAKPOINT_RW \<equiv> 3"
abbreviation (input) HW_BREAKPOINT_X :: u32 where "HW_BREAKPOINT_X \<equiv> 4"

abbreviation (input) PERF_TYPE_BREAKPOINT :: u32 where "PERF_TYPE_BREAKPOINT \<equiv> 5"
abbreviation sizeof_attr :: u32 where "sizeof_attr \<equiv> 72"
abbreviation (input) PIDTYPE_PID :: s32 where "PIDTYPE_PID \<equiv> 0"

record hw_breakpoint =
  bp_addr :: u64
  bp_type :: s32
  bp_size :: s32
  enabled :: s32
  hit_count :: s32
  description :: "char list"

record hwbp_state =
  g_register_wide :: u64
  g_register_user :: u64
  g_unregister_wide :: u64
  g_unregister :: u64
  g_modify :: u64
  g_find_vpid :: u64
  g_pid_task :: u64
  breakpoints :: "hw_breakpoint list"
  bp_events :: "u64 list"
  bp_tasks :: "u64 list"
  bp_hw_slot :: "s32 list"
  bp_at_next_instruction :: "s32 list"
  bp_original_addr :: "u64 list"
  bp_next_addr :: "u64 list"
  bp_verbose_mode :: s32
  calls :: "kcall list"

text \<open>The static storage before \<open>hw_breakpoint_init\<close>: everything zero.\<close>

definition bp_zero :: hw_breakpoint where
  "bp_zero = \<lparr>bp_addr = 0, bp_type = 0, bp_size = 0, enabled = 0, hit_count = 0,
     description = replicate 128 NUL\<rparr>"

definition hwbp_static :: hwbp_state where
  "hwbp_static = \<lparr>g_register_wide = 0, g_register_user = 0, g_unregister_wide = 0,
     g_unregister = 0, g_modify = 0, g_find_vpid = 0, g_pid_task = 0,
     breakpoints = replicate 4 bp_zero, bp_events = replicate 4 0, bp_tasks = replicate 4 0,
     bp_hw_slot = replicate 4 0, bp_at_next_instruction = replicate 4 0,
     bp_original_addr = replicate 4 0, bp_next_addr = replicate 4 0,
     bp_verbose_mode = 0, calls = []\<rparr>"

definition upd_bp :: "nat \<Rightarrow> (hw_breakpoint \<Rightarrow> hw_breakpoint) \<Rightarrow> hwbp_state \<Rightarrow> hwbp_state" where
  "upd_bp i f st = st\<lparr>breakpoints := (breakpoints st)[i := f (breakpoints st ! i)]\<rparr>"

section \<open>Initialisation\<close>

definition init_bp :: "hw_breakpoint \<Rightarrow> hw_breakpoint" where
  "init_bp b = b\<lparr>bp_addr := 0, bp_type := HW_BP_TYPE_EXEC, bp_size := HW_BP_SIZE_4, enabled := 0,
     hit_count := 0, description := (description b)[0 := NUL]\<rparr>"

definition hw_breakpoint_init :: "kernel_api \<Rightarrow> hwbp_state \<Rightarrow> s32 \<times> hwbp_state" where
  "hw_breakpoint_init k st =
     (let sym = kallsyms_lookup_name k;
          st1 = st\<lparr>breakpoints := map init_bp (breakpoints st),
            bp_events := map (\<lambda>_. 0) (bp_events st), bp_tasks := map (\<lambda>_. 0) (bp_tasks st),
            bp_hw_slot := map (\<lambda>_. - 1) (bp_hw_slot st),
            bp_at_next_instruction := map (\<lambda>_. 0) (bp_at_next_instruction st),
            bp_original_addr := map (\<lambda>_. 0) (bp_original_addr st),
            bp_next_addr := map (\<lambda>_. 0) (bp_next_addr st)\<rparr>;
          st2 = st1\<lparr>g_register_wide := sym ''register_wide_hw_breakpoint'',
            g_register_user := sym ''register_user_hw_breakpoint'',
            g_unregister_wide := sym ''unregister_wide_hw_breakpoint'',
            g_unregister := sym ''unregister_hw_breakpoint'',
            g_modify := sym ''modify_user_hw_breakpoint'',
            g_find_vpid := sym ''find_vpid'', g_pid_task := sym ''pid_task''\<rparr>
      in if g_register_wide st2 = 0 \<or> g_unregister_wide st2 = 0 then (- 1, st2) else (0, st2))"

section \<open>Unregistering an event\<close>

text \<open>The statement both the handler's fallback and its one-shot branch use.\<close>

definition unregister_event :: "nat \<Rightarrow> hwbp_state \<Rightarrow> hwbp_state" where
  "unregister_event i st =
     (if bp_tasks st ! i \<noteq> 0 \<and> g_unregister st \<noteq> 0
      then st\<lparr>calls := KUnregisterUser (bp_events st ! i) # calls st\<rparr>
      else st\<lparr>calls := KUnregisterWide (bp_events st ! i) # calls st\<rparr>)"

definition disarm_slot :: "nat \<Rightarrow> hwbp_state \<Rightarrow> hwbp_state" where
  "disarm_slot i st =
     (let st1 = unregister_event i st;
          st2 = upd_bp i (\<lambda>b. b\<lparr>enabled := 0\<rparr>) st1
      in st2\<lparr>bp_events := (bp_events st2)[i := 0], bp_tasks := (bp_tasks st2)[i := 0]\<rparr>)"

section \<open>The overflow handler\<close>

text \<open>The attributes the handler re-arms a breakpoint with, whatever its type and size were.\<close>

definition move_attr :: "u64 \<Rightarrow> perf_attr" where
  "move_attr a = attr_zero\<lparr>attr_type := PERF_TYPE_BREAKPOINT, attr_size := sizeof_attr,
     attr_bp_addr := a, attr_bp_type := HW_BREAKPOINT_X, attr_bp_len := 4,
     disabled := False, sample_period := 1, freq := False,
     exclude_kernel := False, exclude_user := False, exclude_hv := False\<rparr>"

definition find_event :: "hwbp_state \<Rightarrow> u64 \<Rightarrow> nat option" where
  "find_event st bp =
     find (\<lambda>i. bp_events st ! i = bp \<and> enabled (breakpoints st ! i) \<noteq> 0) [0..<MAX_HW_BREAKPOINTS]"

definition first_hit :: "kernel_api \<Rightarrow> nat \<Rightarrow> u64 \<Rightarrow> hwbp_state \<Rightarrow> hwbp_state" where
  "first_hit k i pc st =
     (let st1 = upd_bp i (\<lambda>b. b\<lparr>hit_count := hit_count b + 1\<rparr>) st;
          e = bp_events st1 ! i
      in if g_modify st1 \<noteq> 0 \<and> e \<noteq> 0
         then let st2 = st1\<lparr>bp_next_addr := (bp_next_addr st1)[i := pc + 4]\<rparr>;
                  attr = move_attr (bp_next_addr st2 ! i);
                  result = k_modify k (calls st2) e attr;
                  st3 = st2\<lparr>calls := KModify e attr result # calls st2\<rparr>
              in if result = 0
                 then st3\<lparr>bp_at_next_instruction := (bp_at_next_instruction st3)[i := 1]\<rparr>
                 else if g_unregister_wide st3 \<noteq> 0 then disarm_slot i st3 else st3
         else if g_unregister_wide st1 \<noteq> 0 \<and> e \<noteq> 0 then disarm_slot i st1 else st1)"

definition second_hit :: "kernel_api \<Rightarrow> nat \<Rightarrow> hwbp_state \<Rightarrow> hwbp_state" where
  "second_hit k i st =
     (let e = bp_events st ! i
      in if g_modify st \<noteq> 0 \<and> e \<noteq> 0
         then let attr = move_attr (bp_original_addr st ! i);
                  result = k_modify k (calls st) e attr;
                  st1 = st\<lparr>calls := KModify e attr result # calls st\<rparr>
              in if result = 0
                 then st1\<lparr>bp_at_next_instruction := (bp_at_next_instruction st1)[i := 0]\<rparr>
                 else st1
         else st)"

definition hw_bp_handler :: "kernel_api \<Rightarrow> u64 \<Rightarrow> u64 \<Rightarrow> hwbp_state \<Rightarrow> hwbp_state" where
  "hw_bp_handler k bp pc st =
     (case find_event st bp of
        None \<Rightarrow> st
      | Some i \<Rightarrow> if bp_at_next_instruction st ! i = 0 then first_hit k i pc st
                  else second_hit k i st)"

section \<open>Setting a breakpoint\<close>

text \<open>Validation of the arguments, in the order of the code; \<open>None\<close> when they pass.\<close>

definition set_validate :: "hwbp_state \<Rightarrow> u64 \<Rightarrow> s32 \<Rightarrow> s32 \<Rightarrow> s32 option" where
  "set_validate st addr type sz =
     (if g_register_wide st = 0 \<and> g_register_user st = 0 then Some (- ENOSYS)
      else if type <s HW_BP_TYPE_EXEC \<or> HW_BP_TYPE_RW <s type then Some (- EINVAL)
      else if sz <s HW_BP_SIZE_1 \<or> HW_BP_SIZE_8 <s sz then Some (- EINVAL)
      else if addr = 0 then Some (- EINVAL)
      else None)"

text \<open>The target task: \<open>Inr 0\<close> (NULL) for a system-wide breakpoint.\<close>

definition set_target :: "kernel_api \<Rightarrow> hwbp_state \<Rightarrow> s32 \<Rightarrow> s32 + u64" where
  "set_target k st pid =
     (if 0 <s pid
      then if g_register_user st = 0 then Inl (- ENOSYS)
           else if g_find_vpid st = 0 \<or> g_pid_task st = 0 then Inl (- ENOSYS)
           else let pid_struct = k_find_vpid k pid
                in if pid_struct = 0 then Inl (- ESRCH)
                   else let task = k_pid_task k pid_struct PIDTYPE_PID
                        in if task = 0 then Inl (- ESRCH) else Inr task
      else Inr 0)"

definition find_free :: "hwbp_state \<Rightarrow> nat option" where
  "find_free st = find (\<lambda>i. enabled (breakpoints st ! i) = 0) [0..<MAX_HW_BREAKPOINTS]"

definition convert_type :: "s32 \<Rightarrow> u32 option" where
  "convert_type type =
     (if type = HW_BP_TYPE_EXEC then Some HW_BREAKPOINT_X
      else if type = HW_BP_TYPE_WRITE then Some HW_BREAKPOINT_W
      else if type = HW_BP_TYPE_READ then Some HW_BREAKPOINT_R
      else if type = HW_BP_TYPE_RW then Some HW_BREAKPOINT_RW
      else None)"

definition convert_size :: "s32 \<Rightarrow> u32 option" where
  "convert_size sz =
     (if sz = HW_BP_SIZE_1 then Some 1
      else if sz = HW_BP_SIZE_2 then Some 2
      else if sz = HW_BP_SIZE_4 then Some 4
      else if sz = HW_BP_SIZE_8 then Some 8
      else None)"

definition set_attr :: "u64 \<Rightarrow> u32 \<Rightarrow> u32 \<Rightarrow> perf_attr" where
  "set_attr addr ty len = attr_zero\<lparr>attr_type := PERF_TYPE_BREAKPOINT, attr_size := sizeof_attr,
     attr_bp_addr := addr, attr_bp_type := ty, attr_bp_len := ucast len,
     disabled := False, sample_period := 1,
     exclude_kernel := False, exclude_user := False, exclude_hv := False, freq := False\<rparr>"

text \<open>The registration call: its result and the history with the call added.\<close>

definition register_bp :: "kernel_api \<Rightarrow> hwbp_state \<Rightarrow> perf_attr \<Rightarrow> u64 \<Rightarrow> u64 \<times> kcall list" where
  "register_bp k st attr task =
     (if task \<noteq> 0
      then let bp = k_register_user k (calls st) attr task
           in (bp, KRegisterUser attr task bp # calls st)
      else let bp = k_register_wide k (calls st) attr
           in (bp, KRegisterWide attr bp # calls st))"

text \<open>\<open>desc\<close> is \<open>None\<close> for a NULL pointer.\<close>

definition store_desc :: "string option \<Rightarrow> char list \<Rightarrow> char list" where
  "store_desc desc buf =
     (case desc of Some s \<Rightarrow> (c_strncpy 127 s buf)[127 := NUL] | None \<Rightarrow> buf[0 := NUL])"

definition store_bp ::
  "nat \<Rightarrow> u64 \<Rightarrow> s32 \<Rightarrow> s32 \<Rightarrow> u64 \<Rightarrow> u64 \<Rightarrow> string option \<Rightarrow> hwbp_state \<Rightarrow> hwbp_state" where
  "store_bp i addr type sz bp task desc st =
     (let st1 = upd_bp i (\<lambda>b. b\<lparr>bp_addr := addr, bp_type := type, bp_size := sz, enabled := 1,
            hit_count := 0, description := store_desc desc (description b)\<rparr>) st
      in st1\<lparr>bp_events := (bp_events st1)[i := bp], bp_tasks := (bp_tasks st1)[i := task],
           bp_at_next_instruction := (bp_at_next_instruction st1)[i := 0],
           bp_original_addr := (bp_original_addr st1)[i := addr],
           bp_next_addr := (bp_next_addr st1)[i := 0],
           bp_hw_slot := (bp_hw_slot st1)[i := of_nat i]\<rparr>)"

definition hw_breakpoint_set_for_pid ::
  "kernel_api \<Rightarrow> u64 \<Rightarrow> s32 \<Rightarrow> s32 \<Rightarrow> s32 \<Rightarrow> string option \<Rightarrow> hwbp_state \<Rightarrow> s32 \<times> hwbp_state" where
  "hw_breakpoint_set_for_pid k addr type sz pid desc st =
     (case set_validate st addr type sz of Some err \<Rightarrow> (err, st) | None \<Rightarrow>
      (case set_target k st pid of Inl err \<Rightarrow> (err, st) | Inr task \<Rightarrow>
      (case find_free st of None \<Rightarrow> (- ENOMEM, st) | Some i \<Rightarrow>
      (case convert_type type of None \<Rightarrow> (- EINVAL, st) | Some ty \<Rightarrow>
      (case convert_size sz of None \<Rightarrow> (- EINVAL, st) | Some len \<Rightarrow>
       (let (bp, cs) = register_bp k st (set_attr addr ty len) task;
            st1 = st\<lparr>calls := cs\<rparr>
        in if IS_ERR bp then (ucast bp, st1)
           else (of_nat i, store_bp i addr type sz bp task desc st1)))))))"

definition hw_breakpoint_set ::
  "kernel_api \<Rightarrow> u64 \<Rightarrow> s32 \<Rightarrow> s32 \<Rightarrow> string option \<Rightarrow> hwbp_state \<Rightarrow> s32 \<times> hwbp_state" where
  "hw_breakpoint_set k addr type sz desc st = hw_breakpoint_set_for_pid k addr type sz 0 desc st"

section \<open>Clearing, reading and counting\<close>

definition clear_event :: "nat \<Rightarrow> hwbp_state \<Rightarrow> hwbp_state" where
  "clear_event i st =
     (if bp_events st ! i \<noteq> 0
      then let e = bp_events st ! i;
               st1 = (if bp_tasks st ! i \<noteq> 0 \<and> g_unregister st \<noteq> 0
                      then st\<lparr>calls := KUnregisterUser e # calls st\<rparr>
                      else if g_unregister_wide st \<noteq> 0
                      then st\<lparr>calls := KUnregisterWide e # calls st\<rparr>
                      else st)
           in st1\<lparr>bp_events := (bp_events st1)[i := 0], bp_tasks := (bp_tasks st1)[i := 0]\<rparr>
      else st)"

definition hw_breakpoint_clear :: "s32 \<Rightarrow> hwbp_state \<Rightarrow> s32 \<times> hwbp_state" where
  "hw_breakpoint_clear index st =
     (if index <s 0 \<or> of_nat MAX_HW_BREAKPOINTS \<le>s index then (- EINVAL, st)
      else let i = unat index
           in if enabled (breakpoints st ! i) = 0 then (- ENOENT, st)
              else (0, upd_bp i (\<lambda>b. b\<lparr>enabled := 0, bp_addr := 0, hit_count := 0\<rparr>)
                         (clear_event i st)))"

definition clear_if_enabled :: "nat \<Rightarrow> hwbp_state \<Rightarrow> hwbp_state" where
  "clear_if_enabled i st =
     (if enabled (breakpoints st ! i) \<noteq> 0 then snd (hw_breakpoint_clear (of_nat i) st) else st)"

definition hw_breakpoint_clear_all :: "hwbp_state \<Rightarrow> hwbp_state" where
  "hw_breakpoint_clear_all st = fold clear_if_enabled [0..<MAX_HW_BREAKPOINTS] st"

definition hw_breakpoint_get :: "s32 \<Rightarrow> hwbp_state \<Rightarrow> hw_breakpoint option" where
  "hw_breakpoint_get index st =
     (if index <s 0 \<or> of_nat MAX_HW_BREAKPOINTS \<le>s index then None
      else Some (breakpoints st ! unat index))"

definition hw_breakpoint_get_count :: "hwbp_state \<Rightarrow> s32" where
  "hw_breakpoint_get_count st =
     fold (\<lambda>i c. if enabled (breakpoints st ! i) \<noteq> 0 then c + 1 else c) [0..<MAX_HW_BREAKPOINTS] 0"

definition hw_breakpoint_set_verbose :: "s32 \<Rightarrow> hwbp_state \<Rightarrow> hwbp_state" where
  "hw_breakpoint_set_verbose v st = st\<lparr>bp_verbose_mode := v\<rparr>"

definition hw_breakpoint_get_verbose :: "hwbp_state \<Rightarrow> s32" where
  "hw_breakpoint_get_verbose st = 0"

section \<open>Switching a debug register\<close>

text \<open>
  \<open>toggle_bp_hw_disable\<close> and \<open>toggle_bp_hw_enable\<close> over the control registers \<open>DBGBCR\<close>; the
  two access functions are NULL or not.
\<close>

definition toggle_bp_hw_disable :: "bool \<Rightarrow> bool \<Rightarrow> s32 \<Rightarrow> (s32 \<Rightarrow> u64) \<Rightarrow> (s32 \<Rightarrow> u64)" where
  "toggle_bp_hw_disable can_write can_read slot dbgbcr =
     (if slot <s 0 \<or> 16 \<le>s slot then dbgbcr
      else if can_write
      then let bcr = (if can_read then dbgbcr slot else 0) in dbgbcr(slot := bcr AND NOT 1)
      else dbgbcr)"

definition toggle_bp_hw_enable :: "bool \<Rightarrow> bool \<Rightarrow> s32 \<Rightarrow> (s32 \<Rightarrow> u64) \<Rightarrow> (s32 \<Rightarrow> u64)" where
  "toggle_bp_hw_enable can_write can_read slot dbgbcr =
     (if slot <s 0 \<or> 16 \<le>s slot then dbgbcr
      else if can_write
      then let bcr = (if can_read then dbgbcr slot else 0) in dbgbcr(slot := bcr OR 1)
      else dbgbcr)"

section \<open>The invariant of the table\<close>

text \<open>
  Shape of the arrays; a slot is enabled exactly when it holds an event; the events the kernel
  holds for the module are those of the slots, each once; and each is armed at the address the
  slot's bookkeeping says: the original one, or the next instruction after a first hit.
\<close>

definition bp_wf :: "hwbp_state \<Rightarrow> bool" where
  "bp_wf st \<longleftrightarrow> length (breakpoints st) = 4 \<and> length (bp_events st) = 4 \<and> length (bp_tasks st) = 4 \<and>
     length (bp_hw_slot st) = 4 \<and> length (bp_at_next_instruction st) = 4 \<and>
     length (bp_original_addr st) = 4 \<and> length (bp_next_addr st) = 4 \<and>
     (\<forall>i<4. length (description (breakpoints st ! i)) = 128)"

definition armed_addr :: "hwbp_state \<Rightarrow> nat \<Rightarrow> u64" where
  "armed_addr st i =
     (if bp_at_next_instruction st ! i = 0 then bp_original_addr st ! i else bp_next_addr st ! i)"

definition slots_agree :: "hwbp_state \<Rightarrow> bool" where
  "slots_agree st \<longleftrightarrow> (\<forall>i<4. enabled (breakpoints st ! i) \<noteq> 0 \<longleftrightarrow> bp_events st ! i \<noteq> 0)"

definition events_distinct :: "hwbp_state \<Rightarrow> bool" where
  "events_distinct st \<longleftrightarrow>
     (\<forall>i<4. \<forall>j<4. i \<noteq> j \<longrightarrow> bp_events st ! i \<noteq> 0 \<longrightarrow> bp_events st ! i \<noteq> bp_events st ! j)"

definition events_live :: "hwbp_state \<Rightarrow> bool" where
  "events_live st \<longleftrightarrow> mset (live (calls st)) = mset (filter (\<lambda>e. e \<noteq> 0) (bp_events st))"

definition events_armed :: "hwbp_state \<Rightarrow> bool" where
  "events_armed st \<longleftrightarrow> (\<forall>i<4. bp_events st ! i \<noteq> 0 \<longrightarrow>
     (\<exists>a. armed (calls st) (bp_events st ! i) = Some a \<and> attr_bp_addr a = armed_addr st i))"

definition bp_inv :: "hwbp_state \<Rightarrow> bool" where
  "bp_inv st \<longleftrightarrow> bp_wf st \<and> g_unregister_wide st \<noteq> 0 \<and> slots_agree st \<and> events_distinct st \<and>
     events_live st \<and> events_armed st"

lemmas bp_inv_defs = bp_inv_def bp_wf_def slots_agree_def events_distinct_def events_live_def
  events_armed_def

text \<open>
  What registration promises, for the whole history: never NULL, and never an event that is
  still registered.
\<close>

definition good_kernel :: "kernel_api \<Rightarrow> bool" where
  "good_kernel k \<longleftrightarrow> registers_nonnull k \<and>
     (\<forall>cs a. IS_ERR (k_register_wide k cs a) \<or> k_register_wide k cs a \<notin> set (live cs)) \<and>
     (\<forall>cs a t. IS_ERR (k_register_user k cs a t) \<or> k_register_user k cs a t \<notin> set (live cs))"

lemma filter_mset_update:
  assumes "i < length xs"
  shows "filter_mset P (mset (xs[i := y])) =
     (if P y then {#y#} else {#}) + (filter_mset P (mset xs) - (if P (xs ! i) then {#xs ! i#} else {#}))"
  using assms by (auto simp: mset_update)

lemma upd_bp_simps [simp]:
  "bp_events (upd_bp i f st) = bp_events st" "bp_tasks (upd_bp i f st) = bp_tasks st"
  "calls (upd_bp i f st) = calls st" "g_unregister_wide (upd_bp i f st) = g_unregister_wide st"
  "g_unregister (upd_bp i f st) = g_unregister st" "g_modify (upd_bp i f st) = g_modify st"
  "bp_at_next_instruction (upd_bp i f st) = bp_at_next_instruction st"
  "bp_original_addr (upd_bp i f st) = bp_original_addr st"
  "bp_next_addr (upd_bp i f st) = bp_next_addr st" "bp_hw_slot (upd_bp i f st) = bp_hw_slot st"
  "breakpoints (upd_bp i f st) = (breakpoints st)[i := f (breakpoints st ! i)]"
  by (simp_all add: upd_bp_def)

lemma armed_addr_simps [simp]:
  "armed_addr (st\<lparr>calls := cs\<rparr>) i = armed_addr st i"
  "armed_addr (st\<lparr>bp_verbose_mode := v\<rparr>) i = armed_addr st i"
  by (simp_all add: armed_addr_def)

lemma set_live: "events_live st \<Longrightarrow> set (live (calls st)) = {e \<in> set (bp_events st). e \<noteq> 0}"
  unfolding events_live_def by (metis mset_eq_setD set_filter)

lemma bp_inv_count_bp:
  assumes "bp_inv st" and "\<And>b. enabled (f b) = enabled b" and "\<And>b. length (description (f b)) = length (description b)"
  shows "bp_inv (upd_bp i f st)"
proof (cases "i < 4")
  case True
  with assms show ?thesis
    by (auto simp: bp_inv_defs armed_addr_def nth_list_update)
next
  case False
  with assms(1) have "breakpoints (upd_bp i f st) = breakpoints st"
    by (simp add: bp_inv_def bp_wf_def list_update_beyond)
  then have "upd_bp i f st = st" by (simp add: upd_bp_def)
  with assms(1) show ?thesis by simp
qed

text \<open>Leaving a slot: its event is unregistered, the slot disabled and its event set to NULL.\<close>

lemma bp_inv_drop:
  assumes inv: "bp_inv st" and i: "i < 4" "bp_events st ! i \<noteq> 0"
    and st': "calls st' = KUnregisterUser (bp_events st ! i) # calls st \<or>
        calls st' = KUnregisterWide (bp_events st ! i) # calls st"
      "bp_events st' = (bp_events st)[i := 0]" "length (bp_tasks st') = 4"
      "breakpoints st' = (breakpoints st)[i := b]" "enabled b = 0" "length (description b) = 128"
      "g_unregister_wide st' = g_unregister_wide st" "bp_hw_slot st' = bp_hw_slot st"
      "bp_at_next_instruction st' = bp_at_next_instruction st"
      "bp_original_addr st' = bp_original_addr st" "bp_next_addr st' = bp_next_addr st"
  shows "bp_inv st'"
proof -
  note wf = inv[unfolded bp_inv_def bp_wf_def]
  have lv: "live (calls st') = remove1 (bp_events st ! i) (live (calls st))" using st'(1) by auto
  have "events_live st'"
    unfolding events_live_def lv st'(2) using wf i
    by (simp add: filter_mset_update events_live_def)
  moreover have "bp_wf st'" using wf i st' by (simp add: bp_wf_def nth_list_update)
  moreover have "slots_agree st'" using wf i st' by (simp add: slots_agree_def nth_list_update)
  moreover have "events_distinct st'"
    using wf i st' by (auto simp: events_distinct_def nth_list_update)
  moreover have "events_armed st'"
  proof -
    have "armed (calls st') e = (if e = bp_events st ! i then None else armed (calls st) e)" for e
      using st'(1) by auto
    then show ?thesis
      using wf i st' by (auto simp: events_armed_def events_distinct_def armed_addr_def nth_list_update)
  qed
  ultimately show ?thesis using wf st' by (simp add: bp_inv_def)
qed

lemma disarm_slot_inv [inv_intros]:
  assumes "bp_inv st" "i < 4" "bp_events st ! i \<noteq> 0"
  shows "bp_inv (disarm_slot i st)"
  using assms(1)
  by (intro bp_inv_drop[OF assms, where b = "(breakpoints st ! i)\<lparr>enabled := 0\<rparr>"])
     (use assms in \<open>auto simp: disarm_slot_def unregister_event_def Let_def bp_inv_def bp_wf_def\<close>)

text \<open>Re-arming: the slot's event is modified and the bookkeeping moved with it.\<close>

lemma bp_inv_modify:
  assumes inv: "bp_inv st" and i: "i < 4" "bp_events st ! i \<noteq> 0"
    and st': "calls st' = KModify (bp_events st ! i) a r # calls st" "bp_events st' = bp_events st"
      "breakpoints st' = breakpoints st" "bp_tasks st' = bp_tasks st" "bp_hw_slot st' = bp_hw_slot st"
      "g_unregister_wide st' = g_unregister_wide st"
      "length (bp_at_next_instruction st') = 4" "length (bp_original_addr st') = 4" "length (bp_next_addr st') = 4"
      "\<And>j. j < 4 \<Longrightarrow> j \<noteq> i \<Longrightarrow> armed_addr st' j = armed_addr st j"
      "armed_addr st' i = (if r = 0 then attr_bp_addr a else armed_addr st i)"
  shows "bp_inv st'"
proof -
  have "events_armed st'"
    unfolding events_armed_def
  proof (intro allI impI)
    fix j :: nat assume j: "j < 4" "bp_events st' ! j \<noteq> 0"
    then obtain a' where a': "armed (calls st) (bp_events st ! j) = Some a'" "attr_bp_addr a' = armed_addr st j"
      using inv st'(2) by (auto simp: bp_inv_def events_armed_def)
    show "\<exists>a. armed (calls st') (bp_events st' ! j) = Some a \<and> attr_bp_addr a = armed_addr st' j"
    proof (cases "j = i")
      case True
      with st' a' show ?thesis by auto
    next
      case False
      with inv i j st'(2) have "bp_events st ! i \<noteq> bp_events st ! j"
        by (auto simp: bp_inv_def events_distinct_def)
      with st'(1,2,10) a' j False show ?thesis by auto
    qed
  qed
  with assms show ?thesis
    by (simp add: bp_inv_def bp_wf_def slots_agree_def events_distinct_def events_live_def)
qed

section \<open>Every operation keeps the invariant\<close>

lemma find_upt_Some: "find P [0..<n] = Some i \<Longrightarrow> i < n \<and> P i \<and> (\<forall>j<i. \<not> P j)"
  by (auto simp: find_Some_iff)

lemma find_upt_None: "find P [0..<n] = None \<longleftrightarrow> (\<forall>i<n. \<not> P i)"
  by (auto simp: find_None_iff)

lemma find_event_Some:
  "find_event st bp = Some i \<Longrightarrow> i < 4 \<and> bp_events st ! i = bp \<and> enabled (breakpoints st ! i) \<noteq> 0"
  unfolding find_event_def by (drule find_upt_Some) auto

lemma attr_move_attr [simp]:
  "attr_bp_addr (move_attr a) = a" "attr_bp_type (move_attr a) = HW_BREAKPOINT_X"
  "attr_bp_len (move_attr a) = 4"
  by (simp_all add: move_attr_def)

lemma first_hit_inv [inv_intros]:
  assumes inv: "bp_inv st" and i: "i < 4" "bp_events st ! i \<noteq> 0" "bp_at_next_instruction st ! i = 0"
  shows "bp_inv (first_hit k i pc st)"
proof -
  define st1 where "st1 = upd_bp i (\<lambda>b. b\<lparr>hit_count := hit_count b + 1\<rparr>) st"
  define e where "e = bp_events st1 ! i"
  define st2 where "st2 = st1\<lparr>bp_next_addr := (bp_next_addr st1)[i := pc + 4]\<rparr>"
  define attr where "attr = move_attr (bp_next_addr st2 ! i)"
  define r where "r = k_modify k (calls st2) e attr"
  define st3 where "st3 = st2\<lparr>calls := KModify e attr r # calls st2\<rparr>"
  have inv1: "bp_inv st1" unfolding st1_def by (intro bp_inv_count_bp[OF inv]) auto
  have i1: "bp_events st1 ! i \<noteq> 0" "bp_at_next_instruction st1 ! i = 0" "g_unregister_wide st1 \<noteq> 0"
    using i inv1 by (simp_all add: st1_def bp_inv_def)
  note wf = inv1[unfolded bp_inv_def bp_wf_def]
  show ?thesis
  proof (cases "g_modify st1 \<noteq> 0")
    case False
    with i1 i inv1 show ?thesis
      by (simp add: first_hit_def Let_def flip: st1_def e_def) (auto simp: e_def intro: inv_intros)
  next
    case True
    show ?thesis
    proof (cases "r = 0")
      case True
      have "bp_inv (st3\<lparr>bp_at_next_instruction := (bp_at_next_instruction st3)[i := 1]\<rparr>)"
        by (rule bp_inv_modify[OF inv1 i(1) i1(1), where a = attr and r = r])
           (use wf i i1 True in \<open>auto simp: st3_def st2_def attr_def e_def armed_addr_def\<close>)
      with \<open>g_modify st1 \<noteq> 0\<close> True i1 show ?thesis
        by (simp add: first_hit_def Let_def e_def r_def attr_def st2_def st3_def flip: st1_def)
    next
      case False
      have "bp_inv st3"
        by (rule bp_inv_modify[OF inv1 i(1) i1(1), where a = attr and r = r])
           (use wf i i1 False in \<open>auto simp: st3_def st2_def attr_def e_def armed_addr_def\<close>)
      then have "bp_inv (disarm_slot i st3)"
        by (rule disarm_slot_inv) (use i i1 in \<open>auto simp: st3_def st2_def\<close>)
      with \<open>g_modify st1 \<noteq> 0\<close> False i1 show ?thesis
        by (simp add: first_hit_def Let_def e_def r_def attr_def st2_def st3_def flip: st1_def)
    qed
  qed
qed

lemma second_hit_inv [inv_intros]:
  assumes inv: "bp_inv st" and i: "i < 4" "bp_events st ! i \<noteq> 0" "bp_at_next_instruction st ! i \<noteq> 0"
  shows "bp_inv (second_hit k i st)"
proof -
  define attr where "attr = move_attr (bp_original_addr st ! i)"
  define r where "r = k_modify k (calls st) (bp_events st ! i) attr"
  define st1 where "st1 = st\<lparr>calls := KModify (bp_events st ! i) attr r # calls st\<rparr>"
  note wf = inv[unfolded bp_inv_def bp_wf_def]
  have "bp_inv (if r = 0 then st1\<lparr>bp_at_next_instruction := (bp_at_next_instruction st1)[i := 0]\<rparr> else st1)"
    by (rule bp_inv_modify[OF inv i(1,2), where a = attr and r = r])
       (use wf i in \<open>auto simp: st1_def attr_def armed_addr_def\<close>)
  then show ?thesis
    using inv i by (auto simp: second_hit_def Let_def attr_def r_def st1_def)
qed

lemma hw_bp_handler_inv [inv_intros]:
  assumes "bp_inv st"
  shows "bp_inv (hw_bp_handler k bp pc st)"
proof (cases "find_event st bp")
  case None
  with assms show ?thesis by (simp add: hw_bp_handler_def)
next
  case (Some i)
  then have i: "i < 4" "bp_events st ! i \<noteq> 0"
    using assms by (auto dest!: find_event_Some simp: bp_inv_def slots_agree_def)
  with Some assms show ?thesis by (auto simp: hw_bp_handler_def intro: inv_intros)
qed

lemma clear_inv:
  assumes inv: "bp_inv st" and i: "i < 4" "enabled (breakpoints st ! i) \<noteq> 0"
  shows "bp_inv (upd_bp i (\<lambda>b. b\<lparr>enabled := 0, bp_addr := 0, hit_count := 0\<rparr>) (clear_event i st))"
proof -
  have e: "bp_events st ! i \<noteq> 0" using inv i by (auto simp: bp_inv_def slots_agree_def)
  note wf = inv[unfolded bp_inv_def bp_wf_def]
  show ?thesis
    by (rule bp_inv_drop[OF inv i(1) e, where b = "(breakpoints st ! i)\<lparr>enabled := 0, bp_addr := 0, hit_count := 0\<rparr>"])
       (use wf e i in \<open>auto simp: clear_event_def Let_def\<close>)
qed

lemma index_in_range:
  assumes "\<not> (index :: s32) <s 0" and "\<not> 4 \<le>s index"
  shows "unat index < 4"
proof -
  from assms have s: "0 \<le> sint index" "sint index < 4"
    by (auto simp: word_sless_alt word_sle_eq)
  then have "uint index = sint index" by (simp add: uint_eq_sint)
  with s show ?thesis by (simp flip: nat_uint_eq)
qed

lemma hw_breakpoint_clear_inv [inv_intros]:
  assumes "bp_inv st"
  shows "bp_inv (snd (hw_breakpoint_clear index st))"
  using assms by (auto simp: hw_breakpoint_clear_def Let_def intro!: clear_inv index_in_range)

lemma clear_if_enabled_inv [inv_intros]: "bp_inv st \<Longrightarrow> bp_inv (clear_if_enabled i st)"
  by (simp add: clear_if_enabled_def inv_intros)

lemma hw_breakpoint_clear_all_inv [inv_intros]: "bp_inv st \<Longrightarrow> bp_inv (hw_breakpoint_clear_all st)"
  by (simp add: hw_breakpoint_clear_all_def upt_rec inv_intros)

lemma set_verbose_inv [inv_intros]: "bp_inv st \<Longrightarrow> bp_inv (hw_breakpoint_set_verbose v st)"
  by (simp add: hw_breakpoint_set_verbose_def bp_inv_defs)

lemma find_free_Some: "find_free st = Some i \<Longrightarrow> i < 4 \<and> enabled (breakpoints st ! i) = 0"
  unfolding find_free_def by (drule find_upt_Some) auto

lemma length_store_desc [simp]: "length buf = 128 \<Longrightarrow> length (store_desc d buf) = 128"
  by (simp add: store_desc_def split: option.splits)

text \<open>A failed registration changes nothing but the history.\<close>

lemma bp_inv_calls:
  assumes "bp_inv st" "live cs = live (calls st)" "armed cs = armed (calls st)"
  shows "bp_inv (st\<lparr>calls := cs\<rparr>)"
  using assms by (simp add: bp_inv_defs)

lemma register_bp_cases:
  assumes "register_bp k st a t = (bp, cs)"
  obtains "cs = KRegisterWide a bp # calls st" "bp = k_register_wide k (calls st) a"
  | "cs = KRegisterUser a t bp # calls st" "bp = k_register_user k (calls st) a t"
proof (cases "t = 0")
  case True
  with assms show ?thesis by (intro that(1)) (auto simp: register_bp_def Let_def)
next
  case False
  with assms show ?thesis by (intro that(2)) (auto simp: register_bp_def Let_def)
qed

lemma register_bp_ok:
  assumes "register_bp k st a t = (bp, cs)" "good_kernel k" "\<not> IS_ERR bp"
  shows "live cs = bp # live (calls st)" "bp \<notin> set (live (calls st))" "bp \<noteq> 0"
    "armed cs = (\<lambda>e. if e = bp then Some a else armed (calls st) e)"
proof -
  have "live cs = bp # live (calls st) \<and> bp \<notin> set (live (calls st)) \<and> bp \<noteq> 0 \<and>
    armed cs = (\<lambda>e. if e = bp then Some a else armed (calls st) e)"
    using assms(1)
  proof (cases rule: register_bp_cases)
    case 1
    with assms(2,3) show ?thesis
      unfolding good_kernel_def registers_nonnull_def by (auto simp: fun_eq_iff; metis)
  next
    case 2
    with assms(2,3) show ?thesis
      unfolding good_kernel_def registers_nonnull_def by (auto simp: fun_eq_iff; metis)
  qed
  then show "live cs = bp # live (calls st)" "bp \<notin> set (live (calls st))" "bp \<noteq> 0"
    "armed cs = (\<lambda>e. if e = bp then Some a else armed (calls st) e)" by blast+
qed

lemma store_bp_inv:
  assumes inv: "bp_inv st" and i: "i < 4" "enabled (breakpoints st ! i) = 0"
    and cs: "live cs = bp # live (calls st)"
      "\<And>e. armed cs e = (if e = bp then Some a else armed (calls st) e)"
    and bp: "bp \<noteq> 0" "bp \<notin> set (live (calls st))" and a: "attr_bp_addr a = addr"
  shows "bp_inv (store_bp i addr type sz bp task desc (st\<lparr>calls := cs\<rparr>))"
proof -
  let ?st = "store_bp i addr type sz bp task desc (st\<lparr>calls := cs\<rparr>)"
  note wf = inv[unfolded bp_inv_def bp_wf_def]
  have e0: "bp_events st ! i = 0" using inv i by (auto simp: bp_inv_def slots_agree_def)
  have fresh: "bp_events st ! j \<noteq> bp" if "j < 4" for j
    using set_live[of st] inv bp that by (auto simp: bp_inv_def bp_wf_def)
  have "bp_wf ?st" using wf i by (simp add: bp_wf_def store_bp_def nth_list_update)
  moreover have "slots_agree ?st"
    using wf i bp by (simp add: slots_agree_def store_bp_def nth_list_update)
  moreover have "events_distinct ?st"
    using wf i bp fresh by (auto simp: events_distinct_def store_bp_def nth_list_update)
  moreover have "events_live ?st"
    using wf i bp e0 cs(1) by (simp add: events_live_def store_bp_def filter_mset_update)
  moreover have "events_armed ?st"
    using wf i bp fresh cs(2) a
    by (auto simp: events_armed_def store_bp_def armed_addr_def nth_list_update)
  ultimately show ?thesis using wf by (simp add: bp_inv_def store_bp_def)
qed

lemma hw_breakpoint_set_inv [inv_intros]:
  assumes inv: "bp_inv st" and k: "good_kernel k"
  shows "bp_inv (snd (hw_breakpoint_set_for_pid k addr type sz pid desc st))"
proof (cases "set_validate st addr type sz")
  case (Some err)
  with inv show ?thesis by (simp add: hw_breakpoint_set_for_pid_def)
next
  case None
  show ?thesis
  proof (cases "set_target k st pid")
    case (Inl err)
    with None inv show ?thesis by (simp add: hw_breakpoint_set_for_pid_def)
  next
    case (Inr task)
    show ?thesis
    proof (cases "find_free st = None \<or> convert_type type = None \<or> convert_size sz = None")
      case True
      with None Inr inv show ?thesis
        by (auto simp: hw_breakpoint_set_for_pid_def split: option.splits)
    next
      case False
      then obtain i ty len where f: "find_free st = Some i" "convert_type type = Some ty"
        "convert_size sz = Some len" by auto
      obtain bp cs where r: "register_bp k st (set_attr addr ty len) task = (bp, cs)" by fastforce
      show ?thesis
      proof (cases "IS_ERR bp")
        case True
        then have "live cs = live (calls st)" "armed cs = armed (calls st)"
          using r by (auto elim!: register_bp_cases simp: fun_eq_iff)
        with True None Inr f r inv show ?thesis
          by (simp add: hw_breakpoint_set_for_pid_def bp_inv_calls)
      next
        case False
        note cs = register_bp_ok[OF r k False]
        have "bp_inv (store_bp i addr type sz bp task desc (st\<lparr>calls := cs\<rparr>))"
          by (rule store_bp_inv[OF inv, where a = "set_attr addr ty len"])
             (use cs find_free_Some[OF f(1)] in \<open>auto simp: set_attr_def\<close>)
        with False None Inr f r show ?thesis
          by (simp add: hw_breakpoint_set_for_pid_def)
      qed
    qed
  qed
qed

lemma length4_all: "length xs = 4 \<Longrightarrow> (\<forall>i<4. P (xs ! i)) \<longleftrightarrow> list_all P xs"
  by (simp add: list_all_length)

lemma hw_breakpoint_init_inv:
  assumes "hw_breakpoint_init k hwbp_static = (0, st)"
  shows "bp_inv st"
  using assms
  by (auto simp: hw_breakpoint_init_def hwbp_static_def bp_zero_def init_bp_def bp_inv_defs Let_def
      split: if_splits)

section \<open>Reachable states\<close>

text \<open>
  The operations in any order, interrupted by overflow events, each with a kernel that keeps
  its promises (which may answer differently from one step to the next).
\<close>

inductive bp_step :: "hwbp_state \<Rightarrow> hwbp_state \<Rightarrow> bool" where
  set: "good_kernel k \<Longrightarrow> bp_step st (snd (hw_breakpoint_set_for_pid k addr type sz pid desc st))"
| clear: "bp_step st (snd (hw_breakpoint_clear index st))"
| clear_all: "bp_step st (hw_breakpoint_clear_all st)"
| overflow: "bp_step st (hw_bp_handler k bp pc st)"
| verbose: "bp_step st (hw_breakpoint_set_verbose v st)"

inductive bp_reachable :: "hwbp_state \<Rightarrow> bool" where
  init: "hw_breakpoint_init k hwbp_static = (0, st) \<Longrightarrow> bp_reachable st"
| step: "bp_reachable st \<Longrightarrow> bp_step st st' \<Longrightarrow> bp_reachable st'"

lemma bp_step_inv: "bp_step st st' \<Longrightarrow> bp_inv st \<Longrightarrow> bp_inv st'"
  by (induction rule: bp_step.induct) (auto intro: inv_intros)

lemma bp_reachable_inv: "bp_reachable st \<Longrightarrow> bp_inv st"
  by (induction rule: bp_reachable.induct) (auto intro: hw_breakpoint_init_inv bp_step_inv)

section \<open>A concrete kernel for the witnesses\<close>

definition demo_kernel :: kernel_api where
  "demo_kernel = \<lparr>kallsyms_lookup_name = (\<lambda>_. 1),
     k_register_wide = (\<lambda>cs a. if 4096 \<in> set (live cs) then - 28 else 4096),
     k_register_user = (\<lambda>cs a t. if 8192 \<in> set (live cs) then - 28 else 8192),
     k_modify = (\<lambda>cs e a. 0), k_find_vpid = (\<lambda>_. 16), k_pid_task = (\<lambda>_ _. 32)\<rparr>"

definition demo_init :: hwbp_state where
  "demo_init = snd (hw_breakpoint_init demo_kernel hwbp_static)"

definition demo_state :: hwbp_state where
  "demo_state = snd (hw_breakpoint_set_for_pid demo_kernel 0x1000 HW_BP_TYPE_WRITE HW_BP_SIZE_8 0 None demo_init)"

lemma good_demo_kernel: "good_kernel demo_kernel"
  by (auto simp: good_kernel_def registers_nonnull_def demo_kernel_def IS_ERR_def)

lemma demo_init_ok: "hw_breakpoint_init demo_kernel hwbp_static = (0, demo_init)"
  by (simp add: hw_breakpoint_init_def demo_init_def demo_kernel_def Let_def)

lemma demo_state_reachable: "bp_reachable demo_state"
  unfolding demo_state_def
  by (rule bp_reachable.step[OF bp_reachable.init[OF demo_init_ok] bp_step.set[OF good_demo_kernel]])

lemma demo_state_slot:
  "breakpoints demo_state ! 0 = \<lparr>bp_addr = 0x1000, bp_type = 1, bp_size = 3,
     enabled = 1, hit_count = 0, description = replicate 128 NUL\<rparr>"
  "calls demo_state = [KRegisterWide (set_attr 0x1000 HW_BREAKPOINT_W 8) 4096]"
  "bp_events demo_state = [4096, 0, 0, 0]"
  by code_simp+

section \<open>Counting\<close>

lemma length4_nths:
  assumes "length xs = 4" shows "xs = [xs ! 0, xs ! 1, xs ! 2, xs ! 3]"
  using assms by (auto simp: list_eq_iff_nth_eq less_Suc_eq numeral_eq_Suc)

lemma upt4: "[0..<4] = [0, 1, 2, 3 :: nat]"
  by (simp add: upt_rec)

lemma less_4: "(i :: nat) < 4 \<longleftrightarrow> i = 0 \<or> i = 1 \<or> i = 2 \<or> i = 3"
  by auto

lemma all_less_4: "(\<forall>i<4. P i) \<longleftrightarrow> P 0 \<and> P 1 \<and> P 2 \<and> P (3 :: nat)"
  by (auto simp: less_Suc_eq numeral_eq_Suc)

lemma live_count:
  assumes "bp_inv st"
  shows "of_nat (length (live (calls st))) = hw_breakpoint_get_count st" "length (live (calls st)) \<le> 4"
proof -
  have l: "length (live (calls st)) = length (filter (\<lambda>e. e \<noteq> 0) (bp_events st))"
    using assms by (metis bp_inv_def events_live_def size_mset)
  have e: "bp_events st = [bp_events st ! 0, bp_events st ! 1, bp_events st ! 2, bp_events st ! 3]"
    using assms by (intro length4_nths) (simp add: bp_inv_def bp_wf_def)
  have a: "\<forall>i<4. enabled (breakpoints st ! i) \<noteq> 0 \<longleftrightarrow> bp_events st ! i \<noteq> 0"
    using assms by (simp add: bp_inv_def slots_agree_def)
  show "of_nat (length (live (calls st))) = hw_breakpoint_get_count st"
    unfolding l using a
    by (subst e) (simp add: all_less_4 hw_breakpoint_get_count_def upt4)
  show "length (live (calls st)) \<le> 4"
    unfolding l using assms length_filter_le[of "\<lambda>e. e \<noteq> 0" "bp_events st"]
    by (simp add: bp_inv_def bp_wf_def)
qed

lemma clear_disables:
  assumes "bp_wf st" "i < 4"
  shows "enabled (breakpoints (clear_if_enabled i st) ! i) = 0"
    "j \<noteq> i \<Longrightarrow> breakpoints (clear_if_enabled i st) ! j = breakpoints st ! j"
proof -
  have "unat (of_nat i :: s32) = i" using assms(2) by (auto simp: less_4)
  then have "\<not> (of_nat i :: s32) <s 0" "\<not> 4 \<le>s (of_nat i :: s32)"
    using assms(2) by (auto simp: less_4 word_sless_alt word_sle_eq)
  with assms \<open>unat (of_nat i :: s32) = i\<close>
  show "enabled (breakpoints (clear_if_enabled i st) ! i) = 0"
    "j \<noteq> i \<Longrightarrow> breakpoints (clear_if_enabled i st) ! j = breakpoints st ! j"
    by (auto simp: clear_if_enabled_def hw_breakpoint_clear_def clear_event_def Let_def bp_wf_def)
qed

lemma clear_all_disables:
  assumes "bp_inv st" "i < 4"
  shows "enabled (breakpoints (hw_breakpoint_clear_all st) ! i) = 0"
proof -
  let ?c = clear_if_enabled
  have w: "bp_wf s" if "bp_inv s" for s using that by (simp add: bp_inv_def)
  have i1: "bp_inv (?c 0 st)" "bp_inv (?c 1 (?c 0 st))" "bp_inv (?c 2 (?c 1 (?c 0 st)))"
    using assms(1) by (simp_all add: inv_intros)
  note f = clear_disables[OF w[OF assms(1)]] clear_disables[OF w[OF i1(1)]]
    clear_disables[OF w[OF i1(2)]] clear_disables[OF w[OF i1(3)]]
  have "hw_breakpoint_clear_all st = ?c 3 (?c 2 (?c 1 (?c 0 st)))"
    by (simp add: hw_breakpoint_clear_all_def upt4)
  moreover have "\<forall>i<4. enabled (breakpoints (?c 3 (?c 2 (?c 1 (?c 0 st)))) ! i) = 0"
    unfolding all_less_4 using f by simp
  ultimately show ?thesis using assms(2) by simp
qed

section \<open>One move-to-next-instruction cycle\<close>

lemma find_event_self:
  assumes "bp_inv st" "i < 4" "enabled (breakpoints st ! i) \<noteq> 0"
  shows "find_event st (bp_events st ! i) = Some i"
proof -
  have "bp_events st ! i \<noteq> 0" using assms by (auto simp: bp_inv_def slots_agree_def)
  moreover have D: "\<forall>i<4. \<forall>j<4. i \<noteq> j \<longrightarrow> bp_events st ! i \<noteq> 0 \<longrightarrow> bp_events st ! i \<noteq> bp_events st ! j"
    using assms(1) by (simp add: bp_inv_def events_distinct_def)
  ultimately have "bp_events st ! i \<noteq> bp_events st ! j" if "j < i" for j
    using D[rule_format, of i j] assms(2) that by simp
  then have "\<forall>j<i. bp_events st ! j \<noteq> bp_events st ! i" by (metis)
  with assms(2,3) show ?thesis unfolding find_event_def find_Some_iff by (auto intro!: exI[of _ i])
qed

text \<open>The state after the first overflow when the kernel accepts the modification.\<close>

definition moved :: "nat \<Rightarrow> u64 \<Rightarrow> hwbp_state \<Rightarrow> hwbp_state" where
  "moved i pc st = (upd_bp i (\<lambda>b. b\<lparr>hit_count := hit_count b + 1\<rparr>) st)
     \<lparr>bp_next_addr := (bp_next_addr st)[i := pc + 4],
      bp_at_next_instruction := (bp_at_next_instruction st)[i := 1],
      calls := KModify (bp_events st ! i) (move_attr (pc + 4)) 0 # calls st\<rparr>"

lemma first_overflow:
  assumes "bp_inv st" "i < 4" "enabled (breakpoints st ! i) \<noteq> 0" "bp_at_next_instruction st ! i = 0"
    and "g_modify st \<noteq> 0" "\<And>cs e a. k_modify k cs e a = 0"
  shows "hw_bp_handler k (bp_events st ! i) pc st = moved i pc st"
proof -
  have "bp_events st ! i \<noteq> 0" using assms by (auto simp: bp_inv_def slots_agree_def)
  with assms show ?thesis
    by (simp add: hw_bp_handler_def find_event_self first_hit_def moved_def Let_def bp_inv_def bp_wf_def
        flip: upd_bp_def)
qed

lemma second_overflow:
  assumes "bp_inv st" "i < 4" "enabled (breakpoints st ! i) \<noteq> 0" "bp_at_next_instruction st ! i \<noteq> 0"
    and "g_modify st \<noteq> 0" "\<And>cs e a. k_modify k cs e a = 0"
  shows "hw_bp_handler k (bp_events st ! i) pc st =
    st\<lparr>bp_at_next_instruction := (bp_at_next_instruction st)[i := 0],
       calls := KModify (bp_events st ! i) (move_attr (bp_original_addr st ! i)) 0 # calls st\<rparr>"
proof -
  have "bp_events st ! i \<noteq> 0" using assms by (auto simp: bp_inv_def slots_agree_def)
  with assms show ?thesis by (simp add: hw_bp_handler_def find_event_self second_hit_def Let_def)
qed

lemma full_cycle:
  assumes "bp_inv st" "i < 4" "enabled (breakpoints st ! i) \<noteq> 0" "bp_at_next_instruction st ! i = 0"
    and "g_modify st \<noteq> 0" "\<And>cs e a. k_modify k cs e a = 0"
  shows "hw_bp_handler k (bp_events st ! i) pc2 (moved i pc1 st) =
    (moved i pc1 st)\<lparr>bp_at_next_instruction := (bp_at_next_instruction st)[i := 0],
       calls := KModify (bp_events st ! i) (move_attr (bp_original_addr st ! i)) 0 # calls (moved i pc1 st)\<rparr>"
proof -
  have inv: "bp_inv (moved i pc1 st)"
    using hw_bp_handler_inv[OF assms(1), of k "bp_events st ! i" pc1]
    unfolding first_overflow[OF assms] .
  have l: "length (bp_at_next_instruction st) = 4" "length (breakpoints st) = 4"
    using assms(1) by (simp_all add: bp_inv_def bp_wf_def)
  note second_overflow[OF inv assms(2), where k = k and pc = pc2]
  then show ?thesis
    using assms l by (simp add: moved_def)
qed

section \<open>What a successful set stores\<close>

lemma set_ok_cases:
  assumes "hw_breakpoint_set_for_pid k addr type sz pid desc st = (r, st')"
  obtains (rejected) "st' = st" "r \<in> {- ENOSYS, - EINVAL, - ESRCH, - ENOMEM}"
  | (failed) bp where "IS_ERR bp" "r = ucast bp" "live (calls st') = live (calls st)" "armed (calls st') = armed (calls st)"
      "st' = st\<lparr>calls := calls st'\<rparr>"
  | (ok) i ty len bp cs task where "\<not> IS_ERR bp" "r = of_nat i" "find_free st = Some i"
      "set_validate st addr type sz = None" "set_target k st pid = Inr task"
      "convert_type type = Some ty" "convert_size sz = Some len"
      "register_bp k st (set_attr addr ty len) task = (bp, cs)"
      "st' = store_bp i addr type sz bp task desc (st\<lparr>calls := cs\<rparr>)"
proof -
  have v: "e \<in> {- ENOSYS, - EINVAL}" if "set_validate st addr type sz = Some e" for e
    using that by (auto simp: set_validate_def split: if_splits)
  have t: "e \<in> {- ENOSYS, - ESRCH}" if "set_target k st pid = Inl e" for e
    using that by (auto simp: set_target_def Let_def split: if_splits)
  show ?thesis
  proof (cases "set_validate st addr type sz")
    case (Some e)
    with assms v[OF Some] show ?thesis by (intro rejected) (auto simp: hw_breakpoint_set_for_pid_def)
  next
    case None
    note None1 = None
    show ?thesis
    proof (cases "set_target k st pid")
      case (Inl e)
      with assms None t[OF Inl] show ?thesis by (intro rejected) (auto simp: hw_breakpoint_set_for_pid_def)
    next
      case (Inr task)
      show ?thesis
      proof (cases "find_free st = None \<or> convert_type type = None \<or> convert_size sz = None")
        case True
        with assms None Inr show ?thesis
          by (intro rejected) (auto simp: hw_breakpoint_set_for_pid_def split: option.splits)
      next
        case False
        then obtain i ty len where f: "find_free st = Some i" "convert_type type = Some ty"
          "convert_size sz = Some len" by auto
        obtain bp cs where r: "register_bp k st (set_attr addr ty len) task = (bp, cs)" by fastforce
        show ?thesis
        proof (cases "IS_ERR bp")
          case True
          then have "live cs = live (calls st)" "armed cs = armed (calls st)" using r by (auto elim!: register_bp_cases)
          with assms None Inr f r True show ?thesis
            by (intro failed[of bp]) (auto simp: hw_breakpoint_set_for_pid_def)
        next
          case False
          with assms None Inr f r show ?thesis
            by (intro ok[of bp i task ty len cs]) (auto simp: hw_breakpoint_set_for_pid_def)
        qed
      qed
    qed
  qed
qed

text \<open>An error pointer truncated to \<open>int\<close> is negative.\<close>

lemma IS_ERR_neg: "IS_ERR p \<Longrightarrow> (ucast p :: s32) <s 0"
proof -
  assume "IS_ERR p"
  then have "2 ^ 64 - 4095 \<le> uint p" by (simp add: IS_ERR_def word_le_def)
  moreover have "uint p < 2 ^ 64" using uint_lt2p[of p] by simp
  ultimately obtain d where d: "1 \<le> d" "d \<le> 4095" "uint p = - d + 2 ^ 32 * 2 ^ 32"
    by (intro that[of "2 ^ 64 - uint p"]) simp_all
  have "(ucast p :: s32) = word_of_int (- d + 2 ^ 32 * 2 ^ 32)" by (simp only: ucast_eq d(3))
  also have "\<dots> = word_of_int (- d)"
    using mod_mult_self2[of "- d" "2 ^ 32" "2 ^ 32"] by (simp add: word_of_int_eq_iff take_bit_eq_mod)
  finally have "sint (ucast p :: s32) = signed_take_bit 31 (- d)"
    by (simp only: sint_sbintrunc') simp
  also have "\<dots> = - d" using d(1,2) by (intro signed_take_bit_int_eq_self) simp_all
  finally show ?thesis using d(1) by (simp add: word_sless_alt)
qed

lemma clear_all_live:
  assumes inv: "bp_inv st"
  shows "live (calls (hw_breakpoint_clear_all st)) = [] \<and>
    hw_breakpoint_get_count (hw_breakpoint_clear_all st) = 0"
proof -
  let ?st = "hw_breakpoint_clear_all st"
  have inv': "bp_inv ?st" using inv by (rule hw_breakpoint_clear_all_inv)
  have z: "\<forall>i<4. enabled (breakpoints ?st ! i) = 0" using clear_all_disables[OF inv] by blast
  then have c: "hw_breakpoint_get_count ?st = 0"
    by (simp add: hw_breakpoint_get_count_def upt4 all_less_4)
  have "\<forall>i<4. bp_events ?st ! i = 0" using inv' z by (simp add: bp_inv_def slots_agree_def)
  then have "\<forall>e \<in> set (bp_events ?st). e = 0"
    using inv' by (auto simp: bp_inv_def bp_wf_def in_set_conv_nth)
  then have "filter (\<lambda>e. e \<noteq> 0) (bp_events ?st) = []" by (simp add: filter_empty_conv)
  with inv' have "live (calls ?st) = []" by (simp add: bp_inv_def events_live_def)
  with c show ?thesis by simp
qed

section \<open>Properties\<close>

text \<open>C2: in every reachable state the kernel holds exactly one event for each enabled slot, no
  other event of the module (nothing leaks and nothing is released twice), at most four in all,
  and \<open>hw_breakpoint_get_count\<close> returns their number.\<close>

theorem bp_no_leak:
  assumes "bp_reachable st"
  shows "mset (live (calls st)) = mset (filter (\<lambda>e. e \<noteq> 0) (bp_events st)) \<and>
    (\<forall>i<4. enabled (breakpoints st ! i) \<noteq> 0 \<longleftrightarrow> bp_events st ! i \<noteq> 0) \<and>
    hw_breakpoint_get_count st = of_nat (length (live (calls st))) \<and> length (live (calls st)) \<le> 4"
proof -
  have "bp_inv st" by (rule bp_reachable_inv[OF assms])
  with live_count[OF this] show ?thesis by (simp add: bp_inv_def events_live_def slots_agree_def)
qed

theorem bp_no_leak_witness:
  "bp_reachable demo_state \<and> hw_breakpoint_get_count demo_state = 1"
  using bp_no_leak[OF demo_state_reachable] demo_state_reachable by (simp add: demo_state_slot)

text \<open>In every reachable state an enabled slot's event is armed at the address the slot
  records: the breakpoint's own address, or the next instruction between the two overflows of
  the move-to-next-instruction mechanism.\<close>

theorem bp_armed_where_recorded:
  assumes "bp_reachable st" "i < 4" "enabled (breakpoints st ! i) \<noteq> 0"
  shows "\<exists>a. armed (calls st) (bp_events st ! i) = Some a \<and>
    attr_bp_addr a = (if bp_at_next_instruction st ! i = 0
                      then bp_original_addr st ! i else bp_next_addr st ! i)"
  using bp_reachable_inv[OF assms(1)] assms(2,3)
  by (auto simp: bp_inv_def events_armed_def slots_agree_def armed_addr_def)

theorem bp_armed_where_recorded_witness:
  "enabled (breakpoints demo_state ! 0) \<noteq> 0 \<and>
   (\<exists>a. armed (calls demo_state) 4096 = Some a \<and> attr_bp_addr a = 0x1000)"
  using bp_armed_where_recorded[OF demo_state_reachable, of 0]
  by (simp add: demo_state_slot IS_ERR_def set_attr_def)

text \<open>\<open>hw_breakpoint_clear_all\<close>, which the module's exit runs first, leaves the kernel
  without any event of the module and the table without an enabled slot.\<close>

theorem clear_all_releases:
  assumes "bp_reachable st"
  shows "live (calls (hw_breakpoint_clear_all st)) = [] \<and>
    hw_breakpoint_get_count (hw_breakpoint_clear_all st) = 0"
  using clear_all_live [OF bp_reachable_inv [OF assms]] by simp

theorem clear_all_releases_witness:
  "live (calls demo_state) = [4096] \<and> live (calls (hw_breakpoint_clear_all demo_state)) = []"
  using clear_all_releases[OF demo_state_reachable] by (simp add: demo_state_slot IS_ERR_def)

text \<open>Why setting a breakpoint is refused before the kernel is asked.\<close>

definition set_refused :: "kernel_api \<Rightarrow> hwbp_state \<Rightarrow> u64 \<Rightarrow> s32 \<Rightarrow> s32 \<Rightarrow> s32 \<Rightarrow> bool" where
  "set_refused k st addr type sz pid \<longleftrightarrow>
     addr = 0 \<or> type \<notin> {0, 1, 2, 3} \<or> sz \<notin> {0, 1, 2, 3} \<or> (\<forall>i<4. enabled (breakpoints st ! i) \<noteq> 0) \<or>
     g_register_wide st = 0 \<and> g_register_user st = 0 \<or>
     0 <s pid \<and> (g_register_user st = 0 \<or> g_find_vpid st = 0 \<or> g_pid_task st = 0 \<or>
       k_find_vpid k pid = 0 \<or> k_pid_task k (k_find_vpid k pid) 0 = 0)"

lemma s32_small: "x \<notin> {0, 1, 2, 3} \<longleftrightarrow> x <s 0 \<or> 3 <s x" for x :: s32
proof -
  have eqI: "sint x = sint y \<Longrightarrow> x = y" for y :: s32 by (rule signed_word_eqI)
  have vals: "sint (0 :: s32) = 0" "sint (1 :: s32) = 1" "sint (2 :: s32) = 2" "sint (3 :: s32) = 3" by simp_all
  have "x \<in> {0, 1, 2, 3} \<longleftrightarrow> sint x \<in> {0, 1, 2, 3}"
    using eqI [of 0] eqI [of 1] eqI [of 2] eqI [of 3] unfolding vals by auto
  moreover have "sint x \<in> {0, 1, 2, 3} \<longleftrightarrow> 0 \<le> sint x \<and> sint x \<le> 3" by auto
  ultimately show ?thesis by (simp add: word_sless_alt not_le)
qed

lemma set_refused_calls:
  assumes "hw_breakpoint_set_for_pid k addr type sz pid desc st = (r, st')"
  shows "set_refused k st addr type sz pid \<longleftrightarrow> st' = st"
proof -
  have free: "find_free st = None \<longleftrightarrow> (\<forall>i<4. enabled (breakpoints st ! i) \<noteq> 0)"
    by (auto simp: find_free_def find_None_iff)
  have conv: "convert_type type = None \<longleftrightarrow> type \<notin> {0, 1, 2, 3}" "convert_size sz = None \<longleftrightarrow> sz \<notin> {0, 1, 2, 3}"
    by (simp_all add: convert_type_def convert_size_def)
  have targ: "(\<exists>e. set_target k st pid = Inl e) \<longleftrightarrow> 0 <s pid \<and> (g_register_user st = 0 \<or> g_find_vpid st = 0 \<or> g_pid_task st = 0 \<or>
      k_find_vpid k pid = 0 \<or> k_pid_task k (k_find_vpid k pid) 0 = 0)"
    by (simp add: set_target_def Let_def)
  have val: "set_validate st addr type sz \<noteq> None \<longleftrightarrow> addr = 0 \<or> type \<notin> {0, 1, 2, 3} \<or> sz \<notin> {0, 1, 2, 3} \<or>
      g_register_wide st = 0 \<and> g_register_user st = 0"
    unfolding s32_small by (auto simp: set_validate_def)
  have ref: "set_refused k st addr type sz pid \<longleftrightarrow> set_validate st addr type sz \<noteq> None \<or>
      (\<exists>e. set_target k st pid = Inl e) \<or> find_free st = None"
    unfolding val targ free set_refused_def by blast
  have longer: "calls st' \<noteq> calls st" if "register_bp k st a task = (bp, cs)" "calls st' = cs" for a task bp cs
    using that by (auto elim!: register_bp_cases)
  show ?thesis
  proof (cases "set_refused k st addr type sz pid")
    case True
    then consider e where "set_validate st addr type sz = Some e"
      | e where "set_validate st addr type sz = None" "set_target k st pid = Inl e"
      | task where "set_validate st addr type sz = None" "set_target k st pid = Inr task" "find_free st = None"
      unfolding ref by (cases "set_validate st addr type sz"; cases "set_target k st pid") auto
    then have "st' = st" using assms by cases (simp_all add: hw_breakpoint_set_for_pid_def)
    then show ?thesis using True by simp
  next
    case False
    then have "convert_type type \<noteq> None" "convert_size sz \<noteq> None" unfolding conv set_refused_def by blast+
    then obtain task i ty len where f: "set_validate st addr type sz = None" "set_target k st pid = Inr task"
        "find_free st = Some i" "convert_type type = Some ty" "convert_size sz = Some len"
      using False unfolding ref by (cases "set_target k st pid") auto
    obtain bp cs where r: "register_bp k st (set_attr addr ty len) task = (bp, cs)" by fastforce
    then have "calls st' = cs"
      using assms by (cases "IS_ERR bp") (auto simp: hw_breakpoint_set_for_pid_def f store_bp_def upd_bp_def Let_def)
    then show ?thesis using False longer [OF r] by auto
  qed
qed

text \<open>An event that is enabled, fires at every access and watches \<open>2 ^ sz\<close> bytes at the address; in the type,
  bit 0 stands for reading, bit 1 for writing and bit 2 for execution.\<close>

definition watches :: "perf_attr \<Rightarrow> u64 \<Rightarrow> s32 \<Rightarrow> s32 \<Rightarrow> bool" where
  "watches a addr type sz \<longleftrightarrow>
     attr_type a = PERF_TYPE_BREAKPOINT \<and> attr_bp_addr a = addr \<and> attr_bp_len a = 2 ^ unat sz \<and>
     sample_period a = 1 \<and> \<not> disabled a \<and> \<not> exclude_user a \<and> \<not> exclude_kernel a \<and> attr_bp_type a < 8 \<and>
     (bit (attr_bp_type a) 0 \<longleftrightarrow> type = HW_BP_TYPE_READ \<or> type = HW_BP_TYPE_RW) \<and>
     (bit (attr_bp_type a) 1 \<longleftrightarrow> type = HW_BP_TYPE_WRITE \<or> type = HW_BP_TYPE_RW) \<and>
     (bit (attr_bp_type a) 2 \<longleftrightarrow> type = HW_BP_TYPE_EXEC)"

lemma set_attr_watches:
  "convert_type type = Some ty \<Longrightarrow> convert_size sz = Some len \<Longrightarrow> watches (set_attr addr ty len) addr type sz"
  by (auto simp: watches_def set_attr_def attr_zero_def convert_type_def convert_size_def bit_numeral_word_iff
      split: if_splits)

text \<open>C3: \<open>hw_breakpoint_set_for_pid\<close> asks the kernel for an event unless an argument is out of range, the
  process is not found or the table is full; when the request is refused or fails, the result is negative
  and the state is as before but for the failed call.  Otherwise it returns the lowest free slot,
  which then holds the requested breakpoint with no hits, its description cut to 127 characters, and no
  other slot has changed; the call made is for the task of the process, or for all processors when
  there is none, and its event watches the address for reading, writing or execution as asked, over
  one, two, four or eight bytes.\<close>

theorem set_for_pid_outcome:
  assumes "bp_reachable st" "good_kernel k" "no_nul d"
    and "hw_breakpoint_set_for_pid k addr type sz pid (Some d) st = (r, st')"
  shows "(set_refused k st addr type sz pid \<longleftrightarrow> st' = st) \<and>
    (if r <s 0 then \<exists>cs. st' = st\<lparr>calls := cs\<rparr> \<and> live cs = live (calls st) \<and> armed cs = armed (calls st)
     else \<exists>i<4. r = of_nat i \<and> enabled (breakpoints st ! i) = 0 \<and>
      (\<forall>j<i. enabled (breakpoints st ! j) \<noteq> 0) \<and>
      (let b = breakpoints st' ! i in bp_addr b = addr \<and> bp_type b = type \<and> bp_size b = sz \<and>
         enabled b = 1 \<and> hit_count b = 0 \<and> cstr (description b) = take 127 d) \<and>
      (\<forall>j<4. j \<noteq> i \<longrightarrow> breakpoints st' ! j = breakpoints st ! j \<and> bp_events st' ! j = bp_events st ! j) \<and>
      (\<exists>a. watches a addr type sz \<and> armed (calls st') (bp_events st' ! i) = Some a \<and>
         calls st' = (if 0 <s pid then KRegisterUser a (k_pid_task k (k_find_vpid k pid) 0) (bp_events st' ! i)
                      else KRegisterWide a (bp_events st' ! i)) # calls st))"
  (is "?refused \<and> ?outcome")
proof
  show ?refused by (rule set_refused_calls [OF assms(4)])
  from assms(4) show ?outcome
  proof (cases rule: set_ok_cases)
    case rejected
    then have "r <s 0" by (auto simp: word_sless_alt)
    with rejected show ?thesis by (auto intro!: exI [of _ "calls st"])
  next
    case (failed bp)
    moreover have "r <s 0" using failed IS_ERR_neg by simp
    ultimately show ?thesis by auto
  next
    case (ok i ty len bp cs task)
    have inv: "bp_inv st" by (rule bp_reachable_inv[OF assms(1)])
    have i: "i < 4" "enabled (breakpoints st ! i) = 0" using find_free_Some ok(3) by auto
    have low: "\<forall>j<i. enabled (breakpoints st ! j) \<noteq> 0"
      using ok(3) unfolding find_free_def by (auto dest: find_upt_Some)
    have l: "length (breakpoints st) = 4" "length (bp_events st) = 4" "length (description (breakpoints st ! i)) = 128"
      using inv i by (simp_all add: bp_inv_def bp_wf_def)
    let ?buf = "description (breakpoints st ! i)"
    have "cstr (store_desc (Some d) ?buf) = take 127 d"
      using l(3) by (simp add: store_desc_def cstr_strncpy_terminated assms(3))
    then have b: "breakpoints st' ! i = (breakpoints st ! i)\<lparr>bp_addr := addr, bp_type := type,
        bp_size := sz, enabled := 1, hit_count := 0, description := store_desc (Some d) ?buf\<rparr>"
      "cstr (store_desc (Some d) ?buf) = take 127 d"
      "\<forall>j<4. j \<noteq> i \<longrightarrow> breakpoints st' ! j = breakpoints st ! j \<and> bp_events st' ! j = bp_events st ! j"
      "bp_events st' ! i = bp" "calls st' = cs"
      using ok(9) i l by (simp_all add: store_bp_def Let_def)
    have call: "cs = (if 0 <s pid then KRegisterUser (set_attr addr ty len) (k_pid_task k (k_find_vpid k pid) 0) bp
        else KRegisterWide (set_attr addr ty len) bp) # calls st"
      using ok(5,8) by (auto simp: set_target_def register_bp_def Let_def split: if_splits)
    have "armed cs bp = Some (set_attr addr ty len)"
      using register_bp_ok[OF ok(8) assms(2) ok(1)] by simp
    then have a: "\<exists>a. watches a addr type sz \<and> armed (calls st') (bp_events st' ! i) = Some a \<and>
        calls st' = (if 0 <s pid then KRegisterUser a (k_pid_task k (k_find_vpid k pid) 0) (bp_events st' ! i)
                     else KRegisterWide a (bp_events st' ! i)) # calls st"
      using set_attr_watches [OF ok(6,7)] call unfolding b(4,5) by (intro exI [of _ "set_attr addr ty len"]) simp
    have n: "\<not> r <s 0" using i(1) ok(2) by (auto simp: less_4 word_sless_alt)
    show ?thesis
      unfolding Let_def if_not_P [OF n]
      by (intro exI [of _ i] conjI) (rule i ok(2) low b(3) a | simp add: b(1,2))+
  qed
qed

theorem set_for_pid_outcome_witness:
  "\<exists>st'. hw_breakpoint_set_for_pid demo_kernel 0x2000 HW_BP_TYPE_EXEC HW_BP_SIZE_4 77 (Some ''f'') demo_state
     = (1, st') \<and> cstr (description (breakpoints st' ! 1)) = ''f''"
proof -
  define res where "res = hw_breakpoint_set_for_pid demo_kernel 0x2000 HW_BP_TYPE_EXEC HW_BP_SIZE_4 77 (Some ''f'') demo_state"
  have r: "fst res = 1" unfolding res_def by code_simp
  have n: "no_nul ''f''" by simp
  have eq: "hw_breakpoint_set_for_pid demo_kernel 0x2000 HW_BP_TYPE_EXEC HW_BP_SIZE_4 77 (Some ''f'') demo_state
     = (1, snd res)" using r by (metis prod.collapse res_def)
  have "of_nat i = (1 :: s32) \<Longrightarrow> i < 4 \<Longrightarrow> i = 1" for i by (auto simp: less_4)
  with set_for_pid_outcome[OF demo_state_reachable good_demo_kernel n eq] eq show ?thesis
    by (auto simp: word_sless_alt Let_def)
qed

text \<open>C4: the move-to-next-instruction mechanism.  When the kernel accepts modifications, the
  overflow of a breakpoint at its own address counts one hit and re-arms the event four bytes
  after the interrupted instruction; the overflow there re-arms it at the breakpoint's original
  address, counts nothing, and leaves the slot ready for the next hit.\<close>

theorem two_overflows_cycle:
  assumes "bp_reachable st" "i < 4" "enabled (breakpoints st ! i) \<noteq> 0"
    and "bp_at_next_instruction st ! i = 0" "g_modify st \<noteq> 0" "\<And>cs e a. k_modify k cs e a = 0"
  shows "let e = bp_events st ! i; st1 = hw_bp_handler k e pc1 st; st2 = hw_bp_handler k e pc2 st1
    in armed (calls st1) e = Some (move_attr (pc1 + 4)) \<and> bp_at_next_instruction st1 ! i = 1 \<and>
       hit_count (breakpoints st1 ! i) = hit_count (breakpoints st ! i) + 1 \<and>
       armed (calls st2) e = Some (move_attr (bp_original_addr st ! i)) \<and>
       bp_at_next_instruction st2 ! i = 0 \<and> breakpoints st2 = breakpoints st1 \<and>
       bp_events st2 = bp_events st"
proof -
  have inv: "bp_inv st" by (rule bp_reachable_inv[OF assms(1)])
  then have "length (breakpoints st) = 4" "length (bp_at_next_instruction st) = 4"
    by (simp_all add: bp_inv_def bp_wf_def)
  then show ?thesis
    unfolding Let_def first_overflow[OF inv assms(2-6)] full_cycle[OF inv assms(2-6)]
    using assms(2) by (simp add: moved_def)
qed

theorem two_overflows_cycle_witness:
  "armed (calls (hw_bp_handler demo_kernel 4096 8 (hw_bp_handler demo_kernel 4096 0x1000 demo_state))) 4096
     = Some (move_attr 0x1000)"
proof -
  have "g_modify demo_state \<noteq> 0" "bp_at_next_instruction demo_state ! 0 = 0"
    "bp_original_addr demo_state ! 0 = 0x1000" by code_simp+
  with two_overflows_cycle[OF demo_state_reachable, of 0 demo_kernel "0x1000" 8] show ?thesis
    by (simp add: demo_state_slot demo_kernel_def Let_def)
qed

text \<open>C5: after such a cycle a breakpoint that was set to watch data is armed as an execution
  breakpoint of four bytes, while the table still describes it as the watchpoint it was: the
  handler re-arms with a fixed type and length.\<close>

theorem watchpoint_becomes_execution:
  assumes "bp_reachable st" "good_kernel k" "\<And>cs e a. k_modify k cs e a = 0"
    and "type = HW_BP_TYPE_WRITE \<or> type = HW_BP_TYPE_READ \<or> type = HW_BP_TYPE_RW"
    and "hw_breakpoint_set_for_pid k addr type sz pid desc st = (r, st')" "\<not> r <s 0" "g_modify st \<noteq> 0"
  shows "let e = bp_events st' ! unat r; st2 = hw_bp_handler k e pc2 (hw_bp_handler k e pc1 st')
    in bp_type (breakpoints st2 ! unat r) = type \<and>
       (\<exists>a. armed (calls st') e = Some a \<and> attr_bp_type a \<noteq> HW_BREAKPOINT_X) \<and>
       (\<exists>a. armed (calls st2) e = Some a \<and> attr_bp_type a = HW_BREAKPOINT_X \<and>
            attr_bp_len a = 4 \<and> attr_bp_addr a = addr)"
  using assms(5)
proof (cases rule: set_ok_cases)
  case rejected
  then have "r <s 0" by (auto simp: word_sless_alt)
  with assms(6) show ?thesis by simp
next
  case (failed bp)
  with assms(6) IS_ERR_neg show ?thesis by simp
next
  case (ok i ty len bp cs task)
  have inv: "bp_inv st" by (rule bp_reachable_inv[OF assms(1)])
  have inv': "bp_inv st'" using hw_breakpoint_set_inv[OF inv assms(2)] assms(5) by (metis snd_conv)
  have i: "i < 4" "unat r = i" using find_free_Some[OF ok(3)] ok(2) by (auto simp: less_4)
  have l: "length (breakpoints st) = 4" "length (bp_events st) = 4" "length (bp_original_addr st) = 4"
    "length (bp_at_next_instruction st) = 4"
    using inv by (simp_all add: bp_inv_def bp_wf_def)
  have f: "bp_type (breakpoints st' ! i) = type" "enabled (breakpoints st' ! i) \<noteq> 0"
    "bp_at_next_instruction st' ! i = 0" "g_modify st' \<noteq> 0" "bp_original_addr st' ! i = addr"
    "bp_events st' ! i = bp" "calls st' = cs"
    using ok(9) i l assms(7) by (simp_all add: store_bp_def Let_def upd_bp_def)
  have "armed cs bp = Some (set_attr addr ty len)"
    using register_bp_ok[OF ok(8) assms(2) ok(1)] by simp
  moreover have "attr_bp_type (set_attr addr ty len) \<noteq> HW_BREAKPOINT_X"
    using ok(6) assms(4) by (auto simp: set_attr_def convert_type_def split: if_splits)
  moreover have l': "length (breakpoints st') = 4" using inv' by (simp add: bp_inv_def bp_wf_def)
  ultimately show ?thesis
    unfolding Let_def i(2) first_overflow[OF inv' i(1) f(2-4) assms(3)]
      full_cycle[OF inv' i(1) f(2-4) assms(3)] using f i l'
    by (simp add: moved_def)
qed

theorem watchpoint_becomes_execution_witness:
  "let st2 = hw_bp_handler demo_kernel 4096 8 (hw_bp_handler demo_kernel 4096 0x500 demo_state)
   in bp_type (breakpoints st2 ! 0) = HW_BP_TYPE_WRITE \<and>
      (\<exists>a. armed (calls st2) 4096 = Some a \<and> attr_bp_type a = HW_BREAKPOINT_X)"
proof -
  have r: "bp_reachable demo_init" by (rule bp_reachable.init[OF demo_init_ok])
  have "fst (hw_breakpoint_set_for_pid demo_kernel 0x1000 HW_BP_TYPE_WRITE HW_BP_SIZE_8 0 None demo_init) = 0"
    by code_simp
  then have eq: "hw_breakpoint_set_for_pid demo_kernel 0x1000 HW_BP_TYPE_WRITE HW_BP_SIZE_8 0 None demo_init
    = (0, demo_state)" by (metis demo_state_def prod.collapse)
  have "g_modify demo_init \<noteq> 0" by code_simp
  then show ?thesis
    using watchpoint_becomes_execution[OF r good_demo_kernel _ _ eq, where ?pc2.0 = 8 and ?pc1.0 = "0x500"]
    by (auto simp: demo_state_slot demo_kernel_def Let_def)
qed

text \<open>Without \<open>modify_user_hw_breakpoint\<close> a breakpoint is one-shot: its first overflow
  counts the hit, releases the event and disables the slot, and a second overflow of the same
  event finds nothing to do.\<close>

theorem one_shot_without_modify:
  assumes "bp_reachable st" "i < 4" "enabled (breakpoints st ! i) \<noteq> 0"
    and "bp_at_next_instruction st ! i = 0" "g_modify st = 0"
  shows "let e = bp_events st ! i; st1 = hw_bp_handler k e pc1 st
    in enabled (breakpoints st1 ! i) = 0 \<and> e \<notin> set (live (calls st1)) \<and>
       hit_count (breakpoints st1 ! i) = hit_count (breakpoints st ! i) + 1 \<and>
       hw_bp_handler k' e pc2 st1 = st1"
proof -
  have inv: "bp_inv st" by (rule bp_reachable_inv[OF assms(1)])
  let ?e = "bp_events st ! i" let ?st1 = "hw_bp_handler k ?e pc1 st"
  have e: "?e \<noteq> 0" using inv assms(2,3) by (auto simp: bp_inv_def slots_agree_def)
  have inv1: "bp_inv ?st1" by (rule hw_bp_handler_inv[OF inv])
  have l: "length (breakpoints st) = 4" "length (bp_events st) = 4"
    using inv by (simp_all add: bp_inv_def bp_wf_def)
  have st1: "?st1 = disarm_slot i (upd_bp i (\<lambda>b. b\<lparr>hit_count := hit_count b + 1\<rparr>) st)"
    using inv assms e by (simp add: hw_bp_handler_def find_event_self first_hit_def Let_def bp_inv_def)
  have s: "bp_events ?st1 = (bp_events st)[i := 0]" "enabled (breakpoints ?st1 ! i) = 0"
    "hit_count (breakpoints ?st1 ! i) = hit_count (breakpoints st ! i) + 1"
    unfolding st1 using l assms(2) by (auto simp: disarm_slot_def unregister_event_def Let_def)
  have ne: "?e \<notin> set (bp_events ?st1)"
  proof
    assume "?e \<in> set (bp_events ?st1)"
    then obtain j where j: "j < 4" "bp_events ?st1 ! j = ?e" using l s(1) by (auto simp: in_set_conv_nth)
    then have "j \<noteq> i" using s(1) l assms(2) e by auto
    moreover from this j have "bp_events st ! j = ?e" using s(1) by simp
    moreover have "events_distinct st" using inv by (simp add: bp_inv_def)
    ultimately show False using e assms(2) j(1) unfolding events_distinct_def by metis
  qed
  have "?e \<notin> set (live (calls ?st1))" using set_live[of ?st1] inv1 ne by (simp add: bp_inv_def)
  moreover have "find_event ?st1 ?e = None"
    unfolding find_event_def find_upt_None using ne l s(1)
    by (metis length_list_update nth_mem)
  ultimately show ?thesis using s by (simp add: Let_def hw_bp_handler_def[of k' ?e])
qed

theorem one_shot_without_modify_witness:
  "\<exists>st k. bp_reachable st \<and> g_modify st = 0 \<and> enabled (breakpoints st ! 0) \<noteq> 0 \<and>
     hw_bp_handler k 4096 8 (hw_bp_handler k 4096 8 st) = hw_bp_handler k 4096 8 st"
proof -
  define k where "k = demo_kernel\<lparr>kallsyms_lookup_name := (\<lambda>s. if s = ''modify_user_hw_breakpoint'' then 0 else 1)\<rparr>"
  define st0 where "st0 = snd (hw_breakpoint_init k hwbp_static)"
  define st where "st = snd (hw_breakpoint_set_for_pid k 0x1000 0 2 0 None st0)"
  have "good_kernel k" by (auto simp: k_def good_kernel_def registers_nonnull_def demo_kernel_def IS_ERR_def)
  moreover have "hw_breakpoint_init k hwbp_static = (0, st0)"
    by (simp add: hw_breakpoint_init_def st0_def k_def Let_def)
  ultimately have r: "bp_reachable st" unfolding st_def by (blast intro: bp_reachable.intros bp_step.set)
  have f: "g_modify st = 0" "enabled (breakpoints st ! 0) = 1" "bp_at_next_instruction st ! 0 = 0"
    "bp_events st ! 0 = 4096"
    unfolding st_def st0_def k_def by code_simp+
  from one_shot_without_modify[OF r, of 0 k 8 k 8] f r show ?thesis by (auto simp: Let_def)
qed

end
