(* ===== verification/C_Format.thy ===== *)
theory C_Format
  imports Prelude
begin

text \<open>
  The conversions of \<open>snprintf\<close> the module uses (\<open>%d\<close>, \<open>%lx\<close>, \<open>%02x\<close>), \<open>snprintf\<close> at an offset
  of a buffer, and the digit-scanning loops of the command parsers.  \<open>snprintf\<close> belongs to the
  C library; the scanning loops are the code's and appear in
  \<^verbatim>\<open>accessOffstinlineHook.c\<close> once per command.
\<close>

section \<open>Printing\<close>

definition digit_char :: "nat \<Rightarrow> char" where
  "digit_char d = (if d < 10 then char_of (48 + d) else char_of (87 + d))"

fun nat_str :: "nat \<Rightarrow> nat \<Rightarrow> string" where
  "nat_str b n = (if b < 2 \<or> n < b then [digit_char n] else nat_str b (n div b) @ [digit_char (n mod b)])"

declare nat_str.simps [simp del]

definition fmt_d :: "s32 \<Rightarrow> string" where
  "fmt_d v = (if sint v < 0 then CHR ''-'' # nat_str 10 (nat (- sint v)) else nat_str 10 (nat (sint v)))"

definition fmt_lx :: "u64 \<Rightarrow> string" where
  "fmt_lx v = nat_str 16 (unat v)"

definition fmt_02x :: "u8 \<Rightarrow> string" where
  "fmt_02x v = [digit_char (unat v div 16), digit_char (unat v mod 16)]"

text \<open>
  \<open>snprintf (buf + pos, n, \<dots>)\<close>: at most \<open>n - 1\<close> characters and a NUL; \<open>None\<close> when they would
  leave the array.
\<close>

definition snprintf_at :: "char list \<Rightarrow> nat \<Rightarrow> nat \<Rightarrow> string \<Rightarrow> char list option" where
  "snprintf_at buf pos n s =
     (if n = 0 then Some buf
      else let t = take (n - 1) s @ [NUL]
           in if pos + length t \<le> length buf
              then Some (take pos buf @ t @ drop (pos + length t) buf) else None)"

lemma length_snprintf_at: "snprintf_at buf pos n s = Some buf' \<Longrightarrow> length buf' = length buf"
  by (auto simp: snprintf_at_def Let_def split: if_splits)

section \<open>Scanning digits\<close>

text \<open>
  \<^verbatim>\<open>while (*p >= '0' && *p <= '9') { v = v * 10 + (*p - '0'); p++; }\<close> on an \<open>int\<close>: the value
  and the rest of the string.
\<close>

fun scan_dec :: "s32 \<Rightarrow> string \<Rightarrow> s32 \<times> string" where
  "scan_dec v [] = (v, [])"
| "scan_dec v (c # cs) =
     (if is_dec c then scan_dec (v * 10 + of_nat (code_of c - 48)) cs else (v, c # cs))"

definition is_hex_lower :: "char \<Rightarrow> bool" where
  "is_hex_lower c \<longleftrightarrow> 97 \<le> code_of c \<and> code_of c \<le> 102"

definition is_hex_upper :: "char \<Rightarrow> bool" where
  "is_hex_upper c \<longleftrightarrow> 65 \<le> code_of c \<and> code_of c \<le> 70"

definition is_hex :: "char \<Rightarrow> bool" where
  "is_hex c \<longleftrightarrow> is_dec c \<or> is_hex_lower c \<or> is_hex_upper c"

definition hex_val :: "char \<Rightarrow> nat" where
  "hex_val c = (if is_dec c then code_of c - 48
     else if is_hex_lower c then code_of c - 97 + 10
     else if is_hex_upper c then code_of c - 65 + 10 else 0)"

fun scan_hex :: "u64 \<Rightarrow> string \<Rightarrow> u64 \<times> string" where
  "scan_hex v [] = (v, [])"
| "scan_hex v (c # cs) =
     (if is_hex c then scan_hex (v * 16 + of_nat (hex_val c)) cs else (v, c # cs))"

definition skip_0x :: "string \<Rightarrow> string" where
  "skip_0x s = (if take 2 s = ''0x'' \<or> take 2 s = ''0X'' then drop 2 s else s)"

section \<open>Digits and their values\<close>

lemma code_digit: "d < 10 \<Longrightarrow> code_of (digit_char d) = 48 + d"
  by (simp add: digit_char_def of_char_of)

lemma code_digit_hex: "10 \<le> d \<Longrightarrow> d < 16 \<Longrightarrow> code_of (digit_char d) = 87 + d"
  by (simp add: digit_char_def of_char_of)

lemma is_dec_digit [simp]: "d < 10 \<Longrightarrow> is_dec (digit_char d)"
  by (simp add: is_dec_def code_digit)

lemma is_hex_digit [simp]: "d < 16 \<Longrightarrow> is_hex (digit_char d)"
  by (cases "d < 10") (simp_all add: is_hex_def is_hex_lower_def code_digit_hex)

lemma hex_val_digit [simp]: "d < 16 \<Longrightarrow> hex_val (digit_char d) = d"
  by (cases "d < 10")
     (auto simp: hex_val_def is_dec_def is_hex_lower_def is_hex_upper_def code_digit code_digit_hex)

definition dec_value :: "string \<Rightarrow> nat" where
  "dec_value = foldl (\<lambda>v c. v * 10 + (code_of c - 48)) 0"

definition hex_value :: "string \<Rightarrow> nat" where
  "hex_value = foldl (\<lambda>v c. v * 16 + hex_val c) 0"

lemma foldl_value_of_nat_dec:
  "of_nat (foldl (\<lambda>v c. v * 10 + (code_of c - 48)) n ds) =
   foldl (\<lambda>v c. v * 10 + of_nat (code_of c - 48)) (of_nat n :: s32) ds"
  by (induction ds arbitrary: n) simp_all

lemma foldl_value_of_nat_hex:
  "of_nat (foldl (\<lambda>v c. v * 16 + hex_val c) n ds) =
   foldl (\<lambda>v c. v * 16 + of_nat (hex_val c)) (of_nat n :: u64) ds"
  by (induction ds arbitrary: n) simp_all

lemma scan_dec_append:
  assumes "list_all is_dec ds" "rest = [] \<or> \<not> is_dec (hd rest)"
  shows "scan_dec v (ds @ rest) = (foldl (\<lambda>v c. v * 10 + of_nat (code_of c - 48)) v ds, rest)"
  using assms by (induction ds arbitrary: v) (cases rest; simp)+

lemma scan_hex_append:
  assumes "list_all is_hex ds" "rest = [] \<or> \<not> is_hex (hd rest)"
  shows "scan_hex v (ds @ rest) = (foldl (\<lambda>v c. v * 16 + of_nat (hex_val c)) v ds, rest)"
  using assms by (induction ds arbitrary: v) (cases rest; simp)+

text \<open>The scanned number is the numeral's value, modulo the width of the variable.\<close>

lemma scan_dec_value:
  assumes "list_all is_dec ds" "rest = [] \<or> \<not> is_dec (hd rest)"
  shows "scan_dec 0 (ds @ rest) = (of_nat (dec_value ds), rest)"
  using scan_dec_append[OF assms, of 0] foldl_value_of_nat_dec[of 0 ds] by (simp add: dec_value_def)

lemma scan_hex_value:
  assumes "list_all is_hex ds" "rest = [] \<or> \<not> is_hex (hd rest)"
  shows "scan_hex 0 (ds @ rest) = (of_nat (hex_value ds), rest)"
  using scan_hex_append[OF assms, of 0] foldl_value_of_nat_hex[of 0 ds] by (simp add: hex_value_def)

lemma scan_dec_not_digit: "s = [] \<or> \<not> is_dec (hd s) \<Longrightarrow> scan_dec v s = (v, s)"
  by (cases s) auto

lemma nat_str_dec: "list_all is_dec (nat_str 10 n)"
  by (induction n rule: less_induct) (subst nat_str.simps, auto)

lemma nat_str_hex: "list_all is_hex (nat_str 16 n)"
  by (induction n rule: less_induct) (subst nat_str.simps, auto)

lemma dec_value_nat_str: "dec_value (nat_str 10 n) = n"
proof (induction n rule: less_induct)
  case (less n)
  show ?case
  proof (cases "n < 10")
    case True
    then show ?thesis by (subst nat_str.simps) (simp add: dec_value_def code_digit)
  next
    case False
    with less[of "n div 10"] show ?thesis
      by (subst nat_str.simps) (simp add: dec_value_def code_digit)
  qed
qed

lemma hex_value_nat_str: "hex_value (nat_str 16 n) = n"
proof (induction n rule: less_induct)
  case (less n)
  show ?case
  proof (cases "n < 16")
    case True
    then show ?thesis by (subst nat_str.simps) (simp add: hex_value_def)
  next
    case False
    with less[of "n div 16"] show ?thesis by (subst nat_str.simps) (simp add: hex_value_def)
  qed
qed

lemma nat_str_ne [simp]: "nat_str b n \<noteq> []"
  by (subst nat_str.simps) simp

lemma length_nat_str: "2 \<le> b \<Longrightarrow> n < b ^ Suc k \<Longrightarrow> length (nat_str b n) \<le> Suc k"
proof (induction k arbitrary: n)
  case 0
  then show ?case by (subst nat_str.simps) simp
next
  case (Suc k)
  have "n div b < b ^ Suc k" using Suc.prems by (simp add: less_mult_imp_div_less mult.commute)
  then show ?case using Suc.IH [of "n div b"] Suc.prems(1) by (subst nat_str.simps) simp
qed

lemma length_fmt_d: "length (fmt_d v) \<le> 11"
proof -
  have "- (2 ^ 31) \<le> sint v" "sint v < 2 ^ 31" using sint_ge [of v] sint_lt [of v] by simp_all
  then have "nat (- sint v) < 10 ^ Suc 9" "nat (sint v) < 10 ^ Suc 9" by simp_all
  then show ?thesis
    using length_nat_str [of 10 "nat (- sint v)" 9] length_nat_str [of 10 "nat (sint v)" 9]
    by (simp add: fmt_d_def)
qed

lemma length_fmt_lx: "length (fmt_lx v) \<le> 16"
  using length_nat_str [of 16 "unat v" 15] unat_bounds(3) [of v] by (simp add: fmt_lx_def)

end
