(* ===== verification/Process_Memory.thy ===== *)
theory Process_Memory
  imports C_Format
begin

text \<open>
  \<^verbatim>\<open>process_info.c\<close> (process id and command line of a task) and \<^verbatim>\<open>process_memory.c\<close>
  (reading the memory of a process and printing it as hexadecimal text).  The kernel functions
  behind the resolved pointers are fields of \<open>proc_api\<close>; \<open>task_mm\<close> takes a reference on the
  address space, \<open>mmput\<close> drops it, and the state carries the number of references held.
\<close>

section \<open>Kernel interface and module state\<close>

record proc_api =
  proc_lookup :: "string \<Rightarrow> u64"
  f_get_task_comm :: "u64 \<Rightarrow> char list \<Rightarrow> char list"
  f_task_pid_nr_ns :: "u64 \<Rightarrow> s32"
  f_get_cmdline :: "u64 \<Rightarrow> char list \<Rightarrow> s32 \<times> char list"
  f_find_vpid :: "s32 \<Rightarrow> u64"
  f_pid_task :: "u64 \<Rightarrow> u64"
  f_get_task_mm :: "u64 \<Rightarrow> u64"
  f_access_process_vm :: "u64 \<Rightarrow> u64 \<Rightarrow> nat \<Rightarrow> s32 \<times> u8 list"

record proc_state =
  g_get_task_comm :: u64
  g_task_pid_nr_ns :: u64
  g_get_cmdline :: u64
  pm_find_vpid :: u64
  pm_pid_task :: u64
  g_access_process_vm :: u64
  g_get_task_mm :: u64
  g_mmput :: u64
  mm_refs :: "u64 \<Rightarrow> int"

section \<open>\<^verbatim>\<open>process_info.c\<close>\<close>

definition process_info_init :: "proc_api \<Rightarrow> proc_state \<Rightarrow> s32 \<times> proc_state" where
  "process_info_init k st =
     (0, st\<lparr>g_get_task_comm := proc_lookup k ''__get_task_comm'',
            g_task_pid_nr_ns := proc_lookup k ''__task_pid_nr_ns'',
            g_get_cmdline := proc_lookup k ''get_cmdline''\<rparr>)"

definition get_process_id :: "proc_api \<Rightarrow> proc_state \<Rightarrow> u64 \<Rightarrow> s32" where
  "get_process_id k st task = (if g_task_pid_nr_ns st \<noteq> 0 then f_task_pid_nr_ns k task else - 1)"

text \<open>
  The buffer after the call.  \<open>get_cmdline\<close> may write into it and still report nothing; the
  name of the task is then written over it.
\<close>

definition get_process_cmdline :: "proc_api \<Rightarrow> proc_state \<Rightarrow> u64 \<Rightarrow> nat \<Rightarrow> char list" where
  "get_process_cmdline k st task len =
     (let buf = replicate len NUL;
          (ret, buf1) = (if g_get_cmdline st \<noteq> 0 then f_get_cmdline k task buf else (0, buf))
      in if g_get_cmdline st \<noteq> 0 \<and> 0 <s ret then buf1
         else if g_get_task_comm st \<noteq> 0 then f_get_task_comm k task buf1
         else c_strncpy len ''[Unknown]'' buf1)"

section \<open>\<^verbatim>\<open>process_memory.c\<close>\<close>

abbreviation (input) MAX_READ_SIZE :: u64 where "MAX_READ_SIZE \<equiv> 4096"

definition process_memory_init :: "proc_api \<Rightarrow> proc_state \<Rightarrow> s32 \<times> proc_state" where
  "process_memory_init k st =
     (let st1 = st\<lparr>pm_find_vpid := proc_lookup k ''find_vpid'', pm_pid_task := proc_lookup k ''pid_task'',
            g_access_process_vm := proc_lookup k ''access_process_vm'',
            g_get_task_mm := proc_lookup k ''get_task_mm'', g_mmput := proc_lookup k ''mmput''\<rparr>
      in if pm_find_vpid st1 = 0 \<or> pm_pid_task st1 = 0 then (- 1, st1)
         else if g_access_process_vm st1 = 0 then (- 1, st1)
         else (0, st1))"

text \<open>\<open>buf\<close> is \<open>None\<close> for a NULL pointer; the bytes read replace the front of the array.\<close>

definition process_memory_read ::
  "proc_api \<Rightarrow> s32 \<Rightarrow> u64 \<Rightarrow> u8 list option \<Rightarrow> u64 \<Rightarrow> proc_state \<Rightarrow> s32 \<times> u8 list option \<times> proc_state" where
  "process_memory_read k pid addr buf sz st =
     (if pm_find_vpid st = 0 \<or> pm_pid_task st = 0 \<or> g_access_process_vm st = 0
      then (- ENOSYS, buf, st)
      else case buf of None \<Rightarrow> (- EINVAL, buf, st) | Some b \<Rightarrow>
      if sz = 0 \<or> MAX_READ_SIZE < sz then (- EINVAL, buf, st)
      else let pid_struct = f_find_vpid k pid
      in if pid_struct = 0 then (- ESRCH, buf, st)
      else let task = f_pid_task k pid_struct
      in if task = 0 then (- ESRCH, buf, st)
      else let mm = f_get_task_mm k task
      in if g_get_task_mm st \<noteq> 0 \<and> mm = 0 then (- EINVAL, buf, st)
      else let st1 = (if g_get_task_mm st \<noteq> 0
                      then st\<lparr>mm_refs := (mm_refs st)(mm := mm_refs st mm + 1)\<rparr> else st);
               (ret, data) = f_access_process_vm k task addr (unat sz);
               b1 = take (unat sz) data @ drop (length (take (unat sz) data)) b;
               st2 = (if g_get_task_mm st1 \<noteq> 0 \<and> g_mmput st1 \<noteq> 0 \<and> mm \<noteq> 0
                      then st1\<lparr>mm_refs := (mm_refs st1)(mm := mm_refs st1 mm - 1)\<rparr> else st1)
      in if ret <s 0 then (ret, Some b1, st2)
         else if ret = 0 then (- EFAULT, Some b1, st2)
         else (ret, Some b1, st2))"

text \<open>
  The formatting loop: byte \<open>i\<close>, position \<open>pos\<close>, both counters as in the code;
  \<open>out_size - 3\<close> and \<open>out_size - pos\<close> are \<open>size_t\<close> and wrap around.
\<close>

function hex_loop :: "u8 list \<Rightarrow> nat \<Rightarrow> u64 \<Rightarrow> nat \<Rightarrow> u64 \<Rightarrow> char list \<Rightarrow> (u64 \<times> char list) option" where
  "hex_loop buf ret out_size i pos out =
     (if i < ret \<and> pos < out_size - 3
      then case snprintf_at out (unat pos) (unat (out_size - pos)) (fmt_02x (buf ! i) @ '' '') of
             None \<Rightarrow> None
           | Some out1 \<Rightarrow> hex_loop buf ret out_size (Suc i) (pos + 3) out1
      else Some (pos, out))"
  by pat_completeness auto
termination
  by (relation "measure (\<lambda>(buf, ret, out_size, i, pos, out). ret - i)") auto

declare hex_loop.simps [simp del]

definition write_char :: "u64 \<Rightarrow> char \<Rightarrow> char list \<Rightarrow> char list option" where
  "write_char i c out = (if unat i < length out then Some (out[unat i := c]) else None)"

text \<open>
  The whole function: \<open>stack\<close> is what the local array held before, \<open>out\<close> is \<open>None\<close> for NULL;
  the result is \<open>None\<close> if a write leaves the output array.
\<close>

definition process_memory_read_hex ::
  "proc_api \<Rightarrow> u8 list \<Rightarrow> s32 \<Rightarrow> u64 \<Rightarrow> char list option \<Rightarrow> u64 \<Rightarrow> u64 \<Rightarrow> proc_state
    \<Rightarrow> (s32 \<times> char list option \<times> proc_state) option" where
  "process_memory_read_hex k stack pid addr out out_size read_size st =
     (case out of None \<Rightarrow> Some (- EINVAL, None, st) | Some o0 \<Rightarrow>
      if out_size = 0 then Some (- EINVAL, out, st)
      else let sz = (if MAX_READ_SIZE < read_size then MAX_READ_SIZE else read_size);
               (ret, buf, st1) = process_memory_read k pid addr (Some stack) sz st
      in if ret <s 0 then Some (ret, out, st1)
      else case hex_loop (case buf of Some b \<Rightarrow> b | None \<Rightarrow> []) (unat ret) out_size 0 0 o0 of
             None \<Rightarrow> None
           | Some (pos, o1) \<Rightarrow>
               (let at = (if 0 < pos \<and> o1 ! unat (pos - 1) = CHR '' '' then pos - 1 else pos)
                in map_option (\<lambda>o2. (ret, Some o2, st1)) (write_char at NUL o1)))"

section \<open>The hexadecimal text\<close>

definition hex_cells :: "u8 list \<Rightarrow> string" where
  "hex_cells bs = concat (map (\<lambda>b. fmt_02x b @ '' '') bs)"

text \<open>The dump without its trailing space, and how to read it back.\<close>

definition hex_dump :: "u8 list \<Rightarrow> string" where
  "hex_dump bs = butlast (hex_cells bs)"

fun hex_undump :: "string \<Rightarrow> u8 list" where
  "hex_undump (a # b # c # rest) = of_nat (16 * hex_val a + hex_val b) # hex_undump rest"
| "hex_undump [a, b] = [of_nat (16 * hex_val a + hex_val b)]"
| "hex_undump _ = []"

lemma hex_cells_simps [simp]:
  "hex_cells [] = []" "hex_cells (b # bs) = fmt_02x b @ CHR '' '' # hex_cells bs"
  "hex_cells (bs @ cs) = hex_cells bs @ hex_cells cs"
  by (simp_all add: hex_cells_def)

lemma length_hex_cells [simp]: "length (hex_cells bs) = 3 * length bs"
  by (induction bs) (simp_all add: fmt_02x_def)

lemma no_nul_fmt_02x [simp]: "no_nul (fmt_02x b)"
proof -
  have "unat b div 16 < 16" "unat b mod 16 < 16" using unat_bounds(1)[of b] by auto
  moreover have "digit_char d \<noteq> NUL" if "d < 16" for d
    using is_hex_digit[OF that] by (auto simp: is_hex_def is_dec_def is_hex_lower_def is_hex_upper_def)
  ultimately show ?thesis by (simp add: fmt_02x_def)
qed

lemma no_nul_hex_cells [simp]: "no_nul (hex_cells bs)"
  by (induction bs) simp_all

lemma hex_undump_dump: "hex_undump (hex_dump bs) = bs"
proof (induction bs)
  case Nil
  then show ?case by (simp add: hex_dump_def)
next
  case (Cons b bs)
  have "unat b div 16 < 16" "unat b mod 16 < 16" using unat_bounds(1)[of b] by auto
  then have v: "of_nat (16 * hex_val (digit_char (unat b div 16)) + hex_val (digit_char (unat b mod 16))) = b"
    by simp
  show ?case
  proof (cases bs)
    case Nil
    with v show ?thesis by (simp add: hex_dump_def fmt_02x_def)
  next
    case (Cons c cs)
    then have "hex_cells bs \<noteq> []" by (simp add: fmt_02x_def)
    with v Cons.IH show ?thesis by (simp add: hex_dump_def fmt_02x_def butlast_append)
  qed
qed

text \<open>One run of the loop from byte \<open>i\<close>, when the array is long enough for all bytes.\<close>

lemma hex_loop_result:
  assumes "i \<le> ret" "ret \<le> length buf" "3 * ret < length out" "length out < 2 ^ 32"
    and "take (3 * i) out = hex_cells (take i buf)"
  shows "\<exists>out'. hex_loop buf ret (of_nat (length out)) i (of_nat (3 * i)) out = Some (of_nat (3 * ret), out') \<and>
    length out' = length out \<and> take (3 * ret) out' = hex_cells (take ret buf)"
  using assms
proof (induction "ret - i" arbitrary: i out)
  case 0
  then have "i = ret" by simp
  with 0 show ?case by (subst hex_loop.simps) simp
next
  case (Suc n)
  then have i: "i < ret" "i < length buf" by auto
  let ?N = "length out"
  have u: "unat (of_nat ?N - of_nat (3 * i) :: u64) = ?N - 3 * i" "unat (of_nat (3 * i) :: u64) = 3 * i"
    by (rule unat_diff_u64 unat_of_nat_u64; use Suc.prems i in simp)+
  have g: "(of_nat (3 * i) :: u64) < of_nat ?N - 3"
  proof -
    have "(of_nat ?N - 3 :: u64) = of_nat (?N - 3)" using Suc.prems i by (simp add: of_nat_diff)
    then show ?thesis
      using Suc.prems i by (simp add: word_less_nat_alt unat_of_nat_u64 del: of_nat_mult of_nat_diff)
  qed
  define t where "t = fmt_02x (buf ! i) @ '' ''"
  have lt: "length t = 3" by (simp add: t_def fmt_02x_def)
  define out1 where "out1 = take (3 * i) out @ (t @ [NUL]) @ drop (3 * i + 4) out"
  have sn: "snprintf_at out (3 * i) (?N - 3 * i) t = Some out1"
    using Suc.prems i lt by (simp add: snprintf_at_def Let_def out1_def)
  have l1: "length out1 = ?N" using Suc.prems i lt by (simp add: out1_def)
  have t1: "take (3 * Suc i) out1 = hex_cells (take (Suc i) buf)"
    using Suc.prems i lt by (simp add: out1_def take_Suc_conv_app_nth t_def)
  have p3: "(of_nat (3 * i) + 3 :: u64) = of_nat (3 * Suc i)" by simp
  have "\<exists>out'. hex_loop buf ret (of_nat (length out1)) (Suc i) (of_nat (3 * Suc i)) out1 = Some (of_nat (3 * ret), out') \<and>
    length out' = length out1 \<and> take (3 * ret) out' = hex_cells (take ret buf)"
    using Suc.hyps(2) Suc.prems l1 t1 i by (intro Suc.hyps(1)) auto
  moreover have "hex_loop buf ret (of_nat ?N) i (of_nat (3 * i)) out =
      hex_loop buf ret (of_nat (length out1)) (Suc i) (of_nat (3 * Suc i)) out1"
    using i g sn p3 by (subst hex_loop.simps) (simp only: u l1 t_def[symmetric] if_True option.case simp_thms)
  ultimately show ?case using l1 by simp
qed

lemma process_memory_read_nonzero:
  "process_memory_read k pid addr buf sz st = (ret, buf', st') \<Longrightarrow> ret \<noteq> 0"
  by (auto simp: process_memory_read_def Let_def split: option.splits if_splits prod.splits)

lemma process_memory_read_refs:
  assumes "process_memory_read k pid addr buf sz st = (ret, buf', st')"
  shows "g_mmput st \<noteq> 0 \<or> g_get_task_mm st = 0 \<Longrightarrow> mm_refs st' = mm_refs st"
    and "mm_refs st' = mm_refs st \<or>
      (g_get_task_mm st \<noteq> 0 \<and> g_mmput st = 0 \<and> (\<exists>mm. mm_refs st' = (mm_refs st)(mm := mm_refs st mm + 1)))"
  using assms
  by (auto simp: process_memory_read_def Let_def split: option.splits if_splits prod.splits)

section \<open>A concrete kernel for the witnesses\<close>

definition demo_proc :: proc_api where
  "demo_proc = \<lparr>proc_lookup = (\<lambda>_. 1), f_get_task_comm = (\<lambda>t b. c_strncpy 15 ''app_process'' b),
     f_task_pid_nr_ns = (\<lambda>_. 1234), f_get_cmdline = (\<lambda>t b. (11, c_strncpy 255 ''com.example'' b)),
     f_find_vpid = (\<lambda>p. if p = 1234 then 16 else 0), f_pid_task = (\<lambda>_. 32),
     f_get_task_mm = (\<lambda>_. 48), f_access_process_vm = (\<lambda>t a n. (of_nat n, replicate n 0x7f))\<rparr>"

definition demo_proc_state :: proc_state where
  "demo_proc_state = \<lparr>g_get_task_comm = 1, g_task_pid_nr_ns = 1, g_get_cmdline = 1,
     pm_find_vpid = 1, pm_pid_task = 1, g_access_process_vm = 1, g_get_task_mm = 1, g_mmput = 1,
     mm_refs = (\<lambda>_. 0)\<rparr>"

section \<open>Properties\<close>

text \<open>Reading a process's memory releases the address space it took a reference on, on every
  path, as long as \<open>mmput\<close> was resolved whenever \<open>get_task_mm\<close> was; otherwise it keeps at most
  that one reference, and it never returns zero bytes as a success.\<close>

theorem memory_read_references:
  assumes "process_memory_read k pid addr buf sz st = (ret, buf', st')"
  shows "ret \<noteq> 0 \<and> (g_mmput st \<noteq> 0 \<or> g_get_task_mm st = 0 \<longrightarrow> mm_refs st' = mm_refs st) \<and>
    (mm_refs st' = mm_refs st \<or>
      (g_get_task_mm st \<noteq> 0 \<and> g_mmput st = 0 \<and> (\<exists>mm. mm_refs st' = (mm_refs st)(mm := mm_refs st mm + 1))))"
  using process_memory_read_nonzero[OF assms] process_memory_read_refs[OF assms] by blast

theorem memory_read_references_witness:
  "\<exists>buf' st'. process_memory_read demo_proc 1234 0x1000 (Some (replicate 4 0)) 4 demo_proc_state
     = (4, buf', st') \<and> mm_refs st' = mm_refs demo_proc_state"
proof -
  define res where "res = process_memory_read demo_proc 1234 0x1000 (Some (replicate 4 0)) 4 demo_proc_state"
  have "fst res = 4" unfolding res_def by code_simp
  then have "process_memory_read demo_proc 1234 0x1000 (Some (replicate 4 0)) 4 demo_proc_state
     = (4, fst (snd res), snd (snd res))" by (metis prod.collapse res_def)
  from memory_read_references[OF this] this show ?thesis
    by (intro exI[of _ "fst (snd res)"] exI[of _ "snd (snd res)"]) (simp add: demo_proc_state_def)
qed

text \<open>\<open>process_memory_read_hex\<close> prints the bytes it read as two lower-case hexadecimal digits
  each, separated by single spaces, as a terminated string inside the output array, and the text
  determines the bytes.\<close>

theorem read_hex_text:
  assumes "process_memory_read k pid addr (Some stack)
      (if MAX_READ_SIZE < read_size then MAX_READ_SIZE else read_size) st = (ret, Some b, st1)"
    and "\<not> ret <s 0" "unat ret \<le> length b" "3 * unat ret < length out" "length out < 2 ^ 32"
  shows "\<exists>out'. process_memory_read_hex k stack pid addr (Some out) (of_nat (length out)) read_size st
      = Some (ret, Some out', st1) \<and>
    length out' = length out \<and> cstr out' = hex_dump (take (unat ret) b) \<and>
    hex_undump (cstr out') = take (unat ret) b"
proof -
  let ?n = "unat ret" let ?N = "length out"
  have n: "0 < ?n" using process_memory_read_nonzero[OF assms(1)] by (simp add: unat_gt_0)
  have N: "(of_nat ?N :: u64) \<noteq> 0" using assms(4,5) unat_of_nat_u64[of ?N] by force
  obtain o1 where o1: "hex_loop b ?n (of_nat ?N) 0 0 out = Some (of_nat (3 * ?n), o1)"
      "length o1 = ?N" "take (3 * ?n) o1 = hex_cells (take ?n b)"
    using hex_loop_result[of 0 ?n b out] assms(3-5) by auto
  let ?at = "3 * ?n - 1"
  have at: "(of_nat (3 * ?n) - 1 :: u64) = of_nat ?at" using n by (simp add: of_nat_diff)
  have ua: "unat (of_nat ?at :: u64) = ?at" using assms(4,5) by (intro unat_of_nat_u64) simp
  have pos: "0 < (of_nat (3 * ?n) :: u64)"
    using n assms(4,5) by (simp add: word_less_nat_alt unat_of_nat_u64 del: of_nat_mult)
  have cells: "hex_cells (take ?n b) = hex_dump (take ?n b) @ '' ''"
  proof -
    have "take ?n b \<noteq> []" using n assms(3) by auto
    then obtain bs c where "take ?n b = bs @ [c]" by (metis append_butlast_last_id)
    then show ?thesis by (simp add: hex_dump_def butlast_append)
  qed
  have ld: "length (hex_dump (take ?n b)) = ?at" using assms(3) by (simp add: hex_dump_def)
  have dec: "o1 = hex_dump (take ?n b) @ CHR '' '' # drop (3 * ?n) o1"
    using o1(3) cells by (metis append_Cons append_Nil append_assoc append_take_drop_id)
  then have sp: "o1 ! ?at = CHR '' ''" using ld by (metis nth_append_length)
  have up: "o1[?at := NUL] = hex_dump (take ?n b) @ NUL # drop (3 * ?n) o1"
    using dec ld by (metis list_update_length)
  have nn: "no_nul (hex_dump (take ?n b))"
    using no_nul_hex_cells[of "take ?n b"] unfolding cells by simp
  have c: "cstr (o1[?at := NUL]) = hex_dump (take ?n b)" unfolding up by (simp add: cstr_append nn)
  have w: "write_char (of_nat ?at) NUL o1 = Some (o1[?at := NUL])"
    using ua o1(2) assms(4) by (simp add: write_char_def)
  have "process_memory_read_hex k stack pid addr (Some out) (of_nat ?N) read_size st
      = Some (ret, Some (o1[?at := NUL]), st1)"
    using N assms(2) o1(1) sp pos w
    by (simp add: process_memory_read_hex_def assms(1) at ua[simplified] Let_def del: of_nat_mult)
  then show ?thesis using c o1(2) by (auto simp: hex_undump_dump)
qed

theorem read_hex_text_witness:
  "\<exists>out' st'. process_memory_read_hex demo_proc [] 1234 0x1000 (Some (replicate 16 (CHR ''x''))) 16 3
      demo_proc_state = Some (3, Some out', st') \<and> cstr out' = ''7f 7f 7f''"
proof -
  define st1 where "st1 = snd (snd (process_memory_read demo_proc 1234 0x1000 (Some []) 3 demo_proc_state))"
  have "fst (process_memory_read demo_proc 1234 0x1000 (Some []) 3 demo_proc_state) = 3"
    "fst (snd (process_memory_read demo_proc 1234 0x1000 (Some []) 3 demo_proc_state)) = Some [0x7f, 0x7f, 0x7f]"
    by code_simp+
  then have "process_memory_read demo_proc 1234 0x1000 (Some [])
      (if MAX_READ_SIZE < 3 then MAX_READ_SIZE else 3) demo_proc_state = (3, Some [0x7f, 0x7f, 0x7f], st1)"
    by (simp add: st1_def prod_eq_iff)
  moreover have "hex_dump [0x7f, 0x7f, 0x7f] = ''7f 7f 7f''" by code_simp
  ultimately show ?thesis
    using read_hex_text[of demo_proc 1234 "0x1000" "[]" 3 demo_proc_state 3 "[0x7f, 0x7f, 0x7f]" st1 "replicate 16 (CHR ''x'')"]
    by (auto simp: word_sless_alt)
qed

end
