(* ===== verification/Stack_Unwind.thy ===== *)
theory Stack_Unwind
  imports C_Format
begin

text \<open>
  \<^verbatim>\<open>stack_unwind.c\<close>: the user-space call stack of the current task.  A 32-bit task is
  unwound by the module itself along the chain of frame pointers, a 64-bit one by the kernel;
  each address is then printed with the file mapped there and its offset.  Kernel functions are
  fields of \<open>unwind_api\<close>; the memory of the VMAs is a map from addresses to records of the
  fields the code reads.  The state counts the holds of the address-space lock and the pages
  borrowed for paths.
\<close>

section \<open>Data\<close>

record pt_regs =
  gpr :: "nat \<Rightarrow> u64"
  reg_sp :: u64
  reg_pc :: u64
  pstate :: u64

record vm_area_struct =
  vm_start :: u64
  vm_end :: u64
  vm_prev :: u64
  vm_file :: u64

record unwind_api =
  u_lookup :: "string \<Rightarrow> u64"
  f_save_stack_trace_user :: "nat \<Rightarrow> u64 list"
  f_copy_from_user :: "u64 \<Rightarrow> (u32 \<times> u32) option"
  f_find_vma :: "u64 \<Rightarrow> u64 \<Rightarrow> u64"
  f_file_path :: "u64 \<Rightarrow> string option"
  f_down_read_trylock :: bool
  f_get_free_page :: u64
  vmas :: "u64 \<Rightarrow> vm_area_struct"

record unwind_state =
  g_save_stack_trace_user :: u64
  g_arch_copy_from_user :: u64
  g_find_vma :: u64
  g_file_path :: u64
  g_down_read_trylock :: u64
  g_up_read :: u64
  g_free_page :: u64
  g_get_free_page :: u64
  g_snprintf :: u64
  readers :: int
  pages :: int

abbreviation (input) MAX_STACK_DEPTH :: nat where "MAX_STACK_DEPTH \<equiv> 32"

section \<open>Initialisation\<close>

definition stack_unwind_init :: "unwind_api \<Rightarrow> unwind_state \<Rightarrow> s32 \<times> unwind_state" where
  "stack_unwind_init k st =
     (let st1 = st\<lparr>g_save_stack_trace_user := u_lookup k ''save_stack_trace_user''\<rparr>
      in if g_save_stack_trace_user st1 = 0 then (- 1, st1)
      else let st2 = st1\<lparr>g_arch_copy_from_user := u_lookup k ''__arch_copy_from_user''\<rparr>
      in if g_arch_copy_from_user st2 = 0 then (- 1, st2)
      else (0, st2\<lparr>g_find_vma := u_lookup k ''find_vma'',
             g_file_path := (let p = u_lookup k ''file_path''
                             in if p = 0 then u_lookup k ''d_path'' else p),
             g_down_read_trylock := u_lookup k ''down_read_trylock'',
             g_up_read := u_lookup k ''up_read'',
             g_get_free_page := u_lookup k ''__get_free_pages'',
             g_free_page := u_lookup k ''free_pages'', g_snprintf := u_lookup k ''snprintf''\<rparr>))"

section \<open>Base name of a path\<close>

text \<open>The scan keeps in \<open>tail\<close> the string after the last slash seen.\<close>

fun kbasename_loop :: "string \<Rightarrow> string \<Rightarrow> string" where
  "kbasename_loop tail [] = tail"
| "kbasename_loop tail (c # p) = kbasename_loop (if c = CHR ''/'' then p else tail) p"

definition my_kbasename :: "string \<Rightarrow> string" where
  "my_kbasename path = kbasename_loop path path"

section \<open>The mapping an address lies in\<close>

text \<open>The walk to the first segment of the file, at most \<open>n\<close> steps back.\<close>

fun find_base :: "(u64 \<Rightarrow> vm_area_struct) \<Rightarrow> u64 \<Rightarrow> nat \<Rightarrow> u64 \<Rightarrow> u64 \<Rightarrow> u64" where
  "find_base m f 0 cur base = base"
| "find_base m f (Suc n) cur base =
     (let prev = vm_prev (m cur)
      in if prev = 0 then base
         else if vm_file (m prev) \<noteq> f then base
         else find_base m f n prev (vm_start (m prev)))"

text \<open>The text for a mapped address: the file's name where it can be had, and the offset.\<close>

definition vma_text :: "unwind_api \<Rightarrow> u64 \<Rightarrow> u64 \<Rightarrow> unwind_state \<Rightarrow> string \<times> unwind_state" where
  "vma_text k f offset st =
     (if f \<noteq> 0
      then if g_file_path st \<noteq> 0 \<and> g_get_free_page st \<noteq> 0 \<and> g_free_page st \<noteq> 0
           then let tmp_buf = f_get_free_page k
                in if tmp_buf \<noteq> 0
                   then let st1 = st\<lparr>pages := pages st + 1\<rparr>;
                            txt = (case f_file_path k f of
                                     Some p \<Rightarrow> '' '' @ my_kbasename p @ '' + 0x'' @ fmt_lx offset
                                   | None \<Rightarrow> '' <file> + 0x'' @ fmt_lx offset)
                        in (txt, st1\<lparr>pages := pages st1 - 1\<rparr>)
                   else ('' <file> + 0x'' @ fmt_lx offset, st)
           else ('' <file> + 0x'' @ fmt_lx offset, st)
      else ('' [anon] + 0x'' @ fmt_lx offset, st))"

text \<open>The returned length and what \<open>buf\<close> reads as; \<open>mm\<close> is the current task's address space.\<close>

definition get_vma_info_str ::
  "unwind_api \<Rightarrow> u64 \<Rightarrow> u64 \<Rightarrow> string \<Rightarrow> nat \<Rightarrow> unwind_state \<Rightarrow> nat \<times> string \<times> unwind_state" where
  "get_vma_info_str k mm ip buf len st =
     (if mm = 0 \<or> g_find_vma st = 0 \<or> g_down_read_trylock st = 0 \<or> g_up_read st = 0 \<or> g_snprintf st = 0
      then (0, buf, st)
      else if \<not> f_down_read_trylock k then (0, buf, st)
      else let st1 = st\<lparr>readers := readers st + 1\<rparr>; vma = f_find_vma k mm ip
      in if vma = 0 then (0, buf, st1\<lparr>readers := readers st1 - 1\<rparr>)
      else let v = vmas k vma
      in if ip < vm_start v \<or> vm_end v \<le> ip then (0, buf, st1\<lparr>readers := readers st1 - 1\<rparr>)
      else let f = vm_file v;
               base = (if f \<noteq> 0 then find_base (vmas k) f 10 vma (vm_start v) else vm_start v);
               (txt, st2) = vma_text k f (ip - base) st1
      in (length txt, snprintf_str len txt, st2\<lparr>readers := readers st2 - 1\<rparr>))"

section \<open>Unwinding a 32-bit task\<close>

text \<open>A plausible return address is recorded unless it repeats the entry before it.\<close>

definition record_return :: "u32 \<Rightarrow> u64 list \<Rightarrow> u64 list" where
  "record_return ret_addr entries =
     (if 0x1000 < ret_addr
      then if 0 < length entries \<and> entries ! (length entries - 1) \<noteq> ucast ret_addr
           then entries @ [ucast ret_addr] else entries
      else entries)"

function compat_loop ::
  "unwind_api \<Rightarrow> u64 \<Rightarrow> nat \<Rightarrow> u32 \<Rightarrow> u32 \<Rightarrow> nat \<Rightarrow> u64 list \<Rightarrow> u64 list" where
  "compat_loop k copy mx sp fp depth entries =
     (if length entries < mx \<and> depth < 32
      then if fp < 0x1000 \<or> 0xfffffff0 < fp \<or> fp AND 3 \<noteq> 0 \<or> fp < sp then entries
      else if copy = 0 then entries
      else case f_copy_from_user k (ucast fp) of None \<Rightarrow> entries
         | Some (next_fp, ret_addr) \<Rightarrow>
             if next_fp \<le> fp then record_return ret_addr entries
             else compat_loop k copy mx sp next_fp (Suc depth) (record_return ret_addr entries)
      else entries)"
  by pat_completeness auto
termination
  by (relation "measure (\<lambda>(k, copy, mx, sp, fp, depth, entries). 32 - depth)") auto

declare compat_loop.simps [simp del]

text \<open>The registers the walk starts from, and the two addresses recorded before it.\<close>

definition compat_sp :: "pt_regs \<Rightarrow> u32" where
  "compat_sp r = (let sp = ucast (gpr r 13) in if sp = 0 then ucast (reg_sp r) else sp)"

definition compat_fp :: "pt_regs \<Rightarrow> u32" where
  "compat_fp r = (if pstate r AND 0x20 \<noteq> 0 then ucast (gpr r 7) else ucast (gpr r 11))"

definition record_start :: "pt_regs \<Rightarrow> nat \<Rightarrow> u64 list \<Rightarrow> u64 list" where
  "record_start r mx entries =
     (let lr = (ucast (gpr r 14) :: u32);
          pc = (ucast (reg_pc r) :: u32);
          e1 = (if length entries < mx then entries @ [ucast pc] else entries)
      in if length e1 < mx \<and> 0x1000 < lr then e1 @ [ucast lr] else e1)"

definition my_unwind_compat :: "unwind_api \<Rightarrow> unwind_state \<Rightarrow> pt_regs option \<Rightarrow> nat \<Rightarrow> u64 list \<Rightarrow> u64 list" where
  "my_unwind_compat k st regs mx entries =
     (case regs of None \<Rightarrow> entries
      | Some r \<Rightarrow>
          let es = compat_loop k (g_arch_copy_from_user st) mx (compat_sp r) (compat_fp r) 0
                     (record_start r mx entries)
          in if length es < mx then es @ [- 1] else es)"

section \<open>Unwinding and printing\<close>

text \<open>The lines printed: index, address and the text of its mapping.\<close>

fun print_frames ::
  "unwind_api \<Rightarrow> u64 \<Rightarrow> nat \<Rightarrow> u64 list \<Rightarrow> unwind_state \<Rightarrow> (nat \<times> u64 \<times> string) list \<times> unwind_state" where
  "print_frames k mm i [] st = ([], st)"
| "print_frames k mm i (ip # ips) st =
     (let (n, info, st1) = get_vma_info_str k mm ip [] 256 st;
          (rest, st2) = print_frames k mm (Suc i) ips st1
      in ((i, ip, info) # rest, st2))"

definition unwind_user_stack_standard ::
  "unwind_api \<Rightarrow> u64 \<Rightarrow> pt_regs option \<Rightarrow> unwind_state \<Rightarrow> (nat \<times> u64 \<times> string) list \<times> unwind_state" where
  "unwind_user_stack_standard k mm regs st =
     (if g_save_stack_trace_user st = 0 then ([], st)
      else let is_32bit = (case regs of Some r \<Rightarrow> pstate r AND 0x10 \<noteq> 0 | None \<Rightarrow> False);
               entries = (if is_32bit then my_unwind_compat k st regs MAX_STACK_DEPTH []
                          else f_save_stack_trace_user k MAX_STACK_DEPTH)
           in print_frames k mm 0 entries st)"

section \<open>Lemmas on the frame walk\<close>

text \<open>What recording a return address keeps, the walk keeps.\<close>

lemma compat_loop_inv:
  assumes "P es" and "\<And>es r. P es \<Longrightarrow> length es < mx \<Longrightarrow> P (record_return r es)"
  shows "P (compat_loop k copy mx sp fp depth es)"
  using assms
proof (induction k copy mx sp fp depth es rule: compat_loop.induct)
  case (1 k copy mx sp fp depth es)
  show ?case
    by (subst compat_loop.simps) (simp add: "1.prems" "1.IH" split: option.split prod.split)
qed

lemma record_return_prefix: "\<exists>ys. record_return r es = es @ ys"
  by (simp add: record_return_def)

lemma compat_loop_prefix: "\<exists>ys. compat_loop k copy mx sp fp depth es = es @ ys"
  by (rule compat_loop_inv [where P = "\<lambda>xs. \<exists>ys. xs = es @ ys"])
     (auto simp: record_return_def)

lemma compat_loop_length:
  "length es \<le> mx \<Longrightarrow> length (compat_loop k copy mx sp fp depth es) \<le> mx"
  by (rule compat_loop_inv [where P = "\<lambda>xs. length xs \<le> mx"]) (simp_all add: record_return_def)

text \<open>No two neighbours from position \<open>n\<close> on are equal.\<close>

definition no_repeats_from :: "nat \<Rightarrow> u64 list \<Rightarrow> bool" where
  "no_repeats_from n es \<longleftrightarrow> (\<forall>i. n \<le> i \<longrightarrow> Suc i < length es \<longrightarrow> es ! i \<noteq> es ! Suc i)"

lemma no_repeats_snoc:
  assumes "no_repeats_from n es" and "n < length es \<Longrightarrow> es ! (length es - 1) \<noteq> x"
  shows "no_repeats_from n (es @ [x])"
  unfolding no_repeats_from_def
proof (intro allI impI)
  fix i assume i: "n \<le> i" "Suc i < length (es @ [x])"
  show "(es @ [x]) ! i \<noteq> (es @ [x]) ! Suc i"
  proof (cases "Suc i < length es")
    case True with i assms(1) show ?thesis by (simp add: no_repeats_from_def nth_append)
  next
    case False
    with i have "Suc i = length es" by simp
    then have "i = length es - 1" "es \<noteq> []" by auto
    with assms(2) i(1) show ?thesis by (cases "n < length es") (auto simp: nth_append)
  qed
qed

lemma compat_loop_no_repeats:
  "no_repeats_from n es \<Longrightarrow> no_repeats_from n (compat_loop k copy mx sp fp depth es)"
  by (rule compat_loop_inv [where P = "no_repeats_from n"]) (simp_all add: record_return_def no_repeats_snoc)

text \<open>Every address recorded after the first is above the first page and not the end marker.\<close>

definition recorded_ok :: "u64 \<Rightarrow> u64 list \<Rightarrow> bool" where
  "recorded_ok p es \<longleftrightarrow> (\<exists>t. es = p # t \<and> (\<forall>e \<in> set t. 0x1000 < e \<and> e < - 1))"

lemma ucast_bounds: "0x1000 < (x :: u32) \<Longrightarrow> (0x1000 :: u64) < ucast x \<and> (ucast x :: u64) < - 1"
  using unat_bounds(2)[of x]
  by (simp add: word_less_nat_alt unsigned_ucast_eq take_bit_nat_eq_self unsigned_minus_1_eq_mask
      mask_eq_exp_minus_1)

lemma compat_loop_recorded: "recorded_ok p es \<Longrightarrow> recorded_ok p (compat_loop k copy mx sp fp depth es)"
  by (rule compat_loop_inv [where P = "recorded_ok p"])
     (use ucast_bounds in \<open>auto simp: record_return_def recorded_ok_def\<close>)

lemma record_start_shape:
  assumes "0 < mx"
  shows "recorded_ok (ucast (ucast (reg_pc r) :: u32)) (record_start r mx [])"
    "length (record_start r mx []) \<le> mx" "no_repeats_from 1 (record_start r mx [])"
  using assms ucast_bounds by (auto simp: record_start_def recorded_ok_def no_repeats_from_def Let_def)

section \<open>Properties of the unwinder\<close>

text \<open>
  The trace of a 32-bit task fits the array, starts with the program counter, repeats no
  address from the link register on, and ends with the end marker whenever it has room for it;
  every entry after the first is an address above the first page.
\<close>

theorem compat_trace_shape:
  assumes "0 < mx" and "my_unwind_compat k st (Some r) mx [] = es"
  shows "length es \<le> mx \<and> es \<noteq> [] \<and> hd es = ucast (ucast (reg_pc r) :: u32) \<and> no_repeats_from 1 es \<and>
         (length es < mx \<longrightarrow> last es = - 1) \<and> (\<forall>e \<in> set (tl es). 0x1000 < e)"
proof -
  define e3 where "e3 = compat_loop k (g_arch_copy_from_user st) mx (compat_sp r) (compat_fp r) 0
    (record_start r mx [])"
  have e3: "recorded_ok (ucast (ucast (reg_pc r) :: u32)) e3" "length e3 \<le> mx" "no_repeats_from 1 e3"
    using record_start_shape [OF assms(1)]
    by (simp_all add: e3_def compat_loop_recorded compat_loop_length compat_loop_no_repeats)
  then obtain t where t: "e3 = ucast (ucast (reg_pc r) :: u32) # t" "\<forall>e \<in> set t. 0x1000 < e \<and> e < - 1"
    by (auto simp: recorded_ok_def)
  have es: "es = (if length e3 < mx then e3 @ [- 1] else e3)"
    using assms(2) by (auto simp: my_unwind_compat_def e3_def Let_def)
  have "1 < length e3 \<Longrightarrow> e3 ! (length e3 - 1) \<in> set t" using t(1) by (cases t rule: rev_cases) auto
  then have "no_repeats_from 1 es" using e3(3) t(2) by (auto simp: es intro!: no_repeats_snoc)
  with e3(2) t show ?thesis by (auto simp: es)
qed

text \<open>
  A 32-bit task in two frames: the frame record at 0x8000 points to one at 0x8010, whose record
  cannot be read.
\<close>

definition demo_regs :: pt_regs where
  "demo_regs = \<lparr>gpr = (\<lambda>i. if i = 13 then 0x7000 else if i = 14 then 0x10420 else if i = 11 then 0x8000 else 0),
     reg_sp = 0, reg_pc = 0x10400, pstate = 0x10\<rparr>"

definition demo_vmas :: "u64 \<Rightarrow> vm_area_struct" where
  "demo_vmas v = (if v = 3 then \<lparr>vm_start = 0x12000, vm_end = 0x13000, vm_prev = 2, vm_file = 7\<rparr>
     else if v = 2 then \<lparr>vm_start = 0x10000, vm_end = 0x12000, vm_prev = 1, vm_file = 7\<rparr>
     else \<lparr>vm_start = 0x1000, vm_end = 0x2000, vm_prev = 0, vm_file = 0\<rparr>)"

definition demo_unwind :: unwind_api where
  "demo_unwind = \<lparr>u_lookup = (\<lambda>s. 1), f_save_stack_trace_user = (\<lambda>n. []),
     f_copy_from_user = (\<lambda>p. if p = 0x8000 then Some (0x8010, 0x10500) else None),
     f_find_vma = (\<lambda>mm ip. if ip < 0x2000 then 1 else if ip < 0x12000 then 2 else if ip < 0x13000 then 3 else 0),
     f_file_path = (\<lambda>f. Some ''/system/bin/app''), f_down_read_trylock = True, f_get_free_page = 9,
     vmas = demo_vmas\<rparr>"

definition demo_unwind_state :: unwind_state where
  "demo_unwind_state = \<lparr>g_save_stack_trace_user = 1, g_arch_copy_from_user = 1, g_find_vma = 1,
     g_file_path = 1, g_down_read_trylock = 1, g_up_read = 1, g_free_page = 1, g_get_free_page = 1,
     g_snprintf = 1, readers = 0, pages = 0\<rparr>"

lemma demo_trace:
  "my_unwind_compat demo_unwind demo_unwind_state (Some demo_regs) 32 [] = [0x10400, 0x10420, 0x10500, - 1]"
  by code_simp

theorem compat_trace_shape_witness:
  "no_repeats_from 1 [0x10400, 0x10420, 0x10500, - 1]"
  using compat_trace_shape [OF _ demo_trace] by simp

lemma vma_text_state [frame_simps]: "vma_text k f off st = (t, st') \<Longrightarrow> st' = st"
  by (auto simp: vma_text_def Let_def split: if_splits option.splits)

lemma get_vma_info_str_state [frame_simps]: "get_vma_info_str k mm ip buf len st = (n, t, st') \<Longrightarrow> st' = st"
  by (auto simp: get_vma_info_str_def Let_def split: if_splits prod.splits dest!: vma_text_state)

lemma print_frames_all:
  "print_frames k mm i es st = (ls, st') \<Longrightarrow> map (\<lambda>(i, ip, _). (i, ip)) ls = enumerate i es \<and> st' = st"
  by (induction es arbitrary: i ls st') (auto split: prod.splits dest!: get_vma_info_str_state)

text \<open>
  Printing the frames lists every entry of the trace once, in order, and leaves the state
  as it was: each lookup that took the address-space lock has released it, and each page
  borrowed for a path has been given back, on every path through the lookup.
\<close>

theorem unwind_prints_all_and_releases:
  "map (\<lambda>(i, ip, _). (i, ip)) (fst (print_frames k mm 0 es st)) = enumerate 0 es \<and>
   snd (print_frames k mm 0 es st) = st \<and> snd (unwind_user_stack_standard k mm regs st) = st"
  using print_frames_all [of k mm 0 _ st]
  by (auto simp: unwind_user_stack_standard_def Let_def split: prod.splits option.splits)
    (metis prod.collapse print_frames_all)+

text \<open>The segment \<open>j\<close> steps back along the list of segments.\<close>

definition vma_back :: "(u64 \<Rightarrow> vm_area_struct) \<Rightarrow> nat \<Rightarrow> u64 \<Rightarrow> u64" where
  "vma_back m j vma = ((\<lambda>v. vm_prev (m v)) ^^ j) vma"

lemma vma_back_simps [simp]: "vma_back m 0 v = v" "vma_back m (Suc j) v = vma_back m j (vm_prev (m v))"
  by (simp_all add: vma_back_def funpow_Suc_right del: funpow.simps)

lemma find_base_walk:
  "\<exists>j \<le> n. find_base m f n vma (vm_start (m vma)) = vm_start (m (vma_back m j vma)) \<and>
    (\<forall>i \<in> {1..j}. vma_back m i vma \<noteq> 0 \<and> vm_file (m (vma_back m i vma)) = f) \<and>
    (j < n \<longrightarrow> vma_back m (Suc j) vma = 0 \<or> vm_file (m (vma_back m (Suc j) vma)) \<noteq> f)"
proof (induction n arbitrary: vma)
  case (Suc n)
  let ?p = "vm_prev (m vma)"
  show ?case
  proof (cases "?p = 0 \<or> vm_file (m ?p) \<noteq> f")
    case True then show ?thesis by (intro exI[of _ 0]) (auto simp: Let_def)
  next
    case False
    from Suc.IH [of ?p] obtain j where j: "j \<le> n"
      "find_base m f n ?p (vm_start (m ?p)) = vm_start (m (vma_back m j ?p))"
      "\<forall>i \<in> {1..j}. vma_back m i ?p \<noteq> 0 \<and> vm_file (m (vma_back m i ?p)) = f"
      "j < n \<longrightarrow> vma_back m (Suc j) ?p = 0 \<or> vm_file (m (vma_back m (Suc j) ?p)) \<noteq> f"
      by blast
    have "vma_back m i vma \<noteq> 0 \<and> vm_file (m (vma_back m i vma)) = f" if "i \<in> {1..Suc j}" for i
      using that j(3) False by (cases i; cases "i = 1") auto
    with j(1,2,4) False show ?thesis by (intro exI[of _ "Suc j"]) (auto simp del: One_nat_def)
  qed
qed auto

text \<open>
  The base an address is printed against is the start of a segment of the same file
  reached by going back over at most ten segments, all of that file; fewer than ten only where
  the segment before is missing or belongs to another file.
\<close>

theorem find_base_first_segment:
  "\<exists>j \<le> 10. find_base m f 10 vma (vm_start (m vma)) = vm_start (m (vma_back m j vma)) \<and>
    (\<forall>i \<in> {1..j}. vma_back m i vma \<noteq> 0 \<and> vm_file (m (vma_back m i vma)) = f) \<and>
    (j < 10 \<longrightarrow> vma_back m (Suc j) vma = 0 \<or> vm_file (m (vma_back m (Suc j) vma)) \<noteq> f)"
  by (rule find_base_walk)

theorem find_base_first_segment_witness:
  "(\<exists>j \<le> 10. find_base demo_vmas 7 10 3 (vm_start (demo_vmas 3)) = vm_start (demo_vmas (vma_back demo_vmas j 3))) \<and>
   find_base demo_vmas 7 10 3 (vm_start (demo_vmas 3)) = 0x10000"
proof
  show "\<exists>j \<le> 10. find_base demo_vmas 7 10 3 (vm_start (demo_vmas 3)) = vm_start (demo_vmas (vma_back demo_vmas j 3))"
    using find_base_first_segment [of demo_vmas 7 3] by blast
qed code_simp

lemma kbasename_loop_no_slash: "CHR ''/'' \<notin> set p \<Longrightarrow> kbasename_loop t p = t"
  by (induction p) auto

lemma kbasename_loop_split:
  "CHR ''/'' \<notin> set b \<Longrightarrow> kbasename_loop t (d @ CHR ''/'' # b) = b"
  by (induction d arbitrary: t) (auto simp: kbasename_loop_no_slash)

text \<open>
  The base name has no slash and is what follows the last slash of the path, the whole
  path when there is none.
\<close>

theorem my_kbasename_last_component:
  "CHR ''/'' \<notin> set (my_kbasename p) \<and>
   (\<exists>d. p = d @ my_kbasename p \<and> (d = [] \<or> last d = CHR ''/''))"
proof (cases "CHR ''/'' \<in> set p")
  case True
  then obtain d b where "p = d @ CHR ''/'' # b" "CHR ''/'' \<notin> set b" by (metis split_list_last)
  then show ?thesis by (intro conjI exI[of _ "d @ [CHR ''/'']"]) (simp_all add: my_kbasename_def kbasename_loop_split)
qed (simp add: my_kbasename_def kbasename_loop_no_slash)

end
