(* ===== verification/Control.thy ===== *)
theory Control
  imports Hw_Breakpoint Process_Memory Stack_Unwind
begin

text \<open>
  \<^verbatim>\<open>accessOffstinlineHook.c\<close>: the module itself.  Its process filters, the three callbacks that
  run before the hooked functions, the text commands of \<open>kpm_control\<close>, and its initialisation
  and exit.  The command string is the exact allocation \<open>module_control0\<close> makes
  (\<^verbatim>\<open>vmalloc(strlen + 1)\<close>), so the end of the list is its terminator and a pointer moved past
  it has left the allocation: that outcome is \<open>None\<close>.
\<close>

section \<open>State\<close>

abbreviation (input) MAX_FILTERS :: nat where "MAX_FILTERS \<equiv> 16"
abbreviation (input) MAX_NAME_LEN :: nat where "MAX_NAME_LEN \<equiv> 256"

record filter_entry =
  flt_name :: "char list"
  flt_pid :: s32
  flt_active :: s32

record module_state =
  hook_enabled :: s32
  access_hook_count :: s32
  openat_hook_count :: s32
  kill_hook_count :: s32
  filter_mode :: s32
  hook_access_enabled :: s32
  hook_openat_enabled :: s32
  hook_kill_enabled :: s32
  filters :: "filter_entry list"
  filter_count :: s32

definition filter_zero :: filter_entry where
  "filter_zero = \<lparr>flt_name = replicate 256 NUL, flt_pid = 0, flt_active = 0\<rparr>"

definition module_static :: module_state where
  "module_static = \<lparr>hook_enabled = 0, access_hook_count = 0, openat_hook_count = 0,
     kill_hook_count = 0, filter_mode = 0, hook_access_enabled = 0, hook_openat_enabled = 0,
     hook_kill_enabled = 0, filters = replicate 16 filter_zero, filter_count = 0\<rparr>"

text \<open>
  The kernel functions the module calls itself, beside those of its parts.  \<open>f_hook_wrap\<close> is the
  error of the \<open>n\<close>-th call of the hook functions and \<open>f_copy_to_user\<close> the count of bytes that
  could not be copied.
\<close>

record kpm_api =
  hw_api :: kernel_api
  pr_api :: proc_api
  un_api :: unwind_api
  f_strncpy_from_user :: "u64 \<Rightarrow> char list \<Rightarrow> nat \<Rightarrow> u64 \<times> char list"
  f_copy_to_user :: "u64 \<Rightarrow> char list \<Rightarrow> u64"
  f_hook_wrap :: "nat \<Rightarrow> u64 \<Rightarrow> s32"

datatype callback = CbFaccessat | CbOpenat2 | CbKill

datatype hook_call = HookWrap u64 callback s32 | Unhook u64

record kpm_state =
  ms :: module_state
  hw :: hwbp_state
  procs :: proc_state
  unw :: unwind_state
  g_strncpy_from_user :: u64
  g_print_vma_addr :: u64
  g_arch_copy_to_user :: u64
  g_do_faccessat_addr :: u64
  g_do_sys_openat2_addr :: u64
  g_sys_kill_addr :: u64
  hook_calls :: "hook_call list"

section \<open>Which processes are hooked\<close>

fun occurs_in :: "string \<Rightarrow> string \<Rightarrow> bool" where
  "occurs_in n [] \<longleftrightarrow> n = []"
| "occurs_in n (c # h) \<longleftrightarrow> take (length n) (c # h) = n \<or> occurs_in n h"

text \<open>
  \<open>strstr\<close> in a character array: when the array has no terminator and the name does not occur,
  the search leaves the array.
\<close>

definition strstr_buf :: "char list \<Rightarrow> string \<Rightarrow> bool option" where
  "strstr_buf buf n =
     (if occurs_in n (cstr buf) then Some True else if NUL \<in> set buf then Some False else None)"

fun filter_loop :: "char list \<Rightarrow> s32 \<Rightarrow> s32 \<Rightarrow> filter_entry list \<Rightarrow> s32 option" where
  "filter_loop pkg pid mode [] = Some (if mode = 0 then 0 else 1)"
| "filter_loop pkg pid mode (f # fs) =
     (if flt_active f = 0 then filter_loop pkg pid mode fs
      else if 0 <s flt_pid f \<and> flt_pid f = pid then Some (if mode = 0 then 1 else 0)
      else if flt_name f ! 0 \<noteq> NUL
      then case strstr_buf pkg (cstr (flt_name f)) of
             None \<Rightarrow> None
           | Some True \<Rightarrow> Some (if mode = 0 then 1 else 0)
           | Some False \<Rightarrow> filter_loop pkg pid mode fs
      else filter_loop pkg pid mode fs)"

definition should_hook_process :: "proc_api \<Rightarrow> proc_state \<Rightarrow> module_state \<Rightarrow> u64 \<Rightarrow> s32 option" where
  "should_hook_process k ps m task =
     (let pid = get_process_id k ps task
      in if filter_count m = 0 then Some 1
         else let pkg_name = get_process_cmdline k ps task MAX_NAME_LEN
              in filter_loop pkg_name pid (filter_mode m) (take (nat (sint (filter_count m))) (filters m)))"

section \<open>The callbacks\<close>

text \<open>A line printed: package, process id, then path and mode or descriptor, or target and signal.\<close>

datatype hook_log =
    LogAccess string s32 string s32
  | LogOpenat string s32 string s32
  | LogKill string s32 s32 s32

definition read_path :: "kpm_api \<Rightarrow> kpm_state \<Rightarrow> u64 \<Rightarrow> char list" where
  "read_path k st filename =
     (if g_strncpy_from_user st \<noteq> 0
      then let (ret, buf) = f_strncpy_from_user k filename (replicate 256 NUL) 255
           in if ret <s 0 then c_strncpy 256 ''<read_error>'' buf else buf
      else c_strncpy 256 ''<symbol_missing>'' (replicate 256 NUL))"

text \<open>The end of every callback: the line is logged, then the user stack is printed.\<close>

definition log_and_unwind ::
  "kpm_api \<Rightarrow> u64 \<Rightarrow> pt_regs option \<Rightarrow> hook_log \<Rightarrow> kpm_state
    \<Rightarrow> (hook_log \<times> (nat \<times> u64 \<times> string) list) option \<times> kpm_state" where
  "log_and_unwind k mm regs l st =
     (let (lines, u) = unwind_user_stack_standard (un_api k) mm regs (unw st)
      in (Some (l, lines), st\<lparr>unw := u\<rparr>))"

text \<open>
  \<open>task\<close>, \<open>mm\<close> and \<open>regs\<close> are the current task with its address space and saved registers; the
  result is \<open>None\<close> where the filter's search leaves its buffer.
\<close>

definition before_do_faccessat ::
  "kpm_api \<Rightarrow> u64 \<Rightarrow> u64 \<Rightarrow> pt_regs option \<Rightarrow> u64 \<Rightarrow> u64 \<Rightarrow> kpm_state
    \<Rightarrow> ((hook_log \<times> (nat \<times> u64 \<times> string) list) option \<times> kpm_state) option" where
  "before_do_faccessat k task mm regs arg1 arg2 st =
     (if hook_enabled (ms st) = 0 \<or> hook_access_enabled (ms st) = 0 then Some (None, st)
      else case should_hook_process (pr_api k) (procs st) (ms st) task of None \<Rightarrow> None | Some v \<Rightarrow>
      if v = 0 then Some (None, st)
      else let st1 = st\<lparr>ms := (ms st)\<lparr>access_hook_count := access_hook_count (ms st) + 1\<rparr>\<rparr>;
               path_buf = read_path k st1 arg1;
               pkg_name = get_process_cmdline (pr_api k) (procs st1) task 256
           in Some (log_and_unwind k mm regs
                (LogAccess (cstr pkg_name) (get_process_id (pr_api k) (procs st1) task) (cstr path_buf) (ucast arg2))
                st1))"

definition before_do_sys_openat2 ::
  "kpm_api \<Rightarrow> u64 \<Rightarrow> u64 \<Rightarrow> pt_regs option \<Rightarrow> u64 \<Rightarrow> u64 \<Rightarrow> kpm_state
    \<Rightarrow> ((hook_log \<times> (nat \<times> u64 \<times> string) list) option \<times> kpm_state) option" where
  "before_do_sys_openat2 k task mm regs arg0 arg1 st =
     (if hook_enabled (ms st) = 0 \<or> hook_openat_enabled (ms st) = 0 then Some (None, st)
      else case should_hook_process (pr_api k) (procs st) (ms st) task of None \<Rightarrow> None | Some v \<Rightarrow>
      if v = 0 then Some (None, st)
      else let st1 = st\<lparr>ms := (ms st)\<lparr>openat_hook_count := openat_hook_count (ms st) + 1\<rparr>\<rparr>;
               path_buf = read_path k st1 arg1;
               pkg_name = get_process_cmdline (pr_api k) (procs st1) task 256
           in Some (log_and_unwind k mm regs
                (LogOpenat (cstr pkg_name) (get_process_id (pr_api k) (procs st1) task) (cstr path_buf) (ucast arg0))
                st1))"

text \<open>The hooked system call gets a pointer to its caller's registers: \<open>x0\<close> and \<open>x1\<close> there.\<close>

definition before_sys_kill ::
  "kpm_api \<Rightarrow> u64 \<Rightarrow> u64 \<Rightarrow> pt_regs option \<Rightarrow> u64 \<Rightarrow> u64 \<Rightarrow> kpm_state
    \<Rightarrow> ((hook_log \<times> (nat \<times> u64 \<times> string) list) option \<times> kpm_state) option" where
  "before_sys_kill k task mm regs x0 x1 st =
     (if hook_enabled (ms st) = 0 \<or> hook_kill_enabled (ms st) = 0 then Some (None, st)
      else case should_hook_process (pr_api k) (procs st) (ms st) task of None \<Rightarrow> None | Some v \<Rightarrow>
      if v = 0 then Some (None, st)
      else let target_pid = (ucast x0 :: s32); sig = (ucast x1 :: s32)
      in if target_pid <s - 1 \<or> 99999 <s target_pid then Some (None, st)
      else if sig <s 0 \<or> 64 <s sig then Some (None, st)
      else let st1 = st\<lparr>ms := (ms st)\<lparr>kill_hook_count := kill_hook_count (ms st) + 1\<rparr>\<rparr>;
               pkg_name = get_process_cmdline (pr_api k) (procs st1) task 256
           in Some (log_and_unwind k mm regs
                (LogKill (cstr pkg_name) (get_process_id (pr_api k) (procs st1) task) target_pid sig) st1))"

section \<open>Commands: status\<close>

abbreviation (input) NL :: char where "NL \<equiv> CHR 0x0A"

definition OUT_SIZE :: nat where "OUT_SIZE = 1024"

text \<open>
  \<^verbatim>\<open>len += snprintf(kernel_out + len, sizeof(kernel_out) - len, ...)\<close>: the length counts the whole
  text, the buffer keeps what fits; with \<open>len\<close> past the size the difference wraps around and the
  write is outside.
\<close>

definition out_append :: "string \<Rightarrow> nat \<times> string \<Rightarrow> (nat \<times> string) option" where
  "out_append t ls =
     (case ls of (len, s) \<Rightarrow>
        if OUT_SIZE < len then None
        else if len = OUT_SIZE then Some (len + length t, s)
        else Some (len + length t, take len s @ take (OUT_SIZE - len - 1) t))"

definition out_start :: "string \<Rightarrow> nat \<times> string" where
  "out_start t = (length t, snprintf_str OUT_SIZE t)"

definition status_head :: "module_state \<Rightarrow> string" where
  "status_head m =
     ''enabled='' @ fmt_d (hook_enabled m) @
     NL # ''access_hook='' @ fmt_d (hook_access_enabled m) @
     NL # ''openat_hook='' @ fmt_d (hook_openat_enabled m) @
     NL # ''kill_hook='' @ fmt_d (hook_kill_enabled m) @
     NL # ''access_count='' @ fmt_d (access_hook_count m) @
     NL # ''openat_count='' @ fmt_d (openat_hook_count m) @
     NL # ''kill_count='' @ fmt_d (kill_hook_count m) @
     NL # ''total_hooks='' @ fmt_d (access_hook_count m + openat_hook_count m + kill_hook_count m) @
     NL # ''filter_mode='' @ (if filter_mode m = 0 then ''whitelist'' else ''blacklist'') @
     NL # ''filter_count='' @ fmt_d (filter_count m)"

definition filter_line :: "nat \<Rightarrow> filter_entry \<Rightarrow> string" where
  "filter_line i f =
     (if 0 <s flt_pid f then NL # ''filter['' @ fmt_d (of_nat i) @ '']=pid:'' @ fmt_d (flt_pid f)
      else NL # ''filter['' @ fmt_d (of_nat i) @ '']=name:'' @ cstr (flt_name f))"

fun status_loop :: "nat \<Rightarrow> filter_entry list \<Rightarrow> nat \<times> string \<Rightarrow> (nat \<times> string) option" where
  "status_loop i [] out = Some out"
| "status_loop i (f # fs) out =
     (if fst out < OUT_SIZE - 100
      then if flt_active f \<noteq> 0
           then case out_append (filter_line i f) out of None \<Rightarrow> None | Some out1 \<Rightarrow> status_loop (Suc i) fs out1
           else status_loop (Suc i) fs out
      else Some out)"

definition cmd_get_status :: "module_state \<Rightarrow> string option" where
  "cmd_get_status m =
     map_option snd (status_loop 0 (take (nat (sint (filter_count m))) (filters m)) (out_start (status_head m)))"

section \<open>Commands: filters\<close>

text \<open>The commands that are compared whole and change the module's own settings only.\<close>

definition simple_command :: "string \<Rightarrow> module_state \<Rightarrow> (string \<times> module_state) option" where
  "simple_command c m =
     (if c = ''enable'' then Some (''Hooks enabled'', m\<lparr>hook_enabled := 1\<rparr>)
      else if c = ''disable'' then Some (''Hooks disabled'', m\<lparr>hook_enabled := 0\<rparr>)
      else if c = ''enable_access'' then Some (''Access hook enabled'', m\<lparr>hook_access_enabled := 1\<rparr>)
      else if c = ''disable_access'' then Some (''Access hook disabled'', m\<lparr>hook_access_enabled := 0\<rparr>)
      else if c = ''enable_openat'' then Some (''Openat hook enabled'', m\<lparr>hook_openat_enabled := 1\<rparr>)
      else if c = ''disable_openat'' then Some (''Openat hook disabled'', m\<lparr>hook_openat_enabled := 0\<rparr>)
      else if c = ''enable_kill'' then Some (''Kill hook enabled'', m\<lparr>hook_kill_enabled := 1\<rparr>)
      else if c = ''disable_kill'' then Some (''Kill hook disabled'', m\<lparr>hook_kill_enabled := 0\<rparr>)
      else if c = ''reset_counters''
      then Some (''Counters reset'', m\<lparr>access_hook_count := 0, openat_hook_count := 0, kill_hook_count := 0\<rparr>)
      else if c = ''set_whitelist'' then Some (''Filter mode: whitelist'', m\<lparr>filter_mode := 0\<rparr>)
      else if c = ''set_blacklist'' then Some (''Filter mode: blacklist'', m\<lparr>filter_mode := 1\<rparr>)
      else if c = ''clear_filters''
      then Some (''All filters cleared'', m\<lparr>filter_count := 0,
             filters := map (\<lambda>f. f\<lparr>flt_active := 0, flt_name := (flt_name f)[0 := NUL], flt_pid := 0\<rparr>) (filters m)\<rparr>)
      else None)"

definition upd_filter :: "(filter_entry \<Rightarrow> filter_entry) \<Rightarrow> module_state \<Rightarrow> module_state" where
  "upd_filter g m =
     (let n = nat (sint (filter_count m)) in m\<lparr>filters := (filters m)[n := g (filters m ! n)]\<rparr>)"

text \<open>\<open>spec\<close> is what follows \<open>add_filter:\<close>.\<close>

definition cmd_add_filter :: "string \<Rightarrow> module_state \<Rightarrow> s32 \<times> string \<times> module_state" where
  "cmd_add_filter spec m =
     (if of_nat MAX_FILTERS \<le>s filter_count m then (- ENOMEM, ''Error: Maximum filters reached'', m)
      else if take 5 spec = ''name:''
      then let name = drop 5 spec;
               m1 = upd_filter (\<lambda>f. f\<lparr>flt_name := (c_strncpy 255 name (flt_name f))[255 := NUL],
                       flt_pid := 0, flt_active := 1\<rparr>) m
           in (0, ''Added filter: name='' @ name, m1\<lparr>filter_count := filter_count m1 + 1\<rparr>)
      else if take 4 spec = ''pid:''
      then let (pid, rest) = scan_dec 0 (drop 4 spec)
           in if 0 <s pid
              then let m1 = upd_filter (\<lambda>f. f\<lparr>flt_name := (flt_name f)[0 := NUL],
                              flt_pid := pid, flt_active := 1\<rparr>) m
                   in (0, ''Added filter: pid='' @ fmt_d pid, m1\<lparr>filter_count := filter_count m1 + 1\<rparr>)
              else (- EINVAL, ''Error: Invalid PID'', m)
      else (- EINVAL, ''Error: Invalid filter format'', m))"

section \<open>Commands: breakpoints\<close>

record bp_spec =
  bs_addr :: u64
  bs_type :: s32
  bs_size :: s32
  bs_pid :: s32
  bs_desc :: string

lemma scan_dec_shorter: "length (snd (scan_dec v s)) \<le> length s"
  by (induction v s rule: scan_dec.induct) auto

text \<open>
  The loop over the fields after the address, from the field counter and the string at \<open>p\<close>.
  The type and the size are one character each, taken without a test for the terminator.
\<close>

function bp_fields :: "nat \<Rightarrow> string \<Rightarrow> bp_spec \<Rightarrow> bp_spec option" where
  "bp_fields field p a =
     (if p = [] \<or> hd p \<noteq> CHR '':'' then Some a
      else let q = tl p; n = Suc field
      in if n = 1 then (if q = [] then None
                        else bp_fields n (tl q) (a\<lparr>bs_type := of_nat (code_of (hd q)) - 48\<rparr>))
         else if n = 2 then (if q = [] then None
                             else bp_fields n (tl q) (a\<lparr>bs_size := of_nat (code_of (hd q)) - 48\<rparr>))
         else if n = 3 then (if q \<noteq> [] \<and> is_dec (hd q)
                             then bp_fields n (snd (scan_dec (bs_pid a) q)) (a\<lparr>bs_pid := fst (scan_dec (bs_pid a) q)\<rparr>)
                             else Some (a\<lparr>bs_desc := take 127 q\<rparr>))
         else if n = 4 then Some (a\<lparr>bs_desc := take 127 q\<rparr>)
         else bp_fields n q a)"
  by pat_completeness auto

termination
proof (relation "measure (\<lambda>(n, p, a). length p)", goal_cases)
  case (4 field p a q n)
  then show ?case using scan_dec_shorter[of "bs_pid a" q] by (cases p) auto
qed (auto simp: neq_Nil_conv)

declare bp_fields.simps [simp del]

definition bp_parse :: "string \<Rightarrow> bp_spec option" where
  "bp_parse p =
     (let (addr, rest) = scan_hex 0 (skip_0x p)
      in bp_fields 0 rest \<lparr>bs_addr = addr, bs_type = 0, bs_size = 2, bs_pid = 0, bs_desc = []\<rparr>)"

definition cmd_bp_set :: "kernel_api \<Rightarrow> string \<Rightarrow> hwbp_state \<Rightarrow> (s32 \<times> string \<times> hwbp_state) option" where
  "cmd_bp_set k spec h =
     (case bp_parse spec of None \<Rightarrow> None | Some a \<Rightarrow>
      if bs_addr a = 0 then Some (- EINVAL, ''Error: Invalid address'', h)
      else let (bp_idx, h1) =
             (if 0 <s bs_pid a
              then hw_breakpoint_set_for_pid k (bs_addr a) (bs_type a) (bs_size a) (bs_pid a) (Some (bs_desc a)) h
              else hw_breakpoint_set k (bs_addr a) (bs_type a) (bs_size a) (Some (bs_desc a)) h)
      in if 0 \<le>s bp_idx
         then if 0 <s bs_pid a
              then Some (0, ''Breakpoint['' @ fmt_d bp_idx @ ''] set at 0x'' @ fmt_lx (bs_addr a)
                            @ '' for PID='' @ fmt_d (bs_pid a), h1)
              else Some (0, ''Breakpoint['' @ fmt_d bp_idx @ ''] set at 0x'' @ fmt_lx (bs_addr a)
                            @ '' (system-wide)'', h1)
         else Some (bp_idx, ''Failed to set breakpoint: '' @ fmt_d bp_idx, h1))"

definition cmd_bp_clear :: "string \<Rightarrow> hwbp_state \<Rightarrow> s32 \<times> string \<times> hwbp_state" where
  "cmd_bp_clear idx_str h =
     (let (idx, rest) = scan_dec 0 idx_str;
          (res, h1) = hw_breakpoint_clear idx h
      in if res = 0 then (0, ''Breakpoint['' @ fmt_d idx @ ''] cleared'', h1)
         else (res, ''Failed to clear breakpoint['' @ fmt_d idx @ '']: '' @ fmt_d res, h1))"

definition type_str :: "s32 \<Rightarrow> string" where
  "type_str t = (if t = HW_BP_TYPE_EXEC then ''exec'' else if t = HW_BP_TYPE_WRITE then ''write''
     else if t = HW_BP_TYPE_READ then ''read'' else if t = HW_BP_TYPE_RW then ''rw'' else ''unknown'')"

definition bp_line :: "nat \<Rightarrow> hw_breakpoint \<Rightarrow> string" where
  "bp_line i b =
     CHR ''['' # fmt_d (of_nat i) @ ''] 0x'' @ fmt_lx (bp_addr b) @ '' ('' @ type_str (bp_type b) @ '', '' @
     fmt_d (push_bit (unat (bp_size b)) 1) @ '' bytes, hits:'' @ fmt_d (hit_count b) @ '') '' @
     cstr (description b) @ [NL]"

fun bp_list_loop :: "hwbp_state \<Rightarrow> nat list \<Rightarrow> s32 \<Rightarrow> nat \<times> string \<Rightarrow> (s32 \<times> nat \<times> string) option" where
  "bp_list_loop h [] cnt out = Some (cnt, out)"
| "bp_list_loop h (i # is) cnt out =
     (if fst out < OUT_SIZE - 100
      then case hw_breakpoint_get (of_nat i) h of
             None \<Rightarrow> bp_list_loop h is cnt out
           | Some b \<Rightarrow>
               if enabled b \<noteq> 0
               then case out_append (bp_line i b) out of None \<Rightarrow> None
                    | Some out1 \<Rightarrow> bp_list_loop h is (cnt + 1) out1
               else bp_list_loop h is cnt out
      else Some (cnt, out))"

definition cmd_bp_list :: "hwbp_state \<Rightarrow> string option" where
  "cmd_bp_list h =
     (case bp_list_loop h [0..<MAX_HW_BREAKPOINTS] 0 (out_start (''Hardware Breakpoints:'' @ [NL])) of
        None \<Rightarrow> None
      | Some (cnt, out) \<Rightarrow>
          (case (if cnt = 0 then out_append (''  (none)'' @ [NL]) out else Some out) of None \<Rightarrow> None
           | Some out1 \<Rightarrow>
               map_option snd (out_append (''Total: '' @ fmt_d cnt @ ''/'' @ fmt_d (of_nat MAX_HW_BREAKPOINTS)
                 @ '' slots used'') out1)))"

section \<open>Commands: memory\<close>

record mem_spec =
  mr_pid :: s32
  mr_addr :: u64
  mr_size :: s32

definition mem_parse :: "string \<Rightarrow> mem_spec" where
  "mem_parse s =
     (let (pid, p) = scan_dec 0 s;
          (addr, p1) = (if p \<noteq> [] \<and> hd p = CHR '':'' then scan_hex 0 (skip_0x (tl p)) else (0, p));
          (sz, p2) = (if p1 \<noteq> [] \<and> hd p1 = CHR '':'' then scan_dec 0 (tl p1) else (16, p1))
      in \<lparr>mr_pid = pid, mr_addr = addr, mr_size = sz\<rparr>)"

text \<open>\<open>stack\<close> and \<open>hex_buf\<close> are what the two local arrays held before.\<close>

definition cmd_mem_read ::
  "proc_api \<Rightarrow> u8 list \<Rightarrow> char list \<Rightarrow> string \<Rightarrow> proc_state \<Rightarrow> (s32 \<times> string \<times> proc_state) option" where
  "cmd_mem_read k stack hex_buf s ps =
     (let a = mem_parse s
      in if mr_pid a \<le>s 0 \<or> mr_addr a = 0 then Some (- EINVAL, ''Error: Invalid PID or address'', ps)
         else if mr_size a \<le>s 0 \<or> 256 <s mr_size a then Some (- EINVAL, ''Error: Invalid size (1-256)'', ps)
         else case process_memory_read_hex k stack (mr_pid a) (mr_addr a) (Some hex_buf) 1024 (scast (mr_size a)) ps of
                None \<Rightarrow> None
              | Some (bytes_read, out, ps1) \<Rightarrow>
                  if 0 <s bytes_read
                  then Some (0, ''Read '' @ fmt_d bytes_read @ '' bytes from PID='' @ fmt_d (mr_pid a) @ '' at 0x''
                         @ fmt_lx (mr_addr a) @ '':'' @ NL # (case out of None \<Rightarrow> [] | Some o1 \<Rightarrow> cstr o1), ps1)
                  else Some (bytes_read, ''Failed to read memory from PID='' @ fmt_d (mr_pid a) @ '' at 0x''
                         @ fmt_lx (mr_addr a) @ '': '' @ fmt_d bytes_read, ps1))"

section \<open>Commands: the whole handler\<close>

definition help_lines :: "string list" where
  "help_lines =
     [''Available commands:'',
      ''  get_status        - Get module status'',
      ''  enable            - Enable all hooks'',
      ''  disable           - Disable all hooks'',
      ''  enable_access     - Enable access hook'',
      ''  disable_access    - Disable access hook'',
      ''  enable_openat     - Enable openat hook'',
      ''  disable_openat    - Disable openat hook'',
      ''  enable_kill       - Enable kill hook'',
      ''  disable_kill      - Disable kill hook'',
      ''  reset_counters    - Reset hook counters'',
      ''  set_whitelist     - Set filter mode to whitelist'',
      ''  set_blacklist     - Set filter mode to blacklist'',
      ''  add_filter:name:X - Add name filter'',
      ''  add_filter:pid:X  - Add PID filter'',
      ''  clear_filters     - Clear all filters'',
      ''  bp_set:addr:type:size:pid:desc - Set hardware breakpoint'',
      ''  bp_clear:index    - Clear breakpoint by index'',
      ''  bp_clear_all      - Clear all breakpoints'',
      ''  bp_list           - List all breakpoints'',
      ''  bp_verbose_on     - Enable detailed breakpoint logging'',
      ''  bp_verbose_off    - Disable detailed breakpoint logging'',
      ''  mem_read:pid:addr:size - Read process memory'',
      ''  help              - Show this help'']"

fun join_lines :: "string list \<Rightarrow> string" where
  "join_lines [] = []"
| "join_lines [l] = l"
| "join_lines (l # ls) = l @ NL # join_lines ls"

text \<open>
  The dispatch: the reply as the buffer reads it, the result and the new state.  The commands
  are tried in the order of the code.
\<close>

definition ctl_dispatch ::
  "kpm_api \<Rightarrow> u8 list \<Rightarrow> char list \<Rightarrow> string \<Rightarrow> kpm_state \<Rightarrow> (s32 \<times> string \<times> kpm_state) option" where
  "ctl_dispatch k stack hex_buf c st =
     (let snp = snprintf_str OUT_SIZE in
      if c = ''get_status'' then map_option (\<lambda>t. (0, t, st)) (cmd_get_status (ms st))
      else case simple_command c (ms st) of Some (t, m) \<Rightarrow> Some (0, snp t, st\<lparr>ms := m\<rparr>) | None \<Rightarrow>
      if take 11 c = ''add_filter:''
      then let (r, t, m) = cmd_add_filter (drop 11 c) (ms st) in Some (r, snp t, st\<lparr>ms := m\<rparr>)
      else if take 7 c = ''bp_set:''
      then map_option (\<lambda>(r, t, h). (r, snp t, st\<lparr>hw := h\<rparr>)) (cmd_bp_set (hw_api k) (drop 7 c) (hw st))
      else if take 9 c = ''bp_clear:''
      then let (r, t, h) = cmd_bp_clear (drop 9 c) (hw st) in Some (r, snp t, st\<lparr>hw := h\<rparr>)
      else if c = ''bp_clear_all''
      then Some (0, snp ''All breakpoints cleared'', st\<lparr>hw := hw_breakpoint_clear_all (hw st)\<rparr>)
      else if c = ''bp_verbose_on''
      then Some (0, snp ''Breakpoint verbose mode enabled'', st\<lparr>hw := hw_breakpoint_set_verbose 1 (hw st)\<rparr>)
      else if c = ''bp_verbose_off''
      then Some (0, snp ''Breakpoint verbose mode disabled'', st\<lparr>hw := hw_breakpoint_set_verbose 0 (hw st)\<rparr>)
      else if c = ''bp_list'' then map_option (\<lambda>t. (0, t, st)) (cmd_bp_list (hw st))
      else if take 9 c = ''mem_read:''
      then map_option (\<lambda>(r, t, ps). (r, snp t, st\<lparr>procs := ps\<rparr>))
             (cmd_mem_read (pr_api k) stack hex_buf (drop 9 c) (procs st))
      else if c = ''help'' then Some (0, snp (join_lines help_lines), st)
      else Some (- EINVAL, snp (''Unknown command: '' @ c @ '' (try '' @ CHR 0x27 # ''help'' @ CHR 0x27 # '')''), st))"

text \<open>
  The copy to the user's buffer: the bytes copied (\<open>None\<close> when nothing is) and the result, a
  \<open>long\<close>.
\<close>

definition copy_reply ::
  "kpm_api \<Rightarrow> kpm_state \<Rightarrow> u64 \<Rightarrow> s32 \<Rightarrow> s32 \<Rightarrow> string \<Rightarrow> u64 \<times> char list option" where
  "copy_reply k st out_msg outlen ret reply =
     (if out_msg \<noteq> 0 \<and> 0 <s outlen \<and> g_arch_copy_to_user st \<noteq> 0
      then let n = length reply + 1;
               copy_len = (if nat (sint outlen) < n then nat (sint outlen) else n);
               bytes = take copy_len (reply @ [NUL])
           in if f_copy_to_user k out_msg bytes \<noteq> 0 then (scast (- EFAULT), None)
              else (scast ret, Some bytes)
      else (scast ret, None))"

definition kpm_control ::
  "kpm_api \<Rightarrow> u8 list \<Rightarrow> char list \<Rightarrow> string \<Rightarrow> u64 \<Rightarrow> s32 \<Rightarrow> kpm_state
    \<Rightarrow> ((u64 \<times> char list option) \<times> kpm_state) option" where
  "kpm_control k stack hex_buf ctl_args out_msg outlen st =
     (case ctl_dispatch k stack hex_buf ctl_args st of None \<Rightarrow> None
      | Some (ret, reply, st1) \<Rightarrow> Some (copy_reply k st1 out_msg outlen ret reply, st1))"

section \<open>Initialisation and exit\<close>

text \<open>One call of \<open>hook_wrap1\<close>, \<open>hook_wrap3\<close> or \<open>hook_wrap4\<close>; the result and the call recorded.\<close>

definition hook_wrap_call :: "kpm_api \<Rightarrow> u64 \<Rightarrow> callback \<Rightarrow> kpm_state \<Rightarrow> s32 \<times> kpm_state" where
  "hook_wrap_call k addr cb st =
     (let err = f_hook_wrap k (length (hook_calls st)) addr
      in (err, st\<lparr>hook_calls := HookWrap addr cb err # hook_calls st\<rparr>))"

text \<open>The hook on one of the two names of the function that opens files.\<close>

definition try_openat :: "kpm_api \<Rightarrow> string \<Rightarrow> kpm_state \<Rightarrow> kpm_state" where
  "try_openat k name st =
     (let st1 = st\<lparr>g_do_sys_openat2_addr := kallsyms_lookup_name (hw_api k) name\<rparr>
      in if g_do_sys_openat2_addr st1 \<noteq> 0
         then let (err, st2) = hook_wrap_call k (g_do_sys_openat2_addr st1) CbOpenat2 st1
              in if err \<noteq> 0 then st2\<lparr>g_do_sys_openat2_addr := 0\<rparr> else st2
         else st1)"

definition init_openat :: "kpm_api \<Rightarrow> kpm_state \<Rightarrow> kpm_state" where
  "init_openat k st =
     (let st1 = try_openat k ''do_sys_openat2'' st
      in if g_do_sys_openat2_addr st1 = 0 then try_openat k ''do_sys_open'' st1 else st1)"

definition init_kill :: "kpm_api \<Rightarrow> kpm_state \<Rightarrow> kpm_state" where
  "init_kill k st =
     (let sym = kallsyms_lookup_name (hw_api k);
          a1 = sym ''__arm64_sys_kill'';
          a2 = (if a1 = 0 then sym ''__sys_kill'' else a1);
          a3 = (if a2 = 0 then sym ''sys_kill'' else a2);
          st1 = st\<lparr>g_sys_kill_addr := a3\<rparr>
      in if g_sys_kill_addr st1 \<noteq> 0
         then let (err, s) = hook_wrap_call k (g_sys_kill_addr st1) CbKill st1
              in if err \<noteq> 0 then s\<lparr>g_sys_kill_addr := 0\<rparr> else s
         else st1)"

text \<open>The module's own symbols and its hooks, after the parts have been initialised.\<close>

definition init_hooks :: "kpm_api \<Rightarrow> kpm_state \<Rightarrow> u64 \<times> kpm_state" where
  "init_hooks k st =
     (let sym = kallsyms_lookup_name (hw_api k);
          st1 = st\<lparr>g_strncpy_from_user := sym ''strncpy_from_user'',
            g_print_vma_addr := sym ''print_vma_addr'', g_arch_copy_to_user := sym ''__arch_copy_to_user''\<rparr>
      in if g_arch_copy_to_user st1 = 0 then (- 1, st1) else
      let st2 = st1\<lparr>g_do_faccessat_addr := sym ''do_faccessat''\<rparr>
      in if g_do_faccessat_addr st2 = 0 then (- 1, st2) else
      let (err, st3) = hook_wrap_call k (g_do_faccessat_addr st2) CbFaccessat st2
      in if err \<noteq> 0 then (scast err, st3) else (0, init_kill k (init_openat k st3)))"

definition kpm_init :: "kpm_api \<Rightarrow> kpm_state \<Rightarrow> u64 \<times> kpm_state" where
  "kpm_init k st =
     (case stack_unwind_init (un_api k) (unw st) of (r1, u) \<Rightarrow>
      if r1 \<noteq> 0 then (- 1, st\<lparr>unw := u\<rparr>) else
      case process_info_init (pr_api k) (procs st) of (r2, p) \<Rightarrow>
      if r2 \<noteq> 0 then (- 1, st\<lparr>unw := u, procs := p\<rparr>) else
      case hw_breakpoint_init (hw_api k) (hw st) of (r3, h) \<Rightarrow>
      if r3 \<noteq> 0 then (- 1, st\<lparr>unw := u, procs := p, hw := h\<rparr>) else
      case process_memory_init (pr_api k) p of (r4, p1) \<Rightarrow>
      if r4 \<noteq> 0 then (- 1, st\<lparr>unw := u, procs := p1, hw := h\<rparr>)
      else init_hooks k (st\<lparr>unw := u, procs := p1, hw := h\<rparr>))"

definition unhook_if :: "u64 \<Rightarrow> kpm_state \<Rightarrow> kpm_state" where
  "unhook_if addr st = (if addr \<noteq> 0 then st\<lparr>hook_calls := Unhook addr # hook_calls st\<rparr> else st)"

definition kpm_exit :: "kpm_state \<Rightarrow> u64 \<times> kpm_state" where
  "kpm_exit st =
     (let st1 = st\<lparr>hw := hw_breakpoint_clear_all (hw st)\<rparr>;
          st2 = unhook_if (g_do_faccessat_addr st1) st1;
          st3 = unhook_if (g_do_sys_openat2_addr st2) st2
      in (0, unhook_if (g_sys_kill_addr st3) st3))"

end
