(* ===== verification/Control_Spec.thy ===== *)
theory Control_Spec
  imports Control
begin

text \<open>
  The properties of the module as a whole: the invariant its commands, callbacks and breakpoint
  overflows keep, the meaning of the filters and of the commands that set them, the breakpoint
  command from its text to the call it makes, the replies, and initialisation and exit.
\<close>

section \<open>The filter table\<close>

text \<open>
  Sixteen entries of terminated names; the first \<open>filter_count\<close> are the active ones.
\<close>

definition flt_ok :: "filter_entry \<Rightarrow> bool" where
  "flt_ok f \<longleftrightarrow> length (flt_name f) = 256 \<and> flt_name f ! 255 = NUL"

definition flt_inv :: "module_state \<Rightarrow> bool" where
  "flt_inv m \<longleftrightarrow> length (filters m) = 16 \<and> 0 \<le> sint (filter_count m) \<and> sint (filter_count m) \<le> 16 \<and>
     (\<forall>i<16. flt_ok (filters m ! i) \<and> (flt_active (filters m ! i) \<noteq> 0 \<longleftrightarrow> int i < sint (filter_count m)))"

lemma flt_inv_static: "flt_inv module_static"
  by (simp add: flt_inv_def module_static_def filter_zero_def flt_ok_def)

lemma flt_inv_settings [simp]:
  "flt_inv (m\<lparr>hook_enabled := v\<rparr>) = flt_inv m" "flt_inv (m\<lparr>access_hook_count := v\<rparr>) = flt_inv m"
  "flt_inv (m\<lparr>openat_hook_count := v\<rparr>) = flt_inv m" "flt_inv (m\<lparr>kill_hook_count := v\<rparr>) = flt_inv m"
  "flt_inv (m\<lparr>filter_mode := v\<rparr>) = flt_inv m" "flt_inv (m\<lparr>hook_access_enabled := v\<rparr>) = flt_inv m"
  "flt_inv (m\<lparr>hook_openat_enabled := v\<rparr>) = flt_inv m" "flt_inv (m\<lparr>hook_kill_enabled := v\<rparr>) = flt_inv m"
  by (simp_all add: flt_inv_def)

lemma simple_command_inv [inv_intros]:
  assumes "flt_inv m" and "simple_command c m = Some (t, m')"
  shows "flt_inv m'"
  using assms
  by (auto simp: simple_command_def split: if_splits) (auto simp: flt_inv_def flt_ok_def)

lemma sint_succ: "0 \<le> sint (c :: s32) \<Longrightarrow> sint c < 16 \<Longrightarrow> sint (c + 1) = sint c + 1"
  by (simp add: sint_word_ariths signed_take_bit_int_eq_self)

text \<open>Appending an entry keeps the table: the entry at \<open>filter_count\<close> becomes active.\<close>

lemma append_filter_inv:
  assumes "flt_inv m" and "sint (filter_count m) < 16"
    and g: "\<And>f. flt_ok f \<Longrightarrow> flt_ok (g f) \<and> flt_active (g f) \<noteq> 0"
  shows "flt_inv (upd_filter g m\<lparr>filter_count := filter_count (upd_filter g m) + 1\<rparr>)"
proof -
  have c: "0 \<le> sint (filter_count m)" using assms(1) by (simp add: flt_inv_def)
  define n where "n = nat (sint (filter_count m))"
  have n: "n < 16" "int n = sint (filter_count m)" using assms(2) c by (auto simp: n_def)
  have s: "sint (filter_count m + 1) = int (Suc n)" using sint_succ[OF c assms(2)] n(2) by simp
  show ?thesis
    using assms(1) g n
    by (auto simp: flt_inv_def upd_filter_def Let_def s nth_list_update less_Suc_eq simp flip: n_def)
qed

lemma cmd_add_filter_inv [inv_intros]:
  assumes "flt_inv m"
  shows "flt_inv (snd (snd (cmd_add_filter spec m)))"
proof (cases "of_nat MAX_FILTERS \<le>s filter_count m")
  case False
  then have "sint (filter_count m) < 16" by (simp add: word_sle_eq)
  moreover have "flt_ok f \<Longrightarrow> flt_ok (f\<lparr>flt_name := (c_strncpy 255 name (flt_name f))[255 := NUL], flt_pid := 0, flt_active := 1\<rparr>)"
    for f name by (simp add: flt_ok_def)
  moreover have "flt_ok f \<Longrightarrow> flt_ok (f\<lparr>flt_name := (flt_name f)[0 := NUL], flt_pid := pid, flt_active := 1\<rparr>)"
    for f pid by (simp add: flt_ok_def)
  ultimately show ?thesis
    using assms by (auto simp: cmd_add_filter_def Let_def split: prod.splits intro!: append_filter_inv)
qed (use assms in \<open>simp add: cmd_add_filter_def\<close>)

section \<open>The invariant of the module\<close>

text \<open>
  The filter table, the breakpoint table with the kernel's events, and the counts of what the
  module holds: no address-space lock, no page, no reference on an address space.
\<close>

definition refs_ok :: "proc_state \<Rightarrow> bool" where
  "refs_ok ps \<longleftrightarrow> (g_mmput ps \<noteq> 0 \<or> g_get_task_mm ps = 0 \<longrightarrow> (\<forall>mm. mm_refs ps mm = 0))"

definition kpm_inv :: "kpm_state \<Rightarrow> bool" where
  "kpm_inv st \<longleftrightarrow> flt_inv (ms st) \<and> bp_inv (hw st) \<and> refs_ok (procs st) \<and>
     readers (unw st) = 0 \<and> pages (unw st) = 0"

lemma process_memory_read_frame:
  assumes "process_memory_read k pid addr buf sz st = (ret, buf', st')"
  shows "\<exists>r. st' = st\<lparr>mm_refs := r\<rparr>"
proof -
  have *: "st = st\<lparr>mm_refs := mm_refs st\<rparr>" by simp
  show ?thesis using assms *
    by (auto simp: process_memory_read_def Let_def split: option.splits if_splits prod.splits; metis)
qed

lemma read_hex_state:
  assumes "process_memory_read_hex k stack pid addr out osz rsz st = Some (r, out', st')"
  shows "st' = st \<or> (\<exists>buf b sz. process_memory_read k pid addr buf sz st = (r, b, st'))"
  using assms
  by (auto simp: process_memory_read_hex_def Let_def split: option.splits if_splits prod.splits)

lemma read_refs_ok:
  assumes "process_memory_read k pid addr buf sz st = (ret, b, st')" and "refs_ok st"
  shows "refs_ok st'"
  using process_memory_read_refs(1)[OF assms(1)] process_memory_read_frame[OF assms(1)] assms(2)
  by (auto simp: refs_ok_def)

lemma cmd_mem_read_refs:
  assumes "cmd_mem_read k stack hex s ps = Some (r, t, ps')" and "refs_ok ps"
  shows "refs_ok ps'"
  using assms
  by (auto simp: cmd_mem_read_def Let_def split: if_splits option.splits
      dest!: read_hex_state intro: read_refs_ok)

lemma cmd_bp_set_inv:
  assumes "cmd_bp_set k spec h = Some (r, t, h')" and "bp_inv h" and "good_kernel k"
  shows "bp_inv h'"
proof -
  have *: "bp_inv h'" if "hw_breakpoint_set_for_pid k addr ty sz pid d h = (i, h')" for addr ty sz pid d i
    using hw_breakpoint_set_inv[OF assms(2,3), of addr ty sz pid d] that by simp
  with assms show ?thesis
    by (auto simp: cmd_bp_set_def hw_breakpoint_set_def Let_def split: option.splits if_splits prod.splits)
qed

lemma cmd_bp_clear_inv:
  assumes "cmd_bp_clear spec h = (r, t, h')" and "bp_inv h"
  shows "bp_inv h'"
  using assms hw_breakpoint_clear_inv[OF assms(2)]
  by (auto simp: cmd_bp_clear_def split: if_splits prod.splits) (metis snd_conv)+

lemma ctl_dispatch_inv:
  assumes "ctl_dispatch k stack hex c st = Some (r, t, st')" and "kpm_inv st" and "good_kernel (hw_api k)"
  shows "kpm_inv st'"
proof -
  note inv = assms(2)[unfolded kpm_inv_def]
  have af: "cmd_add_filter x (ms st) = (r, t, m) \<Longrightarrow> flt_inv m" for x r t m
    using cmd_add_filter_inv[of "ms st" x] inv by simp
  show ?thesis
    using assms(1) inv
    by (auto simp: ctl_dispatch_def Let_def kpm_inv_def
        split: if_splits option.splits prod.splits
        dest: af cmd_bp_set_inv[OF _ _ assms(3)] cmd_bp_clear_inv cmd_mem_read_refs
        intro: inv_intros)
qed

text \<open>The callbacks and the other events a running module sees.\<close>

lemma unwind_state_same: "unwind_user_stack_standard k mm regs u = (ls, u') \<Longrightarrow> u' = u"
  by (auto simp: unwind_user_stack_standard_def Let_def split: if_splits dest!: print_frames_all)

lemma log_and_unwind_simp:
  "log_and_unwind k mm regs l st = (Some (l, fst (unwind_user_stack_standard (un_api k) mm regs (unw st))), st)"
  by (auto simp: log_and_unwind_def split: prod.splits dest!: unwind_state_same)

inductive kpm_step :: "kpm_state \<Rightarrow> kpm_state \<Rightarrow> bool" where
  control: "good_kernel (hw_api k) \<Longrightarrow> kpm_control k stack hex c out n st = Some (r, st') \<Longrightarrow> kpm_step st st'"
| access: "before_do_faccessat k task mm regs a1 a2 st = Some (l, st') \<Longrightarrow> kpm_step st st'"
| openat: "before_do_sys_openat2 k task mm regs a0 a1 st = Some (l, st') \<Longrightarrow> kpm_step st st'"
| kill: "before_sys_kill k task mm regs x0 x1 st = Some (l, st') \<Longrightarrow> kpm_step st st'"
| overflow: "kpm_step st (st\<lparr>hw := hw_bp_handler k bp pc (hw st)\<rparr>)"

inductive_cases kpm_stepE: "kpm_step st st'"

definition kpm_static :: "kpm_state \<Rightarrow> bool" where
  "kpm_static st \<longleftrightarrow> ms st = module_static \<and> hw st = hwbp_static \<and> readers (unw st) = 0 \<and> pages (unw st) = 0 \<and>
     (\<forall>mm. mm_refs (procs st) mm = 0) \<and> hook_calls st = []"

inductive kpm_reachable :: "kpm_state \<Rightarrow> bool" where
  init: "kpm_static st0 \<Longrightarrow> kpm_init k st0 = (0, st) \<Longrightarrow> kpm_reachable st"
| step: "kpm_reachable st \<Longrightarrow> kpm_step st st' \<Longrightarrow> kpm_reachable st'"

lemma kpm_step_inv:
  assumes "kpm_step st st'" and "kpm_inv st"
  shows "kpm_inv st'"
  using assms(1)
proof cases
  case (control k stack hex c out n r)
  then show ?thesis
    using assms(2) by (auto simp: kpm_control_def split: option.splits intro: ctl_dispatch_inv)
next
  case access
  then show ?thesis using assms(2)
    by (auto simp: before_do_faccessat_def Let_def kpm_inv_def log_and_unwind_simp split: if_splits option.splits)
next
  case openat
  then show ?thesis using assms(2)
    by (auto simp: before_do_sys_openat2_def Let_def kpm_inv_def log_and_unwind_simp split: if_splits option.splits)
next
  case kill
  then show ?thesis using assms(2)
    by (auto simp: before_sys_kill_def Let_def kpm_inv_def log_and_unwind_simp split: if_splits option.splits)
next
  case overflow
  then show ?thesis using assms(2) by (simp add: kpm_inv_def inv_intros)
qed

lemma try_openat_frame [simp]:
  "ms (try_openat k n s) = ms s" "hw (try_openat k n s) = hw s" "unw (try_openat k n s) = unw s"
  "procs (try_openat k n s) = procs s"
  by (simp_all add: try_openat_def hook_wrap_call_def Let_def)

lemma init_openat_frame [frame_simps]:
  "ms (init_openat k s) = ms s" "hw (init_openat k s) = hw s" "unw (init_openat k s) = unw s"
  "procs (init_openat k s) = procs s"
  by (simp_all add: init_openat_def Let_def)

lemma init_kill_frame [frame_simps]:
  "ms (init_kill k s) = ms s" "hw (init_kill k s) = hw s" "unw (init_kill k s) = unw s"
  "procs (init_kill k s) = procs s"
  by (simp_all add: init_kill_def hook_wrap_call_def Let_def)

lemma init_hooks_parts:
  "init_hooks k s = (r, s') \<Longrightarrow> ms s' = ms s \<and> hw s' = hw s \<and> unw s' = unw s \<and> procs s' = procs s"
  by (auto simp: init_hooks_def Let_def hook_wrap_call_def frame_simps split: if_splits)

lemma kpm_init_parts:
  assumes "kpm_init k st0 = (0, st)"
  shows "\<exists>u p p' h. stack_unwind_init (un_api k) (unw st0) = (0, u) \<and>
    process_info_init (pr_api k) (procs st0) = (0, p) \<and> hw_breakpoint_init (hw_api k) (hw st0) = (0, h) \<and>
    process_memory_init (pr_api k) p = (0, p') \<and> ms st = ms st0 \<and> hw st = h \<and> unw st = u \<and> procs st = p'"
  using assms
  by (auto simp: kpm_init_def split: prod.splits if_splits dest!: init_hooks_parts)

lemma kpm_init_inv:
  assumes "kpm_static st0" and "kpm_init k st0 = (0, st)"
  shows "kpm_inv st"
proof -
  obtain u p p' h where parts: "stack_unwind_init (un_api k) (unw st0) = (0, u)"
      "process_info_init (pr_api k) (procs st0) = (0, p)" "hw_breakpoint_init (hw_api k) (hw st0) = (0, h)"
      "process_memory_init (pr_api k) p = (0, p')" "ms st = ms st0" "hw st = h" "unw st = u" "procs st = p'"
    using kpm_init_parts [OF assms(2)] by blast
  have "readers u = readers (unw st0)" "pages u = pages (unw st0)"
    using parts(1) by (auto simp: stack_unwind_init_def Let_def split: if_splits)
  moreover have "bp_inv h" using parts(3) assms(1) hw_breakpoint_init_inv by (simp add: kpm_static_def)
  moreover have "mm_refs p = mm_refs (procs st0)" using parts(2) by (auto simp: process_info_init_def)
  moreover have "mm_refs p' = mm_refs p"
    using parts(4) by (auto simp: process_memory_init_def Let_def split: if_splits)
  ultimately show ?thesis
    using assms(1) flt_inv_static parts(5-) by (simp add: kpm_inv_def kpm_static_def refs_ok_def)
qed

lemma kpm_reachable_inv: "kpm_reachable st \<Longrightarrow> kpm_inv st"
  by (induction rule: kpm_reachable.induct) (auto intro: kpm_init_inv kpm_step_inv)

section \<open>A concrete module for the witnesses\<close>

definition demo_api :: kpm_api where
  "demo_api = \<lparr>hw_api = demo_kernel, pr_api = demo_proc, un_api = demo_unwind,
     f_strncpy_from_user = (\<lambda>p buf n. (4, c_strncpy n ''/tmp'' buf)), f_copy_to_user = (\<lambda>p b. 0),
     f_hook_wrap = (\<lambda>n a. 0)\<rparr>"

definition demo_kpm0 :: kpm_state where
  "demo_kpm0 = \<lparr>ms = module_static, hw = hwbp_static, procs = demo_proc_state, unw = demo_unwind_state,
     g_strncpy_from_user = 0, g_print_vma_addr = 0, g_arch_copy_to_user = 0, g_do_faccessat_addr = 0,
     g_do_sys_openat2_addr = 0, g_sys_kill_addr = 0, hook_calls = []\<rparr>"

definition demo_kpm :: kpm_state where
  "demo_kpm = snd (kpm_init demo_api demo_kpm0)"

lemma demo_kpm_init: "kpm_init demo_api demo_kpm0 = (0, demo_kpm)"
proof -
  have "fst (kpm_init demo_api demo_kpm0) = 0" by code_simp
  then show ?thesis by (simp add: demo_kpm_def prod_eq_iff)
qed

lemma demo_kpm_static: "kpm_static demo_kpm0"
  by (simp add: kpm_static_def demo_kpm0_def demo_proc_state_def demo_unwind_state_def)

lemma demo_kpm_parts: "ms demo_kpm = module_static" "hw demo_kpm = demo_init"
  using kpm_init_parts [OF demo_kpm_init] demo_init_ok by (auto simp: demo_api_def demo_kpm0_def)

lemma demo_kpm_procs:
  "g_get_cmdline (procs demo_kpm) = 1" "g_task_pid_nr_ns (procs demo_kpm) = 1"
  using kpm_init_parts [OF demo_kpm_init]
  by (auto simp: demo_api_def demo_kpm0_def demo_proc_def process_info_init_def process_memory_init_def Let_def
      split: if_splits)

lemma demo_kpm_reachable: "kpm_reachable demo_kpm"
  by (rule kpm_reachable.init [OF demo_kpm_static demo_kpm_init])

section \<open>Properties of the module\<close>

text \<open>
  C1: in every state the module can reach, by any commands, callbacks and breakpoint overflows
  in any order, the first \<open>filter_count\<close> of the sixteen filters are exactly the active ones and
  every name is terminated; the kernel holds one event for each enabled breakpoint; no
  address-space lock, page or (when \<open>mmput\<close> was found) address-space reference is held.
\<close>

theorem module_invariant:
  assumes "kpm_reachable st"
  shows "(\<forall>i<16. (flt_active (filters (ms st) ! i) \<noteq> 0 \<longleftrightarrow> int i < sint (filter_count (ms st))) \<and>
             NUL \<in> set (flt_name (filters (ms st) ! i))) \<and>
    mset (live (calls (hw st))) = mset (filter (\<lambda>e. e \<noteq> 0) (bp_events (hw st))) \<and>
    readers (unw st) = 0 \<and> pages (unw st) = 0 \<and>
    (g_mmput (procs st) \<noteq> 0 \<longrightarrow> (\<forall>mm. mm_refs (procs st) mm = 0))"
proof -
  have inv: "kpm_inv st" by (rule kpm_reachable_inv [OF assms])
  have "flt_ok f \<Longrightarrow> NUL \<in> set (flt_name f)" for f
    using nth_mem[of 255 "flt_name f"] by (simp add: flt_ok_def)
  with inv show ?thesis
    by (auto simp: kpm_inv_def flt_inv_def bp_inv_def events_live_def refs_ok_def)
qed

theorem module_invariant_witness:
  "kpm_reachable demo_kpm \<and> readers (unw demo_kpm) = 0"
  using module_invariant [OF demo_kpm_reachable] demo_kpm_reachable by simp

section \<open>What the filters mean\<close>

lemma occurs_in_iff: "occurs_in n h \<longleftrightarrow> (\<exists>a b. h = a @ n @ b)"
proof
  show "occurs_in n h \<Longrightarrow> \<exists>a b. h = a @ n @ b"
  proof (induction h)
    case (Cons c h)
    then consider "take (length n) (c # h) = n" | "occurs_in n h" by auto
    then show ?case
    proof cases
      case 1
      then have "c # h = [] @ n @ drop (length n) (c # h)" by (metis append_Nil append_take_drop_id)
      then show ?thesis by blast
    next
      case 2 then show ?thesis using Cons.IH by (metis append_Cons)
    qed
  qed simp
next
  assume "\<exists>a b. h = a @ n @ b"
  then obtain a b where h: "h = a @ n @ b" by blast
  have "occurs_in n h'" if "take (length n) h' = n" for h' using that by (cases h') auto
  then have "occurs_in n (n @ b)" by simp
  then have "occurs_in n (a @ n @ b)" by (induction a) auto
  with h show "occurs_in n h" by simp
qed

text \<open>
  A filter names a process by its number or by a part of its command line; the process is
  filtered when some active entry names it.
\<close>

definition flt_match :: "string \<Rightarrow> s32 \<Rightarrow> filter_entry \<Rightarrow> bool" where
  "flt_match pkg pid f \<longleftrightarrow> flt_active f \<noteq> 0 \<and>
     (0 <s flt_pid f \<and> flt_pid f = pid \<or> cstr (flt_name f) \<noteq> [] \<and> occurs_in (cstr (flt_name f)) pkg)"

definition any_match :: "module_state \<Rightarrow> string \<Rightarrow> s32 \<Rightarrow> bool" where
  "any_match m pkg pid \<longleftrightarrow> (\<exists>i<16. flt_match pkg pid (filters m ! i))"

lemma cstr_empty_iff: "cstr buf = [] \<longleftrightarrow> buf = [] \<or> buf ! 0 = NUL"
  by (cases buf) (auto simp: cstr_def)

lemma filter_loop_spec:
  assumes "NUL \<in> set pkg" and "list_all flt_ok fs"
  shows "filter_loop pkg pid mode fs =
    Some (if (\<exists>f \<in> set fs. flt_match (cstr pkg) pid f) = (mode = 0) then 1 else 0)"
  using assms(2)
proof (induction fs)
  case (Cons f fs)
  have n: "flt_name f \<noteq> []" using Cons.prems by (auto simp: flt_ok_def)
  show ?case
    using Cons assms(1) n
    by (auto simp: flt_match_def strstr_buf_def cstr_empty_iff)
qed simp

lemma active_take:
  assumes "flt_inv m"
  shows "(\<exists>f \<in> set (take (nat (sint (filter_count m))) (filters m)). flt_match pkg pid f) = any_match m pkg pid"
proof -
  define n where "n = nat (sint (filter_count m))"
  have n: "n \<le> 16" "int n = sint (filter_count m)" and len: "length (filters m) = 16"
    and act: "\<And>i. i < 16 \<Longrightarrow> flt_active (filters m ! i) \<noteq> 0 \<longleftrightarrow> i < n"
    using assms by (auto simp: flt_inv_def n_def zless_nat_conj)
  have "(\<exists>f \<in> set (take n (filters m)). P f) \<longleftrightarrow> (\<exists>i<n. P (filters m ! i))" for P
    using n(1) len by (auto simp: set_conv_nth)
  moreover have "(\<exists>i<n. flt_match pkg pid (filters m ! i)) \<longleftrightarrow> any_match m pkg pid"
    unfolding any_match_def by (metis act flt_match_def less_le_trans n(1))
  ultimately show ?thesis by (simp flip: n_def)
qed

text \<open>
  C6: with no filter every process is hooked; otherwise the verdict is what the mode says, for
  every process whose command line is terminated: a whitelist hooks exactly the processes some
  active filter names, a blacklist exactly the others.
\<close>

theorem should_hook_spec:
  assumes "kpm_reachable st" and "NUL \<in> set (get_process_cmdline k (procs st) task 256)"
  shows "should_hook_process k (procs st) (ms st) task =
    Some (if filter_count (ms st) = 0 \<or>
            any_match (ms st) (cstr (get_process_cmdline k (procs st) task 256)) (get_process_id k (procs st) task)
              = (filter_mode (ms st) = 0) then 1 else 0)"
proof -
  have inv: "flt_inv (ms st)" using kpm_reachable_inv [OF assms(1)] by (simp add: kpm_inv_def)
  then have "list_all flt_ok (take (nat (sint (filter_count (ms st)))) (filters (ms st)))"
    by (auto simp: flt_inv_def list_all_length)
  from filter_loop_spec [OF assms(2) this] show ?thesis
    by (simp add: should_hook_process_def Let_def active_take [OF inv])
qed

theorem should_hook_spec_witness:
  "should_hook_process demo_proc (procs demo_kpm) (ms demo_kpm) 32 = Some 1"
proof -
  have 0: "filter_count (ms demo_kpm) = 0" by (simp add: demo_kpm_parts module_static_def)
  have "f_get_cmdline demo_proc 32 (replicate 256 NUL) = (11, c_strncpy 255 ''com.example'' (replicate 256 NUL))"
    by (simp add: demo_proc_def)
  then have "get_process_cmdline demo_proc (procs demo_kpm) 32 256 = c_strncpy 255 ''com.example'' (replicate 256 NUL)"
    by (simp add: get_process_cmdline_def demo_kpm_procs word_sless_alt)
  then have 1: "NUL \<in> set (get_process_cmdline demo_proc (procs demo_kpm) 32 256)"
    by (simp add: c_strncpy_def)
  show ?thesis using should_hook_spec [OF demo_kpm_reachable 1] 0 by simp
qed

lemma append_filter_match:
  assumes "flt_inv m" and "sint (filter_count m) < 16"
  shows "any_match (upd_filter g m\<lparr>filter_count := c\<rparr>) pkg p \<longleftrightarrow>
    any_match m pkg p \<or> flt_match pkg p (g (filters m ! nat (sint (filter_count m))))"
proof -
  define n where "n = nat (sint (filter_count m))"
  have "n < 16" "length (filters m) = 16" "int n = sint (filter_count m)"
    using assms by (auto simp: flt_inv_def n_def)
  then have n: "n < 16" "length (filters m) = 16" "flt_active (filters m ! n) = 0"
    using assms(1) unfolding flt_inv_def by (metis less_irrefl)+
  have "filters (upd_filter g m\<lparr>filter_count := c\<rparr>) = (filters m)[n := g (filters m ! n)]"
    by (simp add: upd_filter_def Let_def n_def)
  moreover have "\<not> flt_match pkg p (filters m ! n)" using n(3) by (simp add: flt_match_def)
  ultimately show ?thesis
    using n by (auto simp: any_match_def nth_list_update simp flip: n_def)
qed

lemma simple_command_add_filter: "simple_command (''add_filter:'' @ spec) m = None"
  by (simp add: simple_command_def)

lemma control_add_filter:
  assumes "kpm_control k stack hex (''add_filter:'' @ spec) out n st = Some (r, st')"
  shows "ms st' = snd (snd (cmd_add_filter spec (ms st)))"
  using assms
  by (auto simp: kpm_control_def ctl_dispatch_def Let_def simple_command_add_filter [simplified] split: prod.splits)

definition pid_filter_cmd :: "nat \<Rightarrow> string" where
  "pid_filter_cmd n = ''add_filter:pid:'' @ nat_str 10 n"

definition name_filter_cmd :: "string \<Rightarrow> string" where
  "name_filter_cmd s = ''add_filter:name:'' @ s"

lemma of_nat_s32_pos: "0 < n \<Longrightarrow> n < 2 ^ 31 \<Longrightarrow> 0 <s (of_nat n :: s32)"
  by (simp add: word_sless_alt signed_of_nat signed_take_bit_int_eq_self)

lemma scan_nat_str: "scan_dec 0 (nat_str 10 n) = (of_nat n, [])"
  using scan_dec_value [OF nat_str_dec, of "[]" n] by (simp add: dec_value_nat_str)

text \<open>
  While there is room, the command \<open>add_filter:pid:\<close> with a decimal number, and
  \<open>add_filter:name:\<close> with a name, extend the set of processes the filters name by exactly the
  process with that number, or by those whose command line contains the (first 255 characters
  of the) name; an empty name adds none.
\<close>

theorem filter_commands_extend:
  assumes "kpm_reachable st" and "sint (filter_count (ms st)) < 16"
    and "kpm_control k stack hex c out outlen st = Some (r, st')"
    and "c = pid_filter_cmd n \<and> 0 < n \<and> n < 2 ^ 31 \<and> named = (\<lambda>pkg pid. pid = of_nat n) \<or>
         c = name_filter_cmd s \<and> no_nul s \<and> named = (\<lambda>pkg pid. s \<noteq> [] \<and> occurs_in (take 255 s) pkg)"
  shows "any_match (ms st') pkg pid \<longleftrightarrow> any_match (ms st) pkg pid \<or> named pkg pid"
proof -
  define m f where "m = ms st" and "f = filters m ! nat (sint (filter_count m))"
  have inv: "flt_inv m" using kpm_reachable_inv [OF assms(1)] by (simp add: kpm_inv_def m_def)
  have lt: "sint (filter_count m) < 16" using assms(2) by (simp add: m_def)
  have f: "length (flt_name f) = 256"
    using inv lt by (auto simp: f_def flt_inv_def flt_ok_def)
  have room: "\<not> of_nat 16 \<le>s filter_count m" using lt by (simp add: word_sle_eq)
  from assms(4) show ?thesis
  proof (elim disjE conjE)
    assume c: "c = pid_filter_cmd n" and n: "0 < n" "n < 2 ^ 31" and h: "named = (\<lambda>pkg pid. pid = of_nat n)"
    have "ms st' = snd (snd (cmd_add_filter (''pid:'' @ nat_str 10 n) m))"
      using control_add_filter [of k stack hex "''pid:'' @ nat_str 10 n" out outlen st r st'] assms(3)
      by (simp add: c pid_filter_cmd_def m_def)
    also have "\<dots> = upd_filter (\<lambda>f. f\<lparr>flt_name := (flt_name f)[0 := NUL], flt_pid := of_nat n, flt_active := 1\<rparr>) m
        \<lparr>filter_count := filter_count m + 1\<rparr>"
      using room of_nat_s32_pos [OF n] by (simp add: cmd_add_filter_def scan_nat_str upd_filter_def Let_def)
    finally show ?thesis
      using of_nat_s32_pos [OF n] f
      by (auto simp: append_filter_match [OF inv lt] flt_match_def h cstr_empty_iff simp flip: f_def m_def)
  next
    assume c: "c = name_filter_cmd s" and s: "no_nul s"
      and h: "named = (\<lambda>pkg pid. s \<noteq> [] \<and> occurs_in (take 255 s) pkg)"
    have "ms st' = snd (snd (cmd_add_filter (''name:'' @ s) m))"
      using control_add_filter [of k stack hex "''name:'' @ s" out outlen st r st'] assms(3)
      by (simp add: c name_filter_cmd_def m_def)
    also have "\<dots> = upd_filter (\<lambda>f. f\<lparr>flt_name := (c_strncpy 255 s (flt_name f))[255 := NUL], flt_pid := 0, flt_active := 1\<rparr>) m
        \<lparr>filter_count := filter_count m + 1\<rparr>"
      using room by (simp add: cmd_add_filter_def upd_filter_def Let_def)
    finally show ?thesis
      using f by (auto simp: append_filter_match [OF inv lt] flt_match_def h cstr_strncpy_terminated s
          simp flip: f_def m_def)
  qed
qed

lemma demo_kpm_copy: "g_arch_copy_to_user demo_kpm = 1"
  by code_simp

lemma demo_add_filter:
  "\<exists>r st'. kpm_control demo_api [] [] (pid_filter_cmd 7) 0 0 demo_kpm = Some (r, st') \<and> hw st' = demo_init"
proof -
  have "ctl_dispatch demo_api [] [] (pid_filter_cmd 7) demo_kpm =
    Some (0, snprintf_str OUT_SIZE (fst (snd (cmd_add_filter (''pid:'' @ nat_str 10 7) (ms demo_kpm)))),
          demo_kpm\<lparr>ms := snd (snd (cmd_add_filter (''pid:'' @ nat_str 10 7) (ms demo_kpm)))\<rparr>)"
    by (simp add: ctl_dispatch_def pid_filter_cmd_def simple_command_add_filter [simplified]
        demo_kpm_parts module_static_def cmd_add_filter_def scan_nat_str of_nat_s32_pos [of 7, simplified] Let_def)
       (simp add: word_sle_eq word_sless_alt)
  then show ?thesis by (simp add: kpm_control_def copy_reply_def demo_kpm_parts)
qed

theorem filter_commands_extend_witness:
  "\<exists>r st'. kpm_control demo_api [] [] (pid_filter_cmd 7) 0 0 demo_kpm = Some (r, st') \<and>
     any_match (ms st') ''sh'' 7 \<and> \<not> any_match (ms demo_kpm) ''sh'' 7"
proof -
  obtain r st' where c: "kpm_control demo_api [] [] (pid_filter_cmd 7) 0 0 demo_kpm = Some (r, st')"
    using demo_add_filter by blast
  have 0: "sint (filter_count (ms demo_kpm)) < 16" by (simp add: demo_kpm_parts module_static_def)
  have "any_match (ms st') ''sh'' 7"
    using filter_commands_extend [OF demo_kpm_reachable 0 c, of 7 "\<lambda>pkg pid. pid = of_nat 7" "[]" "''sh''" 7] by simp
  moreover have "\<not> any_match (ms demo_kpm) ''sh'' 7"
    by (simp add: any_match_def flt_match_def demo_kpm_parts module_static_def filter_zero_def)
  ultimately show ?thesis using c by blast
qed

section \<open>The breakpoint command\<close>

lemma bp_fields_steps:
  "p = [] \<or> hd p \<noteq> CHR '':'' \<Longrightarrow> bp_fields n p a = Some a"
  "bp_fields 0 [CHR '':''] a = None"
  "bp_fields 0 (CHR '':'' # c # r) a = bp_fields 1 r (a\<lparr>bs_type := of_nat (code_of c) - 48\<rparr>)"
  "bp_fields 1 [CHR '':''] a = None"
  "bp_fields 1 (CHR '':'' # c # r) a = bp_fields 2 r (a\<lparr>bs_size := of_nat (code_of c) - 48\<rparr>)"
  "bp_fields 2 (CHR '':'' # q) a =
     (if q \<noteq> [] \<and> is_dec (hd q)
      then bp_fields 3 (snd (scan_dec (bs_pid a) q)) (a\<lparr>bs_pid := fst (scan_dec (bs_pid a) q)\<rparr>)
      else Some (a\<lparr>bs_desc := take 127 q\<rparr>))"
  "bp_fields 3 (CHR '':'' # q) a = Some (a\<lparr>bs_desc := take 127 q\<rparr>)"
  by (subst bp_fields.simps; simp add: Let_def numeral_2_eq_2 numeral_3_eq_3)+

lemma not_hex_colon [simp]: "\<not> is_hex (CHR '':'')" "\<not> is_dec (CHR '':'')"
  by (simp_all add: is_hex_def is_hex_lower_def is_hex_upper_def is_dec_def)

lemma skip_0x_prefix [simp]: "skip_0x (CHR ''0'' # CHR ''x'' # s) = s"
  by (simp add: skip_0x_def)

lemma scan_hex_nat_str:
  "rest = [] \<or> \<not> is_hex (hd rest) \<Longrightarrow> scan_hex 0 (nat_str 16 (unat a) @ rest) = (a, rest)"
  using scan_hex_value [OF nat_str_hex, of rest "unat a"] by (simp add: hex_value_nat_str)

text \<open>The command for a breakpoint of type \<open>t\<close> and size code \<open>s\<close>; \<open>rest\<close> follows the size.\<close>

definition bp_spec_text :: "u64 \<Rightarrow> nat \<Rightarrow> nat \<Rightarrow> string \<Rightarrow> string" where
  "bp_spec_text a t s rest =
     ''0x'' @ nat_str 16 (unat a) @ '':'' @ digit_char t # '':'' @ digit_char s # '':'' @ rest"

lemma digit_value: "t < 10 \<Longrightarrow> of_nat (code_of (digit_char t)) - (48 :: s32) = of_nat t"
  by (simp add: code_digit)

lemma bp_parse_text:
  assumes "t < 10" "s < 10"
  shows "bp_parse (bp_spec_text a t s rest) =
    bp_fields 2 (CHR '':'' # rest) \<lparr>bs_addr = a, bs_type = of_nat t, bs_size = of_nat s, bs_pid = 0, bs_desc = []\<rparr>"
  using assms
  by (simp add: bp_parse_def bp_spec_text_def scan_hex_nat_str bp_fields_steps digit_value del: One_nat_def)

lemma bp_parse_desc:
  assumes "t < 10" "s < 10" "d = [] \<or> \<not> is_dec (hd d)"
  shows "bp_parse (bp_spec_text a t s d) =
    Some \<lparr>bs_addr = a, bs_type = of_nat t, bs_size = of_nat s, bs_pid = 0, bs_desc = take 127 d\<rparr>"
  using assms by (auto simp: bp_parse_text bp_fields_steps)

lemma bp_parse_pid:
  assumes "t < 10" "s < 10"
  shows "bp_parse (bp_spec_text a t s (nat_str 10 p @ '':'' @ d)) =
    Some \<lparr>bs_addr = a, bs_type = of_nat t, bs_size = of_nat s, bs_pid = of_nat p, bs_desc = take 127 d\<rparr>"
proof -
  have h: "is_dec (hd (nat_str 10 p))"
    using nat_str_dec [of p] by (cases "nat_str 10 p") (auto dest: nat_str_ne [THEN notE])
  have sc: "scan_dec 0 (nat_str 10 p @ CHR '':'' # d) = (of_nat p, CHR '':'' # d)"
    using scan_dec_value [OF nat_str_dec, of "CHR '':'' # d" p] by (simp add: dec_value_nat_str)
  show ?thesis
    using assms h by (simp add: bp_parse_text bp_fields_steps sc)
qed

lemma simple_command_bp_set: "simple_command (''bp_set:'' @ spec) m = None"
  by (simp add: simple_command_def)

lemma control_bp_set:
  "ctl_dispatch k stack hex (''bp_set:'' @ spec) st =
     map_option (\<lambda>(r, t, h). (r, snprintf_str OUT_SIZE t, st\<lparr>hw := h\<rparr>)) (cmd_bp_set (hw_api k) spec (hw st))"
  by (simp add: ctl_dispatch_def simple_command_bp_set [simplified])

lemma bp_set_dispatch:
  assumes "a \<noteq> 0" "t < 10" "s < 10"
    and "0 < p \<and> p < 2 ^ 31 \<and> rest = nat_str 10 p @ '':'' @ d \<or> p = 0 \<and> rest = d \<and> (d = [] \<or> \<not> is_dec (hd d))"
    and "hw_breakpoint_set_for_pid (hw_api k) a (of_nat t) (of_nat s) (of_nat p) (Some (take 127 d)) (hw st) = (i, h)"
  shows "\<exists>reply. ctl_dispatch k stack hex (''bp_set:'' @ bp_spec_text a t s rest) st =
    Some (if 0 \<le>s i then 0 else i, reply, st\<lparr>hw := h\<rparr>)"
proof -
  have parse: "bp_parse (bp_spec_text a t s rest) =
      Some \<lparr>bs_addr = a, bs_type = of_nat t, bs_size = of_nat s, bs_pid = of_nat p, bs_desc = take 127 d\<rparr>"
    using assms(4) bp_parse_pid [OF assms(2,3)] bp_parse_desc [OF assms(2,3)] by auto
  have pos: "0 <s (of_nat p :: s32) \<longleftrightarrow> 0 < p"
    using assms(4) of_nat_s32_pos [of p] by auto
  show ?thesis
    unfolding control_bp_set
    using assms(1,4,5) parse by (auto simp: cmd_bp_set_def hw_breakpoint_set_def pos)
qed

text \<open>
  C7: the command \<open>bp_set:0x<addr>:<type>:<size>:<pid>:<desc>\<close> with a positive process number
  makes exactly the call \<open>hw_breakpoint_set_for_pid\<close> with those five values, the description
  cut to 127 characters; without a number, when the description does not start with a digit,
  it makes the call for all processes.  The command's result is the call's error, or 0.
\<close>

theorem bp_set_command_calls:
  assumes "a \<noteq> 0" "t < 10" "s < 10"
    and "0 < p \<and> p < 2 ^ 31 \<and> rest = nat_str 10 p @ '':'' @ d \<or> p = 0 \<and> rest = d \<and> (d = [] \<or> \<not> is_dec (hd d))"
    and "hw_breakpoint_set_for_pid (hw_api k) a (of_nat t) (of_nat s) (of_nat p) (Some (take 127 d)) (hw st) = (i, h)"
  shows "\<exists>reply. ctl_dispatch k stack hex (''bp_set:'' @ bp_spec_text a t s rest) st =
    Some (if 0 \<le>s i then 0 else i, reply, st\<lparr>hw := h\<rparr>)"
  by (rule bp_set_dispatch [OF assms])

theorem bp_set_command_calls_witness:
  "\<exists>reply h. ctl_dispatch demo_api [] [] (''bp_set:'' @ bp_spec_text 0x1000 0 2 (nat_str 10 1234 @ '':'' @ ''main'')) demo_kpm
    = Some (0, reply, demo_kpm\<lparr>hw := h\<rparr>)"
proof -
  define r where "r = hw_breakpoint_set_for_pid demo_kernel 0x1000 0 2 1234 (Some ''main'') demo_init"
  have 0: "fst r = 0" unfolding r_def by code_simp
  have "hw_breakpoint_set_for_pid (hw_api demo_api) 0x1000 (of_nat 0) (of_nat 2) (of_nat 1234) (Some (take 127 ''main''))
      (hw demo_kpm) = (0, snd r)"
    using 0 by (simp add: demo_kpm_parts demo_api_def r_def prod_eq_iff)
  from bp_set_command_calls [OF _ _ _ _ this, of "nat_str 10 1234 @ '':'' @ ''main''" "[]" "[]"]
  show ?thesis by auto
qed

lemma colon_cases:
  obtains "q = [] \<or> hd q \<noteq> CHR '':''" | "q = [CHR '':'']" | c r where "q = CHR '':'' # c # r"
  by (cases q; cases "tl q") auto

text \<open>
  The command reads past the end of its string exactly when the text after the address
  stops at the colon before the type or before the size; every other text is parsed within its
  bounds.
\<close>

theorem bp_set_overread:
  assumes "list_all is_hex ds" and "tail = [] \<or> \<not> is_hex (hd tail)"
  shows "ctl_dispatch k stack hex (''bp_set:0x'' @ ds @ tail) st = None \<longleftrightarrow>
    tail = '':'' \<or> (\<exists>c. tail = [CHR '':'', c, CHR '':''])"
proof -
  have "ctl_dispatch k stack hex (''bp_set:0x'' @ ds @ tail) st = None \<longleftrightarrow> bp_parse (''0x'' @ ds @ tail) = None"
    using control_bp_set [of k stack hex "''0x'' @ ds @ tail" st]
    by (auto simp: cmd_bp_set_def Let_def split: option.splits prod.splits if_splits)
  also have "\<dots> \<longleftrightarrow> bp_fields 0 tail \<lparr>bs_addr = of_nat (hex_value ds), bs_type = 0, bs_size = 2, bs_pid = 0, bs_desc = []\<rparr> = None"
    using scan_hex_value [OF assms] by (simp add: bp_parse_def)
  also have "\<dots> \<longleftrightarrow> tail = '':'' \<or> (\<exists>c. tail = [CHR '':'', c, CHR '':''])"
  proof -
    have three: "bp_fields 3 q b \<noteq> None" for q b
      by (cases "q = [] \<or> hd q \<noteq> CHR '':''") (auto simp: bp_fields_steps neq_Nil_conv)
    have two: "bp_fields 2 q b \<noteq> None" for q b
      using three by (cases "q = [] \<or> hd q \<noteq> CHR '':''") (auto simp: bp_fields_steps neq_Nil_conv)
    have one: "bp_fields 1 q b = None \<longleftrightarrow> q = [CHR '':'']" for q b
      by (rule colon_cases [of q]) (simp_all add: bp_fields_steps two del: One_nat_def, auto simp: bp_fields_steps)
    show ?thesis
      by (rule colon_cases [of tail]) (simp_all add: bp_fields_steps one del: One_nat_def, auto simp: bp_fields_steps)
  qed
  finally show ?thesis .
qed

theorem bp_set_overread_witness:
  "ctl_dispatch demo_api [] [] (''bp_set:0x'' @ ''10'' @ '':'') demo_kpm = None"
proof -
  have "list_all is_hex ''10''" by code_simp
  from bp_set_overread [OF this, of "'':''"] show ?thesis by simp
qed

section \<open>The replies\<close>

definition out_ok :: "nat \<times> string \<Rightarrow> bool" where
  "out_ok out \<longleftrightarrow> length (snd out) \<le> 1023 \<and> (fst out \<le> 1023 \<longrightarrow> length (snd out) = fst out)"

lemma out_append_room:
  "out_ok (n, s) \<Longrightarrow> n \<le> 1023 \<Longrightarrow>
     out_append t (n, s) = Some (n + length t, s @ take (1023 - n) t) \<and> out_ok (n + length t, s @ take (1023 - n) t)"
  by (auto simp: out_append_def OUT_SIZE_def out_ok_def)

lemma out_start_ok: "out_ok (out_start t)"
  by (auto simp: out_start_def out_ok_def snprintf_str_def OUT_SIZE_def)

lemma status_loop_ok: "out_ok out \<Longrightarrow> \<exists>out'. status_loop i fs out = Some out' \<and> out_ok out'"
proof (induction fs arbitrary: i out)
  case (Cons f fs)
  obtain n s where out: "out = (n, s)" by fastforce
  show ?case
  proof (cases "n < OUT_SIZE - 100")
    case True
    then have "n \<le> 1023" by (simp add: OUT_SIZE_def)
    from out_append_room [OF Cons.prems [unfolded out] this, of "filter_line i f"] show ?thesis
      using Cons.IH Cons.prems True by (auto simp: out)
  qed (use Cons.prems out in auto)
qed simp

lemma fmt_d_4: "fmt_d 4 = ''4''"
  by code_simp

lemma length_bp_line:
  assumes "length (description b) = 128"
  shows "length (bp_line i b) \<le> 210"
proof -
  have "length (cstr (description b)) \<le> 128" using assms by (metis cstr_def length_takeWhile_le)
  moreover have "length (type_str (bp_type b)) \<le> 7" by (simp add: type_str_def)
  ultimately show ?thesis
    using length_fmt_d [of "of_nat i"] length_fmt_d [of "push_bit (unat (bp_size b)) 1"]
      length_fmt_d [of "hit_count b"] length_fmt_lx [of "bp_addr b"]
    by (simp add: bp_line_def)
qed

text \<open>The lines of the enabled slots among \<open>is\<close>.\<close>

definition bp_lines :: "hwbp_state \<Rightarrow> nat list \<Rightarrow> string" where
  "bp_lines h is = concat (map (\<lambda>i. bp_line i (breakpoints h ! i)) (filter (\<lambda>i. enabled (breakpoints h ! i) \<noteq> 0) is))"

lemma bp_get_in_range: "i < 4 \<Longrightarrow> hw_breakpoint_get (of_nat i) h = Some (breakpoints h ! i)"
  unfolding less_4 by (auto simp: hw_breakpoint_get_def word_sless_alt word_sle_eq)

lemma bp_list_loop_all:
  assumes "\<forall>i<4. length (description (breakpoints h ! i)) = 128" and "\<forall>i \<in> set is. i < 4"
    and "length s + 210 * length is \<le> 900"
  shows "bp_list_loop h is c (length s, s) =
    Some (c + of_nat (length (filter (\<lambda>i. enabled (breakpoints h ! i) \<noteq> 0) is)),
          length (s @ bp_lines h is), s @ bp_lines h is)"
  using assms(2,3)
proof (induction "is" arbitrary: c s)
  case Nil
  then show ?case by (simp add: bp_lines_def)
next
  case (Cons i "is")
  let ?b = "breakpoints h ! i"
  have l: "length (bp_line i ?b) \<le> 210" using assms(1) Cons.prems(1) by (simp add: length_bp_line)
  have g: "length s < OUT_SIZE - 100" using Cons.prems(2) by (simp add: OUT_SIZE_def)
  have ap: "out_append (bp_line i ?b) (length s, s) = Some (length (s @ bp_line i ?b), s @ bp_line i ?b)"
    using l Cons.prems(2) by (simp add: out_append_def OUT_SIZE_def)
  show ?case
  proof (cases "enabled ?b = 0")
    case True
    then show ?thesis using Cons.IH [of s c] Cons.prems g by (simp add: bp_get_in_range bp_lines_def)
  next
    case False
    have "bp_list_loop h is (c + 1) (length (s @ bp_line i ?b), s @ bp_line i ?b) =
      Some (c + 1 + of_nat (length (filter (\<lambda>i. enabled (breakpoints h ! i) \<noteq> 0) is)),
            length ((s @ bp_line i ?b) @ bp_lines h is), (s @ bp_line i ?b) @ bp_lines h is)"
      by (rule Cons.IH) (use Cons.prems l in auto)
    then show ?thesis using False Cons.prems g ap by (simp add: bp_get_in_range bp_lines_def ac_simps)
  qed
qed

lemma length_bp_lines:
  "\<forall>i \<in> set is. length (description (breakpoints h ! i)) = 128 \<Longrightarrow> length (bp_lines h is) \<le> 210 * length is"
proof (induction "is")
  case (Cons i "is")
  then have "length (bp_line i (breakpoints h ! i)) \<le> 210" by (simp add: length_bp_line)
  with Cons show ?case by (simp add: bp_lines_def)
qed (simp add: bp_lines_def)

text \<open>
  In every reachable state \<open>bp_list\<close> succeeds and prints, untruncated, one line for each
  enabled breakpoint in slot order, or the line for none, and their number.
\<close>

theorem bp_list_complete:
  assumes "kpm_reachable st"
  shows "ctl_dispatch k stack hex ''bp_list'' st =
    (let on = filter (\<lambda>i. enabled (breakpoints (hw st) ! i) \<noteq> 0) [0..<4] in
     Some (0, ''Hardware Breakpoints:'' @ NL # bp_lines (hw st) [0..<4] @ (if on = [] then ''  (none)'' @ [NL] else [])
       @ ''Total: '' @ fmt_d (of_nat (length on)) @ ''/4 slots used'', st))"
proof -
  let ?h = "hw st" let ?hd = "''Hardware Breakpoints:'' @ [NL]"
  define n :: s32 where "n = of_nat (length (filter (\<lambda>i. enabled (breakpoints ?h ! i) \<noteq> 0) [0..<4]))"
  have d: "\<forall>i<4. length (description (breakpoints ?h ! i)) = 128"
    using kpm_reachable_inv [OF assms] by (simp add: kpm_inv_def bp_inv_def bp_wf_def)
  have st: "out_start ?hd = (length ?hd, ?hd)" by (simp add: out_start_def snprintf_str_def OUT_SIZE_def)
  have loop: "bp_list_loop ?h [0..<4] 0 (out_start ?hd) = Some (n, length (?hd @ bp_lines ?h [0..<4]), ?hd @ bp_lines ?h [0..<4])"
    unfolding st using bp_list_loop_all [OF d, of "[0..<4]" ?hd 0] by (simp add: n_def)
  have ln: "length (bp_lines ?h [0..<4]) \<le> 840"
    using length_bp_lines [of "[0..<4]" ?h] d by simp
  have n0: "n = 0 \<longleftrightarrow> filter (\<lambda>i. enabled (breakpoints ?h ! i) \<noteq> 0) [0..<4] = []"
  proof -
    let ?l = "length (filter (\<lambda>i. enabled (breakpoints ?h ! i) \<noteq> 0) [0..<4])"
    have "?l \<le> 4" using length_filter_le [of _ "[0..<4 :: nat]"] by (metis diff_zero length_upt)
    then have "(2 ^ 32 :: nat) dvd ?l \<longleftrightarrow> ?l = 0" by (auto dest: dvd_imp_le)
    then show ?thesis by (simp only: n_def word_of_nat_eq_0_iff) simp
  qed
  have "cmd_bp_list ?h = Some (?hd @ bp_lines ?h [0..<4] @ (if n = 0 then ''  (none)'' @ [NL] else [])
       @ ''Total: '' @ fmt_d n @ ''/4 slots used'')"
    unfolding cmd_bp_list_def loop using ln length_fmt_d [of n] length_fmt_d [of 0]
    by (simp add: out_append_def OUT_SIZE_def fmt_d_4)
  then show ?thesis by (simp add: ctl_dispatch_def simple_command_def Let_def flip: n_def n0)
qed

theorem bp_list_complete_witness:
  "ctl_dispatch demo_api [] [] ''bp_list'' demo_kpm =
    Some (0, ''Hardware Breakpoints:'' @ NL # ''  (none)'' @ NL # ''Total: 0/4 slots used'', demo_kpm)"
proof -
  have "[i \<leftarrow> [0..<4]. enabled (breakpoints demo_init ! i) \<noteq> 0] = []" by code_simp
  moreover have "fmt_d 0 = ''0''" by code_simp
  ultimately show ?thesis
    using bp_list_complete [OF demo_kpm_reachable, of demo_api "[]" "[]"]
    by (simp add: demo_kpm_parts bp_lines_def)
qed

lemma out_append_ok: "out_append t out = Some out' \<Longrightarrow> out_ok out \<Longrightarrow> out_ok out'"
  by (cases out) (auto simp: out_append_def OUT_SIZE_def out_ok_def split: if_splits)

lemma bp_list_loop_ok: "bp_list_loop h is c out = Some (c', out') \<Longrightarrow> out_ok out \<Longrightarrow> out_ok out'"
  by (induction h "is" c out rule: bp_list_loop.induct)
     (auto split: if_splits option.splits dest: out_append_ok)

lemma cmd_bp_list_length:
  assumes "cmd_bp_list h = Some t"
  shows "length t \<le> 1023"
proof -
  obtain c out out1 where l: "bp_list_loop h [0..<4] 0 (out_start (''Hardware Breakpoints:'' @ [NL])) = Some (c, out)"
      and o1: "(if c = 0 then out_append (''  (none)'' @ [NL]) out else Some out) = Some out1"
      and o2: "map_option snd (out_append (''Total: '' @ fmt_d c @ ''/'' @ fmt_d (of_nat 4) @ '' slots used'') out1) = Some t"
    using assms by (auto simp only: cmd_bp_list_def split: option.splits prod.splits)
  have "out_ok out" using bp_list_loop_ok [OF l out_start_ok] .
  with o1 have "out_ok out1" by (auto split: if_splits dest: out_append_ok)
  with o2 show ?thesis by (auto dest!: out_append_ok simp: out_ok_def)
qed

lemma length_snprintf_str: "length (snprintf_str OUT_SIZE t) \<le> 1023"
  by (simp add: snprintf_str_def OUT_SIZE_def)

lemma ctl_dispatch_reply:
  assumes "ctl_dispatch k stack hex c st = Some (r, t, st')"
  shows "length t \<le> 1023"
proof -
  have "cmd_get_status m = Some t \<Longrightarrow> length t \<le> 1023" for m
    using status_loop_ok [OF out_start_ok [of "status_head m"], of 0 "take (nat (sint (filter_count m))) (filters m)"]
    by (auto simp: cmd_get_status_def out_ok_def)
  then show ?thesis
    using assms
    by (auto simp: ctl_dispatch_def Let_def length_snprintf_str split: if_splits option.splits prod.splits
        dest: cmd_bp_list_length)
qed

text \<open>
  Every reply is a string of at most 1023 characters; the bytes copied to the user are that
  string with its terminator, cut to the length the user gave, and nothing is copied without a
  buffer and a positive length.
\<close>

theorem reply_bounds:
  assumes "kpm_control k stack hex c out_msg outlen st = Some ((r, copied), st')"
  shows "case copied of None \<Rightarrow> True
    | Some bytes \<Rightarrow> out_msg \<noteq> 0 \<and> 0 < sint outlen \<and>
        (\<exists>reply. length reply \<le> 1023 \<and> bytes = take (nat (sint outlen)) (reply @ [NUL]))"
proof -
  obtain ret reply where d: "ctl_dispatch k stack hex c st = Some (ret, reply, st')"
      and c: "copy_reply k st' out_msg outlen ret reply = (r, copied)"
    using assms by (auto simp: kpm_control_def split: option.splits)
  with ctl_dispatch_reply [OF d] show ?thesis
    by (cases copied) (auto simp: copy_reply_def Let_def word_sless_alt split: if_splits intro!: exI [of _ reply])
qed

theorem reply_bounds_witness:
  "\<exists>r b st'. kpm_control demo_api [] [] ''enable'' 8 4 demo_kpm = Some ((r, Some b), st') \<and> length b \<le> 4"
proof -
  have "\<exists>r b st'. kpm_control demo_api [] [] ''enable'' 8 4 demo_kpm = Some ((r, Some b), st')"
    using demo_kpm_copy
    by (simp add: kpm_control_def ctl_dispatch_def simple_command_def copy_reply_def Let_def word_sless_alt)
       (simp add: demo_api_def)
  then obtain r b st' where k: "kpm_control demo_api [] [] ''enable'' 8 4 demo_kpm = Some ((r, Some b), st')" by blast
  from reply_bounds [OF k] have "length b \<le> 4" by auto
  with k show ?thesis by blast
qed

section \<open>Hooks from initialisation to exit\<close>

definition wrapped :: "kpm_state \<Rightarrow> u64 set" where
  "wrapped st = {a. \<exists>cb. HookWrap a cb 0 \<in> set (hook_calls st)}"

definition hooks_inv :: "kpm_state \<Rightarrow> bool" where
  "hooks_inv st \<longleftrightarrow> 0 \<notin> wrapped st \<and>
     wrapped st \<subseteq> {g_do_faccessat_addr st, g_do_sys_openat2_addr st, g_sys_kill_addr st}"

lemma wrapped_call:
  "hook_wrap_call k a cb s = (err, s') \<Longrightarrow> wrapped s' = (if err = 0 then insert a (wrapped s) else wrapped s) \<and>
     g_do_faccessat_addr s' = g_do_faccessat_addr s \<and> g_do_sys_openat2_addr s' = g_do_sys_openat2_addr s \<and>
     g_sys_kill_addr s' = g_sys_kill_addr s"
  by (auto simp: hook_wrap_call_def wrapped_def Let_def)

lemma wrapped_fields [simp]:
  "wrapped (s\<lparr>g_do_faccessat_addr := v\<rparr>) = wrapped s" "wrapped (s\<lparr>g_do_sys_openat2_addr := v\<rparr>) = wrapped s"
  "wrapped (s\<lparr>g_sys_kill_addr := v\<rparr>) = wrapped s" "wrapped (s\<lparr>g_strncpy_from_user := v\<rparr>) = wrapped s"
  "wrapped (s\<lparr>g_print_vma_addr := v\<rparr>) = wrapped s" "wrapped (s\<lparr>g_arch_copy_to_user := v\<rparr>) = wrapped s"
  "wrapped (s\<lparr>unw := u\<rparr>) = wrapped s" "wrapped (s\<lparr>procs := p\<rparr>) = wrapped s" "wrapped (s\<lparr>hw := h\<rparr>) = wrapped s"
  by (simp_all add: wrapped_def)

lemma try_openat_wrapped:
  assumes "wrapped s \<subseteq> {g_do_faccessat_addr s}" and "0 \<notin> wrapped s"
  shows "0 \<notin> wrapped (try_openat k n s)" and "g_do_faccessat_addr (try_openat k n s) = g_do_faccessat_addr s"
    and "wrapped (try_openat k n s) \<subseteq> {g_do_faccessat_addr s} \<union>
      (if g_do_sys_openat2_addr (try_openat k n s) = 0 then {} else {g_do_sys_openat2_addr (try_openat k n s)})"
  using assms by (auto simp: try_openat_def Let_def dest!: wrapped_call split: prod.splits if_splits)

lemma init_openat_wrapped:
  assumes "wrapped s \<subseteq> {g_do_faccessat_addr s}" and "0 \<notin> wrapped s"
  shows "0 \<notin> wrapped (init_openat k s) \<and>
    wrapped (init_openat k s) \<subseteq> {g_do_faccessat_addr (init_openat k s), g_do_sys_openat2_addr (init_openat k s)}"
proof -
  define s1 where "s1 = try_openat k ''do_sys_openat2'' s"
  note 1 = try_openat_wrapped [OF assms, of k "''do_sys_openat2''", folded s1_def]
  show ?thesis
  proof (cases "g_do_sys_openat2_addr s1 = 0")
    case True
    then have "wrapped s1 \<subseteq> {g_do_faccessat_addr s1}" using 1 by auto
    from try_openat_wrapped [OF this 1(1), of k "''do_sys_open''"] True show ?thesis
      by (auto simp: init_openat_def Let_def simp flip: s1_def split: if_splits)
  qed (use 1 in \<open>auto simp: init_openat_def Let_def simp flip: s1_def\<close>)
qed

lemma init_kill_wrapped:
  assumes "wrapped s \<subseteq> {g_do_faccessat_addr s, g_do_sys_openat2_addr s}" and "0 \<notin> wrapped s"
  shows "hooks_inv (init_kill k s)"
proof -
  define s1 where "s1 = s\<lparr>g_sys_kill_addr :=
    (let sym = kallsyms_lookup_name (hw_api k); a1 = sym ''__arm64_sys_kill'';
         a2 = (if a1 = 0 then sym ''__sys_kill'' else a1) in if a2 = 0 then sym ''sys_kill'' else a2)\<rparr>"
  have "init_kill k s = (if g_sys_kill_addr s1 \<noteq> 0
      then let (err, s2) = hook_wrap_call k (g_sys_kill_addr s1) CbKill s1
           in if err \<noteq> 0 then s2\<lparr>g_sys_kill_addr := 0\<rparr> else s2 else s1)"
    by (simp add: init_kill_def s1_def Let_def)
  moreover have "wrapped s1 \<subseteq> {g_do_faccessat_addr s1, g_do_sys_openat2_addr s1}" "0 \<notin> wrapped s1"
    using assms by (simp_all add: s1_def)
  ultimately show ?thesis
    by (auto simp: hooks_inv_def Let_def dest!: wrapped_call split: prod.splits if_splits)
qed

lemma init_hooks_inv:
  assumes "init_hooks k s = (0, s')" and "wrapped s = {}"
  shows "hooks_inv s'"
proof -
  obtain s2 s3 where s2: "wrapped s2 = {}" "g_do_faccessat_addr s2 \<noteq> 0"
      and s3: "hook_wrap_call k (g_do_faccessat_addr s2) CbFaccessat s2 = (0, s3)"
      and s': "s' = init_kill k (init_openat k s3)"
  proof -
    define s2 where "s2 = s\<lparr>g_strncpy_from_user := kallsyms_lookup_name (hw_api k) ''strncpy_from_user'',
      g_print_vma_addr := kallsyms_lookup_name (hw_api k) ''print_vma_addr'',
      g_arch_copy_to_user := kallsyms_lookup_name (hw_api k) ''__arch_copy_to_user'',
      g_do_faccessat_addr := kallsyms_lookup_name (hw_api k) ''do_faccessat''\<rparr>"
    obtain err s3 where c: "hook_wrap_call k (g_do_faccessat_addr s2) CbFaccessat s2 = (err, s3)" by fastforce
    have "g_do_faccessat_addr s2 \<noteq> 0 \<and> err = 0 \<and> s' = init_kill k (init_openat k s3)"
      using assms(1) c scast_eq_0 [of err]
      by (simp add: init_hooks_def Let_def s2_def split: if_splits)
    moreover have "wrapped s2 = {}" using assms(2) by (simp add: s2_def)
    ultimately show thesis using that c by blast
  qed
  have "wrapped s3 \<subseteq> {g_do_faccessat_addr s3}" "0 \<notin> wrapped s3"
    using wrapped_call [OF s3] s2 by auto
  from init_openat_wrapped [OF this, of k] show ?thesis unfolding s' by (intro init_kill_wrapped) auto
qed

lemma kpm_init_hooks:
  assumes "kpm_static st0" and "kpm_init k st0 = (0, st)"
  shows "hooks_inv st"
  using assms
  by (auto simp: kpm_init_def kpm_static_def wrapped_def split: prod.splits if_splits intro!: init_hooks_inv)

lemma ctl_dispatch_hooks:
  "ctl_dispatch k stack hex c st = Some (r, t, st') \<Longrightarrow> hook_calls st' = hook_calls st \<and>
     g_do_faccessat_addr st' = g_do_faccessat_addr st \<and> g_do_sys_openat2_addr st' = g_do_sys_openat2_addr st \<and>
     g_sys_kill_addr st' = g_sys_kill_addr st"
  by (auto simp: ctl_dispatch_def Let_def split: if_splits option.splits prod.splits)

lemma kpm_step_hooks:
  assumes "kpm_step st st'"
  shows "hook_calls st' = hook_calls st \<and>
     g_do_faccessat_addr st' = g_do_faccessat_addr st \<and> g_do_sys_openat2_addr st' = g_do_sys_openat2_addr st \<and>
     g_sys_kill_addr st' = g_sys_kill_addr st"
  using assms
proof cases
  case control
  then show ?thesis by (auto simp: kpm_control_def split: option.splits dest: ctl_dispatch_hooks)
qed (auto simp: before_do_faccessat_def before_do_sys_openat2_def before_sys_kill_def Let_def log_and_unwind_simp
      split: if_splits option.splits)

lemma kpm_reachable_hooks: "kpm_reachable st \<Longrightarrow> hooks_inv st"
proof (induction rule: kpm_reachable.induct)
  case (step st st')
  then show ?case using kpm_step_hooks [OF step.hyps(2)] by (simp add: hooks_inv_def wrapped_def)
qed (rule kpm_init_hooks)

text \<open>
  C9: after \<open>kpm_exit\<close> the kernel holds no breakpoint event of the module, and every address
  the module ever hooked has been unhooked.
\<close>

theorem module_exit_releases:
  assumes "kpm_reachable st" and "kpm_exit st = (r, st')"
  shows "live (calls (hw st')) = [] \<and> (\<forall>a \<in> wrapped st. Unhook a \<in> set (hook_calls st'))"
proof -
  have hk: "hw st' = hw_breakpoint_clear_all (hw st)"
    using assms(2) by (auto simp: kpm_exit_def unhook_if_def Let_def)
  have inv: "bp_inv (hw st)" using kpm_reachable_inv [OF assms(1)] by (simp add: kpm_inv_def)
  have "Unhook a \<in> set (hook_calls st')" if "a \<in> wrapped st" for a
  proof -
    have "a \<noteq> 0 \<and> (a = g_do_faccessat_addr st \<or> a = g_do_sys_openat2_addr st \<or> a = g_sys_kill_addr st)"
      using kpm_reachable_hooks [OF assms(1)] that by (auto simp: hooks_inv_def)
    then show ?thesis using assms(2) by (auto simp: kpm_exit_def unhook_if_def Let_def)
  qed
  with hk show ?thesis using clear_all_live [OF inv] by simp
qed

theorem module_exit_releases_witness:
  "kpm_reachable demo_kpm \<and> live (calls (hw (snd (kpm_exit demo_kpm)))) = []"
  using module_exit_releases [OF demo_kpm_reachable, of "fst (kpm_exit demo_kpm)" "snd (kpm_exit demo_kpm)"]
    demo_kpm_reachable by simp

end
