(* ===== verification/Kpm_Cli.thy ===== *)
theory Kpm_Cli
  imports Control_Spec
begin

text \<open>
  \<^verbatim>\<open>userspace/jni/kpm_control.c\<close>: the program that turns a command line into one command string
  for the module, and the round trip from its arguments to the call the module makes.  The
  supercalls it issues (\<^verbatim>\<open>sc_ready\<close>, \<^verbatim>\<open>sc_kpm_control\<close>) are parameters.
\<close>

section \<open>Building the command\<close>

text \<open>\<^verbatim>\<open>snprintf (full_command, 512, \<dots>)\<close>.\<close>

definition full_command :: "string \<Rightarrow> string" where
  "full_command s = snprintf_str 512 s"

text \<open>The test whether an optional argument is a number: every character a digit.\<close>

fun is_number :: "string \<Rightarrow> bool" where
  "is_number [] = True"
| "is_number (c # cs) = (if code_of c < 48 \<or> 57 < code_of c then False else is_number cs)"

text \<open>\<open>None\<close> where an argument is missing and the program prints its usage.\<close>

definition build_bp_set :: "string list \<Rightarrow> string option" where
  "build_bp_set argv =
     (let argc = length argv; f = (\<lambda>i. '':'' @ argv ! i) in
      if argc < 6 then None
      else if 8 \<le> argc
      then Some (full_command (''bp_set'' @ f 3 @ f 4 @ f 5 @ f 6 @ f 7))
      else if 7 \<le> argc
      then if is_number (argv ! 6) then Some (full_command (''bp_set'' @ f 3 @ f 4 @ f 5 @ f 6 @ '':''))
           else Some (full_command (''bp_set'' @ f 3 @ f 4 @ f 5 @ f 6))
      else Some (full_command (''bp_set'' @ f 3 @ f 4 @ f 5 @ '':'')))"

definition build_command :: "string list \<Rightarrow> string option" where
  "build_command argv =
     (let argc = length argv; command = argv ! 2 in
      if command = ''add_name''
      then if argc < 4 then None else Some (full_command (''add_filter:name:'' @ argv ! 3))
      else if command = ''add_pid''
      then if argc < 4 then None else Some (full_command (''add_filter:pid:'' @ argv ! 3))
      else if command = ''bp_set'' then build_bp_set argv
      else if command = ''bp_clear''
      then if argc < 4 then None else Some (full_command (''bp_clear:'' @ argv ! 3))
      else if command = ''mem_read''
      then if argc < 6 then None
           else Some (full_command (''mem_read:'' @ argv ! 3 @ '':'' @ argv ! 4 @ '':'' @ argv ! 5))
      else Some command)"

text \<open>
  The program: its exit status and the message printed, the supercalls given as functions of
  the key and the command.
\<close>

definition cli_main ::
  "(string \<Rightarrow> bool) \<Rightarrow> (string \<Rightarrow> string \<Rightarrow> u64 \<times> string) \<Rightarrow> string list \<Rightarrow> nat \<times> string option" where
  "cli_main sc_ready sc_kpm_control argv =
     (if length argv < 3 then (1, None)
      else let key = argv ! 1
      in if \<not> sc_ready key then (1, None)
      else case build_command argv of None \<Rightarrow> (1, None) | Some command \<Rightarrow>
      (let (ret, out_msg) = sc_kpm_control key command
       in if ret <s 0 then (1, None) else (0, Some out_msg)))"

section \<open>From the arguments to the call\<close>

lemma is_number_iff: "is_number s \<longleftrightarrow> list_all is_dec s"
  by (induction s) (auto simp: is_dec_def)

lemma full_command_id: "length s < 512 \<Longrightarrow> full_command s = s"
  by (simp add: full_command_def snprintf_str_def)

definition hex_arg :: "u64 \<Rightarrow> string" where
  "hex_arg a = ''0x'' @ nat_str 16 (unat a)"

lemma build_bp_set_pid:
  assumes "length (''bp_set:'' @ bp_spec_text a t s (nat_str 10 p @ '':'' @ d)) < 512"
  shows "build_command [prog, key, ''bp_set'', hex_arg a, [digit_char t], [digit_char s], nat_str 10 p, d]
    = Some (''bp_set:'' @ bp_spec_text a t s (nat_str 10 p @ '':'' @ d))"
  using assms full_command_id [OF assms]
  by (simp add: build_command_def build_bp_set_def Let_def hex_arg_def bp_spec_text_def)

lemma build_bp_set_desc:
  assumes "length (''bp_set:'' @ bp_spec_text a t s d) < 512" and "\<not> is_number d"
  shows "build_command [prog, key, ''bp_set'', hex_arg a, [digit_char t], [digit_char s], d]
    = Some (''bp_set:'' @ bp_spec_text a t s d)"
  using assms(2) full_command_id [OF assms(1)]
  by (simp add: build_command_def build_bp_set_def Let_def hex_arg_def bp_spec_text_def)

text \<open>Only the value of the address counts, not how its digits are written.\<close>

lemma bp_parse_hex_text:
  assumes "list_all is_hex ds" "t < 10" "s < 10"
  shows "bp_parse (''0x'' @ ds @ '':'' @ digit_char t # '':'' @ digit_char s # '':'' @ rest) =
    bp_parse (bp_spec_text (of_nat (hex_value ds)) t s rest)"
proof -
  have "scan_hex 0 (ds @ '':'' @ digit_char t # '':'' @ digit_char s # '':'' @ rest) =
      (of_nat (hex_value ds) :: u64, '':'' @ digit_char t # '':'' @ digit_char s # '':'' @ rest)"
    using scan_hex_value [OF assms(1), of "'':'' @ digit_char t # '':'' @ digit_char s # '':'' @ rest"] by simp
  then show ?thesis
    using assms(2,3) by (simp add: bp_parse_text, simp add: bp_parse_def bp_fields_steps digit_value del: One_nat_def)
qed

lemma is_number_nat_str: "is_number (nat_str 10 p)"
  using nat_str_dec [of p] by (simp add: is_number_iff)

text \<open>
  C8: a request \<open>bp_set <address> <type> <size> [<pid>] [<description>]\<close> on the command line, its address
  in hexadecimal digits behind \<open>0x\<close>, type and size one digit each, the process number positive, and the
  description free unless no process number precedes it, when it must not be empty or start with a digit: the
  command built from it makes the module call \<open>hw_breakpoint_set_for_pid\<close> with that address, type,
  size and process (0, for all, when there is none), and the description cut to 127
  characters; the call's error is the result of the command.
\<close>

theorem cli_bp_set_roundtrip:
  assumes "list_all is_hex ds" "length ds < 64" "a = of_nat (hex_value ds)" "a \<noteq> 0" "t < 10" "s < 10" "p < 2 ^ 31" "length d < 400"
    and "0 < p \<and> (args = [nat_str 10 p, d] \<or> args = [nat_str 10 p] \<and> d = []) \<or>
         p = 0 \<and> (args = [d] \<and> d \<noteq> [] \<and> \<not> is_dec (hd d) \<or> args = [] \<and> d = [])"
    and "hw_breakpoint_set_for_pid (hw_api k) a (of_nat t) (of_nat s) (of_nat p) (Some (take 127 d)) (hw st) = (i, h)"
  shows "\<exists>c reply. build_command ([prog, key, ''bp_set'', ''0x'' @ ds, [digit_char t], [digit_char s]] @ args) = Some c \<and>
    ctl_dispatch k stack hex c st = Some (if 0 \<le>s i then 0 else i, reply, st\<lparr>hw := h\<rparr>)"
proof -
  define rest where "rest = (if 0 < p then nat_str 10 p @ '':'' @ d else d)"
  let ?text = "''0x'' @ ds @ '':'' @ digit_char t # '':'' @ digit_char s # '':'' @ rest"
  have "length (nat_str 10 p) \<le> 10" using length_nat_str [of 10 p 9] assms(7) by simp
  then have fits: "length (''bp_set:'' @ ?text) < 512" using assms(2,8) by (simp add: rest_def)
  have not_number: "d \<noteq> [] \<Longrightarrow> \<not> is_dec (hd d) \<Longrightarrow> \<not> is_number d"
    by (cases d) (simp_all add: is_number_iff)
  have "build_command ([prog, key, ''bp_set'', ''0x'' @ ds, [digit_char t], [digit_char s]] @ args) = Some (''bp_set:'' @ ?text)"
    using assms(9) full_command_id [OF fits] not_number
    by (auto simp: build_command_def build_bp_set_def Let_def rest_def is_number_nat_str)
  moreover have "0 < p \<and> p < 2 ^ 31 \<and> rest = nat_str 10 p @ '':'' @ d \<or> p = 0 \<and> rest = d \<and> (d = [] \<or> \<not> is_dec (hd d))"
    using assms(7,9) by (auto simp: rest_def)
  from bp_set_dispatch [OF assms(4-6) this assms(10)]
  have "\<exists>reply. ctl_dispatch k stack hex (''bp_set:'' @ ?text) st = Some (if 0 \<le>s i then 0 else i, reply, st\<lparr>hw := h\<rparr>)"
    unfolding control_bp_set cmd_bp_set_def bp_parse_hex_text [OF assms(1,5,6)] assms(3) .
  ultimately show ?thesis by blast
qed

theorem cli_bp_set_roundtrip_witness:
  "\<exists>c reply h. build_command [''kpm'', ''su'', ''bp_set'', ''0xFf00'', [digit_char 0], [digit_char 2], ''main:1''] = Some c \<and>
    ctl_dispatch demo_api [] [] c demo_kpm = Some (0, reply, demo_kpm\<lparr>hw := h\<rparr>)"
proof -
  define r where "r = hw_breakpoint_set_for_pid demo_kernel 0xff00 0 2 0 (Some ''main:1'') demo_init"
  have 0: "fst r = 0" unfolding r_def by code_simp
  have v: "hex_value ''Ff00'' = 65280"
    by (simp add: hex_value_def hex_val_def is_dec_def is_hex_lower_def is_hex_upper_def)
  have ds: "list_all is_hex ''Ff00''" "\<not> is_dec CHR ''m''"
    by (simp_all add: is_hex_def is_dec_def is_hex_lower_def is_hex_upper_def)
  have a: "(0xff00 :: u64) = of_nat (hex_value ''Ff00'')" by (simp add: v)
  have "hw_breakpoint_set_for_pid (hw_api demo_api) 0xff00 (of_nat 0) (of_nat 2) (of_nat 0) (Some (take 127 ''main:1''))
      (hw demo_kpm) = (0, snd r)"
    using 0 by (simp add: demo_kpm_parts demo_api_def r_def prod_eq_iff)
  note r = cli_bp_set_roundtrip [OF ds(1) _ a _ _ _ _ _ _ this, of "[''main:1'']" "''kpm''" "''su''" "[]" "[]"]
  have "\<exists>c reply. build_command ([''kpm'', ''su'', ''bp_set'', ''0x'' @ ''Ff00'', [digit_char 0], [digit_char 2]] @ [''main:1'']) = Some c \<and>
      ctl_dispatch demo_api [] [] c demo_kpm = Some (if 0 \<le>s (0 :: s32) then 0 else 0, reply, demo_kpm\<lparr>hw := snd r\<rparr>)"
    by (rule r) (simp_all add: ds(2))
  then show ?thesis by (simp only: append.simps if_cancel) blast
qed

text \<open>
  A description that starts with digits but is not a number (as \<open>4chan\<close>) is passed by the
  program as a description without a process number, and the module takes its leading digits
  for a process number: the breakpoint is set for that process, without a description.
\<close>

theorem cli_digit_description_becomes_pid:
  assumes "a \<noteq> 0" "t < 10" "s < 10" "0 < p" "p < 2 ^ 31" "length d < 400" "\<not> is_dec x" "x \<noteq> CHR '':''"
    and "hw_breakpoint_set_for_pid (hw_api k) a (of_nat t) (of_nat s) (of_nat p) (Some []) (hw st) = (i, h)"
  shows "\<exists>c reply. build_command [prog, key, ''bp_set'', hex_arg a, [digit_char t], [digit_char s], nat_str 10 p @ x # d] = Some c \<and>
    ctl_dispatch k stack hex c st = Some (if 0 \<le>s i then 0 else i, reply, st\<lparr>hw := h\<rparr>)"
proof -
  let ?d = "nat_str 10 p @ x # d"
  have "length (nat_str 10 p) \<le> 10" using length_nat_str [of 10 p 9] assms(5) by simp
  moreover have "length (nat_str 16 (unat a)) \<le> 16"
    using length_nat_str [of 16 "unat a" 15] unat_bounds(3) [of a] by simp
  ultimately have len: "length (''bp_set:'' @ bp_spec_text a t s ?d) < 512"
    using assms(6) by (simp add: bp_spec_text_def)
  have "\<not> is_number ?d" using assms(7) by (simp add: is_number_iff)
  from build_bp_set_desc [OF len this]
  have b: "build_command [prog, key, ''bp_set'', hex_arg a, [digit_char t], [digit_char s], ?d]
      = Some (''bp_set:'' @ bp_spec_text a t s ?d)" .
  have h: "is_dec (hd ?d)"
    using nat_str_dec [of p] by (cases "nat_str 10 p") auto
  have sc: "scan_dec 0 ?d = (of_nat p, x # d)"
    using scan_dec_value [OF nat_str_dec, of "x # d" p] assms(7) by (simp add: dec_value_nat_str)
  have "bp_parse (bp_spec_text a t s ?d) =
      Some \<lparr>bs_addr = a, bs_type = of_nat t, bs_size = of_nat s, bs_pid = of_nat p, bs_desc = []\<rparr>"
    using assms(2,3,8) h by (simp add: bp_parse_text bp_fields_steps sc)
  then have "\<exists>reply. ctl_dispatch k stack hex (''bp_set:'' @ bp_spec_text a t s ?d) st =
      Some (if 0 \<le>s i then 0 else i, reply, st\<lparr>hw := h\<rparr>)"
    unfolding control_bp_set using assms(1,9) of_nat_s32_pos [OF assms(4,5)]
    by (auto simp: cmd_bp_set_def)
  with b show ?thesis by blast
qed

theorem cli_digit_description_becomes_pid_witness:
  "\<exists>c reply h. build_command [''kpm'', ''su'', ''bp_set'', hex_arg 0x1000, [digit_char 0], [digit_char 2], nat_str 10 1234 @ ''th''] = Some c \<and>
    ctl_dispatch demo_api [] [] c demo_kpm = Some (0, reply, demo_kpm\<lparr>hw := h\<rparr>)"
proof -
  define r where "r = hw_breakpoint_set_for_pid demo_kernel 0x1000 0 2 1234 (Some []) demo_init"
  have 0: "fst r = 0" unfolding r_def by code_simp
  have "hw_breakpoint_set_for_pid (hw_api demo_api) 0x1000 (of_nat 0) (of_nat 2) (of_nat 1234) (Some []) (hw demo_kpm) = (0, snd r)"
    using 0 by (simp add: demo_kpm_parts demo_api_def r_def prod_eq_iff)
  from cli_digit_description_becomes_pid [OF _ _ _ _ _ _ _ _ this, of "''h''" "CHR ''t''" "''kpm''" "''su''" "[]" "[]"]
  show ?thesis by (auto simp: is_dec_def)
qed

end
