(* ===== verification/Relocate.thy ===== *)
theory Relocate
  imports Prelude
begin

text \<open>
  The relocation of instructions in \<^verbatim>\<open>kernel/base/hook.c\<close>: the instructions at the start of a
  hooked function, which the jump to its replacement overwrites, are rewritten so that they do
  the same at another address.  Each routine yields the words it writes; \<open>relocate_inst\<close> puts
  them into the hook's array, \<open>None\<close> where they leave it.
\<close>

section \<open>Constants and data\<close>

abbreviation (input) HOOK_BAD_ADDRESS :: s32 where "HOOK_BAD_ADDRESS \<equiv> 4095"
abbreviation (input) HOOK_DUPLICATED :: s32 where "HOOK_DUPLICATED \<equiv> 4094"
abbreviation (input) HOOK_NO_MEM :: s32 where "HOOK_NO_MEM \<equiv> 4093"
abbreviation (input) HOOK_BAD_RELO :: s32 where "HOOK_BAD_RELO \<equiv> 4092"
abbreviation (input) HOOK_TRANSIT_NO_MEM :: s32 where "HOOK_TRANSIT_NO_MEM \<equiv> 4091"
abbreviation (input) HOOK_CHAIN_FULL :: s32 where "HOOK_CHAIN_FULL \<equiv> 4090"

abbreviation (input) TRAMPOLINE_MAX_NUM :: nat where "TRAMPOLINE_MAX_NUM \<equiv> 6"
abbreviation (input) RELOCATE_INST_NUM :: nat where "RELOCATE_INST_NUM \<equiv> 36"

definition ARM64_NOP :: u32 where "ARM64_NOP = 0xd503201f"
definition ARM64_BTI_C :: u32 where "ARM64_BTI_C = 0xd503245f"
definition ARM64_BTI_J :: u32 where "ARM64_BTI_J = 0xd503249f"
definition ARM64_BTI_JC :: u32 where "ARM64_BTI_JC = 0xd50324df"
definition ARM64_PACIASP :: u32 where "ARM64_PACIASP = 0xd503233f"
definition ARM64_PACIBSP :: u32 where "ARM64_PACIBSP = 0xd503237f"

abbreviation (input) INST_B :: u32 where "INST_B \<equiv> 0x14000000"
abbreviation (input) INST_BC :: u32 where "INST_BC \<equiv> 0x54000000"
abbreviation (input) INST_BL :: u32 where "INST_BL \<equiv> 0x94000000"
abbreviation (input) INST_ADR :: u32 where "INST_ADR \<equiv> 0x10000000"
abbreviation (input) INST_ADRP :: u32 where "INST_ADRP \<equiv> 0x90000000"
abbreviation (input) INST_LDR_32 :: u32 where "INST_LDR_32 \<equiv> 0x18000000"
abbreviation (input) INST_LDR_64 :: u32 where "INST_LDR_64 \<equiv> 0x58000000"
abbreviation (input) INST_LDRSW_LIT :: u32 where "INST_LDRSW_LIT \<equiv> 0x98000000"
abbreviation (input) INST_PRFM_LIT :: u32 where "INST_PRFM_LIT \<equiv> 0xD8000000"
abbreviation (input) INST_LDR_SIMD_32 :: u32 where "INST_LDR_SIMD_32 \<equiv> 0x1C000000"
abbreviation (input) INST_LDR_SIMD_64 :: u32 where "INST_LDR_SIMD_64 \<equiv> 0x5C000000"
abbreviation (input) INST_LDR_SIMD_128 :: u32 where "INST_LDR_SIMD_128 \<equiv> 0x9C000000"
abbreviation (input) INST_CBZ :: u32 where "INST_CBZ \<equiv> 0x34000000"
abbreviation (input) INST_CBNZ :: u32 where "INST_CBNZ \<equiv> 0x35000000"
abbreviation (input) INST_TBZ :: u32 where "INST_TBZ \<equiv> 0x36000000"
abbreviation (input) INST_TBNZ :: u32 where "INST_TBNZ \<equiv> 0x37000000"
abbreviation (input) INST_IGNORE :: u32 where "INST_IGNORE \<equiv> 0"

text \<open>Mask, type and length of the relocated code, in the order they are tried.\<close>

definition inst_table :: "(u32 \<times> u32 \<times> nat) list" where
  "inst_table =
     [(0xFC000000, INST_B, 6), (0xFF000010, INST_BC, 8), (0xFC000000, INST_BL, 8),
      (0x9F000000, INST_ADR, 4), (0x9F000000, INST_ADRP, 4), (0xFF000000, INST_LDR_32, 6),
      (0xFF000000, INST_LDR_64, 6), (0xFF000000, INST_LDRSW_LIT, 6), (0xFF000000, INST_PRFM_LIT, 8),
      (0xFF000000, INST_LDR_SIMD_32, 8), (0xFF000000, INST_LDR_SIMD_64, 8), (0xFF000000, INST_LDR_SIMD_128, 8),
      (0x7F000000, INST_CBZ, 6), (0x7F000000, INST_CBNZ, 6), (0x7F000000, INST_TBZ, 6),
      (0x7F000000, INST_TBNZ, 6), (0, INST_IGNORE, 2)]"

record hook_t =
  func_addr :: u64
  origin_addr :: u64
  replace_addr :: u64
  relo_addr :: u64
  tramp_insts_num :: nat
  relo_insts_num :: nat
  origin_insts :: "u32 list"
  tramp_insts :: "u32 list"
  relo_insts :: "u32 list"

definition hook_zero :: hook_t where
  "hook_zero = \<lparr>func_addr = 0, origin_addr = 0, replace_addr = 0, relo_addr = 0, tramp_insts_num = 0,
     relo_insts_num = 0, origin_insts = replicate 6 0, tramp_insts = replicate 6 0, relo_insts = replicate 36 0\<rparr>"

section \<open>Bit fields\<close>

definition bits32 :: "u32 \<Rightarrow> nat \<Rightarrow> nat \<Rightarrow> u32" where
  "bits32 n high low = drop_bit (31 - high + low) (push_bit (31 - high) n)"

definition sign64_extend :: "u64 \<Rightarrow> nat \<Rightarrow> u64" where
  "sign64_extend n len =
     (if drop_bit 63 (push_bit (63 - (len - 1)) n) \<noteq> 0 then n OR push_bit len 0xFFFFFFFFFFFFFFFF else n)"

section \<open>Addresses inside the overwritten instructions\<close>

definition is_in_tramp :: "hook_t \<Rightarrow> u64 \<Rightarrow> bool" where
  "is_in_tramp h addr =
     (let tramp_start = origin_addr h; tramp_end = tramp_start + of_nat (tramp_insts_num h * 4)
      in tramp_start \<le> addr \<and> addr < tramp_end)"

definition inst_entry :: "u32 \<Rightarrow> (u32 \<times> u32 \<times> nat) option" where
  "inst_entry inst = find (\<lambda>(msk, type, len). inst AND msk = type) inst_table"

text \<open>The address of the relocated copy of an overwritten instruction; other addresses stay.\<close>

definition relo_in_tramp :: "hook_t \<Rightarrow> u64 \<Rightarrow> u64" where
  "relo_in_tramp h addr =
     (let tramp_start = origin_addr h; tramp_end = tramp_start + of_nat (tramp_insts_num h * 4)
      in if \<not> (tramp_start \<le> addr \<and> addr < tramp_end) then addr
         else let addr_inst_index = unat (addr - tramp_start) div 4
              in fold (\<lambda>i fix_addr. case inst_entry (origin_insts h ! i) of
                         Some (msk, type, len) \<Rightarrow> fix_addr + of_nat (len * 4) | None \<Rightarrow> fix_addr)
                   [0..<addr_inst_index] (relo_addr h))"

section \<open>The relocated code of each kind of instruction\<close>

definition addr_lo :: "u64 \<Rightarrow> u32" where "addr_lo a = ucast (a AND 0xFFFFFFFF)"
definition addr_hi :: "u64 \<Rightarrow> u32" where "addr_hi a = ucast (drop_bit 32 a)"

definition relo_b :: "hook_t \<Rightarrow> u64 \<Rightarrow> u32 \<Rightarrow> u32 \<Rightarrow> u32 list" where
  "relo_b h inst_addr inst type =
     (let imm64 = (if type = INST_BC
            then sign64_extend (push_bit 2 (ucast (bits32 inst 23 5))) 21
            else sign64_extend (push_bit 2 (ucast (bits32 inst 25 0))) 28);
          addr = relo_in_tramp h (inst_addr + imm64)
      in (if type = INST_BC then [(inst AND 0xFF00001F) OR 0x40, 0x14000006] else []) @
         [0x58000051, 0x14000003, addr_lo addr, addr_hi addr] @
         (if type = INST_BL then [0x1000001E, 0x910033DE, 0xD65F0220] else [0xD65F0220]) @
         [ARM64_NOP])"

definition relo_adr :: "hook_t \<Rightarrow> u64 \<Rightarrow> u32 \<Rightarrow> u32 \<Rightarrow> s32 + u32 list" where
  "relo_adr h inst_addr inst type =
     (let xd = bits32 inst 4 0;
          immlo = (ucast (bits32 inst 30 29) :: u64);
          immhi = (ucast (bits32 inst 23 5) :: u64);
          addr = (if type = INST_ADR
            then inst_addr + sign64_extend (push_bit 2 immhi OR immlo) 21
            else (inst_addr + sign64_extend (push_bit 14 immhi OR push_bit 12 immlo) 33) AND 0xFFFFFFFFFFFFF000)
      in if type \<noteq> INST_ADR \<and> is_in_tramp h addr then Inl (- HOOK_BAD_RELO)
         else Inr [0x58000040 OR xd, 0x14000003, addr_lo addr, addr_hi addr])"

definition relo_ldr :: "hook_t \<Rightarrow> u64 \<Rightarrow> u32 \<Rightarrow> u32 \<Rightarrow> s32 + u32 list" where
  "relo_ldr h inst_addr inst type =
     (let rt = bits32 inst 4 0;
          offset = sign64_extend (push_bit 2 (ucast (bits32 inst 23 5))) 21;
          addr = inst_addr + offset
      in if is_in_tramp h addr \<and> type \<noteq> INST_PRFM_LIT then Inl (- HOOK_BAD_RELO)
         else let addr = relo_in_tramp h addr
         in if type = INST_LDR_32 \<or> type = INST_LDR_64 \<or> type = INST_LDRSW_LIT
         then Inr [0x58000060 OR rt,
                   (if type = INST_LDR_32 then 0xB9400000 OR rt OR push_bit 5 rt
                    else if type = INST_LDR_64 then 0xF9400000 OR rt OR push_bit 5 rt
                    else 0xB9800000 OR rt OR push_bit 5 rt),
                   0x14000004, ARM64_NOP, addr_lo addr, addr_hi addr]
         else Inr [0xA93F47F0, 0x58000091,
                   (if type = INST_PRFM_LIT then 0xF9800220 OR rt
                    else if type = INST_LDR_SIMD_32 then 0xBD400220 OR rt
                    else if type = INST_LDR_SIMD_64 then 0xFD400220 OR rt
                    else 0x3DC00220 OR rt),
                   0xF85F83F1, 0x14000004, ARM64_NOP, addr_lo addr, addr_hi addr])"

definition relo_cb :: "hook_t \<Rightarrow> u64 \<Rightarrow> u32 \<Rightarrow> u32 list" where
  "relo_cb h inst_addr inst =
     (let offset = sign64_extend (push_bit 2 (ucast (bits32 inst 23 5))) 21;
          addr = relo_in_tramp h (inst_addr + offset)
      in [(inst AND 0xFF00001F) OR 0x40, 0x14000005, 0x58000051, 0xD65F0220, addr_lo addr, addr_hi addr])"

definition relo_tb :: "hook_t \<Rightarrow> u64 \<Rightarrow> u32 \<Rightarrow> u32 list" where
  "relo_tb h inst_addr inst =
     (let offset = sign64_extend (push_bit 2 (ucast (bits32 inst 18 5))) 16;
          addr = relo_in_tramp h (inst_addr + offset)
      in [(inst AND 0xFFF8001F) OR 0x40, 0x14000005, 0x58000051, 0xd61f0220, addr_lo addr, addr_hi addr])"

definition relo_ignore :: "u32 \<Rightarrow> u32 list" where
  "relo_ignore inst = [inst, ARM64_NOP]"

section \<open>Relocating one instruction\<close>

text \<open>The switch on the type: the error or the words written.\<close>

definition relo_words :: "hook_t \<Rightarrow> u64 \<Rightarrow> u32 \<Rightarrow> u32 \<Rightarrow> s32 + u32 list" where
  "relo_words h inst_addr inst it =
     (if it = INST_B \<or> it = INST_BC \<or> it = INST_BL then Inr (relo_b h inst_addr inst it)
      else if it = INST_ADR \<or> it = INST_ADRP then relo_adr h inst_addr inst it
      else if it = INST_LDR_32 \<or> it = INST_LDR_64 \<or> it = INST_LDRSW_LIT \<or> it = INST_PRFM_LIT \<or>
              it = INST_LDR_SIMD_32 \<or> it = INST_LDR_SIMD_64 \<or> it = INST_LDR_SIMD_128
      then relo_ldr h inst_addr inst it
      else if it = INST_CBZ \<or> it = INST_CBNZ then Inr (relo_cb h inst_addr inst)
      else if it = INST_TBZ \<or> it = INST_TBNZ then Inr (relo_tb h inst_addr inst)
      else Inr (relo_ignore inst))"

definition put_words :: "nat \<Rightarrow> u32 list \<Rightarrow> u32 list \<Rightarrow> u32 list option" where
  "put_words pos ws arr =
     (if pos + length ws \<le> length arr then Some (take pos arr @ ws @ drop (pos + length ws) arr) else None)"

definition relocate_inst :: "hook_t \<Rightarrow> u64 \<Rightarrow> u32 \<Rightarrow> (s32 \<times> hook_t) option" where
  "relocate_inst h inst_addr inst =
     (let (it, len) = (case inst_entry inst of Some (msk, type, len) \<Rightarrow> (type, len) | None \<Rightarrow> (INST_IGNORE, 1))
      in case relo_words h inst_addr inst it of
           Inl err \<Rightarrow> Some (err, h\<lparr>relo_insts_num := relo_insts_num h + len\<rparr>)
         | Inr ws \<Rightarrow>
             (case put_words (relo_insts_num h) ws (relo_insts h) of None \<Rightarrow> None
              | Some arr \<Rightarrow> Some (0, h\<lparr>relo_insts := arr, relo_insts_num := relo_insts_num h + len\<rparr>)))"

section \<open>Branches to absolute addresses\<close>

definition can_b_rel :: "u64 \<Rightarrow> u64 \<Rightarrow> bool" where
  "can_b_rel src dst = (src \<le> dst \<and> dst - src \<le> 0x8000000 \<or> dst \<le> src \<and> src - dst \<le> 0x8000000)"

definition branch_relative :: "u64 \<Rightarrow> u64 \<Rightarrow> u32 list" where
  "branch_relative src dst =
     (if can_b_rel src dst
      then [0x14000000 OR ucast (drop_bit 2 ((dst - src) AND 0x0FFFFFFF)), ARM64_NOP] else [])"

definition branch_absolute :: "u64 \<Rightarrow> u32 list" where
  "branch_absolute addr = [0x58000051, 0xd61f0220, addr_lo addr, addr_hi addr]"

definition ret_absolute :: "u64 \<Rightarrow> u32 list" where
  "ret_absolute addr = [0x58000051, 0xD65F0220, addr_lo addr, addr_hi addr]"

definition branch_from_to :: "u64 \<Rightarrow> u64 \<Rightarrow> u32 list" where
  "branch_from_to src dst = ret_absolute dst"

section \<open>Lemmas\<close>

lemma inst_entry_total: "inst_entry inst \<noteq> None"
  by (simp add: inst_entry_def inst_table_def)

definition relo_len_of :: "u32 \<Rightarrow> nat" where
  "relo_len_of inst = (case inst_entry inst of Some (msk, type, len) \<Rightarrow> len | None \<Rightarrow> 1)"

definition inst_type :: "u32 \<Rightarrow> u32" where
  "inst_type inst = (case inst_entry inst of Some (msk, type, len) \<Rightarrow> type | None \<Rightarrow> INST_IGNORE)"

lemma inst_entry_cases:
  obtains m t l where "inst_entry inst = Some (m, t, l)" "(m, t, l) \<in> set inst_table" "inst AND m = t"
proof -
  obtain m t l where e: "inst_entry inst = Some (m, t, l)" using inst_entry_total [of inst] by auto
  then have "(m, t, l) \<in> set inst_table" "inst AND m = t"
    unfolding inst_entry_def by (auto simp: find_Some_iff set_conv_nth)
  with e that show thesis by blast
qed

text \<open>The code written is as long as the table says.\<close>

lemma relo_words_length:
  "relo_words h a inst (inst_type inst) = Inr ws \<Longrightarrow> length ws = relo_len_of inst"
  by (rule inst_entry_cases [of inst])
     (auto simp: inst_table_def inst_type_def relo_len_of_def relo_words_def relo_b_def relo_adr_def
       relo_ldr_def relo_cb_def relo_tb_def relo_ignore_def Let_def split: if_splits)

lemma relo_len_bounds: "2 \<le> relo_len_of inst" "relo_len_of inst \<le> 8"
  by (rule inst_entry_cases [of inst]; auto simp: inst_table_def relo_len_of_def)+

lemma relocate_inst_eq:
  "relocate_inst h a inst =
     (case relo_words h a inst (inst_type inst) of
        Inl err \<Rightarrow> Some (err, h\<lparr>relo_insts_num := relo_insts_num h + relo_len_of inst\<rparr>)
      | Inr ws \<Rightarrow>
          (case put_words (relo_insts_num h) ws (relo_insts h) of None \<Rightarrow> None
           | Some arr \<Rightarrow> Some (0, h\<lparr>relo_insts := arr, relo_insts_num := relo_insts_num h + relo_len_of inst\<rparr>)))"
  by (rule inst_entry_cases [of inst]) (simp add: relocate_inst_def relo_len_of_def inst_type_def split: sum.split option.split)

text \<open>The relocated address of the \<open>i\<close>-th overwritten instruction.\<close>

definition relo_pos :: "hook_t \<Rightarrow> nat \<Rightarrow> nat" where
  "relo_pos h i = sum_list (map relo_len_of (take i (origin_insts h)))"

lemma relo_fold:
  "i \<le> length (origin_insts h) \<Longrightarrow>
   fold (\<lambda>i a. case inst_entry (origin_insts h ! i) of
           Some (msk, type, len) \<Rightarrow> a + of_nat (len * 4) | None \<Rightarrow> a) [0..<i] b =
   b + of_nat (relo_pos h i * 4)"
proof (induction i)
  case (Suc i)
  obtain m t l where e: "inst_entry (origin_insts h ! i) = Some (m, t, l)" by (rule inst_entry_cases)
  with Suc show ?case
    by (simp add: relo_pos_def take_Suc_conv_app_nth relo_len_of_def algebra_simps)
qed (simp add: relo_pos_def)

end
