(* ===== verification/A64.thy ===== *)
theory A64
  imports Relocate
begin

text \<open>
  The processor's instructions that the relocated code is made of, as an executable step
  function on a program counter, the general registers and the condition flags, after the
  architecture's definition of these encodings; and the proofs that the code written by the
  routines of \<^verbatim>\<open>hook.c\<close> does what the instruction it replaces would have done.
\<close>

section \<open>A fragment of the instruction set\<close>

record cpu =
  pc :: u64
  xr :: "nat \<Rightarrow> u64"
  cond_holds :: "u32 \<Rightarrow> bool"

text \<open>The field of \<open>w\<close> bits from bit \<open>lo\<close>, and a sign-extended one scaled by four.\<close>

definition field :: "u32 \<Rightarrow> nat \<Rightarrow> nat \<Rightarrow> u32" where
  "field i lo w = take_bit w (drop_bit lo i)"

definition offset :: "u32 \<Rightarrow> nat \<Rightarrow> nat \<Rightarrow> u64" where
  "offset i lo w = signed_take_bit (w + 1) (push_bit 2 (ucast (field i lo w)))"

definition reg :: "cpu \<Rightarrow> u32 \<Rightarrow> u64" where
  "reg c r = (if r = 31 then 0 else xr c (unat r))"

definition set_reg :: "u32 \<Rightarrow> u64 \<Rightarrow> cpu \<Rightarrow> cpu" where
  "set_reg r v c = (if r = 31 then c else c\<lparr>xr := (xr c)(unat r := v)\<rparr>)"

definition goto :: "u64 \<Rightarrow> cpu \<Rightarrow> cpu" where
  "goto a c = c\<lparr>pc := a\<rparr>"

definition read64 :: "(u64 \<Rightarrow> u32) \<Rightarrow> u64 \<Rightarrow> u64" where
  "read64 m a = ucast (m a) OR push_bit 32 (ucast (m (a + 4)))"

definition a64_exec :: "(u64 \<Rightarrow> u32) \<Rightarrow> u32 \<Rightarrow> cpu \<Rightarrow> cpu option" where
  "a64_exec m i c =
     (let next = pc c + 4; rd = field i 0 5; rn = field i 5 5 in
      if i AND 0xFC000000 = 0x14000000 then Some (goto (pc c + offset i 0 26) c) \<comment> \<open>B\<close>
      else if i AND 0xFC000000 = 0x94000000 then Some (goto (pc c + offset i 0 26) (set_reg 30 next c)) \<comment> \<open>BL\<close>
      else if i AND 0xFF000010 = 0x54000000 \<comment> \<open>B.cond\<close>
      then Some (goto (if cond_holds c (field i 0 4) then pc c + offset i 5 19 else next) c)
      else if i AND 0x7E000000 = 0x34000000 \<comment> \<open>CBZ, CBNZ\<close>
      then let v = (if bit i 31 then reg c rd else take_bit 32 (reg c rd))
           in Some (goto (if (v = 0) \<noteq> bit i 24 then pc c + offset i 5 19 else next) c)
      else if i AND 0x7E000000 = 0x36000000 \<comment> \<open>TBZ, TBNZ\<close>
      then let b = bit (reg c rd) (unat (field i 19 5) + (if bit i 31 then 32 else 0))
           in Some (goto (if b = bit i 24 then pc c + offset i 5 14 else next) c)
      else if i AND 0x9F000000 = 0x10000000 \<comment> \<open>ADR\<close>
      then Some (goto next (set_reg rd
             (pc c + signed_take_bit 20 (push_bit 2 (ucast (field i 5 19)) OR ucast (field i 29 2))) c))
      else if i AND 0x9F000000 = 0x90000000 \<comment> \<open>ADRP\<close>
      then Some (goto next (set_reg rd
             ((pc c AND NOT 0xFFF) +
              signed_take_bit 32 (push_bit 14 (ucast (field i 5 19)) OR push_bit 12 (ucast (field i 29 2)))) c))
      else if i AND 0xFF000000 = 0x58000000 \<comment> \<open>LDR Xt, label\<close>
      then Some (goto next (set_reg rd (read64 m (pc c + offset i 5 19)) c))
      else if i AND 0xFFC00000 = 0x91000000 \<and> rd \<noteq> 31 \<and> rn \<noteq> 31 \<comment> \<open>ADD Xd, Xn, imm\<close>
      then Some (goto next (set_reg rd (reg c rn + ucast (field i 10 12)) c))
      else if i AND 0xFFFFFC1F = 0xD65F0000 \<or> i AND 0xFFFFFC1F = 0xD61F0000 \<comment> \<open>RET, BR\<close>
      then Some (goto (reg c rn) c)
      else if i = ARM64_NOP then Some (goto next c)
      else None)"

definition a64_step :: "(u64 \<Rightarrow> u32) \<Rightarrow> cpu \<Rightarrow> cpu option" where
  "a64_step m c = a64_exec m (m (pc c)) c"

fun a64_run :: "(u64 \<Rightarrow> u32) \<Rightarrow> nat \<Rightarrow> cpu \<Rightarrow> cpu option" where
  "a64_run m 0 c = Some c"
| "a64_run m (Suc n) c = (case a64_step m c of None \<Rightarrow> None | Some c' \<Rightarrow> a64_run m n c')"

section \<open>Fields, offsets and addresses\<close>

lemma bits32_field: "low \<le> high \<Longrightarrow> high \<le> 31 \<Longrightarrow> bits32 i high low = field i low (high - low + 1)"
  by (rule bit_word_eqI) (auto simp: bits32_def field_def bit_drop_bit_eq bit_push_bit_iff bit_take_bit_iff algebra_simps)

lemma sign64_extend_eq:
  assumes "1 \<le> len" "len \<le> 63" "take_bit len n = n"
  shows "sign64_extend n len = signed_take_bit (len - 1) n"
proof -
  have small: "bit n k \<Longrightarrow> k < len" for k using assms(3) by (metis bit_take_bit_iff)
  have ones: "(0xFFFFFFFFFFFFFFFF :: u64) = - 1" by simp
  have sgn: "drop_bit 63 (push_bit (63 - (len - 1)) n) \<noteq> 0 \<longleftrightarrow> bit n (len - 1)"
  proof -
    have "drop_bit 63 (push_bit (63 - (len - 1)) n) = of_bool (bit n (len - 1))"
      by (rule bit_word_eqI)
         (use assms small in \<open>auto simp: bit_drop_bit_eq bit_push_bit_iff bit_1_iff dest: bit_imp_le_length\<close>)
    then show ?thesis by simp
  qed
  show ?thesis
    unfolding sign64_extend_def sgn ones
  proof (rule bit_word_eqI)
    fix k assume "k < LENGTH(64)"
    then show "bit (if bit n (len - 1) then n OR push_bit len (- 1) else n) k \<longleftrightarrow> bit (signed_take_bit (len - 1) n) k"
      using assms(1,2) small [of k]
      by (cases "k = len - 1") (auto simp: bit_signed_take_bit_iff bit_or_iff bit_push_bit_iff min_def bit_not_iff bit_mask_iff)
  qed
qed

lemma addr_words: "ucast (addr_lo a) OR push_bit 32 (ucast (addr_hi a)) = a"
proof -
  have m: "(0xFFFFFFFF :: u64) = mask 32" by (simp add: mask_eq_exp_minus_1)
  show ?thesis unfolding addr_lo_def addr_hi_def m
    by (rule bit_word_eqI) (auto simp: bit_simps)
qed

text \<open>The words of \<open>ws\<close> stand in memory from \<open>p\<close> on.\<close>

definition code_at :: "(u64 \<Rightarrow> u32) \<Rightarrow> u64 \<Rightarrow> u32 list \<Rightarrow> bool" where
  "code_at m p ws \<longleftrightarrow> (\<forall>i < length ws. m (p + 4 * of_nat i) = ws ! i)"

lemma code_at_Cons: "code_at m p (w # ws) \<longleftrightarrow> m p = w \<and> code_at m (p + 4) ws"
  by (auto simp: code_at_def less_Suc_eq_0_disj algebra_simps)

lemma code_at_nth: "code_at m p ws \<Longrightarrow> i < length ws \<Longrightarrow> m (p + 4 * of_nat i) = ws ! i"
  by (simp add: code_at_def)

lemma code_at_words:
  assumes "code_at m p (t # u # v # w # ws)"
  shows "m p = t" "m (p + 4) = u" "m (p + 8) = v" "m (p + 12) = w" "code_at m (p + 16) ws"
proof -
  show "m p = t" "m (p + 4) = u" "m (p + 8) = v" "m (p + 12) = w"
    using code_at_nth [OF assms, of 0] code_at_nth [OF assms, of 1] code_at_nth [OF assms, of 2]
      code_at_nth [OF assms, of 3] by simp_all
  have "code_at m (p + 4 + 4 + 4 + 4) ws" using assms by (simp only: code_at_Cons)
  then show "code_at m (p + 16) ws" by (simp add: add.assoc)
qed

lemma code_at_Nil [simp]: "code_at m p []"
  by (simp add: code_at_def)

text \<open>The jump that ends most of the code: \<open>LDR X17, #8\<close> and a branch to it.\<close>

lemma exec_ldr_x17:
  "a64_exec m 0x58000051 c = Some (goto (pc c + 4) (set_reg 17 (read64 m (pc c + 8)) c))"
  by (simp add: a64_exec_def Let_def field_def offset_def)

lemma exec_ret_x17: "a64_exec m 0xD65F0220 c = Some (goto (xr c 17) c)"
  by (simp add: a64_exec_def Let_def field_def reg_def)

lemma exec_br_x17: "a64_exec m 0xD61F0220 c = Some (goto (xr c 17) c)"
  by (simp add: a64_exec_def Let_def field_def reg_def)

section \<open>Classes of instructions\<close>

lemma and_submask: "i AND m = t \<Longrightarrow> k AND m = k \<Longrightarrow> i AND k = t AND (k :: u32)"
  by (metis and.assoc and.commute)

lemma exec_B: "i AND 0xFC000000 = 0x14000000 \<Longrightarrow> a64_exec m i c = Some (goto (pc c + offset i 0 26) c)"
  by (simp add: a64_exec_def)

lemma exec_BL:
  "i AND 0xFC000000 = 0x94000000 \<Longrightarrow>
     a64_exec m i c = Some (goto (pc c + offset i 0 26) (set_reg 30 (pc c + 4) c))"
  by (simp add: a64_exec_def)

lemma exec_BC:
  assumes "i AND 0xFF000010 = 0x54000000"
  shows "a64_exec m i c = Some (goto (if cond_holds c (field i 0 4) then pc c + offset i 5 19 else pc c + 4) c)"
proof -
  have "i AND 0xFC000000 = 0x54000000" using and_submask [OF assms, of "0xFC000000"] by simp
  with assms show ?thesis by (simp add: a64_exec_def Let_def)
qed

definition cb_taken :: "u32 \<Rightarrow> cpu \<Rightarrow> bool" where
  "cb_taken i c = (let v = (if bit i 31 then reg c (field i 0 5) else take_bit 32 (reg c (field i 0 5)))
                   in (v = 0) \<noteq> bit i 24)"

definition tb_taken :: "u32 \<Rightarrow> cpu \<Rightarrow> bool" where
  "tb_taken i c = (bit (reg c (field i 0 5)) (unat (field i 19 5) + (if bit i 31 then 32 else 0)) = bit i 24)"

lemma exec_CB:
  assumes "i AND 0x7E000000 = 0x34000000"
  shows "a64_exec m i c = Some (goto (if cb_taken i c then pc c + offset i 5 19 else pc c + 4) c)"
proof -
  have k: "i AND 0x7C000000 = 0x34000000" "i AND 0x7E000000 = 0x34000000"
    using and_submask [OF assms, of "0x7C000000"] assms by simp_all
  have n: "i AND 0xFC000000 \<noteq> 0x14000000" "i AND 0xFC000000 \<noteq> 0x94000000" "i AND 0xFF000010 \<noteq> 0x54000000"
    using and_submask [of i "0xFC000000" _ "0x7C000000"] and_submask [of i "0xFF000010" _ "0x7C000000"] k(1) by auto
  show ?thesis by (simp add: a64_exec_def Let_def n k(2) cb_taken_def)
qed

lemma exec_TB:
  assumes "i AND 0x7E000000 = 0x36000000"
  shows "a64_exec m i c = Some (goto (if tb_taken i c then pc c + offset i 5 14 else pc c + 4) c)"
proof -
  have k: "i AND 0x7C000000 = 0x34000000" "i AND 0x7E000000 = 0x36000000"
    using and_submask [OF assms, of "0x7C000000"] assms by simp_all
  have n: "i AND 0xFC000000 \<noteq> 0x14000000" "i AND 0xFC000000 \<noteq> 0x94000000" "i AND 0xFF000010 \<noteq> 0x54000000"
    using and_submask [of i "0xFC000000" _ "0x7C000000"] and_submask [of i "0xFF000010" _ "0x7C000000"] k(1) by auto
  show ?thesis by (simp add: a64_exec_def Let_def n k(2) tb_taken_def)
qed

text \<open>The rewritten conditional: the same condition with the offset 8.\<close>

lemma field_or_and: "field ((i AND a) OR b) lo w = (field i lo w AND field a lo w) OR field b lo w"
  by (simp add: field_def drop_bit_and drop_bit_or take_bit_and take_bit_or)

lemma field_and_ones: "field i lo w AND take_bit w (- 1) = field i lo w"
  by (rule bit_word_eqI) (auto simp: field_def bit_simps)

lemma cond_rewritten:
  fixes i :: u32
  defines "x \<equiv> (i AND 0xFF00001F) OR 0x40"
  shows "offset x 5 19 = 8" "field x 0 5 = field i 0 5" "field x 0 4 = field i 0 4"
    "bit x 31 = bit i 31" "bit x 24 = bit i 24" "x AND 0x7E000000 = i AND 0x7E000000"
    "x AND 0xFF000010 = i AND 0xFF000010"
proof -
  show "offset x 5 19 = 8" by (simp add: offset_def x_def field_or_and) (simp add: field_def)
  show "field x 0 5 = field i 0 5" "field x 0 4 = field i 0 4"
    unfolding x_def field_or_and using field_and_ones [of i 0 5] field_and_ones [of i 0 4]
    by (simp_all add: field_def mask_eq_exp_minus_1)
  show "bit x 31 = bit i 31" "bit x 24 = bit i 24" by (simp_all add: x_def bit_or_iff bit_and_iff)
  show "x AND 0x7E000000 = i AND 0x7E000000" "x AND 0xFF000010 = i AND 0xFF000010"
    by (simp_all add: x_def bit.conj_disj_distrib2 and.assoc)
qed

lemma test_rewritten:
  fixes i :: u32
  defines "x \<equiv> (i AND 0xFFF8001F) OR 0x40"
  shows "offset x 5 14 = 8" "field x 0 5 = field i 0 5" "field x 19 5 = field i 19 5"
    "bit x 31 = bit i 31" "bit x 24 = bit i 24" "x AND 0x7E000000 = i AND 0x7E000000"
proof -
  show "offset x 5 14 = 8" by (simp add: offset_def x_def field_or_and) (simp add: field_def)
  show "field x 0 5 = field i 0 5" "field x 19 5 = field i 19 5"
    unfolding x_def field_or_and using field_and_ones [of i 0 5] field_and_ones [of i 19 5]
    by (simp_all add: field_def mask_eq_exp_minus_1)
  show "bit x 31 = bit i 31" "bit x 24 = bit i 24" by (simp_all add: x_def bit_or_iff bit_and_iff)
  show "x AND 0x7E000000 = i AND 0x7E000000"
    by (simp_all add: x_def bit.conj_disj_distrib2 and.assoc)
qed

section \<open>The instruction found in the table\<close>

lemma inst_type_match:
  "inst_type i = INST_B \<Longrightarrow> i AND 0xFC000000 = 0x14000000"
  "inst_type i = INST_BC \<Longrightarrow> i AND 0xFF000010 = 0x54000000"
  "inst_type i = INST_BL \<Longrightarrow> i AND 0xFC000000 = 0x94000000"
  "inst_type i = INST_ADR \<Longrightarrow> i AND 0x9F000000 = 0x10000000"
  "inst_type i = INST_ADRP \<Longrightarrow> i AND 0x9F000000 = 0x90000000"
  "inst_type i = INST_LDR_64 \<Longrightarrow> i AND 0xFF000000 = 0x58000000"
  "inst_type i = INST_CBZ \<Longrightarrow> i AND 0x7F000000 = 0x34000000"
  "inst_type i = INST_CBNZ \<Longrightarrow> i AND 0x7F000000 = 0x35000000"
  "inst_type i = INST_TBZ \<Longrightarrow> i AND 0x7F000000 = 0x36000000"
  "inst_type i = INST_TBNZ \<Longrightarrow> i AND 0x7F000000 = 0x37000000"
  by (rule inst_entry_cases [of i]; auto simp: inst_type_def inst_table_def)+

lemma offset_branch:
  "w < 61 \<Longrightarrow> sign64_extend (push_bit 2 (ucast (field i lo w))) (w + 2) = offset i lo w"
proof -
  assume w: "w < 61"
  have "take_bit (w + 2) (push_bit 2 (ucast (field i lo w) :: u64)) = push_bit 2 (ucast (field i lo w))"
    by (rule bit_word_eqI) (auto simp: field_def bit_simps)
  with w show ?thesis by (simp add: sign64_extend_eq offset_def)
qed

lemmas offsets = offset_branch [of 19, simplified] offset_branch [of 26, simplified] offset_branch [of 14, simplified]

lemma bits32_fields:
  "bits32 i 23 5 = field i 5 19" "bits32 i 25 0 = field i 0 26" "bits32 i 18 5 = field i 5 14"
  "bits32 i 4 0 = field i 0 5" "bits32 i 30 29 = field i 29 2"
  by (simp_all add: bits32_field flip: numeral_2_eq_2)

section \<open>Running the relocated code\<close>

lemma goto_simps [simp]:
  "pc (goto a c) = a" "xr (goto a c) = xr c" "cond_holds (goto a c) = cond_holds c" "goto a (goto b c) = goto a c"
  by (simp_all add: goto_def)

lemma set_reg_simps [simp]:
  "cond_holds (set_reg r v c) = cond_holds c" "pc (set_reg r v c) = pc c"
  "set_reg r v (goto a c) = goto a (set_reg r v c)"
  "xr (set_reg r v c) = (if r = 31 then xr c else (xr c)(unat r := v))"
  by (simp_all add: set_reg_def goto_def)

lemma reg_goto [simp]: "reg (goto a c) r = reg c r"
  by (simp add: reg_def goto_def)

lemma run_step: "m (pc c) = w \<Longrightarrow> a64_exec m w c = Some c' \<Longrightarrow> a64_run m (Suc n) c = a64_run m n c'"
  by (simp add: a64_step_def)

lemma read_addr:
  "m b = addr_lo a \<Longrightarrow> m (b + 4) = addr_hi a \<Longrightarrow> read64 m b = a"
  by (simp add: read64_def addr_words)

definition same_but_x17 :: "cpu \<Rightarrow> cpu \<Rightarrow> bool" where
  "same_but_x17 c c' \<longleftrightarrow> (\<forall>n. n \<noteq> 17 \<longrightarrow> xr c n = xr c' n) \<and> cond_holds c = cond_holds c'"

text \<open>The two forms of the absolute jump.\<close>

lemma exec_load_target:
  assumes "m (p + 8) = addr_lo a" "m (p + 12) = addr_hi a"
  shows "a64_exec m 0x58000051 (goto p c) = Some (goto (p + 4) (set_reg 17 a c))"
proof -
  have "read64 m (p + 8) = a" using assms by (intro read_addr) (simp_all add: add.assoc)
  then show ?thesis by (simp only: exec_ldr_x17 goto_simps set_reg_simps)
qed

lemma run_jump:
  assumes "code_at m p (0x58000051 # j # addr_lo a # addr_hi a # ws)" "j = 0xD65F0220 \<or> j = 0xD61F0220"
  shows "a64_run m 2 (goto p c) = Some (goto a (set_reg 17 a c))"
proof -
  note m = code_at_words [OF assms(1)]
  have "a64_step m (goto p c) = Some (goto (p + 4) (set_reg 17 a c))"
    using exec_load_target [OF m(3,4)] m(1) by (simp add: a64_step_def)
  moreover have "a64_step m (goto (p + 4) (set_reg 17 a c)) = Some (goto a (set_reg 17 a c))"
    using m(2) assms(2) by (auto simp: a64_step_def exec_ret_x17 exec_br_x17)
  ultimately show ?thesis by (simp add: numeral_2_eq_2)
qed

lemma exec_b_imm:
  "a64_exec m 0x14000003 c = Some (goto (pc c + 12) c)" "a64_exec m 0x14000005 c = Some (goto (pc c + 20) c)"
  "a64_exec m 0x14000006 c = Some (goto (pc c + 24) c)"
  by (simp_all add: exec_B offset_def field_def)

lemma run_jump_over:
  assumes "code_at m p (0x58000051 # 0x14000003 # addr_lo a # addr_hi a # w # ws)"
  shows "a64_run m 2 (goto p c) = Some (goto (p + 16) (set_reg 17 a c))"
proof -
  note m = code_at_words [OF assms(1)]
  have "a64_step m (goto p c) = Some (goto (p + 4) (set_reg 17 a c))"
    using exec_load_target [OF m(3,4)] m(1) by (simp add: a64_step_def)
  moreover have "a64_step m (goto (p + 4) (set_reg 17 a c)) = Some (goto (p + 16) (set_reg 17 a c))"
    using m(2) by (simp add: a64_step_def exec_b_imm add.assoc)
  ultimately show ?thesis by (simp add: numeral_2_eq_2)
qed

lemma exec_nop: "a64_exec m ARM64_NOP c = Some (goto (pc c + 4) c)"
  by (simp add: a64_exec_def Let_def ARM64_NOP_def)

lemma run_append: "a64_run m i c = Some c' \<Longrightarrow> a64_run m (i + j) c = a64_run m j c'"
  by (induction i arbitrary: c) (auto split: option.splits)

section \<open>The relocated branches\<close>

lemma set_reg_17: "same_but_x17 (goto b (set_reg 17 v c)) (goto b' c)"
  by (simp add: same_but_x17_def)

lemma run_1: "m (pc c) = w \<Longrightarrow> a64_exec m w c = Some c' \<Longrightarrow> a64_run m 1 c = Some c'"
  by (simp add: a64_step_def)

text \<open>A conditional branch to the jump eight bytes on, around the branch over it.\<close>

lemma run_cond:
  assumes code: "code_at m p (x # b # 0x58000051 # j # addr_lo t # addr_hi t # [])"
    and j: "j = 0xD65F0220 \<or> j = 0xD61F0220" and b: "b = 0x14000005"
    and x: "a64_exec m x (goto p c) = Some (goto (if taken then p + 8 else p + 4) c)"
  shows "\<exists>k. a64_run m k (goto p c) = Some (if taken then goto t (set_reg 17 t c) else goto (p + 24) c)"
proof (cases taken)
  case True
  have 1: "a64_run m 1 (goto p c) = Some (goto (p + 8) c)"
    by (rule run_1 [where w = x]) (use code x True in \<open>simp_all add: code_at_Cons\<close>)
  have "code_at m (p + 4 + 4) (0x58000051 # j # addr_lo t # addr_hi t # [])"
    using code by (simp only: code_at_Cons)
  then have "a64_run m 2 (goto (p + 8) c) = Some (goto t (set_reg 17 t c))"
    using run_jump [of m "p + 8" j t "[]" c] j by (simp add: add.assoc)
  with run_append [OF 1, of 2] True show ?thesis by (intro exI[of _ "1 + 2"]) simp
next
  case False
  have 1: "a64_run m 1 (goto p c) = Some (goto (p + 4) c)"
    by (rule run_1 [where w = x]) (use code x False in \<open>simp_all add: code_at_Cons\<close>)
  have "a64_run m 1 (goto (p + 4) c) = Some (goto (p + 24) c)"
    by (rule run_1 [where w = b]) (use code b in \<open>simp_all add: code_at_Cons exec_b_imm add.assoc\<close>)
  with run_append [OF 1, of 1] False show ?thesis by (intro exI[of _ "1 + 1"]) simp
qed

text \<open>What a relocated branch reaches: the target, itself relocated, or the code after it.\<close>

definition branch_agrees :: "hook_t \<Rightarrow> u64 \<Rightarrow> u64 \<Rightarrow> cpu \<Rightarrow> cpu \<Rightarrow> bool" where
  "branch_agrees h a fall c'' c' \<longleftrightarrow> same_but_x17 c'' c' \<and>
     (pc c'' = relo_in_tramp h (pc c') \<or> pc c' = a + 4 \<and> pc c'' = fall)"

lemma relo_b_run:
  assumes "inst_type i = INST_B" "code_at m p (relo_b h a i INST_B)" "a64_exec m0 i (goto a c) = Some c'"
  shows "\<exists>k c''. a64_run m k (goto p c) = Some c'' \<and> branch_agrees h a (p + 24) c'' c'"
proof -
  define t where "t = relo_in_tramp h (a + offset i 0 26)"
  have c': "c' = goto (a + offset i 0 26) c"
    using assms(3) exec_B [OF inst_type_match(1) [OF assms(1)]] by simp
  have ws: "relo_b h a i INST_B = [0x58000051, 0x14000003, addr_lo t, addr_hi t, 0xD65F0220, ARM64_NOP]"
    by (simp add: relo_b_def Let_def bits32_fields offsets t_def)
  have 1: "a64_run m 2 (goto p c) = Some (goto (p + 16) (set_reg 17 t c))"
    using run_jump_over assms(2) unfolding ws by blast
  have "m (p + 16) = 0xD65F0220" using code_at_nth [OF assms(2), of 4] by (simp add: ws)
  then have "a64_run m 1 (goto (p + 16) (set_reg 17 t c)) = Some (goto t (set_reg 17 t c))"
    by (simp add: a64_step_def exec_ret_x17)
  with run_append [OF 1, of 1] have "a64_run m (2 + 1) (goto p c) = Some (goto t (set_reg 17 t c))" by simp
  moreover have "branch_agrees h a (p + 24) (goto t (set_reg 17 t c)) c'"
    by (simp add: branch_agrees_def c' set_reg_17 t_def)
  ultimately show ?thesis by blast
qed

lemma relo_bc_run:
  assumes "inst_type i = INST_BC" "code_at m p (relo_b h a i INST_BC)" "a64_exec m0 i (goto a c) = Some c'"
  shows "\<exists>k c''. a64_run m k (goto p c) = Some c'' \<and> branch_agrees h a (p + 32) c'' c'"
proof -
  note im = inst_type_match(2) [OF assms(1)]
  define t where "t = relo_in_tramp h (a + offset i 5 19)"
  define x where "x = (i AND 0xFF00001F) OR 0x40"
  define taken where "taken = cond_holds c (field i 0 4)"
  have c': "c' = goto (if taken then a + offset i 5 19 else a + 4) c"
    using assms(3) exec_BC [OF im, of m0 "goto a c"] by (auto simp: taken_def)
  have ws: "relo_b h a i INST_BC =
      [x, 0x14000006, 0x58000051, 0x14000003, addr_lo t, addr_hi t, 0xD65F0220, ARM64_NOP]"
    by (simp add: relo_b_def Let_def bits32_fields offsets t_def x_def)
  have w: "m p = x" "m (p + 4) = 0x14000006" "m (p + 24) = 0xD65F0220" "m (p + 28) = ARM64_NOP"
    using code_at_nth [OF assms(2), of 0] code_at_nth [OF assms(2), of 1] code_at_nth [OF assms(2), of 6]
      code_at_nth [OF assms(2), of 7] by (simp_all add: ws)
  have ex: "a64_exec m x (goto p c) = Some (goto (if taken then p + 8 else p + 4) c)"
    using exec_BC [of x m "goto p c"] cond_rewritten [of i] im by (simp add: x_def taken_def)
  have "\<exists>k. a64_run m k (goto p c) = Some (if taken then goto t (set_reg 17 t c) else goto (p + 28) c)"
  proof (cases taken)
    case True
    have 1: "a64_run m 1 (goto p c) = Some (goto (p + 8) c)" using w ex True by (simp add: a64_step_def)
    have "code_at m (p + 4 + 4) [0x58000051, 0x14000003, addr_lo t, addr_hi t, 0xD65F0220, ARM64_NOP]"
      using assms(2) unfolding ws by (simp only: code_at_Cons)
    then have "a64_run m 2 (goto (p + 8) c) = Some (goto (p + 24) (set_reg 17 t c))"
      using run_jump_over [of m "p + 8" t _ _ c] by (simp add: add.assoc)
    moreover have "a64_run m 1 (goto (p + 24) (set_reg 17 t c)) = Some (goto t (set_reg 17 t c))"
      using w by (simp add: a64_step_def exec_ret_x17)
    ultimately have "a64_run m (2 + 1) (goto (p + 8) c) = Some (goto t (set_reg 17 t c))"
      using run_append [of m 2 "goto (p + 8) c" "goto (p + 24) (set_reg 17 t c)" 1] by simp
    with run_append [OF 1, of "2 + 1"] True show ?thesis by (intro exI[of _ "1 + (2 + 1)"]) simp
  next
    case False
    have 1: "a64_run m 1 (goto p c) = Some (goto (p + 4) c)" using w ex False by (simp add: a64_step_def)
    have "a64_run m 1 (goto (p + 4) c) = Some (goto (p + 28) c)"
      using w by (simp add: a64_step_def exec_b_imm add.assoc)
    with run_append [OF 1, of 1] False show ?thesis by (intro exI[of _ "1 + 1"]) simp
  qed
  then obtain k where k: "a64_run m k (goto p c) = Some (if taken then goto t (set_reg 17 t c) else goto (p + 28) c)" by blast
  have nop: "a64_run m 1 (goto (p + 28) c) = Some (goto (p + 32) c)"
    using w(4) by (simp add: a64_step_def exec_nop add.assoc)
  show ?thesis
  proof (cases taken)
    case True
    then have "branch_agrees h a (p + 32) (goto t (set_reg 17 t c)) c'"
      by (simp add: branch_agrees_def c' set_reg_17 t_def)
    with k True show ?thesis by auto
  next
    case False
    then have "a64_run m (k + 1) (goto p c) = Some (goto (p + 32) c)"
      using k nop run_append [of m k "goto p c" "goto (p + 28) c" 1] by simp
    moreover have "branch_agrees h a (p + 32) (goto (p + 32) c) c'"
      using False by (simp add: branch_agrees_def c' same_but_x17_def)
    ultimately show ?thesis by blast
  qed
qed

lemma relo_cb_run:
  assumes "inst_type i = INST_CBZ \<or> inst_type i = INST_CBNZ" "code_at m p (relo_cb h a i)"
    "a64_exec m0 i (goto a c) = Some c'"
  shows "\<exists>k c''. a64_run m k (goto p c) = Some c'' \<and> branch_agrees h a (p + 24) c'' c'"
proof -
  have im: "i AND 0x7E000000 = 0x34000000"
    using inst_type_match(7,8) [of i] assms(1) and_submask [of i "0x7F000000" _ "0x7E000000"] by auto
  define t where "t = relo_in_tramp h (a + offset i 5 19)"
  define x where "x = (i AND 0xFF00001F) OR 0x40"
  define taken where "taken = cb_taken i c"
  have tk: "cb_taken x (goto p c) = taken" "cb_taken i (goto a c) = taken"
    using cond_rewritten [of i] by (simp_all add: taken_def cb_taken_def x_def)
  have c': "c' = goto (if taken then a + offset i 5 19 else a + 4) c"
    using assms(3) exec_CB [OF im, of m0 "goto a c"] tk by auto
  have ws: "relo_cb h a i = [x, 0x14000005, 0x58000051, 0xD65F0220, addr_lo t, addr_hi t]"
    by (simp add: relo_cb_def Let_def bits32_fields offsets t_def x_def)
  have "a64_exec m x (goto p c) = Some (goto (if taken then p + 8 else p + 4) c)"
    using exec_CB [of x m "goto p c"] cond_rewritten [of i] im tk by (simp add: x_def)
  then obtain k where k: "a64_run m k (goto p c) = Some (if taken then goto t (set_reg 17 t c) else goto (p + 24) c)"
    using run_cond [OF assms(2) [unfolded ws]] by auto
  have "branch_agrees h a (p + 24) (if taken then goto t (set_reg 17 t c) else goto (p + 24) c) c'"
    by (simp add: branch_agrees_def c' set_reg_17 t_def same_but_x17_def)
  with k show ?thesis by blast
qed

lemma relo_tb_run:
  assumes "inst_type i = INST_TBZ \<or> inst_type i = INST_TBNZ" "code_at m p (relo_tb h a i)"
    "a64_exec m0 i (goto a c) = Some c'"
  shows "\<exists>k c''. a64_run m k (goto p c) = Some c'' \<and> branch_agrees h a (p + 24) c'' c'"
proof -
  have im: "i AND 0x7E000000 = 0x36000000"
    using inst_type_match(9,10) [of i] assms(1) and_submask [of i "0x7F000000" _ "0x7E000000"] by auto
  define t where "t = relo_in_tramp h (a + offset i 5 14)"
  define x where "x = (i AND 0xFFF8001F) OR 0x40"
  define taken where "taken = tb_taken i c"
  have tk: "tb_taken x (goto p c) = taken" "tb_taken i (goto a c) = taken"
    using test_rewritten [of i] by (simp_all add: taken_def tb_taken_def x_def)
  have c': "c' = goto (if taken then a + offset i 5 14 else a + 4) c"
    using assms(3) exec_TB [OF im, of m0 "goto a c"] tk by auto
  have ws: "relo_tb h a i = [x, 0x14000005, 0x58000051, 0xD61F0220, addr_lo t, addr_hi t]"
    by (simp add: relo_tb_def Let_def bits32_fields offsets t_def x_def)
  have "a64_exec m x (goto p c) = Some (goto (if taken then p + 8 else p + 4) c)"
    using exec_TB [of x m "goto p c"] test_rewritten [of i] im tk by (simp add: x_def)
  then obtain k where k: "a64_run m k (goto p c) = Some (if taken then goto t (set_reg 17 t c) else goto (p + 24) c)"
    using run_cond [OF assms(2) [unfolded ws]] by auto
  have "branch_agrees h a (p + 24) (if taken then goto t (set_reg 17 t c) else goto (p + 24) c) c'"
    by (simp add: branch_agrees_def c' set_reg_17 t_def same_but_x17_def)
  with k show ?thesis by blast
qed

section \<open>Calls, addresses and literals\<close>

lemma exec_adr_x30: "a64_exec m 0x1000001E c = Some (goto (pc c + 4) (set_reg 30 (pc c) c))"
  by (simp add: a64_exec_def Let_def field_def)

lemma exec_add_x30: "a64_exec m 0x910033DE c = Some (goto (pc c + 4) (set_reg 30 (xr c 30 + 12) c))"
  by (simp add: a64_exec_def Let_def field_def reg_def)

lemma relo_bl_run:
  assumes "code_at m p (relo_b h a i INST_BL)"
  shows "a64_run m 5 (goto p c) =
      Some (goto (relo_in_tramp h (a + offset i 0 26))
             (set_reg 30 (p + 28) (set_reg 17 (relo_in_tramp h (a + offset i 0 26)) c)))"
    and "a64_run m 1 (goto (p + 28) c) = Some (goto (p + 32) c)"
proof -
  define t where "t = relo_in_tramp h (a + offset i 0 26)"
  have ws: "relo_b h a i INST_BL =
      [0x58000051, 0x14000003, addr_lo t, addr_hi t, 0x1000001E, 0x910033DE, 0xD65F0220, ARM64_NOP]"
    by (simp add: relo_b_def Let_def bits32_fields offsets t_def)
  have w: "m (p + 16) = 0x1000001E" "m (p + 20) = 0x910033DE" "m (p + 24) = 0xD65F0220" "m (p + 28) = ARM64_NOP"
    using code_at_nth [OF assms, of 4] code_at_nth [OF assms, of 5] code_at_nth [OF assms, of 6]
      code_at_nth [OF assms, of 7] by (simp_all add: ws)
  let ?c = "set_reg 17 t c"
  have 1: "a64_run m 2 (goto p c) = Some (goto (p + 16) ?c)" using run_jump_over assms unfolding ws by blast
  have "a64_step m (goto (p + 16) ?c) = Some (goto (p + 20) (set_reg 30 (p + 16) ?c))"
    using w by (simp add: a64_step_def exec_adr_x30 add.assoc)
  moreover have "a64_step m (goto (p + 20) (set_reg 30 (p + 16) ?c)) = Some (goto (p + 24) (set_reg 30 (p + 28) ?c))"
    using w by (simp add: a64_step_def exec_add_x30 add.assoc set_reg_def goto_def)
  moreover have "a64_step m (goto (p + 24) (set_reg 30 (p + 28) ?c)) = Some (goto t (set_reg 30 (p + 28) ?c))"
    using w by (simp add: a64_step_def exec_ret_x17)
  ultimately have "a64_run m 3 (goto (p + 16) ?c) = Some (goto t (set_reg 30 (p + 28) ?c))"
    by (simp add: numeral_3_eq_3)
  with run_append [OF 1, of 3]
  show "a64_run m 5 (goto p c) = Some (goto (relo_in_tramp h (a + offset i 0 26))
         (set_reg 30 (p + 28) (set_reg 17 (relo_in_tramp h (a + offset i 0 26)) c)))"
    by (simp add: t_def)
  show "a64_run m 1 (goto (p + 28) c) = Some (goto (p + 32) c)"
    using w(4) by (simp add: a64_step_def exec_nop add.assoc)
qed

lemma exec_LDR:
  assumes "i AND 0xFF000000 = 0x58000000"
  shows "a64_exec m i c = Some (goto (pc c + 4) (set_reg (field i 0 5) (read64 m (pc c + offset i 5 19)) c))"
proof -
  have "i AND 0xFC000000 = 0x58000000" "i AND 0x7E000000 = 0x58000000" "i AND 0x9F000000 = 0x18000000"
    using and_submask [OF assms, of "0xFC000000"] and_submask [OF assms, of "0x7E000000"]
      and_submask [OF assms, of "0x9F000000"] by simp_all
  moreover have "i AND 0xFF000010 \<noteq> 0x54000000"
    using and_submask [of i "0xFF000010" _ "0xFF000000"] assms by auto
  ultimately show ?thesis using assms by (simp add: a64_exec_def Let_def)
qed

text \<open>The load instructions the routines compose from a register number.\<close>

lemma field_and: "field (a AND b) lo w = field a lo w AND field b lo w"
  by (simp add: field_def drop_bit_and take_bit_and)

lemma field_or: "field (a OR b) lo w = field a lo w OR field b lo w"
  by (simp add: field_def drop_bit_or take_bit_or)

lemma field_reg: "field (field i 0 5) 0 5 = field i 0 5" "field (field i 0 5) 5 19 = 0"
  "field i 0 5 AND 0xFF000000 = 0"
proof -
  have "field i 0 5 = i AND 0x1F" by (simp add: field_def take_bit_eq_mask mask_eq_exp_minus_1)
  then show "field (field i 0 5) 0 5 = field i 0 5" "field (field i 0 5) 5 19 = 0" "field i 0 5 AND 0xFF000000 = 0"
    by (simp_all add: field_and and.assoc) (simp_all add: field_def take_bit_eq_mask mask_eq_exp_minus_1 and.assoc)
qed

lemma exec_load_lit:
  "a64_exec m (0x58000040 OR field i 0 5) c =
     Some (goto (pc c + 4) (set_reg (field i 0 5) (read64 m (pc c + 8)) c))"
  "a64_exec m (0x58000060 OR field i 0 5) c =
     Some (goto (pc c + 4) (set_reg (field i 0 5) (read64 m (pc c + 12)) c))"
proof -
  have "(0x58000040 OR field i 0 5) AND 0xFF000000 = 0x58000000" "(0x58000060 OR field i 0 5) AND 0xFF000000 = 0x58000000"
    by (simp_all add: bit.conj_disj_distrib2 field_reg)
  moreover have "offset (0x58000040 OR field i 0 5) 5 19 = 8" "offset (0x58000060 OR field i 0 5) 5 19 = 12"
    by (simp_all add: offset_def field_or field_reg) (simp_all add: field_def)
  moreover have "field (0x58000040 OR field i 0 5) 0 5 = field i 0 5" "field (0x58000060 OR field i 0 5) 0 5 = field i 0 5"
    by (simp_all add: field_or field_reg) (simp_all add: field_def)
  ultimately show "a64_exec m (0x58000040 OR field i 0 5) c =
     Some (goto (pc c + 4) (set_reg (field i 0 5) (read64 m (pc c + 8)) c))"
  "a64_exec m (0x58000060 OR field i 0 5) c =
     Some (goto (pc c + 4) (set_reg (field i 0 5) (read64 m (pc c + 12)) c))"
    by (simp_all add: exec_LDR)
qed

lemma exec_ADR:
  assumes "i AND 0x9F000000 = 0x10000000"
  shows "a64_exec m i c = Some (goto (pc c + 4) (set_reg (field i 0 5)
    (pc c + signed_take_bit 20 (push_bit 2 (ucast (field i 5 19)) OR ucast (field i 29 2))) c))"
proof -
  have "i AND 0x1F000000 = 0x10000000" using and_submask [OF assms, of "0x1F000000"] by simp
  then have n: "i AND 0xFC000000 \<noteq> 0x14000000" "i AND 0xFC000000 \<noteq> 0x94000000" "i AND 0xFF000010 \<noteq> 0x54000000"
      "i AND 0x7E000000 \<noteq> 0x34000000" "i AND 0x7E000000 \<noteq> 0x36000000"
    using and_submask [of i "0x1F000000" "0x10000000" "0x1C000000"]
      and_submask [of i "0xFC000000" _ "0x1C000000"] and_submask [of i "0xFF000010" _ "0x1C000000"]
      and_submask [of i "0x1F000000" "0x10000000" "0x1E000000"] and_submask [of i "0x7E000000" _ "0x1E000000"] by auto
  show ?thesis by (simp add: a64_exec_def Let_def n assms)
qed

lemma exec_ADRP:
  assumes "i AND 0x9F000000 = 0x90000000"
  shows "a64_exec m i c = Some (goto (pc c + 4) (set_reg (field i 0 5)
    ((pc c AND NOT 0xFFF) + signed_take_bit 32 (push_bit 14 (ucast (field i 5 19)) OR push_bit 12 (ucast (field i 29 2)))) c))"
proof -
  have "i AND 0x1F000000 = 0x10000000" using and_submask [OF assms, of "0x1F000000"] by simp
  then have n: "i AND 0xFC000000 \<noteq> 0x14000000" "i AND 0xFC000000 \<noteq> 0x94000000" "i AND 0xFF000010 \<noteq> 0x54000000"
      "i AND 0x7E000000 \<noteq> 0x34000000" "i AND 0x7E000000 \<noteq> 0x36000000"
    using and_submask [of i "0x1F000000" "0x10000000" "0x1C000000"]
      and_submask [of i "0xFC000000" _ "0x1C000000"] and_submask [of i "0xFF000010" _ "0x1C000000"]
      and_submask [of i "0x1F000000" "0x10000000" "0x1E000000"] and_submask [of i "0x7E000000" _ "0x1E000000"] by auto
  show ?thesis by (simp add: a64_exec_def Let_def n assms)
qed

text \<open>The page of a sum, when the second summand is a multiple of the page size.\<close>

lemma page_add:
  assumes "take_bit 12 (b :: u64) = 0"
  shows "(a + b) AND 0xFFFFFFFFFFFFF000 = (a AND NOT 0xFFF) + b"
proof -
  have k: "(0xFFFFFFFFFFFFF000 :: u64) = NOT (mask 12)" "(0xFFF :: u64) = mask 12"
    by (simp_all add: mask_eq_exp_minus_1)
  have d: "x AND NOT (mask 12) = x - take_bit 12 x" for x :: u64
  proof -
    have "NOT x AND take_bit 12 x = 0" by (rule bit_word_eqI) (auto simp: bit_simps)
    then have "x - take_bit 12 x = x AND NOT (take_bit 12 x)" by (rule disjunctive_diff_eq_and_not)
    also have "\<dots> = x AND NOT (mask 12)" by (rule bit_word_eqI) (auto simp: bit_simps)
    finally show ?thesis by simp
  qed
  have "take_bit 12 (a + b) = take_bit 12 a"
  proof (rule unsigned_word_eqI [where ?'a = nat])
    have "take_bit 12 (unat b) = 0"
      using arg_cong [OF assms, of unat] by (simp only: unsigned_take_bit_eq unsigned_0)
    then have b: "unat b mod 4096 = 0" by (simp add: take_bit_eq_mod)
    have len64: "LENGTH(64) = 64" by simp
    have t: "unat (take_bit 12 x) = unat x mod 4096" for x :: u64
      by (simp only: unsigned_take_bit_eq) (simp add: take_bit_eq_mod)
    have "unat (take_bit 12 (a + b)) = (unat a + unat b) mod 2 ^ 64 mod 4096"
      by (simp only: t unat_word_ariths len64)
    also have "\<dots> = (unat a + unat b) mod 4096" by (rule mod_mod_cancel) simp
    also have "\<dots> = unat a mod 4096" by (metis add.right_neutral b mod_add_right_eq)
    finally show "unat (take_bit 12 (a + b)) = unat (take_bit 12 a)"
      by (simp only: t)
  qed
  then show ?thesis unfolding k d by simp
qed

lemma adr_imm:
  "sign64_extend (push_bit 2 (ucast (field i 5 19)) OR ucast (field i 29 2)) 21 =
   signed_take_bit 20 (push_bit 2 (ucast (field i 5 19)) OR ucast (field i 29 2))"
  "sign64_extend (push_bit 14 (ucast (field i 5 19)) OR push_bit 12 (ucast (field i 29 2))) 33 =
   signed_take_bit 32 (push_bit 14 (ucast (field i 5 19)) OR push_bit 12 (ucast (field i 29 2)))"
  "take_bit 12 (signed_take_bit 32 (push_bit 14 (ucast (field i 5 19)) OR push_bit 12 (ucast (field i 29 2))) :: u64) = 0"
proof -
  have 1: "take_bit 21 (push_bit 2 (ucast (field i 5 19)) OR ucast (field i 29 2) :: u64) =
      push_bit 2 (ucast (field i 5 19)) OR ucast (field i 29 2)"
    by (rule bit_word_eqI) (auto simp: field_def bit_simps)
  have 2: "take_bit 33 (push_bit 14 (ucast (field i 5 19)) OR push_bit 12 (ucast (field i 29 2)) :: u64) =
      push_bit 14 (ucast (field i 5 19)) OR push_bit 12 (ucast (field i 29 2))"
    by (rule bit_word_eqI) (auto simp: field_def bit_simps)
  show "sign64_extend (push_bit 2 (ucast (field i 5 19)) OR ucast (field i 29 2)) 21 =
   signed_take_bit 20 (push_bit 2 (ucast (field i 5 19)) OR ucast (field i 29 2))"
    using sign64_extend_eq [OF _ _ 1] by simp
  show "sign64_extend (push_bit 14 (ucast (field i 5 19)) OR push_bit 12 (ucast (field i 29 2))) 33 =
   signed_take_bit 32 (push_bit 14 (ucast (field i 5 19)) OR push_bit 12 (ucast (field i 29 2)))"
    using sign64_extend_eq [OF _ _ 2] by simp
  show "take_bit 12 (signed_take_bit 32 (push_bit 14 (ucast (field i 5 19)) OR push_bit 12 (ucast (field i 29 2))) :: u64) = 0"
    by (rule bit_word_eqI) (auto simp: bit_simps min_def)
qed

lemma relo_adr_run:
  assumes "inst_type i = INST_ADR \<or> inst_type i = INST_ADRP"
    and "relo_adr h a i (inst_type i) = Inr ws" "code_at m p ws"
    and "a64_exec m0 i (goto a c) = Some c'"
  shows "a64_run m 2 (goto p c) = Some (goto (p + 16) c') \<and> pc c' = a + 4"
proof -
  define d where "d = (if inst_type i = INST_ADR
     then a + signed_take_bit 20 (push_bit 2 (ucast (field i 5 19)) OR ucast (field i 29 2))
     else (a AND NOT 0xFFF) + signed_take_bit 32 (push_bit 14 (ucast (field i 5 19)) OR push_bit 12 (ucast (field i 29 2))))"
  have c': "c' = goto (a + 4) (set_reg (field i 0 5) d c)"
    using assms(1,4) exec_ADR [of i m0 "goto a c"] exec_ADRP [of i m0 "goto a c"] inst_type_match(4,5) [of i]
    by (auto simp: d_def)
  have ws: "ws = [0x58000040 OR field i 0 5, 0x14000003, addr_lo d, addr_hi d]"
    using assms(1,2) by (auto simp: relo_adr_def Let_def bits32_fields adr_imm page_add d_def split: if_splits)
  have w: "m p = 0x58000040 OR field i 0 5" "m (p + 4) = 0x14000003" "m (p + 8) = addr_lo d" "m (p + 12) = addr_hi d"
    using code_at_words [OF assms(3) [unfolded ws]] by simp_all
  have "read64 m (p + 8) = d" using w by (intro read_addr) (simp_all add: add.assoc)
  then have "a64_step m (goto p c) = Some (goto (p + 4) (set_reg (field i 0 5) d c))"
    using w(1) by (simp only: a64_step_def goto_simps exec_load_lit set_reg_simps)
  moreover have "a64_step m (goto (p + 4) (set_reg (field i 0 5) d c)) = Some (goto (p + 16) (set_reg (field i 0 5) d c))"
    using w(2) by (simp add: a64_step_def exec_b_imm add.assoc)
  ultimately show ?thesis by (simp add: c' numeral_2_eq_2)
qed

section \<open>Properties\<close>

text \<open>
  C10: a branch is relocated to code that behaves like it.  Whatever the registers and flags,
  running the words written for \<open>B\<close>, \<open>B.cond\<close>, \<open>CBZ\<close>, \<open>CBNZ\<close>, \<open>TBZ\<close> or \<open>TBNZ\<close> at any address
  reaches the branch's target, itself relocated when it lies among the overwritten
  instructions, exactly when the branch is taken, and the word after the code otherwise; the
  flags and every register but X17 are what the branch leaves.
\<close>

theorem relocated_branch_correct:
  assumes "inst_type i \<in> {INST_B, INST_BC, INST_CBZ, INST_CBNZ, INST_TBZ, INST_TBNZ}"
    and "relo_words h a i (inst_type i) = Inr ws" "code_at m p ws"
    and "a64_exec m0 i (goto a c) = Some c'"
  shows "\<exists>k c''. a64_run m k (goto p c) = Some c'' \<and>
    (\<forall>n. n \<noteq> 17 \<longrightarrow> xr c'' n = xr c' n) \<and> cond_holds c'' = cond_holds c' \<and>
    (pc c'' = relo_in_tramp h (pc c') \<or> pc c' = a + 4 \<and> pc c'' = p + 4 * of_nat (relo_len_of i))"
proof -
  have len: "of_nat (relo_len_of i) = (of_nat (length ws) :: u64)" using relo_words_length [OF assms(2)] by simp
  have "\<exists>k c''. a64_run m k (goto p c) = Some c'' \<and> branch_agrees h a (p + 4 * of_nat (relo_len_of i)) c'' c'"
    using assms(1)
  proof (elim insertE emptyE)
    assume t: "inst_type i = INST_B"
    then have "ws = relo_b h a i INST_B" "length ws = 6"
      using assms(2) by (auto simp: relo_words_def relo_b_def Let_def)
    with relo_b_run [OF t _ assms(4)] assms(3) show ?thesis unfolding len by simp
  next
    assume t: "inst_type i = INST_BC"
    then have "ws = relo_b h a i INST_BC" "length ws = 8"
      using assms(2) by (auto simp: relo_words_def relo_b_def Let_def)
    with relo_bc_run [OF t _ assms(4)] assms(3) show ?thesis unfolding len by simp
  next
    assume t: "inst_type i = INST_CBZ"
    then have "ws = relo_cb h a i" "length ws = 6"
      using assms(2) by (auto simp: relo_words_def relo_cb_def Let_def)
    with relo_cb_run [OF disjI1 [OF t] _ assms(4)] assms(3) show ?thesis unfolding len by simp
  next
    assume t: "inst_type i = INST_CBNZ"
    then have "ws = relo_cb h a i" "length ws = 6"
      using assms(2) by (auto simp: relo_words_def relo_cb_def Let_def)
    with relo_cb_run [OF disjI2 [OF t] _ assms(4)] assms(3) show ?thesis unfolding len by simp
  next
    assume t: "inst_type i = INST_TBZ"
    then have "ws = relo_tb h a i" "length ws = 6"
      using assms(2) by (auto simp: relo_words_def relo_tb_def Let_def)
    with relo_tb_run [OF disjI1 [OF t] _ assms(4)] assms(3) show ?thesis unfolding len by simp
  next
    assume t: "inst_type i = INST_TBNZ"
    then have "ws = relo_tb h a i" "length ws = 6"
      using assms(2) by (auto simp: relo_words_def relo_tb_def Let_def)
    with relo_tb_run [OF disjI2 [OF t] _ assms(4)] assms(3) show ?thesis unfolding len by simp
  qed
  then show ?thesis by (auto simp: branch_agrees_def same_but_x17_def)
qed

text \<open>Words in memory from an address on, for the witnesses.\<close>

definition words_at :: "u64 \<Rightarrow> u32 list \<Rightarrow> u64 \<Rightarrow> u32" where
  "words_at p ws a = (let k = unat (a - p) div 4 in if k < length ws then ws ! k else 0)"

definition demo_cpu :: cpu where
  "demo_cpu = \<lparr>pc = 0, xr = (\<lambda>n. of_nat n), cond_holds = (\<lambda>c. c = 0)\<rparr>"

text \<open>\<open>CBZ X0, #8\<close>, whose register is zero in the demonstration state.\<close>

theorem relocated_branch_correct_witness:
  "inst_type 0xB4000040 = INST_CBZ \<and>
   (\<exists>k c''. a64_run (words_at 0x2000 (relo_cb hook_zero 0x1000 0xB4000040)) k (goto 0x2000 demo_cpu) = Some c'' \<and>
     (\<forall>n. n \<noteq> 17 \<longrightarrow> xr c'' n = of_nat n) \<and> pc c'' = 0x1008)"
proof -
  let ?i = "0xB4000040 :: u32" and ?ws = "relo_cb hook_zero 0x1000 0xB4000040"
  have t: "inst_type ?i = INST_CBZ" by code_simp
  have ws: "relo_words hook_zero 0x1000 ?i (inst_type ?i) = Inr ?ws" by (simp add: t relo_words_def)
  have code: "code_at (words_at 0x2000 ?ws) 0x2000 ?ws" unfolding code_at_def by code_simp
  have im: "?i AND 0x7E000000 = 0x34000000" by simp
  have tk: "cb_taken ?i (goto 0x1000 demo_cpu)"
    by (simp add: cb_taken_def reg_def field_def demo_cpu_def)
  have off: "offset ?i 5 19 = 8" by (simp add: offset_def field_def)
  have ex: "a64_exec (\<lambda>_. 0) ?i (goto 0x1000 demo_cpu) = Some (goto 0x1008 demo_cpu)"
    using exec_CB [OF im] tk off by simp
  have in_tramp: "relo_in_tramp hook_zero 0x1008 = 0x1008" by code_simp
  have len: "relo_len_of ?i = 6" by code_simp
  from relocated_branch_correct [OF _ ws code ex] obtain k c'' where
    k: "a64_run (words_at 0x2000 ?ws) k (goto 0x2000 demo_cpu) = Some c''" "\<forall>n. n \<noteq> 17 \<longrightarrow> xr c'' n = xr demo_cpu n"
      "pc c'' = 0x1008" using in_tramp t by auto
  then show ?thesis using t by (auto simp: demo_cpu_def)
qed

text \<open>
  A call is relocated to a call.  Running the words written for \<open>BL\<close> reaches the
  function it calls with X30 at the last of these words, so that the function returns into
  the relocated code, to the word after it; no other register but X17 changes.
\<close>

theorem relocated_call_correct:
  assumes "inst_type i = INST_BL" and "relo_words h a i INST_BL = Inr ws" "code_at m p ws"
    and "a64_exec m0 i (goto a c) = Some c'"
  shows "\<exists>k c'' r. a64_run m k (goto p c) = Some c'' \<and> pc c'' = relo_in_tramp h (pc c') \<and>
    xr c' 30 = a + 4 \<and> xr c'' 30 = r \<and> (\<forall>n. n \<noteq> 17 \<and> n \<noteq> 30 \<longrightarrow> xr c'' n = xr c' n) \<and>
    (\<forall>d. a64_run m 1 (goto r d) = Some (goto (p + 4 * of_nat (relo_len_of i)) d))"
proof -
  have ws: "ws = relo_b h a i INST_BL" using assms(2) by (simp add: relo_words_def)
  have len: "relo_len_of i = 8"
    using relo_words_length [of h a i ws] assms(1,2) by (simp add: ws relo_b_def Let_def)
  have c': "c' = goto (a + offset i 0 26) (set_reg 30 (a + 4) c)"
    using assms(4) exec_BL [OF inst_type_match(3) [OF assms(1)]] by simp
  note run = relo_bl_run [OF assms(3) [unfolded ws]]
  show ?thesis
    using run(1) run(2) by (intro exI[of _ 5] exI conjI) (auto simp: c' len)
qed

theorem relocated_call_correct_witness:
  "\<exists>k c''. a64_run (words_at 0x2000 (relo_b hook_zero 0x1000 0x94000004 INST_BL)) k (goto 0x2000 demo_cpu) = Some c'' \<and>
     pc c'' = 0x1010"
proof -
  let ?i = "0x94000004 :: u32" and ?ws = "relo_b hook_zero 0x1000 0x94000004 INST_BL"
  have t: "inst_type ?i = INST_BL" by code_simp
  have ws: "relo_words hook_zero 0x1000 ?i INST_BL = Inr ?ws" by (simp add: relo_words_def)
  have code: "code_at (words_at 0x2000 ?ws) 0x2000 ?ws" unfolding code_at_def by code_simp
  have off: "offset ?i 0 26 = 16" by (simp add: offset_def field_def)
  have ex: "a64_exec (\<lambda>_. 0) ?i (goto 0x1000 demo_cpu) = Some (goto 0x1010 (set_reg 30 0x1004 demo_cpu))"
    using exec_BL [of ?i] off by simp
  have in_tramp: "relo_in_tramp hook_zero 0x1010 = 0x1010" by code_simp
  show ?thesis using relocated_call_correct [OF t ws code ex] in_tramp by auto
qed

text \<open>
  C11: the address computations \<open>ADR\<close> and \<open>ADRP\<close> are relocated to two instructions that leave
  exactly the registers and flags the original leaves, and go on after the code.
\<close>

theorem relocated_address_correct:
  assumes "inst_type i = INST_ADR \<or> inst_type i = INST_ADRP"
    and "relo_words h a i (inst_type i) = Inr ws" "code_at m p ws"
    and "a64_exec m0 i (goto a c) = Some c'"
  shows "a64_run m 2 (goto p c) = Some (goto (p + 4 * of_nat (relo_len_of i)) c')"
proof -
  have r: "relo_adr h a i (inst_type i) = Inr ws" using assms(1,2) by (auto simp: relo_words_def)
  have "length ws = 4" using r by (auto simp: relo_adr_def Let_def split: if_splits)
  then have "relo_len_of i = 4" using relo_words_length [OF assms(2)] by simp
  with relo_adr_run [OF assms(1) r assms(3,4)] show ?thesis by simp
qed

theorem relocated_address_correct_witness:
  "\<exists>ws. relo_words hook_zero 0x1000 0x10000040 INST_ADR = Inr ws \<and>
     (\<exists>c'. a64_run (words_at 0x2000 ws) 2 (goto 0x2000 demo_cpu) = Some c' \<and> xr c' 0 = 0x1008)"
proof -
  let ?i = "0x10000040 :: u32"
  define ws where "ws = [0x58000040 :: u32, 0x14000003, 0x1008, 0]"
  have t: "inst_type ?i = INST_ADR" by code_simp
  have ws: "relo_words hook_zero 0x1000 ?i (inst_type ?i) = Inr ws"
    unfolding ws_def t by code_simp
  have code: "code_at (words_at 0x2000 ws) 0x2000 ws" unfolding code_at_def ws_def by code_simp
  have ex: "a64_exec (\<lambda>_. 0) ?i (goto 0x1000 demo_cpu) = Some (goto 0x1004 (set_reg 0 0x1008 demo_cpu))"
    using exec_ADR [of ?i] by (simp add: field_def)
  show ?thesis
    using relocated_address_correct [OF disjI1 [OF t] ws code ex] ws unfolding t by auto
qed

text \<open>
  The code written for a literal load (\<open>LDR Wt\<close>, \<open>LDR Xt\<close>, \<open>LDRSW\<close>) does not load from the
  literal.  Its first instruction is to fetch the literal's address, but takes it one word too
  early: what it leaves in the register is the NOP before the address followed by the
  address's low half, which is not the address unless the low half happens to be that NOP.
\<close>

theorem relocated_literal_load_misaddressed:
  assumes "it = INST_LDR_32 \<or> it = INST_LDR_64 \<or> it = INST_LDRSW_LIT"
    and "relo_words h a i it = Inr ws" "code_at m p ws" and "field i 0 5 \<noteq> 31"
  defines "lit \<equiv> relo_in_tramp h (a + offset i 5 19)"
  shows "\<exists>c'. a64_run m 1 (goto p c) = Some c' \<and>
    reg c' (field i 0 5) = ucast ARM64_NOP OR push_bit 32 (ucast (addr_lo lit)) \<and>
    (addr_lo lit \<noteq> ARM64_NOP \<longrightarrow> reg c' (field i 0 5) \<noteq> lit)"
proof -
  let ?v = "ucast ARM64_NOP OR push_bit 32 (ucast (addr_lo lit)) :: u64"
  obtain x where ws: "ws = [0x58000060 OR field i 0 5, x, 0x14000004, ARM64_NOP, addr_lo lit, addr_hi lit]"
    using assms(1,2) by (auto simp: relo_words_def relo_ldr_def Let_def bits32_fields offsets lit_def split: if_splits)
  have w: "m p = 0x58000060 OR field i 0 5" "m (p + 12) = ARM64_NOP" "m (p + 12 + 4) = addr_lo lit"
    using code_at_nth [OF assms(3), of 0] code_at_nth [OF assms(3), of 3] code_at_nth [OF assms(3), of 4]
    by (simp_all add: ws add.assoc)
  have "read64 m (p + 12) = ?v" using w(2,3) by (simp add: read64_def)
  then have run: "a64_run m 1 (goto p c) = Some (goto (p + 4) (set_reg (field i 0 5) ?v c))"
    using w(1) by (simp add: a64_step_def exec_load_lit)
  have r: "reg (goto (p + 4) (set_reg (field i 0 5) ?v c)) (field i 0 5) = ?v"
    using assms(4) by (simp add: reg_def set_reg_def)
  have "?v \<noteq> lit" if "addr_lo lit \<noteq> ARM64_NOP"
  proof
    assume "?v = lit"
    moreover have "(ucast (?v) :: u32) = ARM64_NOP" by (rule bit_word_eqI) (auto simp: bit_simps)
    moreover have "(ucast lit :: u32) = addr_lo lit"
    proof -
      have m: "(0xFFFFFFFF :: u64) = mask 32" by (simp add: mask_eq_exp_minus_1)
      show ?thesis unfolding addr_lo_def m by (rule bit_word_eqI) (auto simp: bit_simps)
    qed
    ultimately show False using that by simp
  qed
  with run r show ?thesis by auto
qed

theorem relocated_literal_load_misaddressed_witness:
  "\<exists>ws c'. relo_words hook_zero 0x1000 0x58000040 INST_LDR_64 = Inr ws \<and>
     a64_run (words_at 0x2000 ws) 1 (goto 0x2000 demo_cpu) = Some c' \<and> reg c' 0 \<noteq> 0x1008"
proof -
  let ?i = "0x58000040 :: u32"
  define ws where "ws = [0x58000060 :: u32, 0xF9400000, 0x14000004, ARM64_NOP, 0x1008, 0]"
  have ws: "relo_words hook_zero 0x1000 ?i INST_LDR_64 = Inr ws" unfolding ws_def by code_simp
  have code: "code_at (words_at 0x2000 ws) 0x2000 ws" unfolding code_at_def ws_def by code_simp
  have f: "field ?i 0 5 = 0" "offset ?i 5 19 = 8" by (simp_all add: field_def offset_def)
  have in_tramp: "relo_in_tramp hook_zero 0x1008 = 0x1008" by code_simp
  have lo: "addr_lo 0x1008 \<noteq> ARM64_NOP" by code_simp
  show ?thesis
    using relocated_literal_load_misaddressed [OF disjI2 [OF disjI1 [OF refl]] ws code, of demo_cpu] f in_tramp lo ws
    by auto
qed

end
