(* ===== verification/Hook_Memory.thy ===== *)
theory Hook_Memory
  imports Relocate
begin

text \<open>
  The hook memory of \<^verbatim>\<open>kernel/base/hmem.c\<close> and the structures of \<^verbatim>\<open>kernel/include/hook.h\<close> it holds.
  The region is the list of the \<open>hook_mem_warp_t\<close> slots its loops visit; a pointer to a
  slot's \<open>chain\<close> is the slot's index, and \<open>chain_ptr\<close> gives the address it stands for.
\<close>

section \<open>The structures\<close>

abbreviation (input) HOOK_CHAIN_NUM :: nat where "HOOK_CHAIN_NUM \<equiv> 0x10"
abbreviation (input) TRANSIT_INST_NUM :: nat where "TRANSIT_INST_NUM \<equiv> 0x60"
abbreviation (input) FP_HOOK_CHAIN_NUM :: nat where "FP_HOOK_CHAIN_NUM \<equiv> 0x20"

datatype hook_type = NONE | INLINE | INLINE_CHAIN | FUNCTION_POINTER_CHAIN

datatype chain_item_state = CHAIN_ITEM_STATE_EMPTY | CHAIN_ITEM_STATE_READY | CHAIN_ITEM_STATE_BUSY

text \<open>The callback arrays, which \<open>hook_chain_t\<close> and \<open>fp_hook_chain_t\<close> have in common.\<close>

record chain_items =
  chain_items_max :: nat
  states :: "chain_item_state list"
  udata :: "u64 list"
  befores :: "u64 list"
  afters :: "u64 list"

record hook_chain_t =
  base_hook :: hook_t
  items :: chain_items
  transit :: "u32 list"

record fp_hook_chain_t =
  fp_addr :: u64
  fp_replace_addr :: u64
  origin_fp :: u64
  fp_items :: chain_items
  fp_transit :: "u32 list"

definition no_items :: "nat \<Rightarrow> chain_items" where
  "no_items n = \<lparr>chain_items_max = 0, states = replicate n CHAIN_ITEM_STATE_EMPTY,
     udata = replicate n 0, befores = replicate n 0, afters = replicate n 0\<rparr>"

definition chain_zero :: hook_chain_t where
  "chain_zero = \<lparr>base_hook = hook_zero, items = no_items HOOK_CHAIN_NUM, transit = replicate TRANSIT_INST_NUM 0\<rparr>"

definition fp_chain_zero :: fp_hook_chain_t where
  "fp_chain_zero = \<lparr>fp_addr = 0, fp_replace_addr = 0, origin_fp = 0,
     fp_items = no_items FP_HOOK_CHAIN_NUM, fp_transit = replicate TRANSIT_INST_NUM 0\<rparr>"

text \<open>The union of the three: a plain \<open>hook_t\<close> is the first member of a chain whose other
  bytes are zero, as the allocation leaves them.\<close>

datatype hook_union = Inline hook_chain_t | Fp fp_hook_chain_t

fun zeroed :: "hook_type \<Rightarrow> hook_union" where
  "zeroed FUNCTION_POINTER_CHAIN = Fp fp_chain_zero"
| "zeroed _ = Inline chain_zero"

record hook_mem_warp =
  in_use :: bool
  htype :: hook_type
  warp_addr :: u64
  chain :: hook_union

record hook_mem =
  mem_region_start :: u64
  mem_region_end :: u64
  slots :: "hook_mem_warp list"

abbreviation (input) warp_size :: nat where "warp_size \<equiv> 1232"
abbreviation (input) chain_offset :: nat where "chain_offset \<equiv> 16"

definition chain_ptr :: "hook_mem \<Rightarrow> nat \<Rightarrow> u64" where
  "chain_ptr mem i = mem_region_start mem + of_nat (i * warp_size + chain_offset)"

definition warp_zero :: hook_mem_warp where
  "warp_zero = \<lparr>in_use = False, htype = NONE, warp_addr = 0, chain = Inline chain_zero\<rparr>"

section \<open>The operations\<close>

text \<open>The loops visit the slots that begin before the region's end.\<close>

definition hook_mem_add :: "u64 \<Rightarrow> nat \<Rightarrow> hook_mem" where
  "hook_mem_add start sz =
     \<lparr>mem_region_start = start, mem_region_end = start + of_nat sz,
      slots = replicate ((sz + (warp_size - 1)) div warp_size) warp_zero\<rparr>"

fun first_slot :: "(hook_mem_warp \<Rightarrow> bool) \<Rightarrow> nat \<Rightarrow> hook_mem_warp list \<Rightarrow> nat option" where
  "first_slot P i [] = None"
| "first_slot P i (w # ws) = (if P w then Some i else first_slot P (Suc i) ws)"

definition hook_mem_zalloc :: "hook_mem \<Rightarrow> u64 \<Rightarrow> hook_type \<Rightarrow> nat option \<times> hook_mem" where
  "hook_mem_zalloc mem origin type =
     (case first_slot (\<lambda>w. \<not> in_use w) 0 (slots mem) of
        None \<Rightarrow> (None, mem)
      | Some i \<Rightarrow>
          let mem' = mem\<lparr>slots := (slots mem)
                [i := \<lparr>in_use = True, htype = type, warp_addr = origin, chain = zeroed type\<rparr>]\<rparr>
          in if chain_ptr mem i AND 7 \<noteq> 0 then (None, mem') else (Some i, mem'))"

definition hook_mem_free :: "hook_mem \<Rightarrow> nat \<Rightarrow> hook_mem" where
  "hook_mem_free mem i = mem\<lparr>slots := (slots mem)[i := (slots mem ! i)\<lparr>in_use := False\<rparr>]\<rparr>"

definition hook_get_mem_from_origin :: "hook_mem \<Rightarrow> u64 \<Rightarrow> nat option" where
  "hook_get_mem_from_origin mem origin = first_slot (\<lambda>w. in_use w \<and> warp_addr w = origin) 0 (slots mem)"

text \<open>Reading and writing a structure through its pointer; \<open>None\<close> where the slot holds one of
  the other layout.\<close>

definition get_chain :: "hook_mem \<Rightarrow> nat \<Rightarrow> hook_chain_t option" where
  "get_chain mem i = (case chain (slots mem ! i) of Inline c \<Rightarrow> Some c | Fp _ \<Rightarrow> None)"

definition put_chain :: "nat \<Rightarrow> hook_chain_t \<Rightarrow> hook_mem \<Rightarrow> hook_mem" where
  "put_chain i c mem = mem\<lparr>slots := (slots mem)[i := (slots mem ! i)\<lparr>chain := Inline c\<rparr>]\<rparr>"

definition get_fp_chain :: "hook_mem \<Rightarrow> nat \<Rightarrow> fp_hook_chain_t option" where
  "get_fp_chain mem i = (case chain (slots mem ! i) of Fp c \<Rightarrow> Some c | Inline _ \<Rightarrow> None)"

definition put_fp_chain :: "nat \<Rightarrow> fp_hook_chain_t \<Rightarrow> hook_mem \<Rightarrow> hook_mem" where
  "put_fp_chain i c mem = mem\<lparr>slots := (slots mem)[i := (slots mem ! i)\<lparr>chain := Fp c\<rparr>]\<rparr>"

section \<open>Searching\<close>

lemma first_slot_Some:
  "first_slot P k ws = Some i \<longleftrightarrow>
     (\<exists>j. i = k + j \<and> j < length ws \<and> P (ws ! j) \<and> (\<forall>l<j. \<not> P (ws ! l)))"
proof (induction ws arbitrary: k)
  case (Cons w ws)
  show ?case
  proof (cases "P w")
    case True
    then show ?thesis by (auto intro: exI [of _ 0] simp: nth_Cons' split: if_splits) 
  next
    case False
    have "(\<exists>j. i = Suc k + j \<and> j < length ws \<and> P (ws ! j) \<and> (\<forall>l<j. \<not> P (ws ! l))) \<longleftrightarrow>
       (\<exists>j. i = k + j \<and> j < length (w # ws) \<and> P ((w # ws) ! j) \<and> (\<forall>l<j. \<not> P ((w # ws) ! l)))"
      (is "(\<exists>j. ?A j) \<longleftrightarrow> (\<exists>j. ?B j)")
    proof
      assume "\<exists>j. ?A j"
      then obtain j where "?A j" ..
      with False have "?B (Suc j)" by (auto simp: less_Suc_eq_0_disj)
      then show "\<exists>j. ?B j" ..
    next
      assume "\<exists>j. ?B j"
      then obtain j where j: "?B j" ..
      with False obtain j' where "j = Suc j'" by (cases j) auto
      with j have "?A j'" by fastforce
      then show "\<exists>j. ?A j" ..
    qed
    with False Cons.IH show ?thesis by simp
  qed
qed simp

lemma first_slot_None: "first_slot P k ws = None \<longleftrightarrow> (\<forall>w\<in>set ws. \<not> P w)"
  by (induction ws arbitrary: k) auto

lemma get_Some:
  "hook_get_mem_from_origin mem a = Some i \<longleftrightarrow>
     i < length (slots mem) \<and> in_use (slots mem ! i) \<and> warp_addr (slots mem ! i) = a \<and>
     (\<forall>l<i. \<not> (in_use (slots mem ! l) \<and> warp_addr (slots mem ! l) = a))"
  by (auto simp: hook_get_mem_from_origin_def first_slot_Some)

lemma get_None:
  "hook_get_mem_from_origin mem a = None \<longleftrightarrow>
     (\<forall>i<length (slots mem). \<not> (in_use (slots mem ! i) \<and> warp_addr (slots mem ! i) = a))"
  by (simp add: hook_get_mem_from_origin_def first_slot_None all_set_conv_all_nth)

section \<open>The invariant: one slot per hooked address\<close>

definition mem_inv :: "hook_mem \<Rightarrow> bool" where
  "mem_inv mem \<longleftrightarrow> mem_region_start mem AND 7 = 0 \<and>
     (\<forall>i<length (slots mem). \<forall>j<length (slots mem).
        in_use (slots mem ! i) \<and> in_use (slots mem ! j) \<and> warp_addr (slots mem ! i) = warp_addr (slots mem ! j) \<longrightarrow> i = j)"

lemma chain_ptr_aligned:
  assumes "mem_region_start mem AND 7 = 0"
  shows "chain_ptr mem i AND 7 = 0"
proof -
  let ?s = "mem_region_start mem"
  have 7: "bit (7 :: u64) n \<longleftrightarrow> n < 3" for n
  proof -
    have "(7 :: u64) = mask 3" by (simp add: mask_numeral)
    then show ?thesis by (simp only: bit_mask_iff) auto
  qed
  have "\<not> bit ?s n" if "n < 3" for n
  proof -
    have "bit (?s AND 7) n = bit ?s n" using that by (simp only: bit_and_iff 7 simp_thms)
    then show ?thesis using assms by simp
  qed
  then have "?s = push_bit 3 (drop_bit 3 ?s)"
    by (intro bit_word_eqI) (simp add: bit_push_bit_iff bit_drop_bit_eq, metis le_add_diff_inverse not_le)
  then obtain y where y: "?s = 8 * y" by (metis push_bit_eq_mult mult.commute power3_eq_cube num_double numeral_times_numeral)
  have "chain_ptr mem i = 8 * (y + of_nat (i * 154 + 2))"
    by (simp add: chain_ptr_def y algebra_simps)
  also have "\<dots> = push_bit 3 (y + of_nat (i * 154 + 2))" by (simp add: push_bit_eq_mult)
  finally have p: "chain_ptr mem i = push_bit 3 (y + of_nat (i * 154 + 2))" .
  show ?thesis unfolding p by (rule bit_word_eqI) (simp only: bit_and_iff bit_push_bit_iff 7 bit_0_eq, auto)
qed

lemma get_eqI: "mem_inv mem \<Longrightarrow> i < length (slots mem) \<Longrightarrow> in_use (slots mem ! i) \<Longrightarrow> warp_addr (slots mem ! i) = a \<Longrightarrow>
    hook_get_mem_from_origin mem a = Some i"
  unfolding get_Some mem_inv_def by (metis order_less_irrefl order_less_trans)

lemma get_iff:
  "mem_inv mem \<Longrightarrow> hook_get_mem_from_origin mem a = Some i \<longleftrightarrow>
     i < length (slots mem) \<and> in_use (slots mem ! i) \<and> warp_addr (slots mem ! i) = a"
  using get_eqI [of mem i a] by (auto simp: get_Some)

lemma option_eqI: "(\<And>x. a = Some x \<longleftrightarrow> b = Some x) \<Longrightarrow> a = b"
  by (cases a; cases b) auto

lemma zalloc_Some:
  assumes "hook_mem_zalloc mem a t = (Some i, mem')"
  shows "i < length (slots mem)" "\<not> in_use (slots mem ! i)"
    "mem' = mem\<lparr>slots := (slots mem)[i := \<lparr>in_use = True, htype = t, warp_addr = a, chain = zeroed t\<rparr>]\<rparr>"
  using assms by (auto simp: hook_mem_zalloc_def Let_def first_slot_Some split: option.splits if_splits)

lemma zalloc_fresh:
  assumes "mem_inv mem" "hook_get_mem_from_origin mem a = None" "hook_mem_zalloc mem a t = (Some i, mem')"
  shows "mem_inv mem'"
    and "hook_get_mem_from_origin mem' b = (if b = a then Some i else hook_get_mem_from_origin mem b)"
proof -
  note z = zalloc_Some [OF assms(3)]
  have l: "length (slots mem') = length (slots mem)" "mem_region_start mem' = mem_region_start mem"
    and u: "in_use (slots mem' ! j) = (j = i \<or> in_use (slots mem ! j))"
      "warp_addr (slots mem' ! j) = (if j = i then a else warp_addr (slots mem ! j))" for j
    using z(1) by (cases "j = i"; simp add: z(3))+
  have n: "warp_addr (slots mem ! j) \<noteq> a" if "j < length (slots mem)" "in_use (slots mem ! j)" for j
    using assms(2) that by (auto simp: get_None)
  show inv: "mem_inv mem'"
    using assms(1) n unfolding mem_inv_def l u by metis
  show "hook_get_mem_from_origin mem' b = (if b = a then Some i else hook_get_mem_from_origin mem b)"
    by (rule option_eqI) (use n z(1,2) in \<open>auto simp: get_iff [OF inv] get_iff [OF assms(1)] l u\<close>)
qed

lemma zalloc_full:
  assumes "mem_inv mem" "hook_mem_zalloc mem a t = (None, mem')"
  shows "mem' = mem"
  using assms chain_ptr_aligned
  by (auto simp: hook_mem_zalloc_def Let_def mem_inv_def split: option.splits if_splits)

lemma free_get:
  assumes "mem_inv mem" "hook_get_mem_from_origin mem a = Some i"
  shows "mem_inv (hook_mem_free mem i)"
    and "hook_get_mem_from_origin (hook_mem_free mem i) b = (if b = a then None else hook_get_mem_from_origin mem b)"
proof -
  let ?m = "hook_mem_free mem i"
  have i: "i < length (slots mem)" "in_use (slots mem ! i)" "warp_addr (slots mem ! i) = a"
    using assms(2) by (simp_all add: get_iff [OF assms(1)])
  have l: "length (slots ?m) = length (slots mem)" "mem_region_start ?m = mem_region_start mem"
    and u: "in_use (slots ?m ! j) = (j \<noteq> i \<and> in_use (slots mem ! j))"
      "warp_addr (slots ?m ! j) = warp_addr (slots mem ! j)" for j
    using i(1) by (cases "j = i"; simp add: hook_mem_free_def)+
  show inv: "mem_inv ?m"
    using assms(1) unfolding mem_inv_def l u by metis
  have e: "j = i" if "j < length (slots mem)" "in_use (slots mem ! j)" "warp_addr (slots mem ! j) = a" for j
    using assms(1) i that unfolding mem_inv_def by metis
  have "hook_get_mem_from_origin ?m b = Some x \<longleftrightarrow> b \<noteq> a \<and> hook_get_mem_from_origin mem b = Some x" for x
    unfolding get_iff [OF inv] get_iff [OF assms(1)] l u using e i by metis
  then show "hook_get_mem_from_origin ?m b = (if b = a then None else hook_get_mem_from_origin mem b)"
    by (cases "hook_get_mem_from_origin mem b"; cases "hook_get_mem_from_origin ?m b") auto
qed

lemma nth_update_field: "xs[i := x] ! j = (if j = i \<and> i < length xs then x else xs ! j)"
  by (cases "j = i"; cases "i < length xs") (simp_all add: list_update_beyond)

lemma put_keeps:
  assumes "mem' = mem\<lparr>slots := (slots mem)[i := (slots mem ! i)\<lparr>chain := c\<rparr>]\<rparr>"
  shows "mem_inv mem' \<longleftrightarrow> mem_inv mem"
    and "hook_get_mem_from_origin mem' a = hook_get_mem_from_origin mem a"
proof -
  have l: "length (slots mem') = length (slots mem)" "mem_region_start mem' = mem_region_start mem"
    and u: "in_use (slots mem' ! j) = in_use (slots mem ! j)" "warp_addr (slots mem' ! j) = warp_addr (slots mem ! j)" for j
    by (simp_all add: assms nth_update_field)
  show "mem_inv mem' \<longleftrightarrow> mem_inv mem" by (simp add: mem_inv_def l u)
  show "hook_get_mem_from_origin mem' a = hook_get_mem_from_origin mem a"
    by (rule option_eqI) (simp add: get_Some l u)
qed

lemmas put_chain_keeps = put_keeps [OF put_chain_def]
  and put_fp_chain_keeps = put_keeps [OF put_fp_chain_def]

section \<open>The interface of the hook memory\<close>

text \<open>What the hooking code relies on: lookups by origin after an allocation, a release and a
  write through the pointer.\<close>

locale origin_store =
  fixes inv :: "'m \<Rightarrow> bool"
    and lookup :: "'m \<Rightarrow> u64 \<Rightarrow> 'p option"
    and alloc :: "'m \<Rightarrow> u64 \<Rightarrow> 'p option \<times> 'm"
    and release :: "'m \<Rightarrow> 'p \<Rightarrow> 'm"
    and put :: "'p \<Rightarrow> 'c \<Rightarrow> 'm \<Rightarrow> 'm"
  assumes alloc_inv: "inv m \<Longrightarrow> lookup m a = None \<Longrightarrow> alloc m a = (Some p, m') \<Longrightarrow> inv m'"
    and alloc_lookup: "inv m \<Longrightarrow> lookup m a = None \<Longrightarrow> alloc m a = (Some p, m') \<Longrightarrow>
      lookup m' b = (if b = a then Some p else lookup m b)"
    and alloc_full: "inv m \<Longrightarrow> alloc m a = (None, m') \<Longrightarrow> m' = m"
    and release_inv: "inv m \<Longrightarrow> lookup m a = Some p \<Longrightarrow> inv (release m p)"
    and release_lookup: "inv m \<Longrightarrow> lookup m a = Some p \<Longrightarrow> lookup (release m p) b = (if b = a then None else lookup m b)"
    and put_inv: "inv (put p c m) = inv m"
    and put_lookup: "lookup (put p c m) b = lookup m b"
begin

text \<open>Releasing what was allocated for a fresh address restores every lookup.\<close>

lemma alloc_release:
  assumes "inv m" "lookup m a = None" "alloc m a = (Some p, m')"
  shows "inv (release (put p c m') p)" and "lookup (release (put p c m') p) = lookup m"
proof -
  have i: "inv (put p c m')" and l: "lookup (put p c m') b = (if b = a then Some p else lookup m b)" for b
    using alloc_inv [OF assms] alloc_lookup [OF assms] by (simp_all add: put_inv put_lookup)
  have p: "lookup (put p c m') a = Some p" by (simp add: l)
  show "inv (release (put p c m') p)" by (rule release_inv [OF i p])
  show "lookup (release (put p c m') p) = lookup m"
    using assms(2) by (auto simp: release_lookup [OF i p] l)
qed

text \<open>Different addresses never share a pointer.\<close>

lemma lookup_inj:
  assumes "inv m" "lookup m a = Some p" "lookup m b = Some p"
  shows "a = b"
  using release_lookup [OF assms(1,2), of a] release_lookup [OF assms(1,3), of a] assms(2) by (metis option.distinct(1))

end

interpretation inline_store: origin_store mem_inv hook_get_mem_from_origin
  "\<lambda>m a. hook_mem_zalloc m a t" hook_mem_free put_chain for t
  by unfold_locales (fact zalloc_fresh zalloc_full free_get put_chain_keeps)+

interpretation fp_store: origin_store mem_inv hook_get_mem_from_origin
  "\<lambda>m a. hook_mem_zalloc m a t" hook_mem_free put_fp_chain for t
  by unfold_locales (fact zalloc_fresh zalloc_full free_get put_fp_chain_keeps)+

section \<open>The last slot of the region\<close>

abbreviation (input) HOOK_ALLOC_SIZE :: nat where "HOOK_ALLOC_SIZE \<equiv> 1048576"

text \<open>The memory after allocations for the addresses of a list.\<close>

definition alloc_list :: "u64 list \<Rightarrow> hook_type \<Rightarrow> hook_mem \<Rightarrow> hook_mem" where
  "alloc_list xs t mem = fold (\<lambda>a m. snd (hook_mem_zalloc m a t)) xs mem"

lemma zalloc_next:
  assumes "mem_region_start mem AND 7 = 0" "k < length (slots mem)" "\<not> in_use (slots mem ! k)" "\<forall>l<k. in_use (slots mem ! l)"
  shows "hook_mem_zalloc mem a t =
     (Some k, mem\<lparr>slots := (slots mem)[k := \<lparr>in_use = True, htype = t, warp_addr = a, chain = zeroed t\<rparr>]\<rparr>)"
proof -
  have "first_slot (\<lambda>w. \<not> in_use w) 0 (slots mem) = Some k"
    using assms(2-) by (auto simp: first_slot_Some)
  then show ?thesis by (simp add: hook_mem_zalloc_def Let_def chain_ptr_aligned [OF assms(1)])
qed

lemma alloc_list_slots:
  fixes t :: hook_type
  assumes "start AND 7 = 0" "length xs \<le> (sz + 1231) div 1232"
  defines "mem \<equiv> alloc_list xs t (hook_mem_add start sz)"
  shows "length (slots mem) = (sz + 1231) div 1232" "mem_region_start mem = start"
    and "i < (sz + 1231) div 1232 \<Longrightarrow> in_use (slots mem ! i) \<longleftrightarrow> i < length xs"
proof -
  have "length (slots mem) = (sz + 1231) div 1232 \<and> mem_region_start mem = start \<and>
      (\<forall>i<(sz + 1231) div 1232. in_use (slots mem ! i) \<longleftrightarrow> i < length xs)"
    using assms(2) unfolding mem_def
  proof (induction xs rule: rev_induct)
    case (snoc a xs)
    let ?m = "alloc_list xs t (hook_mem_add start sz)"
    have IH: "length (slots ?m) = (sz + 1231) div 1232" "mem_region_start ?m = start"
      "\<forall>i<(sz + 1231) div 1232. in_use (slots ?m ! i) \<longleftrightarrow> i < length xs"
      using snoc by auto
    then have "hook_mem_zalloc ?m a t =
       (Some (length xs), ?m\<lparr>slots := (slots ?m)[length xs := \<lparr>in_use = True, htype = t, warp_addr = a, chain = zeroed t\<rparr>]\<rparr>)"
      using assms(1) snoc.prems by (intro zalloc_next) auto
    with IH show ?case by (auto simp: alloc_list_def nth_update_field less_Suc_eq)
  qed (simp add: alloc_list_def hook_mem_add_def warp_zero_def)
  then show "length (slots mem) = (sz + 1231) div 1232" "mem_region_start mem = start"
    "i < (sz + 1231) div 1232 \<Longrightarrow> in_use (slots mem ! i) \<longleftrightarrow> i < length xs" by auto
qed

text \<open>The region of the hook memory takes 852 allocations, the n-th of them slot n - 1, and the
  last slot does not fit: its structure ends beyond the region's end, in the memory that
  follows it.  Every other slot lies within the region.\<close>

theorem last_slot_leaves_region:
  assumes "start AND 7 = 0" "length xs \<le> 851"
  shows "let mem = alloc_list xs t (hook_mem_add start HOOK_ALLOC_SIZE) in
     fst (hook_mem_zalloc mem a t) = Some (length xs) \<and>
     (unat (chain_ptr mem (length xs) - mem_region_start mem) + 1216 > HOOK_ALLOC_SIZE \<longleftrightarrow> length xs = 851)"
proof -
  let ?mem = "alloc_list xs t (hook_mem_add start HOOK_ALLOC_SIZE)"
  have l: "length xs \<le> (HOOK_ALLOC_SIZE + 1231) div 1232" using assms(2) by simp
  note m = alloc_list_slots [OF assms(1) l, where t = t]
  have "hook_mem_zalloc ?mem a t = (Some (length xs),
      ?mem\<lparr>slots := (slots ?mem)[length xs := \<lparr>in_use = True, htype = t, warp_addr = a, chain = zeroed t\<rparr>]\<rparr>)"
    using m assms by (intro zalloc_next) auto
  moreover have "unat (chain_ptr ?mem (length xs) - mem_region_start ?mem) = length xs * 1232 + 16"
    using assms(2) unat_of_nat_u64 [of "length xs * 1232 + 16"] by (simp add: chain_ptr_def)
  moreover have "length xs * 1232 + 16 + 1216 > HOOK_ALLOC_SIZE \<longleftrightarrow> length xs = 851"
  proof (cases "length xs = 851")
    case False
    with assms(2) have "length xs \<le> 850" by simp
    then have "length xs * 1232 + 16 + 1216 \<le> HOOK_ALLOC_SIZE" by linarith
    with False show ?thesis by simp
  qed simp
  ultimately show ?thesis by (simp add: Let_def)
qed

lemma last_slot_leaves_region_witness:
  "let mem = alloc_list (replicate 851 0x1000) INLINE (hook_mem_add 0xffffffc008400000 HOOK_ALLOC_SIZE) in
     fst (hook_mem_zalloc mem 8 INLINE) = Some 851 \<and>
     unat (chain_ptr mem 851 - mem_region_start mem) + 1216 > HOOK_ALLOC_SIZE"
  using last_slot_leaves_region [of "0xffffffc008400000" "replicate 851 0x1000" INLINE 8] by (simp add: Let_def)

end
