(* ===== verification/Page_Table.thy ===== *)
theory Page_Table
  imports Prelude
begin

text \<open>
  Kernel page tables as \<^verbatim>\<open>kernel/base/start.c\<close> walks and edits them (\<open>pgtable_entry\<close>,
  \<open>modify_entry_kernel\<close>, with the bits and macros of \<^verbatim>\<open>kernel/include/pgtable.h\<close>).  The tables
  are a function from the address of a descriptor to the descriptor; the variables the
  start code fills (\<open>page_shift\<close>, \<open>page_level\<close>, \<open>pgd_va\<close>, \<open>linear_voffset\<close>) are the record \<open>paging\<close>.
  Cache and TLB maintenance is not modelled.
\<close>

unbundle bit_operations_syntax

section \<open>Descriptors\<close>

definition PTE_VALID :: u64 where "PTE_VALID = push_bit 0 1"
definition PTE_TABLE_BIT :: u64 where "PTE_TABLE_BIT = push_bit 1 1"
definition PTE_RDONLY :: u64 where "PTE_RDONLY = push_bit 7 1"
definition PTE_DBM :: u64 where "PTE_DBM = push_bit 51 1"
definition PTE_CONT :: u64 where "PTE_CONT = push_bit 52 1"

type_synonym tables = "u64 \<Rightarrow> u64"

record paging =
  page_shift :: nat
  page_level :: nat
  pgd_va :: u64
  linear_voffset :: u64

definition pte_valid_cont :: "u64 \<Rightarrow> bool" where
  "pte_valid_cont pte \<longleftrightarrow>
     pte AND (PTE_VALID OR PTE_TABLE_BIT OR PTE_CONT) = PTE_VALID OR PTE_TABLE_BIT OR PTE_CONT"

definition phys_to_virt :: "paging \<Rightarrow> u64 \<Rightarrow> u64" where
  "phys_to_virt pg phys = phys + linear_voffset pg"

text \<open>\<open>((1ul << (48 - bits)) - 1) << bits\<close>: the address bits of a descriptor from \<open>bits\<close> up.\<close>

definition addr_mask :: "nat \<Rightarrow> u64" where
  "addr_mask bits = push_bit bits (push_bit (48 - bits) 1 - 1)"

section \<open>Walking the tables\<close>

text \<open>\<open>Suc k\<close> levels are left, the present one being \<open>lv = 3 - k\<close>; \<open>entry\<close> is the value
  \<open>pxd_entry_va\<close> has before the round.\<close>

fun pgtable_walk :: "paging \<Rightarrow> tables \<Rightarrow> u64 \<Rightarrow> nat \<Rightarrow> u64 \<Rightarrow> u64 \<Rightarrow> u64" where
  "pgtable_walk pg m va 0 entry pxd_va = entry"
| "pgtable_walk pg m va (Suc k) entry pxd_va =
     (let pxd_bits = page_shift pg - 3;
          pxd_shift = pxd_bits * Suc k + 3;
          pxd_index = drop_bit pxd_shift va AND (push_bit pxd_bits 1 - 1);
          pxd_entry_va = pxd_va + pxd_index * 8
      in if pxd_entry_va = 0 then 0
         else let pxd_desc = m pxd_entry_va
         in if pxd_desc AND 3 = 3
            then pgtable_walk pg m va k pxd_entry_va (phys_to_virt pg (pxd_desc AND addr_mask (page_shift pg)))
            else if pxd_desc AND 3 = 1
            then if k < 3 then pxd_entry_va
                 else pgtable_walk pg m va k pxd_entry_va
                        (phys_to_virt pg (pxd_desc AND addr_mask (k * pxd_bits + page_shift pg)))
            else 0)"

definition pgtable_entry :: "paging \<Rightarrow> tables \<Rightarrow> u64 \<Rightarrow> u64 \<Rightarrow> u64" where
  "pgtable_entry pg m pgd va = pgtable_walk pg m va (page_level pg) 0 pgd"

definition pgtable_entry_kernel :: "paging \<Rightarrow> tables \<Rightarrow> u64 \<Rightarrow> u64" where
  "pgtable_entry_kernel pg m va = pgtable_entry pg m (pgd_va pg) va"

section \<open>Changing a descriptor\<close>

abbreviation (input) CONT_PTES :: nat where "CONT_PTES \<equiv> 16"

definition modify_entry_kernel :: "paging \<Rightarrow> u64 \<Rightarrow> u64 \<Rightarrow> tables \<Rightarrow> tables" where
  "modify_entry_kernel pg entry val m =
     (if \<not> pte_valid_cont (m entry) \<and> \<not> pte_valid_cont val then m(entry := val)
      else let table_pa_mask = addr_mask (page_shift pg);
               prot = val AND NOT table_pa_mask;
               p = entry AND NOT (8 * of_nat CONT_PTES - 1)
           in (fold (\<lambda>i m. m(p + 8 * of_nat i := (m (p + 8 * of_nat i) AND table_pa_mask) OR prot))
                 [0..<CONT_PTES] m)(entry := val))"

definition make_writable :: "u64 \<Rightarrow> u64" where
  "make_writable prot = (prot OR PTE_DBM) AND NOT PTE_RDONLY"

text \<open>The page of an address accepts a store by the kernel: its descriptor is not read only.
  A processor that sets the dirty state itself would also accept a read-only page with DBM.\<close>

definition writable :: "paging \<Rightarrow> tables \<Rightarrow> u64 \<Rightarrow> bool" where
  "writable pg m va \<longleftrightarrow>
     pgtable_entry_kernel pg m va \<noteq> 0 \<and> m (pgtable_entry_kernel pg m va) AND PTE_RDONLY = 0"

section \<open>The walk looks at the page number and at the structure of the tables only\<close>

lemma PTE_bit [bit_simps]:
  "bit PTE_VALID i \<longleftrightarrow> i = 0" "bit PTE_TABLE_BIT i \<longleftrightarrow> i = 1" "bit PTE_RDONLY i \<longleftrightarrow> i = 7"
  "bit PTE_DBM i \<longleftrightarrow> i = 51" "bit PTE_CONT i \<longleftrightarrow> i = 52"
  unfolding PTE_VALID_def PTE_TABLE_BIT_def PTE_RDONLY_def PTE_DBM_def PTE_CONT_def bit_push_bit_iff bit_1_iff
  by auto

abbreviation (input) flags :: u64 where "flags \<equiv> PTE_DBM OR PTE_RDONLY"

definition paging_ok :: "paging \<Rightarrow> bool" where
  "paging_ok pg \<longleftrightarrow> 12 \<le> page_shift pg \<and> page_shift pg \<le> 16"

definition same_structure :: "tables \<Rightarrow> tables \<Rightarrow> bool" where
  "same_structure m m' \<longleftrightarrow> (\<forall>a. m a AND NOT flags = m' a AND NOT flags)"

lemma exp_minus_1: "push_bit n 1 - 1 = (mask n :: u64)"
  by (simp add: mask_eq_exp_minus_1 push_bit_of_1)

lemma addr_mask_bit [bit_simps]: "bit (addr_mask n) i \<longleftrightarrow> n \<le> i \<and> i < 48"
  by (auto simp only: addr_mask_def exp_minus_1 bit_push_bit_iff bit_mask_iff) auto

lemma keeps_structure_bits:
  assumes "d AND NOT flags = d' AND NOT flags" and "\<And>i. bit msk i \<Longrightarrow> i \<noteq> 7 \<and> i \<noteq> 51"
  shows "d AND msk = d' AND msk"
proof (rule bit_word_eqI)
  fix i assume i: "i < LENGTH(64)"
  have "bit (d AND NOT flags) i = bit (d' AND NOT flags) i" using assms(1) by simp
  with assms(2) [of i] i show "bit (d AND msk) i = bit (d' AND msk) i"
    by (auto simp: bit_simps)
qed

lemma walk_same_structure:
  assumes "same_structure m m'" and "paging_ok pg"
  shows "pgtable_walk pg m va k entry p = pgtable_walk pg m' va k entry p"
proof (induction k arbitrary: entry p)
  case (Suc k)
  have s: "m a AND msk = m' a AND msk" if "\<And>i. bit msk i \<Longrightarrow> i \<noteq> 7 \<and> i \<noteq> 51" for a msk
    by (rule keeps_structure_bits [OF _ that]) (use assms(1) in \<open>simp_all add: same_structure_def\<close>)
  have "bit (3 :: u64) i \<Longrightarrow> i \<noteq> 7 \<and> i \<noteq> 51" for i by (auto simp: bit_numeral_rec)
  then have 3: "m a AND 3 = m' a AND 3" for a by (rule s) auto
  have "m a AND addr_mask n = m' a AND addr_mask n" if "12 \<le> n" for a n
    by (rule s) (use that in \<open>auto simp: addr_mask_bit\<close>)
  with 3 Suc.IH assms(2) show ?case by (simp add: Let_def paging_ok_def)
qed simp

lemma pgtable_entry_same_structure:
  "same_structure m m' \<Longrightarrow> paging_ok pg \<Longrightarrow> pgtable_entry_kernel pg m va = pgtable_entry_kernel pg m' va"
  by (simp add: pgtable_entry_kernel_def pgtable_entry_def walk_same_structure)

lemma walk_page:
  assumes "drop_bit (page_shift pg) va = drop_bit (page_shift pg) va'" and "paging_ok pg"
  shows "pgtable_walk pg m va k entry p = pgtable_walk pg m va' k entry p"
proof (induction k arbitrary: entry p)
  case (Suc k)
  have le: "page_shift pg \<le> (page_shift pg - 3) * Suc k + 3" using assms(2) by (simp add: paging_ok_def)
  have "drop_bit n v = drop_bit (n - page_shift pg) (drop_bit (page_shift pg) v)"
    if "page_shift pg \<le> n" for n and v :: u64 using that by simp
  from this [OF le] have "drop_bit ((page_shift pg - 3) * Suc k + 3) va = drop_bit ((page_shift pg - 3) * Suc k + 3) va'"
    using assms(1) by metis
  with Suc.IH show ?case by (simp only: pgtable_walk.simps Let_def)
qed simp

lemma pgtable_entry_page:
  "drop_bit (page_shift pg) va = drop_bit (page_shift pg) va' \<Longrightarrow> paging_ok pg \<Longrightarrow>
   pgtable_entry_kernel pg m va = pgtable_entry_kernel pg m va'"
  unfolding pgtable_entry_kernel_def pgtable_entry_def by (rule walk_page)

section \<open>Editing the group of a descriptor\<close>

definition cont_group :: "u64 \<Rightarrow> u64 set" where
  "cont_group entry = (\<lambda>i. (entry AND NOT (8 * of_nat CONT_PTES - 1)) + 8 * of_nat i) ` {..<CONT_PTES}"

text \<open>The descriptors of a contiguous group agree outside their addresses.\<close>

definition cont_ok :: "paging \<Rightarrow> tables \<Rightarrow> u64 \<Rightarrow> bool" where
  "cont_ok pg m entry \<longleftrightarrow>
     (pte_valid_cont (m entry) \<longrightarrow>
       (\<forall>a\<in>cont_group entry. m a AND NOT (addr_mask (page_shift pg)) = m entry AND NOT (addr_mask (page_shift pg))))"

lemma fold_group:
  fixes p :: u64
  assumes "n \<le> 16"
  shows "fold (\<lambda>i m. m(p + 8 * of_nat i := f (m (p + 8 * of_nat i)))) [0..<n] m a =
         (if a \<in> (\<lambda>i. p + 8 * of_nat i) ` {..<n} then f (m a) else m a)"
  using assms
proof (induction n)
  case (Suc n)
  have "p + 8 * of_nat n \<noteq> p + 8 * of_nat i" if "i < n" for i
  proof
    assume "p + 8 * of_nat n = p + 8 * of_nat i"
    then have "8 * of_nat n = (8 * of_nat i :: u64)" by simp
    then have "of_nat (8 * n) = (of_nat (8 * i) :: u64)" by simp
    then have "unat (of_nat (8 * n) :: u64) = unat (of_nat (8 * i) :: u64)" by simp
    moreover have "unat (of_nat (8 * j) :: u64) = 8 * j" if "j \<le> 16" for j
      using that by (intro unat_of_nat_u64) simp
    ultimately show False using that Suc.prems by simp
  qed
  with Suc show ?case by (auto simp: lessThan_Suc)
qed simp

lemma modify_entry_other:
  "modify_entry_kernel pg entry val m a =
     (if a = entry then val
      else if (pte_valid_cont (m entry) \<or> pte_valid_cont val) \<and> a \<in> cont_group entry
      then (m a AND addr_mask (page_shift pg)) OR (val AND NOT (addr_mask (page_shift pg))) else m a)"
  using fold_group [of 16 "entry AND NOT (8 * of_nat CONT_PTES - 1)"
      "\<lambda>d. (d AND addr_mask (page_shift pg)) OR (val AND NOT (addr_mask (page_shift pg)))" m a]
  by (simp add: modify_entry_kernel_def Let_def cont_group_def del: of_nat_numeral)

lemma make_writable_structure: "make_writable d AND NOT flags = d AND NOT flags"
  by (rule bit_word_eqI) (auto simp: make_writable_def bit_simps)

lemma make_writable_RDONLY: "make_writable d AND PTE_RDONLY = 0"
  by (rule bit_word_eqI) (auto simp: make_writable_def bit_simps)

lemma make_writable_cont: "pte_valid_cont (make_writable d) = pte_valid_cont d"
proof -
  have "make_writable d AND (PTE_VALID OR PTE_TABLE_BIT OR PTE_CONT) =
        d AND (PTE_VALID OR PTE_TABLE_BIT OR PTE_CONT)"
    by (rule bit_word_eqI) (auto simp: make_writable_def bit_simps)
  then show ?thesis by (simp only: pte_valid_cont_def)
qed

lemma and_not_eq_bit:
  fixes x y p :: u64
  assumes "x AND NOT p = y AND NOT p" and "\<not> bit p i"
  shows "bit x i = bit y i"
proof (cases "i < 64")
  case True
  from assms(1) have "bit (x AND NOT p) i = bit (y AND NOT p) i" by simp
  with assms(2) True show ?thesis by (simp add: bit_and_iff bit_not_iff)
qed (use bit_imp_le_length [of x i] bit_imp_le_length [of y i] in auto)

text \<open>Making the page of a descriptor writable leaves the structure of the tables alone.\<close>

lemma make_writable_same_structure:
  assumes "paging_ok pg" and "cont_ok pg m entry"
  shows "same_structure m (modify_entry_kernel pg entry (make_writable (m entry)) m)"
  unfolding same_structure_def
proof
  fix a
  let ?pa = "addr_mask (page_shift pg)"
  have "((m a AND ?pa) OR (make_writable (m entry) AND NOT ?pa)) AND NOT flags = m a AND NOT flags"
    if "m a AND NOT ?pa = m entry AND NOT ?pa"
    by (rule bit_word_eqI)
       (use and_not_eq_bit [OF that] assms(1) in \<open>auto simp: make_writable_def paging_ok_def bit_simps\<close>)
  moreover have "m a AND NOT ?pa = m entry AND NOT ?pa" if "pte_valid_cont (m entry)" "a \<in> cont_group entry"
    using assms(2) that by (simp add: cont_ok_def)
  ultimately show "m a AND NOT flags = modify_entry_kernel pg entry (make_writable (m entry)) m a AND NOT flags"
    by (cases "a = entry"; cases "pte_valid_cont (m entry)"; cases "a \<in> cont_group entry")
       (simp_all only: modify_entry_other make_writable_cont make_writable_structure simp_thms if_True if_False)
qed

text \<open>Restoring the descriptor restores the tables.\<close>

lemma modify_entry_restore:
  assumes "cont_ok pg m entry"
  shows "modify_entry_kernel pg entry (m entry) (modify_entry_kernel pg entry (make_writable (m entry)) m) = m"
proof
  fix a
  let ?pa = "addr_mask (page_shift pg)"
  have "((m a AND ?pa) OR x AND NOT ?pa) AND ?pa OR m entry AND NOT ?pa = m a"
    if "m a AND NOT ?pa = m entry AND NOT ?pa" for x
    by (rule bit_word_eqI) (use and_not_eq_bit [OF that] in \<open>auto simp: bit_simps\<close>)
  moreover have "m a AND NOT ?pa = m entry AND NOT ?pa" if "pte_valid_cont (m entry)" "a \<in> cont_group entry"
    using assms that by (simp add: cont_ok_def)
  ultimately show "modify_entry_kernel pg entry (m entry) (modify_entry_kernel pg entry (make_writable (m entry)) m) a = m a"
    by (cases "pte_valid_cont (m entry)"; cases "a \<in> cont_group entry")
       (simp_all add: modify_entry_other make_writable_cont del: bit.conj_disj_distrib2)
qed

lemma writable_after:
  assumes "paging_ok pg" and "cont_ok pg m (pgtable_entry_kernel pg m va)"
    and "pgtable_entry_kernel pg m va \<noteq> 0"
    and "drop_bit (page_shift pg) va' = drop_bit (page_shift pg) va"
  shows "writable pg (modify_entry_kernel pg (pgtable_entry_kernel pg m va)
           (make_writable (m (pgtable_entry_kernel pg m va))) m) va'"
proof -
  let ?e = "pgtable_entry_kernel pg m va"
  let ?m = "modify_entry_kernel pg ?e (make_writable (m ?e)) m"
  have "pgtable_entry_kernel pg ?m va' = ?e"
    using pgtable_entry_same_structure [OF make_writable_same_structure [OF assms(1,2)] assms(1), of va']
      pgtable_entry_page [OF assms(4,1)] by simp
  with assms(3) show ?thesis by (simp add: writable_def modify_entry_other make_writable_RDONLY)
qed

text \<open>Pages outside the group keep their permission.\<close>

lemma writable_other:
  assumes "paging_ok pg" and "cont_ok pg m entry" and "\<not> writable pg m va"
    and "pgtable_entry_kernel pg m va \<noteq> entry"
    and "\<not> pte_valid_cont (m entry)"
  shows "\<not> writable pg (modify_entry_kernel pg entry (make_writable (m entry)) m) va"
  using assms pgtable_entry_same_structure [OF make_writable_same_structure [OF assms(1,2)] assms(1), of va]
  by (simp add: writable_def modify_entry_other make_writable_cont)

end
