(* ===== verification/Hook_Engine.thy ===== *)
theory Hook_Engine
  imports Hook_Memory Page_Table
begin

text \<open>
  Preparing, installing and removing an inline hook (\<^verbatim>\<open>kernel/base/hook.c\<close>): the search for the
  function behind branches, \<open>hook_prepare\<close> with the trampoline and the relocated code,
  \<open>hook_install\<close>, \<open>hook_uninstall\<close>, \<open>hook\<close> and \<open>unhook\<close>.  The kernel's instructions are
  words by address; a store to a page whose descriptor is read only faults, and a fault or a
  write outside an array is the value \<open>None\<close>.
\<close>

section \<open>The state\<close>

record kstate =
  ktext :: "u64 \<Rightarrow> u32"
  ptes :: tables
  hmem :: hook_mem

definition is_bad_address :: "u64 \<Rightarrow> bool" where
  "is_bad_address a \<longleftrightarrow> a AND 0x8000000000000000 \<noteq> 0x8000000000000000"

section \<open>The function behind branches\<close>

definition branch_func_addr_once :: "kstate \<Rightarrow> u64 \<Rightarrow> u64" where
  "branch_func_addr_once st a =
     (let inst = ktext st a
      in if inst AND 0xFC000000 = INST_B
         then let imm26 = (ucast (bits32 inst 25 0) :: u64); imm64 = sign64_extend (push_bit 2 imm26) 28 in a + imm64
         else if inst = ARM64_BTI_C \<or> inst = ARM64_BTI_J \<or>
                 (inst = ARM64_BTI_JC \<and> hook_get_mem_from_origin (hmem st) a = None)
         then a + 4 else a)"

partial_function (option) branch_func_addr :: "kstate \<Rightarrow> u64 \<Rightarrow> u64 option" where
  "branch_func_addr st a =
     (let ret = branch_func_addr_once st a in if ret = a then Some ret else branch_func_addr st ret)"

section \<open>Preparing a hook\<close>

primrec relocate_all :: "nat list \<Rightarrow> hook_t \<Rightarrow> (s32 \<times> hook_t) option" where
  "relocate_all [] h = Some (0, h)"
| "relocate_all (i # is) h =
     (case relocate_inst h (origin_addr h + of_nat (i * 4)) (origin_insts h ! i) of
        None \<Rightarrow> None
      | Some (relo_res, h') \<Rightarrow> if relo_res \<noteq> 0 then Some (- HOOK_BAD_RELO, h') else relocate_all is h')"

definition backup_insts :: "(u64 \<Rightarrow> u32) \<Rightarrow> u64 \<Rightarrow> u32 list" where
  "backup_insts mem a = map (\<lambda>i. mem (a + of_nat (i * 4))) [0..<TRAMPOLINE_MAX_NUM]"

definition make_tramp :: "hook_t \<Rightarrow> hook_t" where
  "make_tramp h =
     (let branch = branch_from_to (origin_addr h) (replace_addr h)
      in if origin_insts h ! 0 = ARM64_PACIASP \<or> origin_insts h ! 0 = ARM64_PACIBSP
         then h\<lparr>tramp_insts_num := length branch + 1,
                tramp_insts := ARM64_BTI_JC # branch @ drop (length branch + 1) (tramp_insts h)\<rparr>
         else h\<lparr>tramp_insts_num := length branch,
                tramp_insts := branch @ drop (length branch) (tramp_insts h)\<rparr>)"

definition jump_back :: "hook_t \<Rightarrow> hook_t option" where
  "jump_back h =
     (let back_src_addr = relo_addr h + of_nat (relo_insts_num h * 4);
          back_dst_addr = origin_addr h + of_nat (tramp_insts_num h * 4);
          branch = branch_from_to back_src_addr back_dst_addr
      in case put_words (relo_insts_num h) branch (relo_insts h) of
           None \<Rightarrow> None
         | Some arr \<Rightarrow> Some (h\<lparr>relo_insts := arr, relo_insts_num := relo_insts_num h + length branch\<rparr>))"

definition hook_prepare :: "(u64 \<Rightarrow> u32) \<Rightarrow> hook_t \<Rightarrow> (s32 \<times> hook_t) option" where
  "hook_prepare mem h =
     (if is_bad_address (func_addr h) \<or> is_bad_address (origin_addr h) \<or>
         is_bad_address (replace_addr h) \<or> is_bad_address (relo_addr h)
      then Some (- HOOK_BAD_ADDRESS, h)
      else let h = h\<lparr>origin_insts := backup_insts mem (origin_addr h)\<rparr>;
               h = make_tramp h;
               h = h\<lparr>relo_insts := replicate RELOCATE_INST_NUM ARM64_NOP\<rparr>
      in case relocate_all [0..<tramp_insts_num h] h of
           None \<Rightarrow> None
         | Some (err, h) \<Rightarrow> if err \<noteq> 0 then Some (err, h)
             else (case jump_back h of None \<Rightarrow> None | Some h \<Rightarrow> Some (0, h)))"

section \<open>Installing and removing\<close>

fun store_words :: "paging \<Rightarrow> u64 \<Rightarrow> u32 list \<Rightarrow> kstate \<Rightarrow> kstate option" where
  "store_words pg a [] st = Some st"
| "store_words pg a (w # ws) st =
     (if writable pg (ptes st) a then store_words pg (a + 4) ws (st\<lparr>ktext := (ktext st)(a := w)\<rparr>) else None)"

text \<open>The two routines differ in the words they store.\<close>

definition patch_text :: "paging \<Rightarrow> u64 \<Rightarrow> u32 list \<Rightarrow> kstate \<Rightarrow> kstate option" where
  "patch_text pg va insts st =
     (let entry = pgtable_entry_kernel pg (ptes st) va
      in if entry = 0 then None
         else let ori_prot = ptes st entry;
                  st1 = st\<lparr>ptes := modify_entry_kernel pg entry (make_writable ori_prot) (ptes st)\<rparr>
         in case store_words pg va insts st1 of
              None \<Rightarrow> None
            | Some st2 \<Rightarrow> Some (st2\<lparr>ptes := modify_entry_kernel pg entry ori_prot (ptes st2)\<rparr>))"

definition hook_install :: "paging \<Rightarrow> hook_t \<Rightarrow> kstate \<Rightarrow> kstate option" where
  "hook_install pg h st = patch_text pg (origin_addr h) (take (tramp_insts_num h) (tramp_insts h)) st"

definition hook_uninstall :: "paging \<Rightarrow> hook_t \<Rightarrow> kstate \<Rightarrow> kstate option" where
  "hook_uninstall pg h st = patch_text pg (origin_addr h) (take (tramp_insts_num h) (origin_insts h)) st"

section \<open>Hook and unhook\<close>

abbreviation (input) relo_insts_offset :: nat where "relo_insts_offset \<equiv> 88"

definition put_hook :: "nat \<Rightarrow> hook_t \<Rightarrow> kstate \<Rightarrow> kstate" where
  "put_hook i h st =
     (case get_chain (hmem st) i of
        Some c \<Rightarrow> st\<lparr>hmem := put_chain i (c\<lparr>base_hook := h\<rparr>) (hmem st)\<rparr> | None \<Rightarrow> st)"

definition free_hook :: "nat \<Rightarrow> kstate \<Rightarrow> kstate" where
  "free_hook i st = st\<lparr>hmem := hook_mem_free (hmem st) i\<rparr>"

text \<open>The result: the error code, the value stored through \<open>backup\<close> if one is, the new state.\<close>

definition hook_fn :: "paging \<Rightarrow> u64 \<Rightarrow> u64 \<Rightarrow> u64 \<Rightarrow> kstate \<Rightarrow> (s32 \<times> u64 option \<times> kstate) option" where
  "hook_fn pg func replace backup st =
     (if func = 0 \<or> replace = 0 \<or> backup = 0 then Some (- HOOK_BAD_ADDRESS, None, st)
      else case branch_func_addr st func of None \<Rightarrow> None
      | Some origin \<Rightarrow>
          (case hook_mem_zalloc (hmem st) origin INLINE of
             (None, mem) \<Rightarrow> Some (- HOOK_NO_MEM, None, st\<lparr>hmem := mem\<rparr>)
           | (Some i, mem) \<Rightarrow>
               let st = st\<lparr>hmem := mem\<rparr>;
                   relo = chain_ptr mem i + of_nat relo_insts_offset;
                   h = hook_zero\<lparr>func_addr := func, origin_addr := origin, replace_addr := replace, relo_addr := relo\<rparr>
               in case hook_prepare (ktext st) h of None \<Rightarrow> None
                  | Some (err, h) \<Rightarrow>
                      let st = put_hook i h st
                      in if err \<noteq> 0 then Some (err, Some relo, free_hook i st)
                         else (case hook_install pg h st of None \<Rightarrow> None
                               | Some st \<Rightarrow> Some (0, Some relo, st))))"

definition unhook :: "paging \<Rightarrow> u64 \<Rightarrow> kstate \<Rightarrow> kstate option" where
  "unhook pg func st =
     (case branch_func_addr st func of None \<Rightarrow> None
      | Some origin \<Rightarrow>
          (case hook_get_mem_from_origin (hmem st) origin of None \<Rightarrow> Some st
           | Some i \<Rightarrow>
               (case get_chain (hmem st) i of None \<Rightarrow> None
                | Some c \<Rightarrow>
                    (case hook_uninstall pg (base_hook c) st of None \<Rightarrow> None
                     | Some st \<Rightarrow> Some (free_hook i st)))))"

section \<open>The search ends at a fixed point\<close>

lemma branch_func_addr_steps:
  "branch_func_addr st ((branch_func_addr_once st ^^ n) a) = branch_func_addr st a"
proof (induction n arbitrary: a)
  case (Suc n)
  have "branch_func_addr st (branch_func_addr_once st a) = branch_func_addr st a"
    using branch_func_addr.simps [of st a] by (cases "branch_func_addr_once st a = a") (simp_all add: Let_def)
  with Suc [of "branch_func_addr_once st a"] show ?case by (simp add: funpow_swap1)
qed simp

lemma branch_func_addr_fixpoint:
  "branch_func_addr_once st a = a \<Longrightarrow> branch_func_addr st a = Some a"
  by (subst branch_func_addr.simps) simp

lemma branch_func_addr_reaches:
  assumes "branch_func_addr st a = Some b"
  shows "branch_func_addr_once st b = b \<and> (\<exists>n. (branch_func_addr_once st ^^ n) a = b)"
  using _ assms
proof (rule branch_func_addr.raw_induct [where P = "\<lambda>st a b. branch_func_addr_once st b = b \<and> (\<exists>n. (branch_func_addr_once st ^^ n) a = b)"])
  fix f st a b
  assume IH: "\<And>st a y. f st a = Some y \<Longrightarrow> branch_func_addr_once st y = y \<and> (\<exists>n. (branch_func_addr_once st ^^ n) a = y)"
    and e: "(let ret = branch_func_addr_once st a in if ret = a then Some ret else f st ret) = Some b"
  show "branch_func_addr_once st b = b \<and> (\<exists>n. (branch_func_addr_once st ^^ n) a = b)"
  proof (cases "branch_func_addr_once st a = a")
    case True
    with e show ?thesis by (auto simp: Let_def intro: exI [of _ 0])
  next
    case False
    with e IH [of st "branch_func_addr_once st a" b] obtain n where
      "branch_func_addr_once st b = b" "(branch_func_addr_once st ^^ n) (branch_func_addr_once st a) = b"
      by (auto simp: Let_def)
    then show ?thesis by (metis comp_apply funpow_Suc_right)
  qed
qed

text \<open>The search for the function to hook returns exactly when following the branches and
  landing pads from the address arrives at an instruction it stops at, and it returns that
  instruction's address.  On a cycle of branches it never returns.\<close>

theorem branch_func_addr_returns:
  "branch_func_addr st a = Some b \<longleftrightarrow>
     (\<exists>n. (branch_func_addr_once st ^^ n) a = b \<and> branch_func_addr_once st b = b)"
  using branch_func_addr_reaches [of st a b] branch_func_addr_steps [of st _ a]
    branch_func_addr_fixpoint [of st b] by metis

section \<open>The outcome of preparing\<close>

definition is_pac :: "u32 \<Rightarrow> bool" where
  "is_pac inst \<longleftrightarrow> inst = ARM64_PACIASP \<or> inst = ARM64_PACIBSP"

lemma ret_absolute_length [simp]: "length (ret_absolute a) = 4"
  by (simp add: ret_absolute_def)

lemma relo_words_frame [simp]:
  "relo_words (h\<lparr>relo_insts := arr\<rparr>) a inst t = relo_words h a inst t"
  "relo_words (h\<lparr>relo_insts_num := n\<rparr>) a inst t = relo_words h a inst t"
proof -
  have r: "relo_in_tramp (h\<lparr>relo_insts := arr\<rparr>) x = relo_in_tramp h x" "relo_in_tramp (h\<lparr>relo_insts_num := n\<rparr>) x = relo_in_tramp h x"
    "is_in_tramp (h\<lparr>relo_insts := arr\<rparr>) x = is_in_tramp h x" "is_in_tramp (h\<lparr>relo_insts_num := n\<rparr>) x = is_in_tramp h x" for x
    by (simp_all add: relo_in_tramp_def is_in_tramp_def Let_def)
  show "relo_words (h\<lparr>relo_insts := arr\<rparr>) a inst t = relo_words h a inst t"
    "relo_words (h\<lparr>relo_insts_num := n\<rparr>) a inst t = relo_words h a inst t"
    by (simp_all only: relo_words_def relo_b_def relo_adr_def relo_ldr_def relo_cb_def relo_tb_def r)
qed

lemma put_words_append:
  "put_words (length pre) ws (pre @ replicate k x) =
     (if length ws \<le> k then Some (pre @ ws @ replicate (k - length ws) x) else None)"
  by (simp add: put_words_def)

text \<open>The words an instruction of the hooked function is relocated to.\<close>

definition piece :: "hook_t \<Rightarrow> nat \<Rightarrow> s32 + u32 list" where
  "piece h i = relo_words h (origin_addr h + of_nat (i * 4)) (origin_insts h ! i) (inst_type (origin_insts h ! i))"

definition words_of :: "s32 + u32 list \<Rightarrow> u32 list" where
  "words_of p = (case p of Inr ws \<Rightarrow> ws | Inl _ \<Rightarrow> [])"

definition pieces :: "hook_t \<Rightarrow> nat list \<Rightarrow> u32 list" where
  "pieces h is = concat (map (words_of \<circ> piece h) is)"

lemma piece_frame [simp]:
  "piece (h\<lparr>relo_insts := arr, relo_insts_num := n\<rparr>) i = piece h i"
  by (simp add: piece_def)

lemma piece_frame_fun [simp]:
  "piece (h\<lparr>relo_insts := arr, relo_insts_num := n\<rparr>) = piece h"
  by (rule ext) simp

lemma piece_frame_arr [simp]: "piece (h\<lparr>relo_insts := arr\<rparr>) = piece h"
  by (rule ext) (simp add: piece_def)

lemma pieces_frame_arr [simp]: "pieces (h\<lparr>relo_insts := arr\<rparr>) is = pieces h is"
  by (simp add: pieces_def)

lemma pieces_simps [simp]: "pieces h [] = []" "pieces h (i # is) = words_of (piece h i) @ pieces h is"
  by (simp_all add: pieces_def)

lemma pieces_frame [simp]: "pieces (h\<lparr>relo_insts := arr, relo_insts_num := n\<rparr>) is = pieces h is"
  by (simp add: pieces_def)

lemma piece_length: "piece h i = Inr ws \<Longrightarrow> length ws = relo_len_of (origin_insts h ! i)"
  unfolding piece_def by (rule relo_words_length)

lemma relocate_step:
  assumes "relo_insts h = pre @ replicate k ARM64_NOP" "relo_insts_num h = length pre"
  shows "relocate_inst h (origin_addr h + of_nat (i * 4)) (origin_insts h ! i) =
     (case piece h i of
        Inl err \<Rightarrow> Some (err, h\<lparr>relo_insts_num := relo_insts_num h + relo_len_of (origin_insts h ! i)\<rparr>)
      | Inr ws \<Rightarrow> if length ws \<le> k
          then Some (0, h\<lparr>relo_insts := (pre @ ws) @ replicate (k - length ws) ARM64_NOP, relo_insts_num := length (pre @ ws)\<rparr>)
          else None)"
  unfolding relocate_inst_eq piece_def [symmetric]
  by (auto simp: assms put_words_append piece_length split: sum.split)

lemma relo_words_err: "relo_words h a inst t = Inl e \<Longrightarrow> e \<noteq> 0"
  by (auto simp: relo_words_def relo_adr_def relo_ldr_def Let_def split: if_splits)

lemma piece_err: "piece h i = Inl e \<Longrightarrow> e \<noteq> 0"
  unfolding piece_def by (rule relo_words_err)

text \<open>Relocating a list of instructions: an error where one has none, \<open>None\<close> where the words do not
  fit, else the pieces in order.\<close>

lemma relocate_all_eq:
  assumes "relo_insts h = pre @ replicate k ARM64_NOP" "relo_insts_num h = length pre"
    and "\<forall>i\<in>set is. \<exists>ws. piece h i = Inr ws"
  shows "relocate_all is h =
     (if length (pieces h is) \<le> k
      then Some (0, h\<lparr>relo_insts := (pre @ pieces h is) @ replicate (k - length (pieces h is)) ARM64_NOP,
                      relo_insts_num := length (pre @ pieces h is)\<rparr>)
      else None)"
  using assms
proof (induction "is" arbitrary: h pre k)
  case Nil
  then show ?case by (cases h) simp
next
  case (Cons i "is")
  from Cons.prems(3) obtain ws where ws: "piece h i = Inr ws" by auto
  let ?h = "h\<lparr>relo_insts := (pre @ ws) @ replicate (k - length ws) ARM64_NOP, relo_insts_num := length (pre @ ws)\<rparr>"
  show ?case
  proof (cases "length ws \<le> k")
    case True
    have "relocate_all is ?h = (if length (pieces h is) \<le> k - length ws
      then Some (0, h\<lparr>relo_insts := (pre @ ws @ pieces h is) @ replicate (k - (length ws + length (pieces h is))) ARM64_NOP,
                      relo_insts_num := length (pre @ ws @ pieces h is)\<rparr>)
      else None)"
      using Cons.IH [of ?h "pre @ ws" "k - length ws"] Cons.prems(3) by simp
    with True ws show ?thesis
      unfolding relocate_all.simps relocate_step [OF Cons.prems(1,2)] by (auto simp: words_of_def)
  next
    case False
    with ws show ?thesis
      unfolding relocate_all.simps relocate_step [OF Cons.prems(1,2)] by (simp add: words_of_def)
  qed
qed

lemma relocate_all_err:
  assumes "relo_insts h = pre @ replicate k ARM64_NOP" "relo_insts_num h = length pre"
    and "\<exists>i\<in>set is. \<exists>e. piece h i = Inl e"
  shows "relocate_all is h = None \<or> (\<exists>h'. relocate_all is h = Some (- HOOK_BAD_RELO, h'))"
  using assms
proof (induction "is" arbitrary: h pre k)
  case (Cons i "is")
  show ?case
  proof (cases "piece h i")
    case (Inl e)
    then show ?thesis
      unfolding relocate_all.simps relocate_step [OF Cons.prems(1,2)] using piece_err [OF Inl] by simp
  next
    case (Inr ws)
    have "relocate_all is (h\<lparr>relo_insts := (pre @ ws) @ replicate (k - length ws) ARM64_NOP, relo_insts_num := length (pre @ ws)\<rparr>) = None \<or>
      (\<exists>h'. relocate_all is (h\<lparr>relo_insts := (pre @ ws) @ replicate (k - length ws) ARM64_NOP, relo_insts_num := length (pre @ ws)\<rparr>) =
         Some (- HOOK_BAD_RELO, h'))"
      by (rule Cons.IH [where pre = "pre @ ws" and k = "k - length ws"]) (use Cons.prems Inr in auto)
    with Inr show ?thesis
      unfolding relocate_all.simps relocate_step [OF Cons.prems(1,2)] by auto
  qed
qed simp

section \<open>Preparing a hook, in one equation\<close>

definition addresses_ok :: "hook_t \<Rightarrow> bool" where
  "addresses_ok h \<longleftrightarrow> \<not> is_bad_address (func_addr h) \<and> \<not> is_bad_address (origin_addr h) \<and>
     \<not> is_bad_address (replace_addr h) \<and> \<not> is_bad_address (relo_addr h)"

text \<open>The hook with its backup and its trampoline, before the relocation.\<close>

definition with_tramp :: "(u64 \<Rightarrow> u32) \<Rightarrow> hook_t \<Rightarrow> hook_t" where
  "with_tramp mem h = make_tramp (h\<lparr>origin_insts := backup_insts mem (origin_addr h)\<rparr>)"

lemma with_tramp_simps [simp]:
  "origin_addr (with_tramp mem h) = origin_addr h" "func_addr (with_tramp mem h) = func_addr h"
  "replace_addr (with_tramp mem h) = replace_addr h" "relo_addr (with_tramp mem h) = relo_addr h"
  "relo_insts_num (with_tramp mem h) = relo_insts_num h"
  "origin_insts (with_tramp mem h) = backup_insts mem (origin_addr h)"
  "tramp_insts_num (with_tramp mem h) = (if is_pac (mem (origin_addr h)) then 5 else 4)"
  by (simp_all add: with_tramp_def make_tramp_def branch_from_to_def Let_def is_pac_def backup_insts_def)

lemma with_tramp_insts:
  "take (tramp_insts_num (with_tramp mem h)) (tramp_insts (with_tramp mem h)) =
     (if is_pac (mem (origin_addr h)) then [ARM64_BTI_JC] else []) @ ret_absolute (replace_addr h)"
  by (simp add: with_tramp_def make_tramp_def branch_from_to_def Let_def is_pac_def backup_insts_def)

lemma backup_insts_nth: "i < 6 \<Longrightarrow> backup_insts mem a ! i = mem (a + of_nat (i * 4))"
  by (simp add: backup_insts_def)

lemma backup_insts_length [simp]: "length (backup_insts mem a) = 6"
  by (simp add: backup_insts_def)

text \<open>The hook after a successful preparation.\<close>

definition prepared :: "(u64 \<Rightarrow> u32) \<Rightarrow> hook_t \<Rightarrow> hook_t" where
  "prepared mem h =
     (let g = with_tramp mem h; n = tramp_insts_num g; ws = pieces g [0..<n]
      in g\<lparr>relo_insts := ws @ ret_absolute (origin_addr h + of_nat (n * 4)) @ replicate (36 - (length ws + 4)) ARM64_NOP,
           relo_insts_num := length ws + 4\<rparr>)"

lemma hook_prepare_eq:
  assumes "addresses_ok h" "relo_insts_num h = 0"
    and "\<forall>i<tramp_insts_num (with_tramp mem h). \<exists>ws. piece (with_tramp mem h) i = Inr ws"
  shows "hook_prepare mem h =
     (if length (pieces (with_tramp mem h) [0..<tramp_insts_num (with_tramp mem h)]) + 4 \<le> 36
      then Some (0, prepared mem h) else None)"
proof -
  define g where "g = with_tramp mem h"
  define n where "n = tramp_insts_num g"
  define ws where "ws = pieces g [0..<n]"
  let ?g = "g\<lparr>relo_insts := replicate 36 ARM64_NOP\<rparr>"
  have "relo_insts_num ?g = 0" using assms(2) by (simp add: g_def)
  then have "relocate_all [0..<n] ?g =
      (if length ws \<le> 36 then Some (0, ?g\<lparr>relo_insts := ws @ replicate (36 - length ws) ARM64_NOP, relo_insts_num := length ws\<rparr>) else None)"
    using relocate_all_eq [of ?g "[]" 36 "[0..<n]"] assms(3) unfolding n_def ws_def g_def
    by (simp del: with_tramp_simps(7))
  moreover have "hook_prepare mem h = (case relocate_all [0..<n] ?g of None \<Rightarrow> None
     | Some (err, h) \<Rightarrow> if err \<noteq> 0 then Some (err, h) else (case jump_back h of None \<Rightarrow> None | Some h \<Rightarrow> Some (0, h)))"
    using assms(1) by (simp add: hook_prepare_def addresses_ok_def n_def g_def with_tramp_def Let_def)
  moreover have "jump_back (?g\<lparr>relo_insts := ws @ replicate (36 - length ws) ARM64_NOP, relo_insts_num := length ws\<rparr>) =
     (if length ws + 4 \<le> 36 then Some (prepared mem h) else None)" if "length ws \<le> 36"
    using that by (auto simp: jump_back_def branch_from_to_def Let_def put_words_append prepared_def n_def g_def ws_def)
  ultimately show ?thesis by (auto simp: ws_def n_def g_def)
qed

lemma hook_prepare_err:
  assumes "addresses_ok h" "relo_insts_num h = 0"
    and "\<exists>i<tramp_insts_num (with_tramp mem h). \<exists>e. piece (with_tramp mem h) i = Inl e"
  shows "hook_prepare mem h = None \<or> (\<exists>h'. hook_prepare mem h = Some (- HOOK_BAD_RELO, h'))"
proof -
  define g where "g = with_tramp mem h"
  let ?g = "g\<lparr>relo_insts := replicate 36 ARM64_NOP\<rparr>"
  have "relo_insts_num ?g = 0" using assms(2) by (simp add: g_def)
  with assms(3) have "relocate_all [0..<tramp_insts_num g] ?g = None \<or>
     (\<exists>h'. relocate_all [0..<tramp_insts_num g] ?g = Some (- HOOK_BAD_RELO, h'))"
    by (intro relocate_all_err [where pre = "[]" and k = 36]) (auto simp: g_def)
  then show ?thesis
    using assms(1) by (auto simp: hook_prepare_def addresses_ok_def g_def with_tramp_def Let_def)
qed

lemma pieces_length:
  "\<forall>i<n. \<exists>ws. piece h i = Inr ws \<Longrightarrow> n \<le> length (origin_insts h) \<Longrightarrow>
     length (pieces h [0..<n]) = sum_list (map relo_len_of (take n (origin_insts h)))"
proof (induction n)
  case (Suc n)
  then obtain ws where ws: "piece h n = Inr ws" by auto
  have "pieces h [0..<Suc n] = pieces h [0..<n] @ ws" using ws by (simp add: pieces_def words_of_def)
  with Suc piece_length [OF ws] show ?case by (simp add: take_Suc_conv_app_nth)
qed simp

text \<open>C13: preparing a hook of kernel addresses either reports an instruction it cannot relocate,
  or writes outside the array of relocated words, or yields exactly this: the six instructions
  saved, a trampoline that jumps to the replacement (behind a landing pad where the function
  began with a pointer-authentication instruction), and the relocated instructions in order
  followed by a jump to the first instruction that stays in place.\<close>

theorem hook_prepare_outcome:
  assumes "addresses_ok h" "relo_insts_num h = 0"
  shows "hook_prepare mem h = None \<or> (\<exists>h'. hook_prepare mem h = Some (- HOOK_BAD_RELO, h')) \<or>
    (\<exists>h'. hook_prepare mem h = Some (0, h') \<and>
       tramp_insts_num h' = (if is_pac (mem (origin_addr h)) then 5 else 4) \<and>
       origin_insts h' = backup_insts mem (origin_addr h) \<and>
       take (tramp_insts_num h') (tramp_insts h') =
         (if is_pac (mem (origin_addr h)) then [ARM64_BTI_JC] else []) @ ret_absolute (replace_addr h) \<and>
       (\<forall>i<tramp_insts_num h'. \<exists>ws. piece h' i = Inr ws) \<and>
       take (relo_insts_num h') (relo_insts h') =
         pieces h' [0..<tramp_insts_num h'] @ ret_absolute (origin_addr h + of_nat (tramp_insts_num h' * 4)) \<and>
       relo_insts_num h' = relo_pos h' (tramp_insts_num h') + 4)"
proof (cases "\<forall>i<tramp_insts_num (with_tramp mem h). \<exists>ws. piece (with_tramp mem h) i = Inr ws")
  case True
  let ?n = "tramp_insts_num (with_tramp mem h)"
  have f: "piece (prepared mem h) = piece (with_tramp mem h)" "pieces (prepared mem h) is = pieces (with_tramp mem h) is" for "is"
    by (simp_all add: prepared_def Let_def)
  have n: "tramp_insts_num (prepared mem h) = ?n"
    "origin_insts (prepared mem h) = backup_insts mem (origin_addr h)"
    "tramp_insts (prepared mem h) = tramp_insts (with_tramp mem h)"
    by (simp_all add: prepared_def Let_def)
  have "relo_insts_num (prepared mem h) = length (pieces (with_tramp mem h) [0..<?n]) + 4"
    by (simp add: prepared_def Let_def)
  also have "length (pieces (with_tramp mem h) [0..<?n]) = relo_pos (prepared mem h) ?n"
    using True by (subst pieces_length) (auto simp: relo_pos_def n)
  finally have l: "relo_insts_num (prepared mem h) = relo_pos (prepared mem h) ?n + 4" .
  have "take (relo_insts_num (prepared mem h)) (relo_insts (prepared mem h)) =
      pieces (prepared mem h) [0..<?n] @ ret_absolute (origin_addr h + of_nat (?n * 4))"
    unfolding f by (simp add: prepared_def Let_def del: with_tramp_simps(7) of_nat_mult)
  with True show ?thesis
    unfolding hook_prepare_eq [OF assms True] n f l [unfolded n] with_tramp_insts [symmetric]
    by (simp add: l n f del: of_nat_mult)
next
  case False
  then have "\<exists>i<tramp_insts_num (with_tramp mem h). \<exists>e. piece (with_tramp mem h) i = Inl e"
    by (metis sum.exhaust)
  then show ?thesis using hook_prepare_err [OF assms] by blast
qed

lemma hook_prepare_Some:
  assumes "hook_prepare mem h = Some (0, h')" "relo_insts_num h = 0"
  shows "addresses_ok h" "\<forall>i<tramp_insts_num (with_tramp mem h). \<exists>ws. piece (with_tramp mem h) i = Inr ws"
    "h' = prepared mem h"
proof -
  show a: "addresses_ok h" using assms(1) by (auto simp: hook_prepare_def addresses_ok_def split: if_splits)
  show p: "\<forall>i<tramp_insts_num (with_tramp mem h). \<exists>ws. piece (with_tramp mem h) i = Inr ws"
  proof (rule ccontr)
    assume "\<not> ?thesis"
    then have "\<exists>i<tramp_insts_num (with_tramp mem h). \<exists>e. piece (with_tramp mem h) i = Inl e"
      by (metis sum.exhaust)
    from hook_prepare_err [OF a assms(2) this] assms(1) show False by auto
  qed
  show "h' = prepared mem h"
    using hook_prepare_eq [OF a assms(2) p] assms(1) by (simp split: if_splits)
qed

lemma relo_len_even: "relo_len_of inst \<in> {2, 4, 6, 8}"
  by (rule inst_entry_cases [of inst]) (auto simp: inst_table_def relo_len_of_def)

lemma relo_len_pac: "is_pac inst \<Longrightarrow> relo_len_of inst = 2"
  by (auto simp: is_pac_def ARM64_PACIASP_def ARM64_PACIBSP_def relo_len_of_def inst_entry_def inst_table_def)

text \<open>Preparing a hook writes outside the array of relocated words exactly when the function
  begins with a pointer-authentication instruction and each of the next four instructions
  takes eight words; every other function fits.\<close>

theorem hook_prepare_overflow:
  assumes "addresses_ok h" "relo_insts_num h = 0"
    and "\<forall>i<tramp_insts_num (with_tramp mem h). \<exists>ws. piece (with_tramp mem h) i = Inr ws"
  shows "hook_prepare mem h = None \<longleftrightarrow>
    is_pac (mem (origin_addr h)) \<and> (\<forall>i\<in>{1, 2, 3, 4}. relo_len_of (mem (origin_addr h + of_nat (i * 4))) = 8)"
proof -
  let ?a = "origin_addr h"
  let ?l = "\<lambda>i. relo_len_of (mem (?a + of_nat (i * 4)))"
  have "length (pieces (with_tramp mem h) [0..<tramp_insts_num (with_tramp mem h)]) =
     sum_list (map ?l [0..<tramp_insts_num (with_tramp mem h)])"
    by (subst pieces_length [OF assms(3)]) (simp_all add: backup_insts_def take_map comp_def)
  also have "\<dots> = (if is_pac (mem ?a) then 2 + ?l 1 + ?l 2 + ?l 3 + ?l 4 else ?l 0 + ?l 1 + ?l 2 + ?l 3)"
    using relo_len_pac [of "mem ?a"] by (simp add: upt_conv_Cons)
  finally have l: "length (pieces (with_tramp mem h) [0..<tramp_insts_num (with_tramp mem h)]) =
    (if is_pac (mem ?a) then 2 + ?l 1 + ?l 2 + ?l 3 + ?l 4 else ?l 0 + ?l 1 + ?l 2 + ?l 3)" .
  have d: "?l i \<le> 6 \<or> ?l i = 8" for i using relo_len_even [of "mem (?a + of_nat (i * 4))"] by auto
  have "2 + x + y + z + w + 4 \<le> 36 \<longleftrightarrow> \<not> (x = 8 \<and> y = 8 \<and> z = 8 \<and> w = 8)"
    if "x \<le> 6 \<or> x = 8" "y \<le> 6 \<or> y = 8" "z \<le> 6 \<or> z = 8" "w \<le> 6 \<or> w = 8" for x y z w :: nat
    using that by linarith
  from this [OF d [of 1] d [of 2] d [of 3] d [of 4]]
  have p: "2 + ?l 1 + ?l 2 + ?l 3 + ?l 4 + 4 \<le> 36 \<longleftrightarrow> \<not> (\<forall>i\<in>{1, 2, 3, 4}. ?l i = 8)" by simp
  have q: "?l 0 + ?l 1 + ?l 2 + ?l 3 + 4 \<le> 36" using d [of 0] d [of 1] d [of 2] d [of 3] by linarith
  show ?thesis
    unfolding hook_prepare_eq [OF assms] l using p q by (cases "is_pac (mem ?a)") simp_all
qed

lemma len64: "LENGTH(64) = 64" by simp

lemma unat_plus_small:
  fixes a :: u64
  assumes "a \<le> a + of_nat m" "k \<le> m" "m < 2 ^ 64"
  shows "unat (a + of_nat k) = unat a + k"
proof -
  have m: "unat (a + of_nat j) = (unat a + j) mod 2 ^ 64" if "j < 2 ^ 64" for j
    by (simp only: unat_word_ariths(1) unat_of_nat_u64 [OF that] len64)
  have "unat a + m < 2 ^ 64"
  proof (rule ccontr)
    assume n: "\<not> unat a + m < 2 ^ 64"
    then have "(unat a + m) mod 2 ^ 64 = unat a + m - 2 ^ 64"
      using assms(3) unat_bounds(3) [of a] by (subst le_mod_geq, linarith) (rule mod_less, linarith)
    with m [OF assms(3)] have "unat (a + of_nat m) = unat a + m - 2 ^ 64" by (simp only:)
    moreover have "unat a \<le> unat (a + of_nat m)" using assms(1) by (simp only: word_le_nat_alt)
    ultimately show False using assms(3) n by linarith
  qed
  moreover have "k < 2 ^ 64" using assms(2,3) by linarith
  ultimately show ?thesis using assms(2) by (simp only: m) (rule mod_less, linarith)
qed

lemma relo_in_tramp_at:
  assumes "i < tramp_insts_num h" "tramp_insts_num h \<le> 6" "length (origin_insts h) = 6"
    and "origin_addr h \<le> origin_addr h + 24"
  shows "relo_in_tramp h (origin_addr h + of_nat (i * 4)) = relo_addr h + of_nat (relo_pos h i * 4)"
proof -
  let ?a = "origin_addr h"
  have u: "unat (?a + of_nat k) = unat ?a + k" if "k \<le> 24" for k
    using assms(4) that by (intro unat_plus_small [of _ 24]) simp_all
  have "?a \<le> ?a + of_nat (i * 4)" "?a + of_nat (i * 4) < ?a + of_nat (tramp_insts_num h * 4)"
    using u [of "i * 4"] u [of "tramp_insts_num h * 4"] assms(1,2) by (simp_all only: word_le_nat_alt word_less_nat_alt)
  moreover have "unat (of_nat (i * 4) :: u64) div 4 = i"
    using unat_of_nat_u64 [of "i * 4"] assms(1,2) by simp
  ultimately show ?thesis
    using relo_fold [of i h "relo_addr h"] assms(1-3)
    by (simp only: relo_in_tramp_def Let_def add_diff_cancel_left') simp
qed

text \<open>An address of one of the overwritten instructions is relocated to the place where the copy
  of that instruction lies, so that a branch among them goes to the copy of its target.\<close>

theorem relocated_position:
  assumes "hook_prepare mem h = Some (0, h')" "relo_insts_num h = 0"
    and "i < tramp_insts_num h'" "origin_addr h \<le> origin_addr h + 24"
  shows "relo_in_tramp h' (origin_addr h + of_nat (i * 4)) = relo_addr h + of_nat (relo_pos h' i * 4) \<and>
    take (relo_len_of (mem (origin_addr h + of_nat (i * 4)))) (drop (relo_pos h' i) (relo_insts h')) = words_of (piece h' i)"
proof -
  note s = hook_prepare_Some [OF assms(1,2)]
  have n: "tramp_insts_num h' = tramp_insts_num (with_tramp mem h)" "tramp_insts_num h' \<le> 5"
    "origin_insts h' = backup_insts mem (origin_addr h)" "origin_addr h' = origin_addr h" "relo_addr h' = relo_addr h"
    by (auto simp: s(3) prepared_def Let_def)
  let ?a = "origin_addr h"
  have "relo_in_tramp h' (?a + of_nat (i * 4)) = relo_addr h + of_nat (relo_pos h' i * 4)"
    using relo_in_tramp_at [of i h'] assms(3,4) n by (simp del: of_nat_mult)
  moreover have "take (relo_len_of (mem (?a + of_nat (i * 4)))) (drop (relo_pos h' i) (relo_insts h')) = words_of (piece h' i)"
  proof -
    obtain ws where ws: "piece h' i = Inr ws"
      using s(2) assms(3) unfolding n(1) by (auto simp: s(3) prepared_def Let_def)
    have "[0..<tramp_insts_num h'] = [0..<i] @ i # [Suc i..<tramp_insts_num h']"
      using upt_add_eq_append [of 0 i "tramp_insts_num h' - i"] assms(3) by (simp add: upt_conv_Cons)
    then have p: "pieces h' [0..<tramp_insts_num h'] = pieces h' [0..<i] @ ws @ pieces h' [Suc i..<tramp_insts_num h']"
      using ws by (simp add: pieces_def words_of_def)
    have "pieces h' is = pieces (with_tramp mem h) is" for "is" by (simp add: s(3) prepared_def Let_def)
    then obtain rest where "relo_insts h' = pieces h' [0..<tramp_insts_num h'] @ rest"
      unfolding n(1) by (simp add: s(3) prepared_def Let_def)
    moreover have "length (pieces h' [0..<i]) = relo_pos h' i"
      using s(2) assms(3) n unfolding relo_pos_def
      by (intro pieces_length) (auto simp: s(3) prepared_def Let_def)
    moreover have "length ws = relo_len_of (mem (?a + of_nat (i * 4)))"
      using piece_length [OF ws] assms(3) n by (simp add: backup_insts_nth)
    ultimately show ?thesis by (simp add: p ws words_of_def)
  qed
  ultimately show ?thesis ..
qed

section \<open>A function to hook\<close>

text \<open>A function at \<open>0xffffffc010000000\<close> that begins with a given list of instructions.\<close>

abbreviation (input) demo_func :: u64 where "demo_func \<equiv> 0xffffffc010000000"

definition demo_text :: "u32 list \<Rightarrow> u64 \<Rightarrow> u32" where
  "demo_text ws a = (if a \<ge> demo_func \<and> unat (a - demo_func) div 4 < length ws
     then ws ! (unat (a - demo_func) div 4) else 0xd65f03c0)"

definition demo_hook :: hook_t where
  "demo_hook = hook_zero\<lparr>func_addr := demo_func, origin_addr := demo_func,
     replace_addr := 0xffffffc020000000, relo_addr := 0xffffffc030000000\<rparr>"

text \<open>A conditional branch back into the first instructions, and a prologue with four calls.\<close>

definition demo_loop :: "u32 list" where
  "demo_loop = [0xd2800000, 0x91000400, 0x54ffffe1, 0xd503201f]"

definition demo_calls :: "u32 list" where
  "demo_calls = [0xd503233f, 0x94000010, 0x94000010, 0x94000010, 0x94000010]"

lemma hook_prepare_outcome_witness:
  "\<exists>h'. hook_prepare (demo_text demo_loop) demo_hook = Some (0, h') \<and> relo_insts_num h' = relo_pos h' 4 + 4"
proof -
  have a: "addresses_ok demo_hook" "relo_insts_num demo_hook = 0" by code_simp+
  have "(case hook_prepare (demo_text demo_loop) demo_hook of Some (e, h') \<Rightarrow> e = 0 \<and> tramp_insts_num h' = 4 | None \<Rightarrow> False)"
    by code_simp
  with hook_prepare_outcome [OF a, of "demo_text demo_loop"] show ?thesis
    by (auto split: option.splits)
qed

lemma ex_Inr: "(\<exists>ws. p = Inr ws) \<longleftrightarrow> (case p of Inr _ \<Rightarrow> True | Inl _ \<Rightarrow> False)"
  by (cases p) auto

lemma hook_prepare_overflow_witness:
  "hook_prepare (demo_text demo_calls) demo_hook = None"
proof -
  have a: "addresses_ok demo_hook" "relo_insts_num demo_hook = 0" by code_simp+
  have p: "\<forall>i<tramp_insts_num (with_tramp (demo_text demo_calls) demo_hook).
     \<exists>ws. piece (with_tramp (demo_text demo_calls) demo_hook) i = Inr ws"
  proof -
    have "list_all (\<lambda>i. case piece (with_tramp (demo_text demo_calls) demo_hook) i of Inr _ \<Rightarrow> True | Inl _ \<Rightarrow> False)
        [0..<tramp_insts_num (with_tramp (demo_text demo_calls) demo_hook)]" by code_simp
    then show ?thesis by (simp only: list_all_iff ex_Inr) auto
  qed
  show ?thesis by (subst hook_prepare_overflow [OF a p]) code_simp
qed

lemma relocated_position_witness:
  "\<exists>h'. hook_prepare (demo_text demo_loop) demo_hook = Some (0, h') \<and>
     relo_in_tramp h' (demo_func + 4) = 0xffffffc030000008"
proof -
  have "(case hook_prepare (demo_text demo_loop) demo_hook of
      Some (e, h') \<Rightarrow> e = 0 \<and> tramp_insts_num h' = 4 \<and> relo_pos h' 1 = 2 | None \<Rightarrow> False)"
    by code_simp
  then obtain h' where h': "hook_prepare (demo_text demo_loop) demo_hook = Some (0, h')"
    "tramp_insts_num h' = 4" "relo_pos h' 1 = 2" by (auto split: option.splits)
  have "relo_in_tramp h' (origin_addr demo_hook + of_nat (1 * 4)) = relo_addr demo_hook + of_nat (relo_pos h' 1 * 4)"
    using relocated_position [OF h'(1), of 1] h'(2) by (simp add: demo_hook_def hook_zero_def)
  with h' show ?thesis by (simp add: demo_hook_def)
qed

section \<open>Storing instructions\<close>

fun over :: "u64 \<Rightarrow> u32 list \<Rightarrow> (u64 \<Rightarrow> u32) \<Rightarrow> u64 \<Rightarrow> u32" where
  "over a [] t = t"
| "over a (w # ws) t = over (a + 4) ws (t(a := w))"

definition words_from :: "u64 \<Rightarrow> nat \<Rightarrow> u64 set" where
  "words_from a n = (\<lambda>i. a + of_nat (i * 4)) ` {..<n}"

lemma words_from_0 [simp]: "words_from a 0 = {}"
  by (simp add: words_from_def)

lemma words_from_Suc [simp]: "words_from a (Suc n) = insert a (words_from (a + 4) n)"
  by (simp add: words_from_def lessThan_Suc_eq_insert_0 image_image algebra_simps)

lemma over_other: "x \<notin> words_from a (length ws) \<Longrightarrow> over a ws t x = t x"
  by (induction a ws t rule: over.induct) auto

lemma over_cong: "(\<And>y. y \<notin> words_from a (length ws) \<Longrightarrow> t y = t' y) \<Longrightarrow> over a ws t = over a ws t'"
proof (induction ws arbitrary: a t t')
  case (Cons w ws)
  have "over (a + 4) ws (t(a := w)) = over (a + 4) ws (t'(a := w))"
    by (rule Cons.IH) (use Cons.prems in auto)
  then show ?case by simp
qed auto

lemma not_in_words_from:
  assumes "n < 2 ^ 60"
  shows "a \<notin> words_from (a + 4) n"
proof
  assume "a \<in> words_from (a + 4) n"
  then obtain i where i: "i < n" "a = a + 4 + of_nat (i * 4)" by (auto simp: words_from_def)
  then have "of_nat (i * 4 + 4) = (0 :: u64)" by (simp add: algebra_simps)
  then have "unat (of_nat (i * 4 + 4) :: u64) = 0" by simp
  then show False using unat_of_nat_u64 [of "i * 4 + 4"] i(1) assms by simp
qed

text \<open>Storing what is there changes nothing.\<close>

lemma over_same:
  assumes "length ws < 2 ^ 60" "\<forall>i<length ws. ws ! i = t (a + of_nat (i * 4))"
  shows "over a ws t = t"
  using assms
proof (induction ws arbitrary: a)
  case (Cons w ws)
  have "t(a := w) = t" using Cons.prems(2) [rule_format, of 0] by simp
  moreover have "over (a + 4) ws t = t"
    using Cons.prems by (intro Cons.IH) (auto simp: algebra_simps)
  ultimately show ?case by simp
qed simp

text \<open>Storing the old words over new ones restores the text.\<close>

lemma over_over:
  assumes "length us = length ws" "length ws < 2 ^ 60" "\<forall>i<length ws. us ! i = t (a + of_nat (i * 4))"
  shows "over a us (over a ws t) = t"
proof -
  have "over a us (over a ws t) = over a us t"
    using assms(1) by (intro over_cong) (simp add: over_other)
  with over_same [of us t a] assms show ?thesis by simp
qed

lemma over_nth:
  "i < length ws \<Longrightarrow> length ws < 2 ^ 60 \<Longrightarrow> over a ws t (a + of_nat (i * 4)) = ws ! i"
proof (induction ws arbitrary: a t i)
  case (Cons w ws)
  show ?case
  proof (cases i)
    case 0
    with Cons.prems show ?thesis by (simp add: over_other not_in_words_from)
  next
    case (Suc j)
    have "over (a + 4) ws (t(a := w)) (a + 4 + of_nat (j * 4)) = ws ! j"
      by (rule Cons.IH) (use Cons.prems Suc in auto)
    with Suc show ?thesis by (simp add: algebra_simps)
  qed
qed simp

lemma store_words_eq:
  "(\<forall>x\<in>words_from a (length ws). writable pg (ptes st) x) \<Longrightarrow>
   store_words pg a ws st = Some (st\<lparr>ktext := over a ws (ktext st)\<rparr>)"
  by (induction pg a ws st rule: store_words.induct) auto

lemma store_words_fault:
  "(\<exists>x\<in>words_from a (length ws). \<not> writable pg (ptes st) x) \<Longrightarrow> store_words pg a ws st = None"
  by (induction pg a ws st rule: store_words.induct) auto

section \<open>Patching the kernel text\<close>

text \<open>A range of instructions within the page of its first, which the tables map.\<close>

definition patchable :: "paging \<Rightarrow> u64 \<Rightarrow> nat \<Rightarrow> kstate \<Rightarrow> bool" where
  "patchable pg va n st \<longleftrightarrow> paging_ok pg \<and> pgtable_entry_kernel pg (ptes st) va \<noteq> 0 \<and>
     cont_ok pg (ptes st) (pgtable_entry_kernel pg (ptes st) va) \<and>
     (\<forall>i<n. drop_bit (page_shift pg) (va + of_nat (i * 4)) = drop_bit (page_shift pg) va)"

lemma patch_text_eq:
  assumes "patchable pg va (length ws) st"
  shows "patch_text pg va ws st = Some (st\<lparr>ktext := over va ws (ktext st)\<rparr>)"
proof -
  let ?e = "pgtable_entry_kernel pg (ptes st) va"
  let ?m = "modify_entry_kernel pg ?e (make_writable (ptes st ?e)) (ptes st)"
  note p = assms [unfolded patchable_def]
  have "\<forall>x\<in>words_from va (length ws). writable pg ?m x"
    using p by (auto simp: words_from_def intro!: writable_after simp del: of_nat_mult)
  then have "store_words pg va ws (st\<lparr>ptes := ?m\<rparr>) = Some (st\<lparr>ptes := ?m, ktext := over va ws (ktext st)\<rparr>)"
    using store_words_eq [of va ws pg "st\<lparr>ptes := ?m\<rparr>"] by simp
  moreover have "modify_entry_kernel pg ?e (ptes st ?e) ?m = ptes st"
    using p by (intro modify_entry_restore) simp
  ultimately show ?thesis using p by (simp add: patch_text_def Let_def)
qed

definition saved :: "(u64 \<Rightarrow> u32) \<Rightarrow> hook_t \<Rightarrow> bool" where
  "saved t h \<longleftrightarrow> tramp_insts_num h \<le> 6 \<and> length (tramp_insts h) = 6 \<and> origin_insts h = backup_insts t (origin_addr h)"

lemma hook_install_ops:
  assumes "saved (ktext st) h" "patchable pg (origin_addr h) (tramp_insts_num h) st"
  shows "\<exists>st'. hook_install pg h st = Some st' \<and> ptes st' = ptes st \<and> hmem st' = hmem st \<and>
     (\<forall>i<tramp_insts_num h. ktext st' (origin_addr h + of_nat (i * 4)) = tramp_insts h ! i) \<and>
     (\<forall>x. x \<notin> words_from (origin_addr h) (tramp_insts_num h) \<longrightarrow> ktext st' x = ktext st x) \<and>
     hook_uninstall pg h st' = Some st"
proof -
  let ?a = "origin_addr h" and ?n = "tramp_insts_num h"
  let ?ws = "take ?n (tramp_insts h)" and ?us = "take ?n (origin_insts h)"
  have l: "length ?ws = ?n" "length ?us = ?n" "?n \<le> 6" using assms(1) by (auto simp: saved_def)
  let ?st = "st\<lparr>ktext := over ?a ?ws (ktext st)\<rparr>"
  have i: "hook_install pg h st = Some ?st"
    unfolding hook_install_def by (rule patch_text_eq) (use assms(2) l in simp)
  have "patchable pg ?a ?n ?st" using assms(2) by (simp add: patchable_def)
  then have "hook_uninstall pg h ?st = Some (?st\<lparr>ktext := over ?a ?us (ktext ?st)\<rparr>)"
    unfolding hook_uninstall_def by (intro patch_text_eq) (use l in simp)
  moreover have "over ?a ?us (ktext ?st) = ktext st"
    using assms(1) l by (simp, intro over_over) (auto simp: saved_def backup_insts_nth simp del: of_nat_mult)
  ultimately have "hook_uninstall pg h ?st = Some st" by simp
  moreover have "ktext ?st (?a + of_nat (i * 4)) = tramp_insts h ! i" if "i < ?n" for i
    using over_nth [of i ?ws ?a "ktext st"] l that by simp
  ultimately show ?thesis using i l(1) by (auto simp: over_other)
qed

text \<open>Installing a prepared hook writes the trampoline over the function's first instructions and
  nothing else, leaves the page tables as they were, and uninstalling it restores the kernel
  text.\<close>

theorem hook_install_uninstall:
  assumes "saved (ktext st) h" "patchable pg (origin_addr h) (tramp_insts_num h) st"
  shows "\<exists>st'. hook_install pg h st = Some st' \<and> ptes st' = ptes st \<and> hmem st' = hmem st \<and>
     (\<forall>i<tramp_insts_num h. ktext st' (origin_addr h + of_nat (i * 4)) = tramp_insts h ! i) \<and>
     (\<forall>x. x \<notin> words_from (origin_addr h) (tramp_insts_num h) \<longrightarrow> ktext st' x = ktext st x) \<and>
     hook_uninstall pg h st' = Some st"
  by (rule hook_install_ops [OF assms])

lemma patchable_mono: "patchable pg va n st \<Longrightarrow> k \<le> n \<Longrightarrow> patchable pg va k st"
  by (simp add: patchable_def)

lemma patchable_hmem [simp]: "patchable pg va n (st\<lparr>hmem := m\<rparr>) = patchable pg va n st"
  by (simp add: patchable_def)

text \<open>A descriptor outside a contiguous group.\<close>

lemma install_faults:
  assumes "paging_ok pg" "pgtable_entry_kernel pg (ptes st) (origin_addr h) \<noteq> 0"
    and "\<not> pte_valid_cont (ptes st (pgtable_entry_kernel pg (ptes st) (origin_addr h)))"
    and "i < tramp_insts_num h" "tramp_insts_num h \<le> length (tramp_insts h)"
    and "\<not> writable pg (ptes st) (origin_addr h + of_nat (i * 4))"
    and "pgtable_entry_kernel pg (ptes st) (origin_addr h + of_nat (i * 4)) \<noteq>
         pgtable_entry_kernel pg (ptes st) (origin_addr h)"
  shows "hook_install pg h st = None"
proof -
  let ?e = "pgtable_entry_kernel pg (ptes st) (origin_addr h)"
  let ?m = "modify_entry_kernel pg ?e (make_writable (ptes st ?e)) (ptes st)"
  have "\<not> writable pg ?m (origin_addr h + of_nat (i * 4))"
    using assms by (intro writable_other) (auto simp: cont_ok_def)
  moreover have "origin_addr h + of_nat (i * 4) \<in> words_from (origin_addr h) (length (take (tramp_insts_num h) (tramp_insts h)))"
    using assms(4,5) by (auto simp: words_from_def)
  ultimately have "store_words pg (origin_addr h) (take (tramp_insts_num h) (tramp_insts h)) (st\<lparr>ptes := ?m\<rparr>) = None"
    by (intro store_words_fault) auto
  with assms(2) show ?thesis by (simp add: hook_install_def patch_text_def Let_def)
qed

text \<open>Where the overwritten instructions reach into a second read-only page, installing the hook
  faults: only the descriptor of the first page is made writable.\<close>

theorem hook_install_across_pages:
  assumes "paging_ok pg" "saved (ktext st) h" "i < tramp_insts_num h"
    and "pgtable_entry_kernel pg (ptes st) (origin_addr h) \<noteq> 0"
    and "\<not> pte_valid_cont (ptes st (pgtable_entry_kernel pg (ptes st) (origin_addr h)))"
    and "pgtable_entry_kernel pg (ptes st) (origin_addr h + of_nat (i * 4)) \<noteq>
         pgtable_entry_kernel pg (ptes st) (origin_addr h)"
    and "\<not> writable pg (ptes st) (origin_addr h + of_nat (i * 4))"
  shows "hook_install pg h st = None"
  by (rule install_faults [OF assms(1,4,5,3)]) (use assms in \<open>simp_all add: saved_def\<close>)

section \<open>Hook and unhook\<close>

lemma prepared_simps [simp]:
  "tramp_insts (prepared mem h) = tramp_insts (with_tramp mem h)" "origin_addr (prepared mem h) = origin_addr h"
  "tramp_insts_num (prepared mem h) = (if is_pac (mem (origin_addr h)) then 5 else 4)"
  "origin_insts (prepared mem h) = backup_insts mem (origin_addr h)"
  by (simp_all add: prepared_def Let_def)

lemma with_tramp_length: "length (tramp_insts h) = 6 \<Longrightarrow> length (tramp_insts (with_tramp mem h)) = 6"
  by (simp add: with_tramp_def make_tramp_def branch_from_to_def Let_def)

lemma prepared_saved: "length (tramp_insts h) = 6 \<Longrightarrow> saved mem (prepared mem h)"
  by (simp add: saved_def with_tramp_length)

lemma prepared_first:
  "tramp_insts (prepared mem h) ! 0 = (if is_pac (mem (origin_addr h)) then ARM64_BTI_JC else 0x58000051)"
proof -
  have "take (tramp_insts_num (with_tramp mem h)) (tramp_insts (with_tramp mem h)) ! 0 =
      (if is_pac (mem (origin_addr h)) then ARM64_BTI_JC else 0x58000051)"
    unfolding with_tramp_insts by (simp add: ret_absolute_def)
  then show ?thesis by simp
qed

lemma branch_once_hooked:
  assumes "ktext st a = (if p then ARM64_BTI_JC else 0x58000051)" "hook_get_mem_from_origin (hmem st) a \<noteq> None"
  shows "branch_func_addr_once st a = a"
  using assms by (auto simp: branch_func_addr_once_def ARM64_BTI_C_def ARM64_BTI_J_def ARM64_BTI_JC_def)

definition new_hook :: "u64 \<Rightarrow> u64 \<Rightarrow> u64 \<Rightarrow> hook_t" where
  "new_hook f r relo = hook_zero\<lparr>func_addr := f, origin_addr := f, replace_addr := r, relo_addr := relo\<rparr>"

lemma new_hook_simps [simp]:
  "origin_addr (new_hook f r relo) = f" "relo_insts_num (new_hook f r relo) = 0" "length (tramp_insts (new_hook f r relo)) = 6"
  by (simp_all add: new_hook_def hook_zero_def)

lemma hook_fn_ok:
  assumes "branch_func_addr_once st f = f" "hook_fn pg f r b st = Some (0, relo, st1)"
  obtains i mem where "hook_mem_zalloc (hmem st) f INLINE = (Some i, mem)"
    "hook_prepare (ktext st) (new_hook f r (chain_ptr mem i + 88)) = Some (0, prepared (ktext st) (new_hook f r (chain_ptr mem i + 88)))"
    "hook_install pg (prepared (ktext st) (new_hook f r (chain_ptr mem i + 88)))
       (st\<lparr>hmem := put_chain i (chain_zero\<lparr>base_hook := prepared (ktext st) (new_hook f r (chain_ptr mem i + 88))\<rparr>) mem\<rparr>) = Some st1"
proof -
  from assms obtain i mem where z: "hook_mem_zalloc (hmem st) f INLINE = (Some i, mem)"
    by (auto simp: hook_fn_def branch_func_addr_fixpoint split: if_splits prod.splits option.splits)
  let ?h = "new_hook f r (chain_ptr mem i + 88)"
  have g: "get_chain mem i = Some chain_zero"
    using zalloc_Some [OF z] by (simp add: get_chain_def)
  from assms z obtain h where h: "hook_prepare (ktext st) ?h = Some (0, h)"
     "hook_install pg h (st\<lparr>hmem := put_chain i (chain_zero\<lparr>base_hook := h\<rparr>) mem\<rparr>) = Some st1"
    by (auto simp: hook_fn_def branch_func_addr_fixpoint Let_def new_hook_def put_hook_def g
      split: if_splits prod.splits option.splits)
  have "h = prepared (ktext st) ?h"
    by (rule hook_prepare_Some(3) [OF h(1)]) simp
  with h z that show thesis by blast
qed

text \<open>C14: a function hooked with \<open>hook\<close> and released with \<open>unhook\<close> has its instructions back; page
  tables and the slots of other functions are untouched, and the slot is free again.\<close>

theorem hook_unhook_restores:
  assumes "mem_inv (hmem st)" "hook_get_mem_from_origin (hmem st) f = None"
    and "branch_func_addr_once st f = f" "patchable pg f 5 st"
    and "hook_fn pg f r b st = Some (0, relo, st1)"
  shows "hook_get_mem_from_origin (hmem st1) f \<noteq> None \<and> ptes st1 = ptes st \<and>
    (\<exists>st2. unhook pg f st1 = Some st2 \<and> ktext st2 = ktext st \<and> ptes st2 = ptes st \<and>
       mem_inv (hmem st2) \<and> hook_get_mem_from_origin (hmem st2) = hook_get_mem_from_origin (hmem st))"
proof -
  from hook_fn_ok [OF assms(3,5)] obtain i mem where z: "hook_mem_zalloc (hmem st) f INLINE = (Some i, mem)"
    and inst: "hook_install pg (prepared (ktext st) (new_hook f r (chain_ptr mem i + 88)))
       (st\<lparr>hmem := put_chain i (chain_zero\<lparr>base_hook := prepared (ktext st) (new_hook f r (chain_ptr mem i + 88))\<rparr>) mem\<rparr>) = Some st1"
    by blast
  define h where "h = prepared (ktext st) (new_hook f r (chain_ptr mem i + 88))"
  define m1 where "m1 = put_chain i (chain_zero\<lparr>base_hook := h\<rparr>) mem"
  let ?st = "st\<lparr>hmem := m1\<rparr>"
  have s: "saved (ktext ?st) h" "origin_addr h = f" "tramp_insts_num h \<le> 5" "0 < tramp_insts_num h"
    unfolding h_def using prepared_saved [of "new_hook f r (chain_ptr mem i + 88)" "ktext st"] by simp_all
  have "patchable pg (origin_addr h) (tramp_insts_num h) ?st"
    using patchable_mono [OF assms(4) s(3)] s(2) by simp
  from hook_install_ops [OF s(1) this] obtain st' where st': "hook_install pg h ?st = Some st'" "ptes st' = ptes st" "hmem st' = m1"
      "\<forall>i<tramp_insts_num h. ktext st' (origin_addr h + of_nat (i * 4)) = tramp_insts h ! i" "hook_uninstall pg h st' = Some ?st"
    by auto
  moreover have "hook_install pg h ?st = Some st1" using inst by (simp only: h_def m1_def)
  ultimately have st1: "ptes st1 = ptes st" "hmem st1 = m1" "ktext st1 f = tramp_insts h ! 0" "hook_uninstall pg h st1 = Some ?st"
    using s(2) spec [OF st'(4), of 0] s(4) by auto
  note l = inline_store.alloc_lookup [OF assms(1,2) z] 
  have l1: "hook_get_mem_from_origin m1 f = Some i" using l [of f] by (simp add: m1_def inline_store.put_lookup)
  have "ktext st1 f = (if is_pac (ktext st f) then ARM64_BTI_JC else 0x58000051)"
    using prepared_first [of "ktext st" "new_hook f r (chain_ptr mem i + 88)"] st1(3) by (simp only: h_def new_hook_simps)
  then have "branch_func_addr_once st1 f = f"
    by (rule branch_once_hooked) (simp add: st1(2) l1)
  moreover have "get_chain m1 i = Some (chain_zero\<lparr>base_hook := h\<rparr>)"
    using zalloc_Some [OF z] by (simp add: m1_def get_chain_def put_chain_def)
  ultimately have "unhook pg f st1 = Some (st\<lparr>hmem := hook_mem_free m1 i\<rparr>)"
    using st1 l1 by (simp add: unhook_def branch_func_addr_fixpoint free_hook_def)
  with inline_store.alloc_release [OF assms(1,2) z] st1(1,2) l1 show ?thesis by (auto simp: m1_def)
qed

text \<open>When hooking succeeds.\<close>

lemma hook_fn_intro:
  assumes "branch_func_addr_once st f = f" "f \<noteq> 0" "r \<noteq> 0" "b \<noteq> 0"
    and z: "hook_mem_zalloc (hmem st) f INLINE = (Some i, mem)" and "chain_ptr mem i + 88 = relo"
    and h: "hook_prepare (ktext st) (new_hook f r relo) = Some (0, h)" and "patchable pg f 5 st"
  shows "\<exists>st1. hook_fn pg f r b st = Some (0, Some relo, st1)"
proof -
  have hp: "h = prepared (ktext st) (new_hook f r relo)" by (rule hook_prepare_Some(3) [OF h]) simp
  have g: "get_chain mem i = Some chain_zero" using zalloc_Some [OF z] by (simp add: get_chain_def)
  let ?st = "st\<lparr>hmem := put_chain i (chain_zero\<lparr>base_hook := h\<rparr>) mem\<rparr>"
  have "saved (ktext ?st) h" using prepared_saved [of "new_hook f r relo" "ktext st"] by (simp add: hp)
  moreover have "patchable pg (origin_addr h) (tramp_insts_num h) ?st"
    using patchable_mono [OF assms(8), of "tramp_insts_num h"] by (simp add: hp)
  ultimately obtain st1 where "hook_install pg h ?st = Some st1" using hook_install_ops by blast
  with assms show ?thesis
    by (simp add: hook_fn_def branch_func_addr_fixpoint Let_def put_hook_def g flip: new_hook_def)
qed

section \<open>A kernel to hook\<close>

text \<open>Every page is read only and its instructions are those of \<open>demo_text\<close>; the tables of all levels lie in
  one page.\<close>

definition demo_paging :: paging where
  "demo_paging = \<lparr>page_shift = 12, page_level = 3, pgd_va = 0xffffffc009000000, linear_voffset = 0xffffff8000000000\<rparr>"

definition demo_kernel :: "u32 list \<Rightarrow> kstate" where
  "demo_kernel ws = \<lparr>ktext = demo_text ws, ptes = (\<lambda>_. 0x40001083), hmem = hook_mem_add 0xffffffc008400000 4096\<rparr>"

lemma demo_kernel_simps [simp]:
  "ptes (demo_kernel ws) = (\<lambda>_. 0x40001083)" "ktext (demo_kernel ws) = demo_text ws"
  "hmem (demo_kernel ws) = hook_mem_add 0xffffffc008400000 4096"
  by (simp_all add: demo_kernel_def)

lemma demo_patchable: "patchable demo_paging demo_func 5 (demo_kernel ws)"
proof -
  have "list_all (\<lambda>i. drop_bit 12 (demo_func + of_nat (i * 4)) = drop_bit 12 demo_func) [0..<5]" by code_simp
  then have "\<forall>i<5. drop_bit (page_shift demo_paging) (demo_func + of_nat (i * 4)) = drop_bit (page_shift demo_paging) demo_func"
    by (auto simp: list_all_iff demo_paging_def)
  moreover have "paging_ok demo_paging" by code_simp
  moreover have "pgtable_entry_kernel demo_paging (\<lambda>_. 0x40001083) demo_func \<noteq> 0" by code_simp
  moreover have "\<not> pte_valid_cont 0x40001083" by code_simp
  ultimately show ?thesis by (simp add: patchable_def demo_kernel_def cont_ok_def del: of_nat_mult)
qed

lemma hook_install_uninstall_witness:
  "\<exists>st'. hook_install demo_paging (prepared (demo_text demo_loop) demo_hook) (demo_kernel demo_loop) = Some st' \<and>
     hook_uninstall demo_paging (prepared (demo_text demo_loop) demo_hook) st' = Some (demo_kernel demo_loop)"
proof -
  let ?h = "prepared (demo_text demo_loop) demo_hook"
  have o: "origin_addr demo_hook = demo_func" "length (tramp_insts demo_hook) = 6" by code_simp+
  have "saved (ktext (demo_kernel demo_loop)) ?h"
    using prepared_saved [OF o(2)] by (simp add: demo_kernel_def)
  moreover have "patchable demo_paging (origin_addr ?h) (tramp_insts_num ?h) (demo_kernel demo_loop)"
    using patchable_mono [OF demo_patchable] by (simp add: o)
  ultimately show ?thesis using hook_install_uninstall by blast
qed

text \<open>A function whose first instruction is the last of its page.\<close>

definition edge_hook :: hook_t where
  "edge_hook = demo_hook\<lparr>origin_addr := 0xffffffc010000ffc, tramp_insts_num := 4,
     origin_insts := backup_insts (demo_text demo_loop) 0xffffffc010000ffc\<rparr>"

lemma edge_hook_simps [simp]:
  "origin_addr edge_hook = 0xffffffc010000ffc" "tramp_insts_num edge_hook = 4" "length (tramp_insts edge_hook) = 6"
  "origin_insts edge_hook = backup_insts (demo_text demo_loop) 0xffffffc010000ffc"
  by (simp_all add: edge_hook_def demo_hook_def hook_zero_def)

lemma hook_install_across_pages_witness:
  "hook_install demo_paging edge_hook (demo_kernel demo_loop) = None"
proof -
  let ?m = "\<lambda>_. 0x40001083 :: u64"
  have p: "paging_ok demo_paging" "pgtable_entry_kernel demo_paging ?m 0xffffffc010000ffc \<noteq> 0"
    "pgtable_entry_kernel demo_paging ?m 0xffffffc010001000 \<noteq> pgtable_entry_kernel demo_paging ?m 0xffffffc010000ffc"
    "\<not> pte_valid_cont 0x40001083" "\<not> writable demo_paging ?m 0xffffffc010001000" by code_simp+
  have "saved (ktext (demo_kernel demo_loop)) edge_hook" by (simp add: saved_def)
  from hook_install_across_pages [OF p(1) this, of 1] p show ?thesis by simp
qed

lemma hook_unhook_restores_witness:
  "\<exists>relo st1 st2. hook_fn demo_paging demo_func 0xffffffc020000000 0xffffffc021000000 (demo_kernel demo_loop) = Some (0, relo, st1) \<and>
     unhook demo_paging demo_func st1 = Some st2 \<and> ktext st2 = ktext (demo_kernel demo_loop)"
proof -
  let ?st = "demo_kernel demo_loop"
  have i: "mem_inv (hmem ?st)" "hook_get_mem_from_origin (hmem ?st) demo_func = None"
    by (simp_all add: demo_kernel_def hook_mem_add_def mem_inv_def warp_zero_def get_None)
  have "demo_text demo_loop demo_func = 0xd2800000" by code_simp
  then have b: "branch_func_addr_once ?st demo_func = demo_func"
    by (simp add: branch_func_addr_once_def ARM64_BTI_C_def ARM64_BTI_J_def ARM64_BTI_JC_def)
  let ?mem = "hook_mem_add 0xffffffc008400000 4096"
  have z: "hook_mem_zalloc (hmem ?st) demo_func INLINE =
      (Some 0, ?mem\<lparr>slots := (slots ?mem)[0 := \<lparr>in_use = True, htype = INLINE, warp_addr = demo_func, chain = zeroed INLINE\<rparr>]\<rparr>)"
    unfolding demo_kernel_simps by (rule zalloc_next) (simp_all add: hook_mem_add_def warp_zero_def)
  let ?h = "new_hook demo_func 0xffffffc020000000 0xffffffc008400068"
  have "(case hook_prepare (demo_text demo_loop) ?h of Some (e, _) \<Rightarrow> e = 0 | None \<Rightarrow> False)" by code_simp
  then obtain h where h: "hook_prepare (demo_text demo_loop) ?h = Some (0, h)" by (auto split: option.splits)
  then have hp: "h = prepared (demo_text demo_loop) ?h" by (rule hook_prepare_Some(3)) simp
  have "\<exists>st1. hook_fn demo_paging demo_func 0xffffffc020000000 0xffffffc021000000 ?st = Some (0, Some 0xffffffc008400068, st1)"
  proof (rule hook_fn_intro [OF b _ _ _ z])
    show "patchable demo_paging demo_func 5 ?st" by (rule demo_patchable)
    show "hook_prepare (ktext ?st) (new_hook demo_func 0xffffffc020000000 0xffffffc008400068) = Some (0, h)" using h by simp
  qed (simp_all add: chain_ptr_def hook_mem_add_def)
  then obtain st1 where "hook_fn demo_paging demo_func 0xffffffc020000000 0xffffffc021000000 ?st = Some (0, Some 0xffffffc008400068, st1)" ..
  with hook_unhook_restores [OF i b demo_patchable this] show ?thesis by blast
qed

end
