(* ===== verification/Branch_Follow.thy ===== *)
theory Branch_Follow
  imports A64 Hook_Engine
begin

text \<open>
  The search for the function behind branches (\<open>branch_func_addr\<close> of \<^verbatim>\<open>kernel/base/hook.c\<close>) against the
  processor: where it ends is where the processor arrives.
\<close>

section \<open>Instructions that only lead on\<close>

text \<open>A landing pad does nothing; the one at the start of an installed trampoline belongs to the hook.\<close>

definition landing_pad :: "kstate \<Rightarrow> u64 \<Rightarrow> bool" where
  "landing_pad st a \<longleftrightarrow> ktext st a \<in> {ARM64_BTI_C, ARM64_BTI_J} \<or>
     ktext st a = ARM64_BTI_JC \<and> hook_get_mem_from_origin (hmem st) a = None"

text \<open>One instruction of the processor, if it is a landing pad or an unconditional branch.\<close>

definition lead_on :: "kstate \<Rightarrow> cpu \<Rightarrow> cpu option" where
  "lead_on st c =
     (if landing_pad st (pc c) then Some (goto (pc c + 4) c)
      else if ktext st (pc c) AND 0xFC000000 = 0x14000000 then a64_step (ktext st) c
      else None)"

fun lead_run :: "kstate \<Rightarrow> nat \<Rightarrow> cpu \<Rightarrow> cpu option" where
  "lead_run st 0 c = Some c"
| "lead_run st (Suc n) c = (case lead_on st c of None \<Rightarrow> None | Some c' \<Rightarrow> lead_run st n c')"

lemma pad_no_branch: "landing_pad st a \<Longrightarrow> ktext st a AND 0xFC000000 \<noteq> 0x14000000"
  by (auto simp: landing_pad_def ARM64_BTI_C_def ARM64_BTI_J_def ARM64_BTI_JC_def)

lemma branch_once_pad: "landing_pad st a \<Longrightarrow> branch_func_addr_once st a = a + 4"
  using pad_no_branch [of st a] by (auto simp: branch_func_addr_once_def landing_pad_def )

lemma branch_once_b:
  assumes "ktext st a AND 0xFC000000 = 0x14000000"
  shows "branch_func_addr_once st a = a + offset (ktext st a) 0 26"
  using assms by (simp add: branch_func_addr_once_def Let_def bits32_fields offsets)

lemma branch_once_other:
  "\<not> landing_pad st a \<Longrightarrow> ktext st a AND 0xFC000000 \<noteq> 0x14000000 \<Longrightarrow> branch_func_addr_once st a = a"
  by (auto simp: branch_func_addr_once_def landing_pad_def )

lemma goto_inj: "goto a c = goto b c \<longleftrightarrow> a = b"
  by (metis goto_simps(1))

lemma lead_on_once:
  "lead_on st c =
     (if landing_pad st (pc c) \<or> ktext st (pc c) AND 0xFC000000 = 0x14000000
      then Some (goto (branch_func_addr_once st (pc c)) c) else None)"
  using pad_no_branch [of st "pc c"] by (auto simp: lead_on_def branch_once_pad branch_once_b a64_step_def exec_B)

lemma lead_run_once:
  "lead_run st n c = Some c' \<Longrightarrow> c' = goto ((branch_func_addr_once st ^^ n) (pc c)) c"
proof (induction n arbitrary: c)
  case 0
  then show ?case by (simp add: goto_def)
next
  case (Suc n)
  then obtain d where d: "lead_on st c = Some d" "lead_run st n d = Some c'" by (auto split: option.splits)
  have "d = goto (branch_func_addr_once st (pc c)) c" using d(1) by (simp add: lead_on_once split: if_splits)
  with Suc.IH [OF d(2)] show ?case by (simp add: goto_def funpow_swap1)
qed

text \<open>As long as the search moves, the processor follows.\<close>

lemma search_runs:
  "(branch_func_addr_once st ^^ n) (pc c) = b \<Longrightarrow> \<exists>m. lead_run st m c = Some (goto b c)"
proof (induction n arbitrary: c)
  case 0
  then show ?case by (intro exI [of _ 0]) (auto simp: goto_def)
next
  case (Suc n)
  let ?d = "goto (branch_func_addr_once st (pc c)) c"
  have "(branch_func_addr_once st ^^ n) (pc ?d) = b" using Suc.prems by (simp add: goto_def funpow_swap1)
  from Suc.IH [OF this] obtain m where m: "lead_run st m ?d = Some (goto b c)" by (auto simp: goto_def)
  show ?case
  proof (cases "lead_on st c")
    case None
    then have "branch_func_addr_once st (pc c) = pc c"
      by (simp add: lead_on_once branch_once_other split: if_splits)
    then have "?d = c" by (simp add: goto_def)
    with m show ?thesis by auto
  next
    case (Some d)
    then have "d = ?d" by (simp add: lead_on_once split: if_splits)
    with Some m show ?thesis by (intro exI [of _ "Suc m"]) simp
  qed
qed

text \<open>C12: the search for the function to hook returns the address at which the processor, started at the
  given one, meets the first instruction that is no landing pad and no unconditional branch, or a
  branch to itself, with all registers as they were; and when it meets none, the search does not return.\<close>

theorem branch_func_addr_follows:
  "branch_func_addr st (pc c) = Some b \<longleftrightarrow>
     (\<exists>n. lead_run st n c = Some (goto b c)) \<and> (lead_on st (goto b c) = None \<or> lead_on st (goto b c) = Some (goto b c))"
proof -
  have "branch_func_addr_once st b = b \<longleftrightarrow> lead_on st (goto b c) = None \<or> lead_on st (goto b c) = Some (goto b c)"
    using goto_inj [of _ c b] by (auto simp: lead_on_once branch_once_other)
  moreover have "(\<exists>n. lead_run st n c = Some (goto b c)) \<longleftrightarrow> (\<exists>n. (branch_func_addr_once st ^^ n) (pc c) = b)"
    using search_runs [of _ st c b] lead_run_once [of st _ c "goto b c"] goto_inj [of b c] by metis
  ultimately show ?thesis
    using branch_func_addr_returns [of st "pc c" b] by blast
qed

end
