(* ===== verification/Callback_Chain.thy ===== *)
theory Callback_Chain
  imports Hook_Memory "HOL-Library.Multiset"
begin

text \<open>
  The callback chains of \<^verbatim>\<open>kernel/base/hook.c\<close> and \<^verbatim>\<open>kernel/base/fphook.c\<close>: adding and removing a
  pair of callbacks, and the transit routines that run them around the original function.
  The two kinds of chain differ in the number of their items, 16 and 32.
\<close>

section \<open>Adding and removing\<close>

definition same_callback :: "chain_items \<Rightarrow> nat \<Rightarrow> u64 \<Rightarrow> u64 \<Rightarrow> bool" where
  "same_callback c i before after \<longleftrightarrow>
     before \<noteq> 0 \<and> befores c ! i = before \<or> after \<noteq> 0 \<and> afters c ! i = after"

definition fill_item :: "nat \<Rightarrow> u64 \<Rightarrow> u64 \<Rightarrow> u64 \<Rightarrow> chain_items \<Rightarrow> chain_items" where
  "fill_item i before after ud c =
     (let c = c\<lparr>states := (states c)[i := CHAIN_ITEM_STATE_BUSY]\<rparr>;
          c = c\<lparr>udata := (udata c)[i := ud], befores := (befores c)[i := before], afters := (afters c)[i := after]\<rparr>;
          c = (if i + 1 > chain_items_max c then c\<lparr>chain_items_max := i + 1\<rparr> else c)
      in c\<lparr>states := (states c)[i := CHAIN_ITEM_STATE_READY]\<rparr>)"

definition clear_item :: "nat \<Rightarrow> chain_items \<Rightarrow> chain_items" where
  "clear_item i c =
     (let c = c\<lparr>states := (states c)[i := CHAIN_ITEM_STATE_BUSY]\<rparr>;
          c = c\<lparr>udata := (udata c)[i := 0], befores := (befores c)[i := 0], afters := (afters c)[i := 0]\<rparr>
      in c\<lparr>states := (states c)[i := CHAIN_ITEM_STATE_EMPTY]\<rparr>)"

text \<open>The loops from item \<open>i\<close> on, with \<open>k\<close> items to go.\<close>

fun add_from :: "nat \<Rightarrow> nat \<Rightarrow> u64 \<Rightarrow> u64 \<Rightarrow> u64 \<Rightarrow> chain_items \<Rightarrow> s32 \<times> chain_items" where
  "add_from i 0 before after ud c = (- HOOK_CHAIN_FULL, c)"
| "add_from i (Suc k) before after ud c =
     (if same_callback c i before after then (- HOOK_DUPLICATED, c)
      else if states c ! i = CHAIN_ITEM_STATE_EMPTY then (0, fill_item i before after ud c)
      else add_from (Suc i) k before after ud c)"

fun remove_from :: "nat \<Rightarrow> nat \<Rightarrow> u64 \<Rightarrow> u64 \<Rightarrow> chain_items \<Rightarrow> chain_items" where
  "remove_from i 0 before after c = c"
| "remove_from i (Suc k) before after c =
     (if states c ! i = CHAIN_ITEM_STATE_READY \<and> same_callback c i before after then clear_item i c
      else remove_from (Suc i) k before after c)"

definition hook_chain_add :: "u64 \<Rightarrow> u64 \<Rightarrow> u64 \<Rightarrow> chain_items \<Rightarrow> s32 \<times> chain_items" where
  "hook_chain_add before after ud c = add_from 0 HOOK_CHAIN_NUM before after ud c"

definition hook_chain_remove :: "u64 \<Rightarrow> u64 \<Rightarrow> chain_items \<Rightarrow> chain_items" where
  "hook_chain_remove before after c = remove_from 0 HOOK_CHAIN_NUM before after c"

definition fp_chain_add :: "u64 \<Rightarrow> u64 \<Rightarrow> u64 \<Rightarrow> chain_items \<Rightarrow> s32 \<times> chain_items" where
  "fp_chain_add before after ud c = add_from 0 FP_HOOK_CHAIN_NUM before after ud c"

definition fp_chain_remove :: "u64 \<Rightarrow> u64 \<Rightarrow> chain_items \<Rightarrow> chain_items" where
  "fp_chain_remove before after c = remove_from 0 FP_HOOK_CHAIN_NUM before after c"

definition all_empty :: "chain_items \<Rightarrow> bool" where
  "all_empty c \<longleftrightarrow> list_all (\<lambda>s. s = CHAIN_ITEM_STATE_EMPTY) (states c)"

section \<open>The invariant and the callbacks a chain holds\<close>

definition items_ok :: "nat \<Rightarrow> chain_items \<Rightarrow> bool" where
  "items_ok n c \<longleftrightarrow> length (states c) = n \<and> length (udata c) = n \<and> length (befores c) = n \<and> length (afters c) = n \<and>
     chain_items_max c \<le> n \<and>
     (\<forall>i<n. states c ! i = CHAIN_ITEM_STATE_READY \<and> i < chain_items_max c \<or>
            states c ! i = CHAIN_ITEM_STATE_EMPTY \<and> befores c ! i = 0 \<and> afters c ! i = 0 \<and> udata c ! i = 0)"

definition item :: "chain_items \<Rightarrow> nat \<Rightarrow> u64 \<times> u64 \<times> u64" where
  "item c i = (befores c ! i, afters c ! i, udata c ! i)"

definition ready_ids :: "chain_items \<Rightarrow> nat list" where
  "ready_ids c = filter (\<lambda>i. states c ! i = CHAIN_ITEM_STATE_READY) [0..<length (states c)]"

definition ready :: "chain_items \<Rightarrow> (u64 \<times> u64 \<times> u64) list" where
  "ready c = map (item c) (ready_ids c)"

lemma no_items_ok: "items_ok n (no_items n)"
  by (simp add: items_ok_def no_items_def)

lemma items_ok_len:
  assumes "items_ok n c"
  shows "length (states c) = n" "length (udata c) = n" "length (befores c) = n" "length (afters c) = n"
  using assms by (simp_all add: items_ok_def)

lemma fill_item_eq:
  "fill_item i b a u c = c\<lparr>states := (states c)[i := CHAIN_ITEM_STATE_READY], udata := (udata c)[i := u],
     befores := (befores c)[i := b], afters := (afters c)[i := a], chain_items_max := max (i + 1) (chain_items_max c)\<rparr>"
  by (simp add: fill_item_def Let_def)

lemma clear_item_eq:
  "clear_item i c = c\<lparr>states := (states c)[i := CHAIN_ITEM_STATE_EMPTY], udata := (udata c)[i := 0],
     befores := (befores c)[i := 0], afters := (afters c)[i := 0]\<rparr>"
  by (simp add: clear_item_def Let_def)

lemma fill_item_ok: "items_ok n c \<Longrightarrow> i < n \<Longrightarrow> items_ok n (fill_item i b a u c)"
  by (auto simp: items_ok_def fill_item_eq nth_list_update)

lemma clear_item_ok: "items_ok n c \<Longrightarrow> i < n \<Longrightarrow> items_ok n (clear_item i c)"
  by (auto simp: items_ok_def clear_item_eq nth_list_update)

text \<open>What the loops do.\<close>

lemma upt_shift: "[i..<Suc (i + k)] = i # [Suc i..<Suc (i + k)]"
  by (simp add: upt_conv_Cons del: upt_Suc)

lemma add_from_cases:
  "add_from i k b a u c =
     (case find (\<lambda>j. same_callback c j b a \<or> states c ! j = CHAIN_ITEM_STATE_EMPTY) [i..<i + k] of
        None \<Rightarrow> (- HOOK_CHAIN_FULL, c)
      | Some j \<Rightarrow> if same_callback c j b a then (- HOOK_DUPLICATED, c) else (0, fill_item j b a u c))"
  by (induction i k b a u c rule: add_from.induct) (simp_all add: upt_shift del: upt_Suc)

lemma remove_from_cases:
  "remove_from i k b a c =
     (case find (\<lambda>j. states c ! j = CHAIN_ITEM_STATE_READY \<and> same_callback c j b a) [i..<i + k] of
        None \<Rightarrow> c | Some j \<Rightarrow> clear_item j c)"
  by (induction i k b a c rule: remove_from.induct) (simp_all add: upt_shift del: upt_Suc)

lemma find_upt:
  "find P [0..<n] = Some j \<longleftrightarrow> j < n \<and> P j \<and> (\<forall>l<j. \<not> P l)"
  "find P [0..<n] = None \<longleftrightarrow> (\<forall>l<n. \<not> P l)"
  by (auto simp: find_Some_iff find_None_iff)

text \<open>The callbacks after a change of one item.\<close>

lemma upt_split: "i < n \<Longrightarrow> [0..<n] = [0..<i] @ i # [Suc i..<n]"
  using upt_add_eq_append [of 0 i "n - i"] by (simp add: upt_conv_Cons)

definition ready_in :: "chain_items \<Rightarrow> nat list \<Rightarrow> (u64 \<times> u64 \<times> u64) list" where
  "ready_in c is = map (item c) (filter (\<lambda>i. states c ! i = CHAIN_ITEM_STATE_READY) is)"

lemma ready_in_cong:
  "(\<And>j. j \<in> set is \<Longrightarrow> states c ! j = states d ! j \<and> item c j = item d j) \<Longrightarrow> ready_in c is = ready_in d is"
  by (auto simp: ready_in_def intro!: map_cong filter_cong)

lemma ready_split:
  "i < length (states c) \<Longrightarrow> ready c = ready_in c [0..<i] @
     (if states c ! i = CHAIN_ITEM_STATE_READY then [item c i] else []) @ ready_in c [Suc i..<length (states c)]"
  by (simp add: ready_def ready_ids_def ready_in_def upt_split)

lemma ready_fill:
  assumes "items_ok n c" "i < n" "states c ! i = CHAIN_ITEM_STATE_EMPTY"
  shows "mset (ready (fill_item i b a u c)) = add_mset (b, a, u) (mset (ready c))"
proof -
  let ?d = "fill_item i b a u c"
  have l: "length (states c) = n" "length (states ?d) = n" using assms(1) by (simp_all add: fill_item_eq items_ok_len)
  have e: "states ?d ! j = states c ! j \<and> item ?d j = item c j" if "j \<noteq> i" for j
    using that by (simp add: fill_item_eq item_def)
  have "ready_in ?d [0..<i] = ready_in c [0..<i]" "ready_in ?d [Suc i..<n] = ready_in c [Suc i..<n]"
    by (auto intro!: ready_in_cong e)
  moreover have "states ?d ! i = CHAIN_ITEM_STATE_READY" "item ?d i = (b, a, u)"
    using assms(2) items_ok_len [OF assms(1)] by (simp_all add: fill_item_eq item_def)
  ultimately show ?thesis using assms(2,3) by (simp add: ready_split [of i] l)
qed

lemma ready_clear:
  assumes "items_ok n c" "i < n" "states c ! i = CHAIN_ITEM_STATE_READY"
  shows "mset (ready c) = add_mset (item c i) (mset (ready (clear_item i c)))"
proof -
  let ?d = "clear_item i c"
  have l: "length (states c) = n" "length (states ?d) = n" using assms(1) by (simp_all add: clear_item_eq items_ok_len)
  have e: "states ?d ! j = states c ! j \<and> item ?d j = item c j" if "j \<noteq> i" for j
    using that by (simp add: clear_item_eq item_def)
  have "ready_in ?d [0..<i] = ready_in c [0..<i]" "ready_in ?d [Suc i..<n] = ready_in c [Suc i..<n]"
    by (auto intro!: ready_in_cong e)
  moreover have "states ?d ! i = CHAIN_ITEM_STATE_EMPTY"
    using assms(2) items_ok_len [OF assms(1)] by (simp add: clear_item_eq)
  ultimately show ?thesis using assms(2,3) by (simp add: ready_split [of i] l)
qed

section \<open>The contract of a chain\<close>

definition matches :: "u64 \<Rightarrow> u64 \<Rightarrow> u64 \<times> u64 \<times> u64 \<Rightarrow> bool" where
  "matches before after x \<longleftrightarrow> before \<noteq> 0 \<and> fst x = before \<or> after \<noteq> 0 \<and> fst (snd x) = after"

lemma same_matches: "same_callback c i b a = matches b a (item c i)"
  by (simp add: same_callback_def matches_def item_def)

lemma set_ready: "x \<in> set (ready c) \<longleftrightarrow> (\<exists>i<length (states c). states c ! i = CHAIN_ITEM_STATE_READY \<and> x = item c i)"
  by (auto simp: ready_def ready_ids_def)

lemma empty_not_same: "items_ok n c \<Longrightarrow> i < n \<Longrightarrow> states c ! i = CHAIN_ITEM_STATE_EMPTY \<Longrightarrow> \<not> same_callback c i b a"
  by (auto simp: items_ok_def same_callback_def)

lemma ready_or_empty: "items_ok n c \<Longrightarrow> i < n \<Longrightarrow> states c ! i \<noteq> CHAIN_ITEM_STATE_EMPTY \<Longrightarrow> states c ! i = CHAIN_ITEM_STATE_READY"
  by (auto simp: items_ok_def)

lemma ready_full:
  assumes "items_ok n c" "\<forall>i<n. states c ! i \<noteq> CHAIN_ITEM_STATE_EMPTY"
  shows "length (ready c) = n"
proof -
  have "filter (\<lambda>i. states c ! i = CHAIN_ITEM_STATE_READY) [0..<n] = [0..<n]"
    using assms ready_or_empty by (intro filter_True) auto
  then show ?thesis using items_ok_len [OF assms(1)] by (simp add: ready_def ready_ids_def)
qed

lemma add_from_outcome:
  assumes "items_ok n c" "add_from 0 n b a u c = (e, c')"
  shows "items_ok n c'"
    and "e = 0 \<and> mset (ready c') = add_mset (b, a, u) (mset (ready c)) \<or>
      e = - HOOK_DUPLICATED \<and> c' = c \<and> (\<exists>x\<in>set (ready c). matches b a x) \<or>
      e = - HOOK_CHAIN_FULL \<and> c' = c \<and> length (ready c) = n \<and> (\<forall>x\<in>set (ready c). \<not> matches b a x)"
proof -
  let ?P = "\<lambda>j. same_callback c j b a \<or> states c ! j = CHAIN_ITEM_STATE_EMPTY"
  note l = items_ok_len [OF assms(1)]
  have f: "add_from 0 n b a u c = (case find ?P [0..<n] of None \<Rightarrow> (- HOOK_CHAIN_FULL, c)
      | Some j \<Rightarrow> if same_callback c j b a then (- HOOK_DUPLICATED, c) else (0, fill_item j b a u c))"
    using add_from_cases [of 0 n b a u c] by simp
  have "items_ok n c' \<and> (e = 0 \<and> mset (ready c') = add_mset (b, a, u) (mset (ready c)) \<or>
      e = - HOOK_DUPLICATED \<and> c' = c \<and> (\<exists>x\<in>set (ready c). matches b a x) \<or>
      e = - HOOK_CHAIN_FULL \<and> c' = c \<and> length (ready c) = n \<and> (\<forall>x\<in>set (ready c). \<not> matches b a x))"
  proof (cases "find ?P [0..<n]")
    case None
    then have n: "\<forall>j<n. \<not> ?P j" by (simp only: find_upt)
    then have "\<forall>x\<in>set (ready c). \<not> matches b a x" by (auto simp: set_ready l same_matches)
    moreover have "length (ready c) = n" using n ready_full [OF assms(1)] by blast
    ultimately show ?thesis using assms f None by auto
  next
    case (Some j)
    then have j: "j < n" "?P j" by (simp_all only: find_upt)
    show ?thesis
    proof (cases "same_callback c j b a")
      case True
      with j empty_not_same [OF assms(1) j(1)] ready_or_empty [OF assms(1) j(1)]
      have "item c j \<in> set (ready c)" by (auto simp: set_ready l)
      with True assms f Some show ?thesis by (auto simp: same_matches)
    next
      case False
      with assms f Some j fill_item_ok [OF assms(1) j(1)] ready_fill [OF assms(1) j(1)] show ?thesis by auto
    qed
  qed
  then show "items_ok n c'" and "e = 0 \<and> mset (ready c') = add_mset (b, a, u) (mset (ready c)) \<or>
      e = - HOOK_DUPLICATED \<and> c' = c \<and> (\<exists>x\<in>set (ready c). matches b a x) \<or>
      e = - HOOK_CHAIN_FULL \<and> c' = c \<and> length (ready c) = n \<and> (\<forall>x\<in>set (ready c). \<not> matches b a x)"
    by blast+
qed

lemma remove_from_outcome:
  assumes "items_ok n c"
  shows "items_ok n (remove_from 0 n b a c)"
    and "(\<forall>x\<in>set (ready c). \<not> matches b a x) \<and> remove_from 0 n b a c = c \<or>
      (\<exists>x\<in>set (ready c). matches b a x \<and> mset (ready c) = add_mset x (mset (ready (remove_from 0 n b a c))))"
proof -
  let ?P = "\<lambda>j. states c ! j = CHAIN_ITEM_STATE_READY \<and> same_callback c j b a"
  note l = items_ok_len [OF assms(1)]
  have f: "remove_from 0 n b a c = (case find ?P [0..<n] of None \<Rightarrow> c | Some j \<Rightarrow> clear_item j c)"
    using remove_from_cases [of 0 n b a c] by simp
  have "items_ok n (remove_from 0 n b a c) \<and> ((\<forall>x\<in>set (ready c). \<not> matches b a x) \<and> remove_from 0 n b a c = c \<or>
      (\<exists>x\<in>set (ready c). matches b a x \<and> mset (ready c) = add_mset x (mset (ready (remove_from 0 n b a c)))))"
  proof (cases "find ?P [0..<n]")
    case None
    then have "\<forall>j<n. \<not> ?P j" by (simp only: find_upt)
    then have "\<forall>x\<in>set (ready c). \<not> matches b a x" by (auto simp: set_ready l same_matches)
    then show ?thesis using assms f None by auto
  next
    case (Some j)
    then have j: "j < n" "?P j" by (simp_all only: find_upt)
    then have "item c j \<in> set (ready c)" by (auto simp: set_ready l)
    with j assms f Some clear_item_ok [OF assms j(1)] ready_clear [OF assms j(1)] show ?thesis
      by (auto simp: same_matches)
  qed
  then show "items_ok n (remove_from 0 n b a c)"
    and "(\<forall>x\<in>set (ready c). \<not> matches b a x) \<and> remove_from 0 n b a c = c \<or>
      (\<exists>x\<in>set (ready c). matches b a x \<and> mset (ready c) = add_mset x (mset (ready (remove_from 0 n b a c))))"
    by blast+
qed

text \<open>What the users of a chain rely on, over the callbacks it holds.\<close>

locale callback_chain =
  fixes ok :: "'c \<Rightarrow> bool"
    and held :: "'c \<Rightarrow> (u64 \<times> u64 \<times> u64) multiset"
    and add :: "u64 \<Rightarrow> u64 \<Rightarrow> u64 \<Rightarrow> 'c \<Rightarrow> s32 \<times> 'c"
    and remove :: "u64 \<Rightarrow> u64 \<Rightarrow> 'c \<Rightarrow> 'c"
    and capacity :: nat
  assumes add_ok: "ok c \<Longrightarrow> add b a u c = (e, c') \<Longrightarrow> ok c'"
    and add_outcome: "ok c \<Longrightarrow> add b a u c = (e, c') \<Longrightarrow>
      e = 0 \<and> held c' = add_mset (b, a, u) (held c) \<or>
      e = - HOOK_DUPLICATED \<and> c' = c \<and> (\<exists>x\<in>#held c. matches b a x) \<or>
      e = - HOOK_CHAIN_FULL \<and> c' = c \<and> size (held c) = capacity \<and> (\<forall>x\<in>#held c. \<not> matches b a x)"
    and remove_ok: "ok c \<Longrightarrow> ok (remove b a c)"
    and remove_outcome: "ok c \<Longrightarrow>
      (\<forall>x\<in>#held c. \<not> matches b a x) \<and> remove b a c = c \<or>
      (\<exists>x\<in>#held c. matches b a x \<and> held c = add_mset x (held (remove b a c)))"
begin

text \<open>Removing a pair that was added to a chain without it gives back what was held.\<close>

lemma add_remove:
  assumes "ok c" "add b a u c = (0, c')" "b \<noteq> 0 \<or> a \<noteq> 0" "\<forall>x\<in>#held c. \<not> matches b a x"
  shows "held (remove b a c') = held c"
proof -
  have h: "held c' = add_mset (b, a, u) (held c)" using add_outcome [OF assms(1,2)] by auto
  with remove_outcome [OF add_ok [OF assms(1,2)], of b a] assms(3,4) show ?thesis
    by (auto simp: matches_def)
qed

text \<open>A chain with room takes a pair that it does not hold.\<close>

lemma add_fresh:
  assumes "ok c" "\<forall>x\<in>#held c. \<not> matches b a x" "size (held c) \<noteq> capacity"
  shows "\<exists>c'. add b a u c = (0, c') \<and> held c' = add_mset (b, a, u) (held c)"
  using add_outcome [OF assms(1), of b a u "fst (add b a u c)" "snd (add b a u c)"] assms(2,3)
  by (cases "add b a u c") auto

end

interpretation inline_chain: callback_chain "items_ok HOOK_CHAIN_NUM" "\<lambda>c. mset (ready c)"
  hook_chain_add hook_chain_remove HOOK_CHAIN_NUM
  by unfold_locales
    (auto simp: hook_chain_add_def hook_chain_remove_def dest: add_from_outcome remove_from_outcome)

interpretation fp_chain: callback_chain "items_ok FP_HOOK_CHAIN_NUM" "\<lambda>c. mset (ready c)"
  fp_chain_add fp_chain_remove FP_HOOK_CHAIN_NUM
  by unfold_locales
    (auto simp: fp_chain_add_def fp_chain_remove_def dest: add_from_outcome remove_from_outcome)

text \<open>C15: adding a pair of callbacks to a chain either takes the pair and keeps the others, or changes
  nothing: with the duplicate error when one of the two is held already, with the full error
  only when all sixteen items hold other callbacks.\<close>

theorem hook_chain_add_outcome:
  assumes "items_ok HOOK_CHAIN_NUM c" "hook_chain_add b a u c = (e, c')"
  shows "items_ok HOOK_CHAIN_NUM c' \<and>
    (e = 0 \<and> mset (ready c') = add_mset (b, a, u) (mset (ready c)) \<or>
     e = - HOOK_DUPLICATED \<and> c' = c \<and> (\<exists>x\<in>#mset (ready c). matches b a x) \<or>
     e = - HOOK_CHAIN_FULL \<and> c' = c \<and> size (mset (ready c)) = HOOK_CHAIN_NUM \<and> (\<forall>x\<in>#mset (ready c). \<not> matches b a x))"
  using inline_chain.add_ok [OF assms] inline_chain.add_outcome [OF assms] by (rule conjI)

text \<open>Removing a pair from a chain it was added to, which held neither callback, leaves the
  callbacks that were there before.\<close>

theorem hook_chain_add_remove:
  assumes "items_ok HOOK_CHAIN_NUM c" "hook_chain_add b a u c = (0, c')"
    and "b \<noteq> 0 \<or> a \<noteq> 0" "\<forall>x\<in>#mset (ready c). \<not> matches b a x"
  shows "mset (ready (hook_chain_remove b a c')) = mset (ready c)"
  by (rule inline_chain.add_remove [OF assms])

text \<open>The search for a duplicate stops at the first free item: after a removal left item \<open>i\<close> free,
  a callback that a later item holds is accepted a second time.\<close>

theorem hook_chain_duplicate:
  assumes "items_ok HOOK_CHAIN_NUM c" "i < j" "j < HOOK_CHAIN_NUM"
    and "states c ! i = CHAIN_ITEM_STATE_EMPTY"
    and "\<forall>l<i. states c ! l = CHAIN_ITEM_STATE_READY \<and> \<not> same_callback c l b a"
    and "states c ! j = CHAIN_ITEM_STATE_READY" "befores c ! j = b" "b \<noteq> 0"
  shows "\<exists>c'. hook_chain_add b a u c = (0, c') \<and>
    states c' ! i = CHAIN_ITEM_STATE_READY \<and> befores c' ! i = b \<and>
    states c' ! j = CHAIN_ITEM_STATE_READY \<and> befores c' ! j = b"
proof -
  let ?P = "\<lambda>j. same_callback c j b a \<or> states c ! j = CHAIN_ITEM_STATE_EMPTY"
  have i: "i < HOOK_CHAIN_NUM" using assms(2,3) by simp
  have "find ?P [0..<HOOK_CHAIN_NUM] = Some i"
    unfolding find_upt using i assms(4,5) by auto
  moreover have "\<not> same_callback c i b a" by (rule empty_not_same [OF assms(1) i assms(4)])
  ultimately have "hook_chain_add b a u c = (0, fill_item i b a u c)"
    using add_from_cases [of 0 HOOK_CHAIN_NUM b a u c] by (simp add: hook_chain_add_def)
  then show ?thesis using items_ok_len [OF assms(1)] i assms by (simp add: fill_item_eq)
qed

section \<open>Witnesses\<close>

definition demo_items :: chain_items where
  "demo_items = snd (hook_chain_add 8 0 2 (snd (hook_chain_add 4 0 1 (no_items HOOK_CHAIN_NUM))))"

lemma demo_items_ok: "items_ok HOOK_CHAIN_NUM demo_items"
  unfolding demo_items_def by (intro inline_chain.add_ok [OF _ surjective_pairing] no_items_ok)

lemma demo_items_ready: "ready demo_items = [(4, 0, 1), (8, 0, 2)]"
  by code_simp

lemma hook_chain_add_outcome_witness:
  "\<exists>c'. hook_chain_add 12 0 3 demo_items = (0, c') \<and> mset (ready c') = {#(12, 0, 3), (4, 0, 1), (8, 0, 2)#}"
proof -
  obtain e c' where h: "hook_chain_add 12 0 3 demo_items = (e, c')" by fastforce
  from hook_chain_add_outcome [OF demo_items_ok h] show ?thesis
    using h by (auto simp: demo_items_ready matches_def)
qed

lemma hook_chain_add_remove_witness:
  "mset (ready (hook_chain_remove 12 0 (snd (hook_chain_add 12 0 3 demo_items)))) = mset (ready demo_items)"
proof (rule hook_chain_add_remove [OF demo_items_ok])
  show "hook_chain_add 12 0 3 demo_items = (0, snd (hook_chain_add 12 0 3 demo_items))" by code_simp
qed (simp_all add: demo_items_ready matches_def)

lemma hook_chain_duplicate_witness:
  "\<exists>c'. hook_chain_add 8 0 3 (hook_chain_remove 4 0 demo_items) = (0, c') \<and> befores c' ! 0 = 8 \<and> befores c' ! 1 = 8"
proof -
  let ?c = "hook_chain_remove 4 0 demo_items"
  have ok: "items_ok HOOK_CHAIN_NUM ?c" by (rule inline_chain.remove_ok [OF demo_items_ok])
  have s: "states ?c ! 0 = CHAIN_ITEM_STATE_EMPTY" "states ?c ! 1 = CHAIN_ITEM_STATE_READY" "befores ?c ! 1 = 8"
    by code_simp+
  from hook_chain_duplicate [OF ok _ _ s(1) _ s(2,3)] show ?thesis by auto
qed

end
