(* ===== verification/Transit.thy ===== *)
theory Transit
  imports Callback_Chain
begin

text \<open>
  The transit routines of \<^verbatim>\<open>kernel/base/hook.c\<close> and \<^verbatim>\<open>kernel/base/fphook.c\<close>, to which the trampoline of
  a wrapped function jumps: they find their chain from their own address, run the callbacks
  before, the original function and the callbacks after.  The callbacks and the original
  function are outside code: functions of the arguments and of a world \<open>'w\<close>, which also holds
  the chain, so that a callback may change it.
\<close>

section \<open>Arguments\<close>

text \<open>\<open>hook_fargs0_t\<close> to \<open>hook_fargs12_t\<close>, which differ in the number of arguments.  The routines
  do not initialise \<open>ret\<close> and \<open>local_data\<close>.\<close>

record hook_fargs =
  fchain :: u64
  skip_origin :: s32
  local_data :: "u64 list"
  ret :: u64
  fargs :: "u64 list"

text \<open>Calling the function at an address.\<close>

type_synonym 'w callback = "u64 \<Rightarrow> hook_fargs \<Rightarrow> u64 \<Rightarrow> 'w \<Rightarrow> hook_fargs \<times> 'w"
type_synonym 'w origin = "u64 \<Rightarrow> u64 list \<Rightarrow> 'w \<Rightarrow> u64 \<times> 'w"

section \<open>The loops\<close>

text \<open>The loop upwards from item \<open>i\<close>, with \<open>k\<close> items of the arrays left; its bound is read again
  in every round.  \<open>None\<close>: the bound leads beyond the arrays.\<close>

fun run_befores :: "'w callback \<Rightarrow> ('w \<Rightarrow> chain_items) \<Rightarrow> nat \<Rightarrow> nat \<Rightarrow> hook_fargs \<Rightarrow> 'w \<Rightarrow> (hook_fargs \<times> 'w) option" where
  "run_befores call its i 0 f w = (if i < chain_items_max (its w) then None else Some (f, w))"
| "run_befores call its i (Suc k) f w =
     (if \<not> i < chain_items_max (its w) then Some (f, w)
      else if states (its w) ! i \<noteq> CHAIN_ITEM_STATE_READY then run_befores call its (Suc i) k f w
      else let func = befores (its w) ! i;
               (f, w) = (if func \<noteq> 0 then call func f (udata (its w) ! i) w else (f, w))
      in run_befores call its (Suc i) k f w)"

text \<open>The loop downwards, with items \<open>0\<close> to \<open>k - 1\<close> to go.\<close>

fun run_afters :: "'w callback \<Rightarrow> ('w \<Rightarrow> chain_items) \<Rightarrow> nat \<Rightarrow> hook_fargs \<Rightarrow> 'w \<Rightarrow> hook_fargs \<times> 'w" where
  "run_afters call its 0 f w = (f, w)"
| "run_afters call its (Suc i) f w =
     (if states (its w) ! i \<noteq> CHAIN_ITEM_STATE_READY then run_afters call its i f w
      else let func = afters (its w) ! i;
               (f, w) = (if func \<noteq> 0 then call func f (udata (its w) ! i) w else (f, w))
      in run_afters call its i f w)"

text \<open>The body of the routines, for a chain of \<open>n\<close> items at address \<open>chain\<close> whose original function is
  \<open>orig\<close>; \<open>garbage\<close> is what the stack holds where \<open>fargs\<close> lies.\<close>

definition transit_body :: "'w callback \<Rightarrow> 'w origin \<Rightarrow> ('w \<Rightarrow> chain_items) \<Rightarrow> nat \<Rightarrow> u64 \<Rightarrow> u64 \<Rightarrow> hook_fargs \<Rightarrow>
    u64 list \<Rightarrow> 'w \<Rightarrow> (u64 \<times> 'w) option" where
  "transit_body call origin its n hook_chain orig garbage xs w =
     (let f = garbage\<lparr>skip_origin := 0, fargs := xs, fchain := hook_chain\<rparr>
      in case run_befores call its 0 n f w of None \<Rightarrow> None
         | Some (f, w) \<Rightarrow>
             let (f, w) = (if skip_origin f = 0
                   then let (r, w) = origin orig (fargs f) w in (f\<lparr>ret := r\<rparr>, w) else (f, w))
             in if n < chain_items_max (its w) then None
                else let (f, w) = run_afters call its (chain_items_max (its w)) f w in Some (ret f, w))"

definition transit0 :: "'w callback \<Rightarrow> 'w origin \<Rightarrow> ('w \<Rightarrow> chain_items) \<Rightarrow> u64 \<Rightarrow> u64 \<Rightarrow> hook_fargs \<Rightarrow> 'w \<Rightarrow> (u64 \<times> 'w) option" where
  "transit0 call origin its hook_chain relo g w = transit_body call origin its HOOK_CHAIN_NUM hook_chain relo g [] w"

definition transit4 :: "'w callback \<Rightarrow> 'w origin \<Rightarrow> ('w \<Rightarrow> chain_items) \<Rightarrow> u64 \<Rightarrow> u64 \<Rightarrow> hook_fargs \<Rightarrow>
    u64 \<Rightarrow> u64 \<Rightarrow> u64 \<Rightarrow> u64 \<Rightarrow> 'w \<Rightarrow> (u64 \<times> 'w) option" where
  "transit4 call origin its hook_chain relo g arg0 arg1 arg2 arg3 w =
     transit_body call origin its HOOK_CHAIN_NUM hook_chain relo g [arg0, arg1, arg2, arg3] w"

definition transit8 :: "'w callback \<Rightarrow> 'w origin \<Rightarrow> ('w \<Rightarrow> chain_items) \<Rightarrow> u64 \<Rightarrow> u64 \<Rightarrow> hook_fargs \<Rightarrow>
    u64 \<Rightarrow> u64 \<Rightarrow> u64 \<Rightarrow> u64 \<Rightarrow> u64 \<Rightarrow> u64 \<Rightarrow> u64 \<Rightarrow> u64 \<Rightarrow> 'w \<Rightarrow> (u64 \<times> 'w) option" where
  "transit8 call origin its hook_chain relo g arg0 arg1 arg2 arg3 arg4 arg5 arg6 arg7 w =
     transit_body call origin its HOOK_CHAIN_NUM hook_chain relo g [arg0, arg1, arg2, arg3, arg4, arg5, arg6, arg7] w"

definition transit12 :: "'w callback \<Rightarrow> 'w origin \<Rightarrow> ('w \<Rightarrow> chain_items) \<Rightarrow> u64 \<Rightarrow> u64 \<Rightarrow> hook_fargs \<Rightarrow>
    u64 \<Rightarrow> u64 \<Rightarrow> u64 \<Rightarrow> u64 \<Rightarrow> u64 \<Rightarrow> u64 \<Rightarrow> u64 \<Rightarrow> u64 \<Rightarrow> u64 \<Rightarrow> u64 \<Rightarrow> u64 \<Rightarrow> u64 \<Rightarrow> 'w \<Rightarrow> (u64 \<times> 'w) option" where
  "transit12 call origin its hook_chain relo g arg0 arg1 arg2 arg3 arg4 arg5 arg6 arg7 arg8 arg9 arg10 arg11 w =
     transit_body call origin its HOOK_CHAIN_NUM hook_chain relo g
       [arg0, arg1, arg2, arg3, arg4, arg5, arg6, arg7, arg8, arg9, arg10, arg11] w"

definition fp_transit0 :: "'w callback \<Rightarrow> 'w origin \<Rightarrow> ('w \<Rightarrow> chain_items) \<Rightarrow> u64 \<Rightarrow> u64 \<Rightarrow> hook_fargs \<Rightarrow> 'w \<Rightarrow> (u64 \<times> 'w) option" where
  "fp_transit0 call origin its hook_chain ofp g w = transit_body call origin its FP_HOOK_CHAIN_NUM hook_chain ofp g [] w"

definition fp_transit4 :: "'w callback \<Rightarrow> 'w origin \<Rightarrow> ('w \<Rightarrow> chain_items) \<Rightarrow> u64 \<Rightarrow> u64 \<Rightarrow> hook_fargs \<Rightarrow>
    u64 \<Rightarrow> u64 \<Rightarrow> u64 \<Rightarrow> u64 \<Rightarrow> 'w \<Rightarrow> (u64 \<times> 'w) option" where
  "fp_transit4 call origin its hook_chain ofp g arg0 arg1 arg2 arg3 w =
     transit_body call origin its FP_HOOK_CHAIN_NUM hook_chain ofp g [arg0, arg1, arg2, arg3] w"

definition fp_transit8 :: "'w callback \<Rightarrow> 'w origin \<Rightarrow> ('w \<Rightarrow> chain_items) \<Rightarrow> u64 \<Rightarrow> u64 \<Rightarrow> hook_fargs \<Rightarrow>
    u64 \<Rightarrow> u64 \<Rightarrow> u64 \<Rightarrow> u64 \<Rightarrow> u64 \<Rightarrow> u64 \<Rightarrow> u64 \<Rightarrow> u64 \<Rightarrow> 'w \<Rightarrow> (u64 \<times> 'w) option" where
  "fp_transit8 call origin its hook_chain ofp g arg0 arg1 arg2 arg3 arg4 arg5 arg6 arg7 w =
     transit_body call origin its FP_HOOK_CHAIN_NUM hook_chain ofp g [arg0, arg1, arg2, arg3, arg4, arg5, arg6, arg7] w"

definition fp_transit12 :: "'w callback \<Rightarrow> 'w origin \<Rightarrow> ('w \<Rightarrow> chain_items) \<Rightarrow> u64 \<Rightarrow> u64 \<Rightarrow> hook_fargs \<Rightarrow>
    u64 \<Rightarrow> u64 \<Rightarrow> u64 \<Rightarrow> u64 \<Rightarrow> u64 \<Rightarrow> u64 \<Rightarrow> u64 \<Rightarrow> u64 \<Rightarrow> u64 \<Rightarrow> u64 \<Rightarrow> u64 \<Rightarrow> u64 \<Rightarrow> 'w \<Rightarrow> (u64 \<times> 'w) option" where
  "fp_transit12 call origin its hook_chain ofp g arg0 arg1 arg2 arg3 arg4 arg5 arg6 arg7 arg8 arg9 arg10 arg11 w =
     transit_body call origin its FP_HOOK_CHAIN_NUM hook_chain ofp g
       [arg0, arg1, arg2, arg3, arg4, arg5, arg6, arg7, arg8, arg9, arg10, arg11] w"

section \<open>The order of the callbacks\<close>

text \<open>What the routines mean: the callbacks of the held pairs in order of their items, the original
  function unless a callback asked to skip it, the callbacks after in reverse order.\<close>

definition call_nonzero :: "'w callback \<Rightarrow> u64 \<Rightarrow> u64 \<Rightarrow> hook_fargs \<times> 'w \<Rightarrow> hook_fargs \<times> 'w" where
  "call_nonzero call func ud s = (if func \<noteq> 0 then call func (fst s) ud (snd s) else s)"

definition call_origin :: "'w origin \<Rightarrow> u64 \<Rightarrow> hook_fargs \<times> 'w \<Rightarrow> hook_fargs \<times> 'w" where
  "call_origin origin orig s =
     (if skip_origin (fst s) = 0
      then let (r, w) = origin orig (fargs (fst s)) (snd s) in ((fst s)\<lparr>ret := r\<rparr>, w) else s)"

definition around :: "'w callback \<Rightarrow> 'w origin \<Rightarrow> u64 \<Rightarrow> (u64 \<times> u64 \<times> u64) list \<Rightarrow> hook_fargs \<times> 'w \<Rightarrow> hook_fargs \<times> 'w" where
  "around call origin orig rs s =
     (let s = fold (\<lambda>(b, a, u). call_nonzero call b u) rs s;
          s = call_origin origin orig s
      in fold (\<lambda>(b, a, u). call_nonzero call a u) (rev rs) s)"

text \<open>Callbacks and the original function leave the chain alone.\<close>

definition chain_stable :: "'w callback \<Rightarrow> 'w origin \<Rightarrow> ('w \<Rightarrow> chain_items) \<Rightarrow> bool" where
  "chain_stable call origin its \<longleftrightarrow>
     (\<forall>p f u w. its (snd (call p f u w)) = its w) \<and> (\<forall>p xs w. its (snd (origin p xs w)) = its w)"

lemma call_nonzero_its: "chain_stable call origin its \<Longrightarrow> its (snd (call_nonzero call p u s)) = its (snd s)"
  by (simp add: call_nonzero_def chain_stable_def)

lemma fold_its:
  assumes "chain_stable call origin its"
  shows "its (snd (fold (\<lambda>x. call_nonzero call (g x) (h x)) rs s)) = its (snd s)"
  by (induction rs arbitrary: s) (simp_all add: call_nonzero_its [OF assms])

lemma run_befores_step:
  "run_befores call its i (Suc k) f w =
     (if \<not> i < chain_items_max (its w) then Some (f, w)
      else if states (its w) ! i \<noteq> CHAIN_ITEM_STATE_READY then run_befores call its (Suc i) k f w
      else case call_nonzero call (befores (its w) ! i) (udata (its w) ! i) (f, w) of
        (f', w') \<Rightarrow> run_befores call its (Suc i) k f' w')"
  by (simp add: call_nonzero_def Let_def)

lemma run_afters_step:
  "run_afters call its (Suc i) f w =
     (if states (its w) ! i \<noteq> CHAIN_ITEM_STATE_READY then run_afters call its i f w
      else case call_nonzero call (afters (its w) ! i) (udata (its w) ! i) (f, w) of
        (f', w') \<Rightarrow> run_afters call its i f' w')"
  by (simp add: call_nonzero_def Let_def)

lemma run_befores_eq:
  assumes "chain_stable call origin its" "its w = c" "chain_items_max c \<le> i + k" "i \<le> chain_items_max c"
  shows "run_befores call its i k f w =
     Some (fold (\<lambda>x. call_nonzero call (fst x) (snd (snd x))) (ready_in c [i..<chain_items_max c]) (f, w))"
  using assms(2-)
proof (induction k arbitrary: i f w)
  case (Suc k)
  show ?case
  proof (cases "i < chain_items_max c")
    case True
    obtain f' w' where s: "call_nonzero call (befores c ! i) (udata c ! i) (f, w) = (f', w')" by fastforce
    then have "its w' = c" using call_nonzero_its [OF assms(1), of "befores c ! i" "udata c ! i" "(f, w)"] Suc.prems by simp
    with True Suc s show ?thesis
      by (simp add: run_befores_step upt_conv_Cons ready_in_def item_def del: run_befores.simps)
  qed (use Suc.prems in \<open>simp add: ready_in_def\<close>)
qed (simp add: ready_in_def)

lemma run_afters_eq:
  assumes "chain_stable call origin its" "its w = c"
  shows "run_afters call its k f w =
     fold (\<lambda>x. call_nonzero call (fst (snd x)) (snd (snd x))) (rev (ready_in c [0..<k])) (f, w)"
  using assms(2)
proof (induction k arbitrary: f w)
  case (Suc k)
  obtain f' w' where s: "call_nonzero call (afters c ! k) (udata c ! k) (f, w) = (f', w')" by fastforce
  then have "its w' = c" using call_nonzero_its [OF assms(1), of "afters c ! k" "udata c ! k" "(f, w)"] Suc.prems by simp
  with Suc s show ?case by (simp add: run_afters_step ready_in_def item_def del: run_afters.simps)
qed (simp add: ready_in_def)

lemma ready_in_max:
  assumes "items_ok n c"
  shows "ready_in c [0..<chain_items_max c] = ready c"
proof -
  have "[0..<n] = [0..<chain_items_max c] @ [chain_items_max c..<n]"
    using assms upt_add_eq_append [of 0 "chain_items_max c" "n - chain_items_max c"] by (simp add: items_ok_def)
  moreover have "filter (\<lambda>i. states c ! i = CHAIN_ITEM_STATE_READY) [chain_items_max c..<n] = []"
    using assms by (auto simp: items_ok_def filter_empty_conv)
  ultimately show ?thesis using items_ok_len [OF assms] by (simp add: ready_def ready_ids_def ready_in_def)
qed


lemma transit_body_eq:
  assumes "chain_stable call origin its" "items_ok n (its w)"
  shows "transit_body call origin its n chn orig g xs w =
     (case around call origin orig (ready (its w)) (g\<lparr>skip_origin := 0, fargs := xs, fchain := chn\<rparr>, w) of
        (f, w') \<Rightarrow> Some (ret f, w'))"
proof -
  let ?c = "its w" and ?f = "g\<lparr>skip_origin := 0, fargs := xs, fchain := chn\<rparr>"
  have mx: "chain_items_max ?c \<le> n" using assms(2) by (simp add: items_ok_def)
  let ?before = "\<lambda>x. call_nonzero call (fst x) (snd (snd x))"
  let ?after = "\<lambda>x. call_nonzero call (fst (snd x)) (snd (snd x))"
  obtain f1 w1 where b: "fold ?before (ready ?c) (?f, w) = (f1, w1)" by fastforce
  have r: "run_befores call its 0 n ?f w = Some (f1, w1)"
    using run_befores_eq [OF assms(1) refl, where i = 0 and k = n and f = ?f] mx
    by (simp add: ready_in_max [OF assms(2)] b)
  have i1: "its w1 = ?c" using fold_its [OF assms(1), of fst "\<lambda>x. snd (snd x)" "ready ?c" "(?f, w)"] b by simp
  obtain f2 w2 where o: "call_origin origin orig (f1, w1) = (f2, w2)" by fastforce
  then have o': "(if skip_origin f1 = 0 then let (r, w) = origin orig (fargs f1) w1 in (f1\<lparr>ret := r\<rparr>, w) else (f1, w1)) = (f2, w2)"
    by (auto simp: call_origin_def Let_def split: if_splits)
  have i2: "its w2 = ?c"
    using o i1 assms(1) by (auto simp: call_origin_def chain_stable_def Let_def split: if_splits prod.splits) (metis snd_conv)
  have "transit_body call origin its n chn orig g xs w =
      (case run_afters call its (chain_items_max ?c) f2 w2 of (f, w') \<Rightarrow> Some (ret f, w'))"
    using mx by (simp add: transit_body_def r o' i2 split del: if_split)
  also have "run_afters call its (chain_items_max ?c) f2 w2 = fold ?after (rev (ready ?c)) (f2, w2)"
    using run_afters_eq [OF assms(1) i2] by (simp add: ready_in_max [OF assms(2)])
  also have "\<dots> = around call origin orig (ready ?c) (?f, w)"
    by (simp add: around_def case_prod_unfold b o)
  finally show ?thesis by simp
qed

text \<open>C16: a call of a wrapped function runs the callbacks that the chain holds before in the order of
  their items, then the original function on the arguments as the callbacks left them, unless
  one asked to skip it, then the callbacks after in reverse order, and returns the value they
  leave; for both kinds of chain and every number of arguments.\<close>

theorem transit_runs_around:
  assumes "chain_stable call origin its"
  shows "(items_ok HOOK_CHAIN_NUM (its w) \<longrightarrow>
       transit0 call origin its chn relo g w =
         (case around call origin relo (ready (its w)) (g\<lparr>skip_origin := 0, fargs := [], fchain := chn\<rparr>, w) of
            (f, w') \<Rightarrow> Some (ret f, w')) \<and>
       transit4 call origin its chn relo g a0 a1 a2 a3 w =
         (case around call origin relo (ready (its w)) (g\<lparr>skip_origin := 0, fargs := [a0, a1, a2, a3], fchain := chn\<rparr>, w) of
            (f, w') \<Rightarrow> Some (ret f, w')) \<and>
       transit8 call origin its chn relo g a0 a1 a2 a3 a4 a5 a6 a7 w =
         (case around call origin relo (ready (its w)) (g\<lparr>skip_origin := 0, fargs := [a0, a1, a2, a3, a4, a5, a6, a7], fchain := chn\<rparr>, w) of
            (f, w') \<Rightarrow> Some (ret f, w')) \<and>
       transit12 call origin its chn relo g a0 a1 a2 a3 a4 a5 a6 a7 a8 a9 a10 a11 w =
         (case around call origin relo (ready (its w)) (g\<lparr>skip_origin := 0, fargs := [a0, a1, a2, a3, a4, a5, a6, a7, a8, a9, a10, a11], fchain := chn\<rparr>, w) of
            (f, w') \<Rightarrow> Some (ret f, w'))) \<and>
    (items_ok FP_HOOK_CHAIN_NUM (its w) \<longrightarrow>
       fp_transit0 call origin its chn ofp g w =
         (case around call origin ofp (ready (its w)) (g\<lparr>skip_origin := 0, fargs := [], fchain := chn\<rparr>, w) of
            (f, w') \<Rightarrow> Some (ret f, w')) \<and>
       fp_transit4 call origin its chn ofp g a0 a1 a2 a3 w =
         (case around call origin ofp (ready (its w)) (g\<lparr>skip_origin := 0, fargs := [a0, a1, a2, a3], fchain := chn\<rparr>, w) of
            (f, w') \<Rightarrow> Some (ret f, w')) \<and>
       fp_transit8 call origin its chn ofp g a0 a1 a2 a3 a4 a5 a6 a7 w =
         (case around call origin ofp (ready (its w)) (g\<lparr>skip_origin := 0, fargs := [a0, a1, a2, a3, a4, a5, a6, a7], fchain := chn\<rparr>, w) of
            (f, w') \<Rightarrow> Some (ret f, w')) \<and>
       fp_transit12 call origin its chn ofp g a0 a1 a2 a3 a4 a5 a6 a7 a8 a9 a10 a11 w =
         (case around call origin ofp (ready (its w)) (g\<lparr>skip_origin := 0, fargs := [a0, a1, a2, a3, a4, a5, a6, a7, a8, a9, a10, a11], fchain := chn\<rparr>, w) of
            (f, w') \<Rightarrow> Some (ret f, w')))"
  by (simp add: transit0_def transit4_def transit8_def transit12_def fp_transit0_def fp_transit4_def fp_transit8_def
    fp_transit12_def transit_body_eq [OF assms])

text \<open>A world that records the calls; the callback at 8 asks to skip the original function.\<close>

definition rec_call :: "(u64 list \<times> chain_items) callback" where
  "rec_call p f u w = ((if p = 8 then f\<lparr>skip_origin := 1, ret := 77\<rparr> else f), (fst w @ [p], snd w))"

definition rec_origin :: "(u64 list \<times> chain_items) origin" where
  "rec_origin p xs w = (sum_list xs, (fst w @ [p], snd w))"

definition demo_fargs :: hook_fargs where
  "demo_fargs = \<lparr>fchain = 0, skip_origin = 0, local_data = replicate 8 0, ret = 0, fargs = []\<rparr>"

definition pair_items :: chain_items where
  "pair_items = snd (hook_chain_add 5 6 1 (snd (hook_chain_add 4 7 1 (no_items HOOK_CHAIN_NUM))))"

lemma transit_runs_around_witness:
  "transit4 rec_call rec_origin snd 0x1000 0x2000 demo_fargs 1 2 3 4 ([], pair_items) =
     Some (10, [4, 5, 0x2000, 6, 7], pair_items)"
proof -
  have s: "chain_stable rec_call rec_origin snd" by (simp add: chain_stable_def rec_call_def rec_origin_def)
  have ok: "items_ok HOOK_CHAIN_NUM pair_items"
    unfolding pair_items_def by (intro inline_chain.add_ok [OF _ surjective_pairing] no_items_ok)
  have r: "ready pair_items = [(4, 7, 1), (5, 6, 1)]" by code_simp
  have "transit4 rec_call rec_origin snd 0x1000 0x2000 demo_fargs 1 2 3 4 ([], pair_items) =
     (case around rec_call rec_origin 0x2000 (ready pair_items)
        (demo_fargs\<lparr>skip_origin := 0, fargs := [1, 2, 3, 4], fchain := 0x1000\<rparr>, ([], pair_items)) of (f, w') \<Rightarrow> Some (ret f, w'))"
    using transit_runs_around [OF s, of "([], pair_items)" "0x1000" "0x2000" demo_fargs 1 2 3 4] ok by simp
  also have "\<dots> = Some (10, [4, 5, 0x2000, 6, 7], pair_items)"
    by (simp add: r around_def call_origin_def call_nonzero_def rec_call_def rec_origin_def demo_fargs_def Let_def)
  finally show ?thesis .
qed

end
