(* ===== verification/Hook_Wrap.thy ===== *)
theory Hook_Wrap
  imports Hook_Engine Transit
begin

text \<open>
  Wrapping functions (\<open>hook_wrap\<close>, \<open>hook_unwrap_remove\<close> of \<^verbatim>\<open>kernel/base/hook.c\<close>) and function
  pointers (\<^verbatim>\<open>kernel/base/fphook.c\<close>) with callback chains.  The machine code of the transit
  routines is what the compiler makes of them: the argument \<open>rts\<close>, by number of arguments.
\<close>

section \<open>The copy of the transit routine\<close>

definition transit_code :: "(nat \<Rightarrow> u32 list) \<Rightarrow> s32 \<Rightarrow> u32 list" where
  "transit_code rts argno =
     (if argno = 0 then rts 0
      else if argno = 1 \<or> argno = 2 \<or> argno = 3 \<or> argno = 4 then rts 4
      else if argno = 5 \<or> argno = 6 \<or> argno = 7 \<or> argno = 8 then rts 8
      else rts 12)"

text \<open>\<open>None\<close>: a word is stored behind the array.\<close>

definition hook_chain_prepare :: "(nat \<Rightarrow> u32 list) \<Rightarrow> u32 list \<Rightarrow> s32 \<Rightarrow> (s32 \<times> u32 list) option" where
  "hook_chain_prepare rts tr argno =
     (let code = transit_code rts argno; transit_num = length code
      in if transit_num \<ge> TRANSIT_INST_NUM then Some (- HOOK_TRANSIT_NO_MEM, tr)
         else case put_words 0 ([ARM64_BTI_JC, ARM64_NOP] @ code) tr of
                None \<Rightarrow> None | Some arr \<Rightarrow> Some (0, arr))"

text \<open>How the copy finds its chain: \<open>while (*--vptr != ARM64_NOP);\<close> from its own address, then one
  word back.\<close>

fun scan_nop :: "u32 list \<Rightarrow> nat \<Rightarrow> nat option" where
  "scan_nop t 0 = None"
| "scan_nop t (Suc i) = (if t ! i \<noteq> ARM64_NOP then scan_nop t i else Some i)"

definition find_transit :: "u32 list \<Rightarrow> nat \<Rightarrow> nat option" where
  "find_transit t this_va = (case scan_nop t this_va of None \<Rightarrow> None | Some i \<Rightarrow> Some (i - 1))"

lemma scan_nop_eq:
  "t ! k = ARM64_NOP \<Longrightarrow> \<forall>j. k < j \<and> j < i \<longrightarrow> t ! j \<noteq> ARM64_NOP \<Longrightarrow> k < i \<Longrightarrow> scan_nop t i = Some k"
proof (induction i)
  case (Suc i)
  then show ?case by (cases "k = i") auto
qed simp

text \<open>A copy of a transit routine finds the chain it lies in, wherever in the routine its address
  is taken, as long as the compiler put no NOP before that place.  The copy is made or
  refused for every length of the routine but one: 95 words are stored, two of them the head
  that is added, in an array of 96.\<close>

theorem transit_copy_finds_chain:
  assumes "length tr = TRANSIT_INST_NUM" "k < length (transit_code rts argno)"
    and "\<forall>j<k. transit_code rts argno ! j \<noteq> ARM64_NOP"
  shows "(case hook_chain_prepare rts tr argno of
       Some (err, t) \<Rightarrow> if err = 0 then length (transit_code rts argno) \<le> 94 \<and> length t = TRANSIT_INST_NUM \<and>
           take (length (transit_code rts argno)) (drop 2 t) = transit_code rts argno \<and> find_transit t (k + 2) = Some 0
         else err = - HOOK_TRANSIT_NO_MEM \<and> t = tr \<and> length (transit_code rts argno) \<ge> TRANSIT_INST_NUM
     | None \<Rightarrow> length (transit_code rts argno) = 95)"
proof (cases "length (transit_code rts argno) \<le> 94")
  case True
  let ?c = "transit_code rts argno"
  let ?t = "[ARM64_BTI_JC, ARM64_NOP] @ ?c @ drop (2 + length ?c) tr"
  have "hook_chain_prepare rts tr argno = Some (0, ?t)"
    using True assms(1) by (simp add: hook_chain_prepare_def put_words_def Let_def)
  moreover have "?t ! j \<noteq> ARM64_NOP" if "1 < j" "j < k + 2" for j
    using assms(2) assms(3) [rule_format, of "j - 2"] that by (auto simp: nth_append nth_Cons' numeral_2_eq_2)
  then have "scan_nop ?t (k + 2) = Some 1" by (intro scan_nop_eq) auto
  ultimately show ?thesis using True assms(1) by (simp add: find_transit_def)
next
  case False
  then show ?thesis using assms(1) by (auto simp: hook_chain_prepare_def put_words_def Let_def)
qed

lemma transit_copy_finds_chain_witness:
  "\<exists>t. hook_chain_prepare (\<lambda>_. [0xa9bf7bfd, 0x10000000, 0xd503201f, 0xd65f03c0]) (replicate 96 0) 2 = Some (0, t) \<and>
     find_transit t 3 = Some 0"
  using transit_copy_finds_chain [of "replicate 96 0" 1 "\<lambda>_. [0xa9bf7bfd, 0x10000000, 0xd503201f, 0xd65f03c0]" 2]
  by (auto simp: transit_code_def hook_chain_prepare_def ARM64_NOP_def put_words_def numeral_3_eq_3)

section \<open>Wrapping a function\<close>

abbreviation (input) transit_offset :: nat where "transit_offset \<equiv> 640"

definition add_to_chain :: "nat \<Rightarrow> u64 \<Rightarrow> u64 \<Rightarrow> u64 \<Rightarrow> kstate \<Rightarrow> (s32 \<times> kstate) option" where
  "add_to_chain i before after ud st =
     (case get_chain (hmem st) i of None \<Rightarrow> None
      | Some c \<Rightarrow> let (err, its) = hook_chain_add before after ud (items c)
                  in Some (err, st\<lparr>hmem := put_chain i (c\<lparr>items := its\<rparr>) (hmem st)\<rparr>))"

definition hook_wrap :: "paging \<Rightarrow> (nat \<Rightarrow> u32 list) \<Rightarrow> u64 \<Rightarrow> s32 \<Rightarrow> u64 \<Rightarrow> u64 \<Rightarrow> u64 \<Rightarrow> kstate \<Rightarrow> (s32 \<times> kstate) option" where
  "hook_wrap pg rts func argno before after ud st =
     (if is_bad_address func then Some (- HOOK_BAD_ADDRESS, st)
      else case branch_func_addr st func of None \<Rightarrow> None
      | Some origin \<Rightarrow>
          (case hook_get_mem_from_origin (hmem st) origin of
             Some i \<Rightarrow> add_to_chain i before after ud st
           | None \<Rightarrow>
               (case hook_mem_zalloc (hmem st) origin INLINE_CHAIN of
                  (None, mem) \<Rightarrow> Some (- HOOK_NO_MEM, st\<lparr>hmem := mem\<rparr>)
                | (Some i, mem) \<Rightarrow>
                    let h = hook_zero\<lparr>func_addr := func, origin_addr := origin,
                              replace_addr := chain_ptr mem i + of_nat transit_offset,
                              relo_addr := chain_ptr mem i + of_nat relo_insts_offset\<rparr>
                    in case hook_prepare (ktext st) h of None \<Rightarrow> None
                       | Some (err, h) \<Rightarrow>
                           if err \<noteq> 0 then Some (err, free_hook i (st\<lparr>hmem := put_chain i (chain_zero\<lparr>base_hook := h\<rparr>) mem\<rparr>))
                           else case hook_chain_prepare rts (transit chain_zero) argno of None \<Rightarrow> None
                           | Some (err, t) \<Rightarrow>
                               if err \<noteq> 0 then Some (err, free_hook i (st\<lparr>hmem := put_chain i (chain_zero\<lparr>base_hook := h, transit := t\<rparr>) mem\<rparr>))
                               else let (err, its) = hook_chain_add before after ud (items chain_zero);
                                        st = st\<lparr>hmem := put_chain i (chain_zero\<lparr>base_hook := h, transit := t, items := its\<rparr>) mem\<rparr>
                               in if err \<noteq> 0 then Some (err, free_hook i st)
                                  else case hook_install pg h st of None \<Rightarrow> None | Some st \<Rightarrow> Some (0, st))))"

definition hook_unwrap_remove :: "paging \<Rightarrow> u64 \<Rightarrow> u64 \<Rightarrow> u64 \<Rightarrow> bool \<Rightarrow> kstate \<Rightarrow> kstate option" where
  "hook_unwrap_remove pg func before after remove st =
     (if is_bad_address func then Some st
      else case branch_func_addr st func of None \<Rightarrow> None
      | Some origin \<Rightarrow>
          (case hook_get_mem_from_origin (hmem st) origin of None \<Rightarrow> Some st
           | Some i \<Rightarrow>
               (case get_chain (hmem st) i of None \<Rightarrow> None
                | Some c \<Rightarrow>
                    let c = c\<lparr>items := hook_chain_remove before after (items c)\<rparr>;
                        st = st\<lparr>hmem := put_chain i c (hmem st)\<rparr>
                    in if \<not> remove then Some st
                       else if \<not> all_empty (items c) then Some st
                       else case hook_uninstall pg (base_hook c) st of None \<Rightarrow> None
                            | Some st \<Rightarrow> Some (free_hook i st))))"

section \<open>Function pointers\<close>

definition read_ptr :: "(u64 \<Rightarrow> u32) \<Rightarrow> u64 \<Rightarrow> u64" where
  "read_ptr mem a = ucast (mem a) OR push_bit 32 (ucast (mem (a + 4)))"

definition fp_hook :: "paging \<Rightarrow> u64 \<Rightarrow> u64 \<Rightarrow> kstate \<Rightarrow> (u64 \<times> kstate) option" where
  "fp_hook pg fpa replace st =
     (case patch_text pg fpa [addr_lo replace, addr_hi replace] st of
        None \<Rightarrow> None | Some st' \<Rightarrow> Some (read_ptr (ktext st) fpa, st'))"

definition fp_unhook :: "paging \<Rightarrow> u64 \<Rightarrow> u64 \<Rightarrow> kstate \<Rightarrow> kstate option" where
  "fp_unhook pg fpa backup st = patch_text pg fpa [addr_lo backup, addr_hi backup] st"

abbreviation (input) fp_transit_offset :: nat where "fp_transit_offset \<equiv> 832"

text \<open>The loop of \<open>fp_hook_wrap\<close> over the items of its chain.\<close>

definition add_to_fp_chain :: "nat \<Rightarrow> u64 \<Rightarrow> u64 \<Rightarrow> u64 \<Rightarrow> kstate \<Rightarrow> (s32 \<times> kstate) option" where
  "add_to_fp_chain i before after ud st =
     (case get_fp_chain (hmem st) i of None \<Rightarrow> None
      | Some c \<Rightarrow> let (err, its) = fp_chain_add before after ud (fp_items c)
                  in Some (err, st\<lparr>hmem := put_fp_chain i (c\<lparr>fp_items := its\<rparr>) (hmem st)\<rparr>))"

definition fp_hook_wrap :: "paging \<Rightarrow> (nat \<Rightarrow> u32 list) \<Rightarrow> u64 \<Rightarrow> s32 \<Rightarrow> u64 \<Rightarrow> u64 \<Rightarrow> u64 \<Rightarrow> kstate \<Rightarrow> (s32 \<times> kstate) option" where
  "fp_hook_wrap pg rts fpa argno before after ud st =
     (if is_bad_address fpa then Some (- HOOK_BAD_ADDRESS, st)
      else case hook_get_mem_from_origin (hmem st) fpa of
        Some i \<Rightarrow> add_to_fp_chain i before after ud st
      | None \<Rightarrow>
          (case hook_mem_zalloc (hmem st) fpa FUNCTION_POINTER_CHAIN of
             (None, mem) \<Rightarrow> Some (- HOOK_NO_MEM, st\<lparr>hmem := mem\<rparr>)
           | (Some i, mem) \<Rightarrow>
               let c = fp_chain_zero\<lparr>fp_addr := fpa, fp_replace_addr := chain_ptr mem i + of_nat fp_transit_offset\<rparr>
               in case hook_chain_prepare rts (fp_transit c) argno of None \<Rightarrow> None
                  | Some (err, t) \<Rightarrow>
                      let c = c\<lparr>fp_transit := t\<rparr>; st = st\<lparr>hmem := put_fp_chain i c mem\<rparr>
                      in if err \<noteq> 0 then Some (err, st)
                         else case fp_hook pg fpa (fp_replace_addr c) st of None \<Rightarrow> None
                         | Some (backup, st) \<Rightarrow>
                             add_to_fp_chain i before after ud
                               (st\<lparr>hmem := put_fp_chain i (c\<lparr>origin_fp := backup\<rparr>) (hmem st)\<rparr>)))"

definition fp_hook_unwrap :: "paging \<Rightarrow> u64 \<Rightarrow> u64 \<Rightarrow> u64 \<Rightarrow> kstate \<Rightarrow> kstate option" where
  "fp_hook_unwrap pg fpa before after st =
     (if is_bad_address fpa then Some st
      else case hook_get_mem_from_origin (hmem st) fpa of None \<Rightarrow> Some st
      | Some i \<Rightarrow>
          (case get_fp_chain (hmem st) i of None \<Rightarrow> None
           | Some c \<Rightarrow>
               let c = c\<lparr>fp_items := fp_chain_remove before after (fp_items c)\<rparr>;
                   st = st\<lparr>hmem := put_fp_chain i c (hmem st)\<rparr>
               in if \<not> all_empty (fp_items c) then Some st
                  else case fp_unhook pg (fp_addr c) (origin_fp c) st of None \<Rightarrow> None
                       | Some st \<Rightarrow> Some (free_hook i st)))"

section \<open>Pointers in memory\<close>

lemma addr_lo_ucast: "addr_lo a = ucast a"
proof -
  have "(0xFFFFFFFF :: u64) = mask 32" by (simp add: mask_numeral)
  then have "bit (0xFFFFFFFF :: u64) n \<longleftrightarrow> n < 32" for n by (simp only: bit_mask_iff) auto
  then show ?thesis by (intro bit_word_eqI) (simp only: addr_lo_def bit_ucast_iff bit_and_iff, auto)
qed

lemma lo_hi_join: "ucast (addr_lo x) OR push_bit 32 (ucast (addr_hi x)) = x"
proof (rule bit_word_eqI)
  fix n assume "n < LENGTH(64)"
  then show "bit (ucast (addr_lo x) OR push_bit 32 (ucast (addr_hi x)) :: u64) n = bit x n"
    by (cases "n < 32") (auto simp: addr_lo_ucast addr_hi_def bit_simps)
qed

lemma lo_join: "addr_lo (ucast a OR push_bit 32 (ucast b)) = a"
  by (rule bit_word_eqI) (auto simp: addr_lo_ucast bit_simps)

lemma hi_join: "addr_hi (ucast (a :: u32) OR push_bit 32 (ucast b)) = b"
  by (rule bit_word_eqI) (auto simp: addr_hi_def bit_simps dest: bit_imp_le_length)

lemma read_ptr_over: "read_ptr (over a [addr_lo x, addr_hi x] t) a = x"
  by (simp add: read_ptr_def lo_hi_join)

lemma over_ptr_restore: "over a [addr_lo (read_ptr t a), addr_hi (read_ptr t a)] (over a [x, y] t) = t"
  by (rule over_over) (auto simp: read_ptr_def lo_join hi_join less_Suc_eq)

section \<open>Wrapping and unwrapping a function pointer\<close>

lemma add_first:
  "0 < n \<Longrightarrow> add_from 0 n b a u (no_items n) = (0, fill_item 0 b a u (no_items n))"
  by (cases n) (simp_all add: same_callback_def no_items_def)

lemma remove_first:
  assumes "b \<noteq> 0 \<or> a \<noteq> 0" "0 < n"
  shows "all_empty (remove_from 0 n b a (fill_item 0 b a u (no_items n)))"
proof -
  obtain k where n: "n = Suc k" using assms(2) by (cases n) auto
  show ?thesis
    using assms(1) by (auto simp: n same_callback_def fill_item_eq clear_item_eq no_items_def all_empty_def list_all_iff)
qed

lemma put_fp_chain_simps:
  "put_fp_chain i c (put_fp_chain i d m) = put_fp_chain i c m"
  "i < length (slots m) \<Longrightarrow> get_fp_chain (put_fp_chain i c m) i = Some c"
  "chain_ptr (put_fp_chain i c m) j = chain_ptr m j"
proof -
  show "put_fp_chain i c (put_fp_chain i d m) = put_fp_chain i c m"
    by (cases "i < length (slots m)") (simp_all add: put_fp_chain_def list_update_beyond)
  show "i < length (slots m) \<Longrightarrow> get_fp_chain (put_fp_chain i c m) i = Some c"
    by (simp add: put_fp_chain_def get_fp_chain_def)
  show "chain_ptr (put_fp_chain i c m) j = chain_ptr m j"
    by (simp add: put_fp_chain_def chain_ptr_def)
qed

lemma put_chain_simps:
  "put_chain i c (put_chain i d m) = put_chain i c m"
  "i < length (slots m) \<Longrightarrow> get_chain (put_chain i c m) i = Some c"
  "chain_ptr (put_chain i c m) j = chain_ptr m j"
proof -
  show "put_chain i c (put_chain i d m) = put_chain i c m"
    by (cases "i < length (slots m)") (simp_all add: put_chain_def list_update_beyond)
  show "i < length (slots m) \<Longrightarrow> get_chain (put_chain i c m) i = Some c"
    by (simp add: put_chain_def get_chain_def)
  show "chain_ptr (put_chain i c m) j = chain_ptr m j"
    by (simp add: put_chain_def chain_ptr_def)
qed

text \<open>A function pointer wrapped and unwrapped with the same callbacks holds its old value again.
  In between it points to the chain's transit code; page tables and the slots of other
  addresses are untouched, and the slot is free again.\<close>

theorem fp_wrap_unwrap_restores:
  assumes "mem_inv (hmem st)" "hook_get_mem_from_origin (hmem st) fpa = None" "patchable pg fpa 2 st"
    and "b \<noteq> 0 \<or> a \<noteq> 0" "fp_hook_wrap pg rts fpa argno b a u st = Some (0, st1)"
  shows "(\<exists>i. hook_get_mem_from_origin (hmem st1) fpa = Some i \<and>
       read_ptr (ktext st1) fpa = chain_ptr (hmem st1) i + of_nat fp_transit_offset) \<and> ptes st1 = ptes st \<and>
    (\<exists>st2. fp_hook_unwrap pg fpa b a st1 = Some st2 \<and> ktext st2 = ktext st \<and> ptes st2 = ptes st \<and>
       mem_inv (hmem st2) \<and> hook_get_mem_from_origin (hmem st2) = hook_get_mem_from_origin (hmem st))"
proof -
  have good: "\<not> is_bad_address fpa" using assms(5) by (auto simp: fp_hook_wrap_def split: if_splits)
  from assms(2,5) good obtain i mem where z: "hook_mem_zalloc (hmem st) fpa FUNCTION_POINTER_CHAIN = (Some i, mem)"
    by (auto simp: fp_hook_wrap_def split: prod.splits option.splits)
  note za = zalloc_Some [OF z]
  define c0 where "c0 = fp_chain_zero\<lparr>fp_addr := fpa, fp_replace_addr := chain_ptr mem i + of_nat fp_transit_offset\<rparr>"
  from assms(2,5) good z obtain t where t: "hook_chain_prepare rts (fp_transit c0) argno = Some (0, t)"
    by (auto simp: fp_hook_wrap_def Let_def c0_def split: option.splits if_splits)
  define c1 where "c1 = c0\<lparr>fp_transit := t\<rparr>"
  let ?r = "fp_replace_addr c0"
  let ?txt = "over fpa [addr_lo ?r, addr_hi ?r] (ktext st)"
  have fp: "fp_hook pg fpa ?r (st\<lparr>hmem := put_fp_chain i c1 mem\<rparr>) =
      Some (read_ptr (ktext st) fpa, st\<lparr>hmem := put_fp_chain i c1 mem, ktext := ?txt\<rparr>)"
    using patch_text_eq [of pg fpa "[addr_lo ?r, addr_hi ?r]" "st\<lparr>hmem := put_fp_chain i c1 mem\<rparr>"] assms(3)
    by (simp add: fp_hook_def numeral_2_eq_2)
  define c2 where "c2 = c1\<lparr>origin_fp := read_ptr (ktext st) fpa\<rparr>"
  define its where "its = fill_item 0 b a u (no_items FP_HOOK_CHAIN_NUM)"
  have its: "fp_chain_add b a u (fp_items c2) = (0, its)"
    by (simp add: c2_def c1_def c0_def fp_chain_zero_def fp_chain_add_def add_first its_def)
  have rem: "all_empty (fp_chain_remove b a its)"
    unfolding fp_chain_remove_def its_def by (rule remove_first) (use assms(4) in simp_all)
  define m1 where "m1 = put_fp_chain i (c2\<lparr>fp_items := its\<rparr>) mem"
  have len: "i < length (slots mem)" using za by simp
  have "fp_hook_wrap pg rts fpa argno b a u st = Some (0, st\<lparr>hmem := m1, ktext := ?txt\<rparr>)"
    using good assms(2) z t fp its len unfolding c2_def c1_def c0_def m1_def
    by (simp add: fp_hook_wrap_def Let_def add_to_fp_chain_def put_fp_chain_simps del: over.simps)
  with assms(5) have st1: "st1 = st\<lparr>hmem := m1, ktext := ?txt\<rparr>" by (simp only: option.inject prod.inject)
  have l1: "hook_get_mem_from_origin m1 b = (if b = fpa then Some i else hook_get_mem_from_origin (hmem st) b)" for b
    unfolding m1_def fp_store.put_lookup by (rule fp_store.alloc_lookup [OF assms(1,2) z])
  have "fp_unhook pg fpa (read_ptr (ktext st) fpa) (st1\<lparr>hmem := m\<rparr>) = Some (st\<lparr>hmem := m\<rparr>)" for m
    using patch_text_eq [of pg fpa "[addr_lo (read_ptr (ktext st) fpa), addr_hi (read_ptr (ktext st) fpa)]" "st1\<lparr>hmem := m\<rparr>"] assms(3)
    by (simp add: fp_unhook_def st1 over_ptr_restore numeral_2_eq_2 patchable_def del: over.simps)
  moreover have "fp_addr c2 = fpa" "origin_fp c2 = read_ptr (ktext st) fpa" by (simp_all add: c2_def c1_def c0_def)
  ultimately have "fp_hook_unwrap pg fpa b a st1 =
      Some (free_hook i (st\<lparr>hmem := put_fp_chain i (c2\<lparr>fp_items := fp_chain_remove b a its\<rparr>) mem\<rparr>))"
    using good l1 [of fpa] len rem by (simp add: fp_hook_unwrap_def st1 Let_def m1_def put_fp_chain_simps)
  moreover have "read_ptr (ktext st1) fpa = chain_ptr (hmem st1) i + of_nat fp_transit_offset"
    by (simp add: st1 read_ptr_over m1_def put_fp_chain_simps c0_def del: over.simps)
  ultimately show ?thesis
    using fp_store.alloc_release [OF assms(1,2) z] l1 [of fpa] by (auto simp: st1 free_hook_def)
qed

text \<open>When the transit routine does not fit, wrapping a function pointer reports the error but
  keeps the slot; a second attempt then reports success although the pointer is never
  changed, so that the callbacks are never run.\<close>

theorem fp_wrap_after_refusal:
  assumes "mem_inv (hmem st)" "hook_get_mem_from_origin (hmem st) fpa = None" "\<not> is_bad_address fpa"
    and "hook_mem_zalloc (hmem st) fpa FUNCTION_POINTER_CHAIN = (Some i, mem)"
    and "length (transit_code rts argno) \<ge> TRANSIT_INST_NUM"
  shows "\<exists>st1 st2. fp_hook_wrap pg rts fpa argno b a u st = Some (- HOOK_TRANSIT_NO_MEM, st1) \<and>
     fp_hook_wrap pg rts fpa argno b a u st1 = Some (0, st2) \<and> ktext st2 = ktext st \<and> ptes st2 = ptes st"
proof -
  define c where "c = fp_chain_zero\<lparr>fp_addr := fpa, fp_replace_addr := chain_ptr mem i + of_nat fp_transit_offset\<rparr>"
  let ?st = "st\<lparr>hmem := put_fp_chain i c mem\<rparr>"
  have "c\<lparr>fp_transit := fp_transit fp_chain_zero\<rparr> = c" by (simp add: c_def fp_chain_zero_def)
  then have 1: "fp_hook_wrap pg rts fpa argno b a u st = Some (- HOOK_TRANSIT_NO_MEM, ?st)"
    using assms(2-5) by (simp add: fp_hook_wrap_def hook_chain_prepare_def Let_def c_def)
  have "hook_get_mem_from_origin (hmem ?st) fpa = Some i"
    using fp_store.alloc_lookup [OF assms(1,2,4), of fpa] by (simp add: fp_store.put_lookup)
  moreover have "get_fp_chain (put_fp_chain i c mem) i = Some c"
    using zalloc_Some [OF assms(4)] by (simp add: put_fp_chain_simps)
  moreover have "fp_chain_add b a u (fp_items c) = (0, fill_item 0 b a u (no_items FP_HOOK_CHAIN_NUM))"
    by (simp add: fp_chain_add_def c_def fp_chain_zero_def add_first)
  ultimately have "\<exists>st2. fp_hook_wrap pg rts fpa argno b a u ?st = Some (0, st2) \<and> ktext st2 = ktext st \<and> ptes st2 = ptes st"
    using assms(3) by (simp add: fp_hook_wrap_def add_to_fp_chain_def)
  with 1 show ?thesis by blast
qed

section \<open>Wrapping and unwrapping a function\<close>

lemma store_words_hmem:
  "store_words pg a ws (st\<lparr>hmem := m\<rparr>) = map_option (\<lambda>s. s\<lparr>hmem := m\<rparr>) (store_words pg a ws st)"
proof (induction ws arbitrary: a st)
  case (Cons w ws)
  from Cons [of "a + 4" "st\<lparr>ktext := (ktext st)(a := w)\<rparr>"] show ?case by (cases st) simp
qed simp

lemma hook_uninstall_hmem:
  "hook_uninstall pg h (st\<lparr>hmem := m\<rparr>) = map_option (\<lambda>s. s\<lparr>hmem := m\<rparr>) (hook_uninstall pg h st)"
proof -
  have c: "st\<lparr>hmem := m, ptes := p\<rparr> = st\<lparr>ptes := p\<rparr>\<lparr>hmem := m\<rparr>" "st\<lparr>ptes := p\<rparr>\<lparr>hmem := m\<rparr> = st\<lparr>hmem := m\<rparr>\<lparr>ptes := p\<rparr>"
    for st :: kstate and p m by (cases st, simp)+
  show ?thesis
    by (simp add: hook_uninstall_def patch_text_def Let_def c(1) store_words_hmem del: kstate.update_convs split: option.split)
qed

text \<open>C17: a function wrapped by \<open>hook_wrap\<close> and unwrapped with the same callbacks has its
  instructions back; page tables and the slots of other functions are untouched, and the
  slot is free again.\<close>

theorem wrap_unwrap_restores:
  assumes "mem_inv (hmem st)" "hook_get_mem_from_origin (hmem st) f = None"
    and "branch_func_addr_once st f = f" "patchable pg f 5 st"
    and "b \<noteq> 0 \<or> a \<noteq> 0" "hook_wrap pg rts f argno b a u st = Some (0, st1)"
  shows "hook_get_mem_from_origin (hmem st1) f \<noteq> None \<and> ptes st1 = ptes st \<and>
    (\<exists>st2. hook_unwrap_remove pg f b a True st1 = Some st2 \<and> ktext st2 = ktext st \<and> ptes st2 = ptes st \<and>
       mem_inv (hmem st2) \<and> hook_get_mem_from_origin (hmem st2) = hook_get_mem_from_origin (hmem st))"
proof -
  have good: "\<not> is_bad_address f" using assms(6) by (auto simp: hook_wrap_def split: if_splits)
  note bf = branch_func_addr_fixpoint [OF assms(3)]
  from assms(2,6) good bf obtain i mem where z: "hook_mem_zalloc (hmem st) f INLINE_CHAIN = (Some i, mem)"
    by (auto simp: hook_wrap_def split: prod.splits option.splits)
  have len: "i < length (slots mem)" using zalloc_Some [OF z] by simp
  define h0 where "h0 = hook_zero\<lparr>func_addr := f, origin_addr := f, replace_addr := chain_ptr mem i + of_nat transit_offset,
     relo_addr := chain_ptr mem i + of_nat relo_insts_offset\<rparr>"
  define its where "its = fill_item 0 b a u (no_items HOOK_CHAIN_NUM)"
  have add: "hook_chain_add b a u (items chain_zero) = (0, its)"
    by (simp add: chain_zero_def hook_chain_add_def add_first its_def)
  have rem: "all_empty (hook_chain_remove b a its)"
    unfolding hook_chain_remove_def its_def by (rule remove_first) (use assms(5) in simp_all)
  from assms(2,6) good bf z obtain h where h: "hook_prepare (ktext st) h0 = Some (0, h)"
    by (auto simp: hook_wrap_def Let_def h0_def split: option.splits if_splits)
  have hp: "h = prepared (ktext st) h0" by (rule hook_prepare_Some(3) [OF h]) (simp add: h0_def hook_zero_def)
  from assms(2,6) good bf z h obtain t where t: "hook_chain_prepare rts (transit chain_zero) argno = Some (0, t)"
    by (auto simp: hook_wrap_def Let_def h0_def split: option.splits if_splits)
  define c where "c = chain_zero\<lparr>base_hook := h, transit := t, items := its\<rparr>"
  define m1 where "m1 = put_chain i c mem"
  have inst: "hook_install pg h (st\<lparr>hmem := m1\<rparr>) = Some st1"
    using assms(2,6) good bf z h t add by (auto simp: hook_wrap_def Let_def h0_def m1_def c_def split: option.splits)
  have s: "saved (ktext (st\<lparr>hmem := m1\<rparr>)) h" "origin_addr h = f" "0 < tramp_insts_num h" "tramp_insts_num h \<le> 5"
    using prepared_saved [of h0 "ktext st"] by (auto simp: hp h0_def hook_zero_def)
  have p: "patchable pg (origin_addr h) (tramp_insts_num h) (st\<lparr>hmem := m\<rparr>)" for m
    using patchable_mono [OF assms(4) s(4)] s(2) by simp
  from hook_install_ops [OF s(1) p] inst have st1: "ptes st1 = ptes st" "hmem st1 = m1"
    "\<forall>j<tramp_insts_num h. ktext st1 (origin_addr h + of_nat (j * 4)) = tramp_insts h ! j"
    "hook_uninstall pg h st1 = Some (st\<lparr>hmem := m1\<rparr>)"
    by auto
  have l1: "hook_get_mem_from_origin m1 x = (if x = f then Some i else hook_get_mem_from_origin (hmem st) x)" for x
    unfolding m1_def inline_store.put_lookup by (rule inline_store.alloc_lookup [OF assms(1,2) z])
  have "ktext st1 f = (if is_pac (ktext st f) then ARM64_BTI_JC else 0x58000051)"
    using prepared_first [of "ktext st" h0] spec [OF st1(3), of 0] s(2,3) by (simp add: hp h0_def)
  then have b1: "branch_func_addr st1 f = Some f"
    by (intro branch_func_addr_fixpoint branch_once_hooked) (simp_all add: st1(2) l1)
  have "hook_uninstall pg h (st1\<lparr>hmem := m\<rparr>) = Some (st\<lparr>hmem := m\<rparr>)" for m
    by (simp add: hook_uninstall_hmem st1(4))
  moreover have "get_chain m1 i = Some c" by (simp add: m1_def put_chain_simps len)
  moreover have "base_hook c = h" "items c = its" by (simp_all add: c_def)
  ultimately have "hook_unwrap_remove pg f b a True st1 =
      Some (free_hook i (st\<lparr>hmem := put_chain i (c\<lparr>items := hook_chain_remove b a its\<rparr>) mem\<rparr>))"
    using good b1 l1 [of f] rem by (simp add: hook_unwrap_remove_def Let_def st1(2)) (simp add: m1_def put_chain_simps)
  with inline_store.alloc_release [OF assms(1,2) z] l1 [of f] show ?thesis
    by (auto simp: st1 free_hook_def)
qed

section \<open>Witnesses\<close>

abbreviation (input) demo_st :: kstate where "demo_st \<equiv> demo_kernel demo_loop"

lemma demo_hmem:
  "mem_inv (hmem demo_st)" "hook_get_mem_from_origin (hmem demo_st) x = None"
  by (simp_all add: hook_mem_add_def mem_inv_def warp_zero_def get_None)

lemma demo_zalloc:
  "hook_mem_zalloc (hmem demo_st) x t =
     (Some 0, (hmem demo_st)\<lparr>slots := (slots (hmem demo_st))[0 := \<lparr>in_use = True, htype = t, warp_addr = x, chain = zeroed t\<rparr>]\<rparr>)"
  unfolding demo_kernel_simps by (rule zalloc_next) (simp_all add: hook_mem_add_def warp_zero_def)

lemma demo_slots: "0 < length (slots (hmem demo_st))"
  by (simp add: hook_mem_add_def)

lemma demo_good: "\<not> is_bad_address demo_func"
  by (simp add: is_bad_address_def)

definition demo_rts :: "nat \<Rightarrow> u32 list" where
  "demo_rts n = [0xa9bf7bfd, 0x10000000, 0xd65f03c0]"

lemma demo_prepare: "\<exists>t. hook_chain_prepare demo_rts (replicate TRANSIT_INST_NUM 0) argno = Some (0, t)"
  by (auto simp: hook_chain_prepare_def transit_code_def demo_rts_def put_words_def)

lemma fp_wrap_after_refusal_witness:
  "\<exists>st1 st2. fp_hook_wrap demo_paging (\<lambda>_. replicate 96 0) demo_func 2 8 0 0 demo_st = Some (- HOOK_TRANSIT_NO_MEM, st1) \<and>
     fp_hook_wrap demo_paging (\<lambda>_. replicate 96 0) demo_func 2 8 0 0 st1 = Some (0, st2) \<and> ktext st2 = ktext demo_st"
  using fp_wrap_after_refusal [OF demo_hmem demo_good demo_zalloc, of "\<lambda>_. replicate 96 0" 2 demo_paging 8 0 0]
  by (auto simp: transit_code_def)

lemma fp_wrap_unwrap_restores_witness:
  "\<exists>st1 st2. fp_hook_wrap demo_paging demo_rts demo_func 2 8 0 0 demo_st = Some (0, st1) \<and>
     fp_hook_unwrap demo_paging demo_func 8 0 st1 = Some st2 \<and> ktext st2 = ktext demo_st"
proof -
  have p: "patchable demo_paging demo_func 2 demo_st" by (rule patchable_mono [OF demo_patchable]) simp
  have "\<exists>st1. fp_hook_wrap demo_paging demo_rts demo_func 2 8 0 0 demo_st = Some (0, st1)"
  proof -
    obtain t where t: "hook_chain_prepare demo_rts (replicate TRANSIT_INST_NUM 0) 2 = Some (0, t)" using demo_prepare by blast
    have "\<exists>st. fp_hook demo_paging demo_func r (demo_st\<lparr>hmem := m\<rparr>) = Some (read_ptr (ktext demo_st) demo_func, st) \<and> hmem st = m" for r m
      using patch_text_eq [of demo_paging demo_func "[addr_lo r, addr_hi r]" "demo_st\<lparr>hmem := m\<rparr>"] p
      by (simp add: fp_hook_def numeral_2_eq_2)
    then obtain sf where sf: "fp_hook demo_paging demo_func r (demo_st\<lparr>hmem := m\<rparr>) = Some (read_ptr (ktext demo_st) demo_func, sf r m)"
      "hmem (sf r m) = m" for r m by metis
    have "fp_transit fp_chain_zero = replicate TRANSIT_INST_NUM 0" "fp_items fp_chain_zero = no_items FP_HOOK_CHAIN_NUM"
      by (simp_all add: fp_chain_zero_def)
    then show ?thesis
      using demo_slots t demo_good
      by (simp add: fp_hook_wrap_def demo_hmem demo_zalloc Let_def sf add_to_fp_chain_def put_fp_chain_simps fp_chain_add_def
        add_first del: demo_kernel_simps)
  qed
  then obtain st1 where w: "fp_hook_wrap demo_paging demo_rts demo_func 2 8 0 0 demo_st = Some (0, st1)" ..
  from fp_wrap_unwrap_restores [OF demo_hmem p _ w] w show ?thesis by auto
qed

lemma wrap_unwrap_restores_witness:
  "\<exists>st1 st2. hook_wrap demo_paging demo_rts demo_func 2 8 0 0 demo_st = Some (0, st1) \<and>
     hook_unwrap_remove demo_paging demo_func 8 0 True st1 = Some st2 \<and> ktext st2 = ktext demo_st"
proof -
  have "demo_text demo_loop demo_func = 0xd2800000" by code_simp
  then have b: "branch_func_addr_once demo_st demo_func = demo_func"
    by (simp add: branch_func_addr_once_def ARM64_BTI_C_def ARM64_BTI_J_def ARM64_BTI_JC_def)
  have "\<exists>st1. hook_wrap demo_paging demo_rts demo_func 2 8 0 0 demo_st = Some (0, st1)"
  proof -
    let ?h = "hook_zero\<lparr>func_addr := demo_func, origin_addr := demo_func, replace_addr := 0xffffffc008400290, relo_addr := 0xffffffc008400068\<rparr>"
    have "(case hook_prepare (demo_text demo_loop) ?h of Some (e, _) \<Rightarrow> e = 0 | None \<Rightarrow> False)" by code_simp
    then obtain h where h: "hook_prepare (demo_text demo_loop) ?h = Some (0, h)" by (auto split: option.splits)
    have hp: "h = prepared (demo_text demo_loop) ?h" by (rule hook_prepare_Some(3) [OF h]) (simp add: hook_zero_def)
    have "\<exists>st1. hook_install demo_paging h (demo_st\<lparr>hmem := m\<rparr>) = Some st1" for m
    proof -
      have "saved (ktext (demo_st\<lparr>hmem := m\<rparr>)) h"
        using prepared_saved [of ?h "demo_text demo_loop"] by (simp add: hp hook_zero_def)
      moreover have "patchable demo_paging (origin_addr h) (tramp_insts_num h) (demo_st\<lparr>hmem := m\<rparr>)"
        using patchable_mono [OF demo_patchable, of "tramp_insts_num h"] by (simp add: hp)
      ultimately show ?thesis using hook_install_ops by blast
    qed
    then obtain sf where sf: "hook_install demo_paging h (demo_st\<lparr>hmem := m\<rparr>) = Some (sf m)" for m by metis
    obtain t where t: "hook_chain_prepare demo_rts (replicate TRANSIT_INST_NUM 0) 2 = Some (0, t)" using demo_prepare by blast
    have "transit chain_zero = replicate TRANSIT_INST_NUM 0" "items chain_zero = no_items HOOK_CHAIN_NUM"
      by (simp_all add: chain_zero_def)
    moreover have "ktext demo_st = demo_text demo_loop" "mem_region_start (hmem demo_st) = 0xffffffc008400000"
      by (simp_all add: hook_mem_add_def)
    ultimately show ?thesis
      using h t demo_good
      by (simp add: hook_wrap_def demo_hmem demo_zalloc Let_def sf branch_func_addr_fixpoint [OF b] chain_ptr_def hook_chain_add_def
        add_first del: demo_kernel_simps)
  qed
  then obtain st1 where w: "hook_wrap demo_paging demo_rts demo_func 2 8 0 0 demo_st = Some (0, st1)" ..
  from wrap_unwrap_restores [OF demo_hmem b demo_patchable _ w] w show ?thesis by auto
qed

end
