(* ===== verification/Insn.thy ===== *)
theory Insn
  imports Prelude
begin

text \<open>
  The instruction encoders of \<^verbatim>\<open>kernel/patch/module/insn.c\<close>, which the module loader uses to relocate
  code and which kernel code uses to generate branches.  A failed \<open>BUG_ON\<close> panics: \<open>None\<close>.
  Registers are unsigned values, since the routines test their range; the other enumerations
  are datatypes.
\<close>

section \<open>Enumerations and instruction classes\<close>

datatype imm_type = IMM_ADR | IMM_26 | IMM_19 | IMM_16 | IMM_14 | IMM_12 | IMM_9 | IMM_7 | IMM_6 | IMM_S | IMM_R | IMM_MAX
datatype register_type = REGTYPE_RT | REGTYPE_RN | REGTYPE_RT2 | REGTYPE_RM | REGTYPE_RD | REGTYPE_RA
datatype variant = VARIANT_32BIT | VARIANT_64BIT
datatype branch_type = BRANCH_NOLINK | BRANCH_LINK | BRANCH_RETURN | BRANCH_COMP_ZERO | BRANCH_COMP_NONZERO
datatype size_type = SIZE_8 | SIZE_16 | SIZE_32 | SIZE_64
datatype ldst_type = LOAD_REG_OFFSET | STORE_REG_OFFSET | LOAD_PAIR_PRE_INDEX | STORE_PAIR_PRE_INDEX | LOAD_PAIR_POST_INDEX | STORE_PAIR_POST_INDEX
datatype adsb_type = ADSB_ADD | ADSB_SUB | ADSB_ADD_SETFLAGS | ADSB_SUB_SETFLAGS
datatype movewide_type = MOVEWIDE_ZERO | MOVEWIDE_KEEP | MOVEWIDE_INVERSE
datatype bitfield_type = BITFIELD_MOVE | BITFIELD_MOVE_UNSIGNED | BITFIELD_MOVE_SIGNED
datatype data1_type = DATA1_REVERSE_16 | DATA1_REVERSE_32 | DATA1_REVERSE_64
datatype data2_type = DATA2_UDIV | DATA2_SDIV | DATA2_LSLV | DATA2_LSRV | DATA2_ASRV | DATA2_RORV
datatype data3_type = DATA3_MADD | DATA3_MSUB
datatype logic_type = LOGIC_AND | LOGIC_BIC | LOGIC_ORR | LOGIC_ORN | LOGIC_EOR | LOGIC_EON | LOGIC_AND_SETFLAGS | LOGIC_BIC_SETFLAGS
datatype encoding_class = CLS_UNKNOWN | CLS_DP_IMM | CLS_DP_REG | CLS_DP_FPSIMD | CLS_LDST | CLS_BR_SYS

definition insn_encoding_class :: "encoding_class list" where
  "insn_encoding_class =
     [CLS_UNKNOWN, CLS_UNKNOWN, CLS_UNKNOWN, CLS_UNKNOWN, CLS_LDST, CLS_DP_REG, CLS_LDST, CLS_DP_FPSIMD,
      CLS_DP_IMM, CLS_DP_IMM, CLS_BR_SYS, CLS_BR_SYS, CLS_LDST, CLS_DP_REG, CLS_LDST, CLS_DP_FPSIMD]"

definition get_insn_class :: "u32 \<Rightarrow> encoding_class" where
  "get_insn_class insn = insn_encoding_class ! unat (drop_bit 25 insn AND 0xf)"

text \<open>\<open>__AARCH64_INSN_FUNCS\<close>: the mask and the value of the classes whose test is used.\<close>

definition insn_is :: "u32 \<Rightarrow> u32 \<Rightarrow> u32 \<Rightarrow> bool" where
  "insn_is msk val code \<longleftrightarrow> code AND msk = val"

definition insn_is_nop :: "u32 \<Rightarrow> bool" where
  "insn_is_nop insn \<longleftrightarrow>
     (if \<not> insn_is 0xFFFFF01F 0xD503201F insn then False
      else insn AND 0xFE0 \<notin> {0x1 * 32, 0x2 * 32, 0x3 * 32, 0x4 * 32, 0x5 * 32})"

definition hotpatch_safe1 :: "u32 \<Rightarrow> bool" where
  "hotpatch_safe1 insn \<longleftrightarrow>
     (if get_insn_class insn \<noteq> CLS_BR_SYS then False
      else insn_is 0xFC000000 0x14000000 insn \<or> insn_is 0xFC000000 0x94000000 insn \<or>
           insn_is 0xFFE0001F 0xD4000001 insn \<or> insn_is 0xFFE0001F 0xD4000002 insn \<or>
           insn_is 0xFFE0001F 0xD4000003 insn \<or> insn_is 0xFFE0001F 0xD4200000 insn \<or> insn_is_nop insn)"

definition insn_hotpatch_safe :: "u32 \<Rightarrow> u32 \<Rightarrow> bool" where
  "insn_hotpatch_safe old_insn new_insn \<longleftrightarrow> hotpatch_safe1 old_insn \<and> hotpatch_safe1 new_insn"

section \<open>Encoding fields\<close>

text \<open>The mask and the shift of an immediate field.\<close>

fun imm_field :: "imm_type \<Rightarrow> (u32 \<times> nat) option" where
  "imm_field IMM_ADR = Some (push_bit 24 0x3 OR 0x7ffff, 5)"
| "imm_field IMM_26 = Some (push_bit 26 1 - 1, 0)"
| "imm_field IMM_19 = Some (push_bit 19 1 - 1, 5)"
| "imm_field IMM_16 = Some (push_bit 16 1 - 1, 5)"
| "imm_field IMM_14 = Some (push_bit 14 1 - 1, 5)"
| "imm_field IMM_12 = Some (push_bit 12 1 - 1, 10)"
| "imm_field IMM_9 = Some (push_bit 9 1 - 1, 12)"
| "imm_field IMM_7 = Some (push_bit 7 1 - 1, 15)"
| "imm_field IMM_6 = Some (push_bit 6 1 - 1, 10)"
| "imm_field IMM_S = Some (push_bit 6 1 - 1, 10)"
| "imm_field IMM_R = Some (push_bit 6 1 - 1, 16)"
| "imm_field IMM_MAX = None"

text \<open>The value to insert: \<open>ADR\<close> splits it into its two low bits and the rest.\<close>

definition imm_value :: "imm_type \<Rightarrow> u64 \<Rightarrow> u64" where
  "imm_value type imm =
     (if type = IMM_ADR
      then let immlo = (ucast (imm AND 0x3) :: u32); imm = drop_bit 2 imm; immhi = (ucast (imm AND 0x7ffff) :: u32)
           in ucast (push_bit 24 immlo OR immhi)
      else imm)"

definition encode_immediate :: "imm_type \<Rightarrow> u32 \<Rightarrow> u64 \<Rightarrow> u32" where
  "encode_immediate type insn imm =
     (case imm_field type of
        None \<Rightarrow> 0
      | Some (msk, shift) \<Rightarrow>
          (insn AND NOT (push_bit shift msk)) OR ucast (push_bit shift (imm_value type imm AND ucast msk)))"

fun register_shift :: "register_type \<Rightarrow> nat" where
  "register_shift REGTYPE_RT = 0"
| "register_shift REGTYPE_RD = 0"
| "register_shift REGTYPE_RN = 5"
| "register_shift REGTYPE_RT2 = 10"
| "register_shift REGTYPE_RA = 10"
| "register_shift REGTYPE_RM = 16"

definition encode_register :: "register_type \<Rightarrow> u32 \<Rightarrow> u32 \<Rightarrow> u32" where
  "encode_register type insn reg =
     (if reg > 31 then 0
      else let shift = register_shift type in (insn AND NOT (push_bit shift 0x1f)) OR push_bit shift reg)"

fun size_value :: "size_type \<Rightarrow> u32" where
  "size_value SIZE_8 = 0"
| "size_value SIZE_16 = 1"
| "size_value SIZE_32 = 2"
| "size_value SIZE_64 = 3"

definition encode_ldst_size :: "size_type \<Rightarrow> u32 \<Rightarrow> u32" where
  "encode_ldst_size type insn = (insn AND NOT 0xC0000000) OR push_bit 30 (size_value type)"

abbreviation (input) SF_BIT :: u32 where "SF_BIT \<equiv> 0x80000000"
abbreviation (input) N_BIT :: u32 where "N_BIT \<equiv> 0x400000"

definition with_variant :: "variant \<Rightarrow> u32 \<Rightarrow> u32" where
  "with_variant v insn = (case v of VARIANT_32BIT \<Rightarrow> insn | VARIANT_64BIT \<Rightarrow> insn OR SF_BIT)"

section \<open>Generating branches\<close>

abbreviation (input) SZ_1M :: u64 where "SZ_1M \<equiv> 0x100000"
abbreviation (input) SZ_128M :: u64 where "SZ_128M \<equiv> 0x8000000"

definition branch_imm_common :: "u64 \<Rightarrow> u64 \<Rightarrow> u64 \<Rightarrow> u64 option" where
  "branch_imm_common pc a limit =
     (if pc AND 3 \<noteq> 0 \<or> a AND 3 \<noteq> 0 then None
      else let offset = a - pc
      in if offset <s - limit \<or> limit \<le>s offset then None else Some offset)"

definition gen_branch_imm :: "u64 \<Rightarrow> u64 \<Rightarrow> branch_type \<Rightarrow> u32 option" where
  "gen_branch_imm pc a type =
     (case branch_imm_common pc a SZ_128M of None \<Rightarrow> None
      | Some offset \<Rightarrow>
          (case type of
             BRANCH_LINK \<Rightarrow> Some (encode_immediate IMM_26 0x94000000 (signed_drop_bit 2 offset))
           | BRANCH_NOLINK \<Rightarrow> Some (encode_immediate IMM_26 0x14000000 (signed_drop_bit 2 offset))
           | _ \<Rightarrow> None))"

definition gen_comp_branch_imm :: "u64 \<Rightarrow> u64 \<Rightarrow> u32 \<Rightarrow> variant \<Rightarrow> branch_type \<Rightarrow> u32 option" where
  "gen_comp_branch_imm pc a reg v type =
     (case branch_imm_common pc a SZ_1M of None \<Rightarrow> None
      | Some offset \<Rightarrow>
          (case (case type of BRANCH_COMP_ZERO \<Rightarrow> Some 0x34000000 | BRANCH_COMP_NONZERO \<Rightarrow> Some 0x35000000 | _ \<Rightarrow> None) of
             None \<Rightarrow> None
           | Some insn \<Rightarrow> Some (encode_immediate IMM_19 (encode_register REGTYPE_RT (with_variant v insn) reg) (signed_drop_bit 2 offset))))"

definition gen_cond_branch_imm :: "u64 \<Rightarrow> u64 \<Rightarrow> u32 \<Rightarrow> u32 option" where
  "gen_cond_branch_imm pc a cnd =
     (case branch_imm_common pc a SZ_1M of None \<Rightarrow> None
      | Some offset \<Rightarrow>
          if cnd > 0xe then None else Some (encode_immediate IMM_19 (0x54000000 OR cnd) (signed_drop_bit 2 offset)))"

definition gen_hint :: "u32 \<Rightarrow> u32" where
  "gen_hint op = 0xD503201F OR op"

definition gen_nop :: u32 where
  "gen_nop = gen_hint 0"

definition gen_branch_reg :: "u32 \<Rightarrow> branch_type \<Rightarrow> u32 option" where
  "gen_branch_reg reg type =
     (case (case type of BRANCH_NOLINK \<Rightarrow> Some 0xD61F0000 | BRANCH_LINK \<Rightarrow> Some 0xD63F0000
            | BRANCH_RETURN \<Rightarrow> Some 0xD65F0000 | _ \<Rightarrow> None) of
        None \<Rightarrow> None | Some insn \<Rightarrow> Some (encode_register REGTYPE_RN insn reg))"

section \<open>Generating data processing and memory instructions\<close>

text \<open>\<open>BUG_ON (c)\<close> before the rest.\<close>

definition bug_on :: "bool \<Rightarrow> 'a option \<Rightarrow> 'a option" where
  "bug_on c r = (if c then None else r)"

definition gen_load_store_reg :: "u32 \<Rightarrow> u32 \<Rightarrow> u32 \<Rightarrow> size_type \<Rightarrow> ldst_type \<Rightarrow> u32 option" where
  "gen_load_store_reg reg base offset sz type =
     (case (case type of LOAD_REG_OFFSET \<Rightarrow> Some 0x38606800 | STORE_REG_OFFSET \<Rightarrow> Some 0x38206800 | _ \<Rightarrow> None) of
        None \<Rightarrow> None
      | Some insn \<Rightarrow>
          let insn = encode_ldst_size sz insn;
              insn = encode_register REGTYPE_RT insn reg;
              insn = encode_register REGTYPE_RN insn base
          in Some (encode_register REGTYPE_RM insn offset))"

definition gen_load_store_pair :: "u32 \<Rightarrow> u32 \<Rightarrow> u32 \<Rightarrow> s32 \<Rightarrow> variant \<Rightarrow> ldst_type \<Rightarrow> u32 option" where
  "gen_load_store_pair reg1 reg2 base offset v type =
     (case (case type of LOAD_PAIR_PRE_INDEX \<Rightarrow> Some 0x29C00000 | STORE_PAIR_PRE_INDEX \<Rightarrow> Some 0x29800000
            | LOAD_PAIR_POST_INDEX \<Rightarrow> Some 0x28C00000 | STORE_PAIR_POST_INDEX \<Rightarrow> Some 0x28800000 | _ \<Rightarrow> None) of
        None \<Rightarrow> None
      | Some insn \<Rightarrow>
          let bad = (case v of
                VARIANT_32BIT \<Rightarrow> offset AND 3 \<noteq> 0 \<or> offset <s - 256 \<or> 252 <s offset
              | VARIANT_64BIT \<Rightarrow> offset AND 7 \<noteq> 0 \<or> offset <s - 512 \<or> 504 <s offset);
              shift = (case v of VARIANT_32BIT \<Rightarrow> 2 | VARIANT_64BIT \<Rightarrow> 3);
              insn = with_variant v insn;
              insn = encode_register REGTYPE_RT insn reg1;
              insn = encode_register REGTYPE_RT2 insn reg2;
              insn = encode_register REGTYPE_RN insn base
          in bug_on bad (Some (encode_immediate IMM_7 insn (scast (signed_drop_bit shift offset)))))"

definition gen_add_sub_imm :: "u32 \<Rightarrow> u32 \<Rightarrow> s32 \<Rightarrow> variant \<Rightarrow> adsb_type \<Rightarrow> u32 option" where
  "gen_add_sub_imm dst src imm v type =
     (let insn = (case type of ADSB_ADD \<Rightarrow> 0x11000000 | ADSB_SUB \<Rightarrow> 0x51000000
            | ADSB_ADD_SETFLAGS \<Rightarrow> 0x31000000 | ADSB_SUB_SETFLAGS \<Rightarrow> 0x71000000);
          insn = with_variant v insn
      in bug_on (imm AND NOT 0xfff \<noteq> 0)
           (let insn = encode_register REGTYPE_RD insn dst;
                insn = encode_register REGTYPE_RN insn src
            in Some (encode_immediate IMM_12 insn (scast imm))))"

definition gen_bitfield :: "u32 \<Rightarrow> u32 \<Rightarrow> s32 \<Rightarrow> s32 \<Rightarrow> variant \<Rightarrow> bitfield_type \<Rightarrow> u32 option" where
  "gen_bitfield dst src immr imms v type =
     (let insn = (case type of BITFIELD_MOVE \<Rightarrow> 0x33000000 | BITFIELD_MOVE_UNSIGNED \<Rightarrow> 0x53000000
            | BITFIELD_MOVE_SIGNED \<Rightarrow> 0x13000000);
          msk = (case v of VARIANT_32BIT \<Rightarrow> 0x1f | VARIANT_64BIT \<Rightarrow> 0x3f);
          insn = (case v of VARIANT_32BIT \<Rightarrow> insn | VARIANT_64BIT \<Rightarrow> insn OR (SF_BIT OR N_BIT))
      in bug_on (immr AND NOT msk \<noteq> 0 \<or> imms AND NOT msk \<noteq> 0)
           (let insn = encode_register REGTYPE_RD insn dst;
                insn = encode_register REGTYPE_RN insn src;
                insn = encode_immediate IMM_R insn (scast immr)
            in Some (encode_immediate IMM_S insn (scast imms))))"

definition gen_movewide :: "u32 \<Rightarrow> s32 \<Rightarrow> s32 \<Rightarrow> variant \<Rightarrow> movewide_type \<Rightarrow> u32 option" where
  "gen_movewide dst imm shift v type =
     (let insn = (case type of MOVEWIDE_ZERO \<Rightarrow> 0x52800000 | MOVEWIDE_KEEP \<Rightarrow> 0x72800000 | MOVEWIDE_INVERSE \<Rightarrow> 0x12800000);
          bad = (case v of
              VARIANT_32BIT \<Rightarrow> shift \<noteq> 0 \<and> shift \<noteq> 16
            | VARIANT_64BIT \<Rightarrow> shift \<noteq> 0 \<and> shift \<noteq> 16 \<and> shift \<noteq> 32 \<and> shift \<noteq> 48)
      in bug_on (imm AND NOT 0xffff \<noteq> 0 \<or> bad)
           (let insn = with_variant v insn;
                insn = insn OR push_bit 21 (signed_drop_bit 4 shift);
                insn = encode_register REGTYPE_RD insn dst
            in Some (encode_immediate IMM_16 insn (scast imm))))"

text \<open>The test of a shift amount.\<close>

definition bad_shift :: "variant \<Rightarrow> s32 \<Rightarrow> bool" where
  "bad_shift v shift = (case v of VARIANT_32BIT \<Rightarrow> shift AND NOT 31 \<noteq> 0 | VARIANT_64BIT \<Rightarrow> shift AND NOT 63 \<noteq> 0)"

definition gen_add_sub_shifted_reg :: "u32 \<Rightarrow> u32 \<Rightarrow> u32 \<Rightarrow> s32 \<Rightarrow> variant \<Rightarrow> adsb_type \<Rightarrow> u32 option" where
  "gen_add_sub_shifted_reg dst src reg shift v type =
     (let insn = (case type of ADSB_ADD \<Rightarrow> 0x0B000000 | ADSB_SUB \<Rightarrow> 0x4B000000
            | ADSB_ADD_SETFLAGS \<Rightarrow> 0x2B000000 | ADSB_SUB_SETFLAGS \<Rightarrow> 0x6B000000);
          insn = with_variant v insn
      in bug_on (bad_shift v shift)
           (let insn = encode_register REGTYPE_RD insn dst;
                insn = encode_register REGTYPE_RN insn src;
                insn = encode_register REGTYPE_RM insn reg
            in Some (encode_immediate IMM_6 insn (scast shift))))"

definition gen_data1 :: "u32 \<Rightarrow> u32 \<Rightarrow> variant \<Rightarrow> data1_type \<Rightarrow> u32 option" where
  "gen_data1 dst src v type =
     (let insn = (case type of DATA1_REVERSE_16 \<Rightarrow> 0x5AC00400 | DATA1_REVERSE_32 \<Rightarrow> 0x5AC00800
            | DATA1_REVERSE_64 \<Rightarrow> 0x5AC00C00)
      in bug_on (type = DATA1_REVERSE_64 \<and> v \<noteq> VARIANT_64BIT)
           (let insn = with_variant v insn;
                insn = encode_register REGTYPE_RD insn dst
            in Some (encode_register REGTYPE_RN insn src)))"

definition gen_data2 :: "u32 \<Rightarrow> u32 \<Rightarrow> u32 \<Rightarrow> variant \<Rightarrow> data2_type \<Rightarrow> u32 option" where
  "gen_data2 dst src reg v type =
     (let insn = (case type of DATA2_UDIV \<Rightarrow> 0x1AC00800 | DATA2_SDIV \<Rightarrow> 0x1AC00C00 | DATA2_LSLV \<Rightarrow> 0x1AC02000
            | DATA2_LSRV \<Rightarrow> 0x1AC02400 | DATA2_ASRV \<Rightarrow> 0x1AC02800 | DATA2_RORV \<Rightarrow> 0x1AC02C00);
          insn = with_variant v insn;
          insn = encode_register REGTYPE_RD insn dst;
          insn = encode_register REGTYPE_RN insn src
      in Some (encode_register REGTYPE_RM insn reg))"

definition gen_data3 :: "u32 \<Rightarrow> u32 \<Rightarrow> u32 \<Rightarrow> u32 \<Rightarrow> variant \<Rightarrow> data3_type \<Rightarrow> u32 option" where
  "gen_data3 dst src reg1 reg2 v type =
     (let insn = (case type of DATA3_MADD \<Rightarrow> 0x1B000000 | DATA3_MSUB \<Rightarrow> 0x1B008000);
          insn = with_variant v insn;
          insn = encode_register REGTYPE_RD insn dst;
          insn = encode_register REGTYPE_RA insn src;
          insn = encode_register REGTYPE_RN insn reg1
      in Some (encode_register REGTYPE_RM insn reg2))"

definition gen_logical_shifted_reg :: "u32 \<Rightarrow> u32 \<Rightarrow> u32 \<Rightarrow> s32 \<Rightarrow> variant \<Rightarrow> logic_type \<Rightarrow> u32 option" where
  "gen_logical_shifted_reg dst src reg shift v type =
     (let insn = (case type of LOGIC_AND \<Rightarrow> 0x0A000000 | LOGIC_BIC \<Rightarrow> 0x0A200000 | LOGIC_ORR \<Rightarrow> 0x2A000000
            | LOGIC_ORN \<Rightarrow> 0x2A200000 | LOGIC_EOR \<Rightarrow> 0x4A000000 | LOGIC_EON \<Rightarrow> 0x4A200000
            | LOGIC_AND_SETFLAGS \<Rightarrow> 0x6A000000 | LOGIC_BIC_SETFLAGS \<Rightarrow> 0x6A200000);
          insn = with_variant v insn
      in bug_on (bad_shift v shift)
           (let insn = encode_register REGTYPE_RD insn dst;
                insn = encode_register REGTYPE_RN insn src;
                insn = encode_register REGTYPE_RM insn reg
            in Some (encode_immediate IMM_6 insn (scast shift))))"

section \<open>Patching\<close>

text \<open>Writing an instruction; the success value of \<open>aarch64_insn_patch_text_nosync\<close> is the
  uninitialised variable \<open>ret\<close>, here an argument.\<close>

definition patch_text_nosync :: "s32 \<Rightarrow> u64 \<Rightarrow> u32 \<Rightarrow> (u64 \<Rightarrow> u32) \<Rightarrow> s32 \<times> (u64 \<Rightarrow> u32)" where
  "patch_text_nosync ret a insn m = (if a AND 3 \<noteq> 0 then (- EINVAL, m) else (ret, m(a := insn)))"

text \<open>The callback of \<open>stop_machine\<close>, for the first processor: it stops at the first result that is
  not zero.\<close>

fun patch_text_cb :: "(nat \<Rightarrow> s32) \<Rightarrow> nat \<Rightarrow> u64 list \<Rightarrow> u32 list \<Rightarrow> (u64 \<Rightarrow> u32) \<Rightarrow> s32 \<times> (u64 \<Rightarrow> u32)" where
  "patch_text_cb rets i (a # as) (insn # insns) m =
     (let (ret, m) = patch_text_nosync (rets i) a insn m
      in if ret \<noteq> 0 then (ret, m) else patch_text_cb rets (Suc i) as insns m)"
| "patch_text_cb rets i _ _ m = (0, m)"

definition patch_text_sync :: "(nat \<Rightarrow> s32) \<Rightarrow> u64 list \<Rightarrow> u32 list \<Rightarrow> s32 \<Rightarrow> (u64 \<Rightarrow> u32) \<Rightarrow> s32 \<times> (u64 \<Rightarrow> u32)" where
  "patch_text_sync rets addrs insns cnt m =
     (if sint cnt \<le> 0 then (- EINVAL, m)
      else patch_text_cb rets 0 (take (unat cnt) addrs) (take (unat cnt) insns) m)"

definition insn_patch_text :: "(nat \<Rightarrow> s32) \<Rightarrow> u64 list \<Rightarrow> u32 list \<Rightarrow> s32 \<Rightarrow> (u64 \<Rightarrow> u32) \<Rightarrow> s32 \<times> (u64 \<Rightarrow> u32)" where
  "insn_patch_text rets addrs insns cnt m =
     (if cnt = 1 \<and> insn_hotpatch_safe (m (addrs ! 0)) (insns ! 0)
      then patch_text_nosync (rets 0) (addrs ! 0) (insns ! 0) m
      else patch_text_sync rets addrs insns cnt m)"

end
