(* ===== verification/Byte_Memory.thy ===== *)
theory Byte_Memory
  imports Prelude
begin

text \<open>
  A byte-addressed memory as the library routines, the module loader and the relocations see it:
  little-endian loads and stores, the bytes they touch, copies of ranges, and strings in memory.
\<close>

type_synonym bmem = "u64 \<Rightarrow> u8"

text \<open>Little-endian loads and stores of \<open>n\<close> bytes.\<close>

primrec load_le :: "nat \<Rightarrow> bmem \<Rightarrow> u64 \<Rightarrow> u64" where
  "load_le 0 m a = 0"
| "load_le (Suc n) m a = ucast (m a) OR push_bit 8 (load_le n m (a + 1))"

primrec store_le :: "nat \<Rightarrow> u64 \<Rightarrow> u64 \<Rightarrow> bmem \<Rightarrow> bmem" where
  "store_le 0 a v m = m"
| "store_le (Suc n) a v m = store_le n (a + 1) (drop_bit 8 v) (m(a := ucast v))"

definition load32 :: "bmem \<Rightarrow> u64 \<Rightarrow> u32" where
  "load32 m a = ucast (load_le 4 m a)"

definition store32 :: "u64 \<Rightarrow> u32 \<Rightarrow> bmem \<Rightarrow> bmem" where
  "store32 a v m = store_le 4 a (ucast v) m"

text \<open>The bytes a store of \<open>n\<close> bytes at \<open>a\<close> may change.\<close>

definition in_range :: "u64 \<Rightarrow> nat \<Rightarrow> u64 \<Rightarrow> bool" where
  "in_range a n b \<longleftrightarrow> unat (b - a) < n"

lemma unat_plus_le: "unat (x + y) \<le> unat x + unat (y :: u64)"
  by (simp add: unat_word_ariths)

lemma store_le_frame:
  "n \<le> 8 \<Longrightarrow> \<not> in_range a n b \<Longrightarrow> store_le n a v m b = m b"
proof (induction n arbitrary: a v m)
  case 0
  then show ?case by simp
next
  case (Suc n)
  have ab: "b \<noteq> a" using Suc.prems(2) by (auto simp: in_range_def)
  have "unat (b - (a + 1)) = unat (b - a) - 1"
    using ab by (simp add: diff_diff_eq [symmetric] unat_minus_one)
  then have "\<not> in_range (a + 1) n b" using Suc.prems by (simp add: in_range_def)
  with Suc ab show ?case by simp
qed

lemma in_range_0: "n \<le> 8 \<Longrightarrow> \<not> in_range (a + 1) n a"
proof -
  assume n: "n \<le> 8"
  have "a - (a + 1) = (- 1 :: u64)" by simp
  then have "unat (a - (a + 1)) = unat (- 1 :: u64)" by (rule arg_cong)
  also have "unat (- 1 :: u64) = 2 ^ 64 - 1" by (simp add: unsigned_minus_1_eq_mask mask_eq_exp_minus_1)
  finally show ?thesis using n by (simp add: in_range_def)
qed

lemma load_store_le: "n \<le> 8 \<Longrightarrow> load_le n (store_le n a v m) a = take_bit (8 * n) v"
proof (induction n arbitrary: a v m)
  case 0
  then show ?case by simp
next
  case (Suc n)
  have "store_le n (a + 1) (drop_bit 8 v) (m(a := ucast v)) a = ucast v"
    using Suc.prems in_range_0 [of n a] by (simp add: store_le_frame)
  with Suc show ?case
    by (auto intro!: bit_word_eqI simp: bit_simps)
qed

lemma load_store32 [simp]: "load32 (store32 a v m) a = v"
  by (auto intro!: bit_word_eqI simp: load32_def store32_def load_store_le bit_simps)

lemma load_le_cong:
  assumes "\<And>b. in_range a n b \<Longrightarrow> m b = m' b" "n \<le> 8"
  shows "load_le n m a = load_le n m' a"
  using assms
proof (induction n arbitrary: a)
  case 0
  then show ?case by simp
next
  case (Suc n)
  have "m b = m' b" if "in_range (a + 1) n b" for b
  proof (rule Suc.prems(1))
    have "unat (b - a) \<le> Suc (unat (b - (a + 1)))"
    proof -
      have "b - a = (b - (a + 1)) + 1" by simp
      then have "unat (b - a) = unat ((b - (a + 1)) + 1)" by (rule arg_cong)
      then show ?thesis using unat_plus_le [of "b - (a + 1)" 1] by simp
    qed
    then show "in_range a (Suc n) b" using that by (simp add: in_range_def)
  qed
  with Suc.IH Suc.prems(2) have "load_le n m (a + 1) = load_le n m' (a + 1)" by simp
  moreover have "m a = m' a" by (rule Suc.prems(1)) (simp add: in_range_def)
  ultimately show ?case by simp
qed

lemma load32_bytes:
  "load32 m a = ucast (ucast (m a) OR push_bit 8 (ucast (m (a + 1)) OR push_bit 8 (ucast (m (a + 2)) OR
     push_bit 8 (ucast (m (a + 3))))) :: u64)"
proof -
  have n: "(4 :: nat) = Suc (Suc (Suc (Suc 0)))" by simp
  have a: "a + 1 + 1 = a + 2" "a + 2 + 1 = a + 3" by simp_all
  show ?thesis unfolding load32_def n load_le.simps a by (simp only: push_bit_of_0 or.right_neutral)
qed

lemma load32_frame: "(\<And>b. in_range a 4 b \<Longrightarrow> m b = m' b) \<Longrightarrow> load32 m a = load32 m' a"
  by (simp add: load32_def load_le_cong [of a 4 m m'])

section \<open>Strings in memory\<close>

text \<open>\<open>strncmp (p, s, strlen (s)) == 0\<close> and \<open>strcmp (s, p) == 0\<close> for a constant string.\<close>

fun mem_prefix :: "bmem \<Rightarrow> u64 \<Rightarrow> string \<Rightarrow> bool" where
  "mem_prefix m p [] \<longleftrightarrow> True"
| "mem_prefix m p (c # s) \<longleftrightarrow> m p = of_char c \<and> mem_prefix m (p + 1) s"

definition mem_str :: "bmem \<Rightarrow> u64 \<Rightarrow> string \<Rightarrow> bool" where
  "mem_str m p s \<longleftrightarrow> mem_prefix m p s \<and> m (p + of_nat (length s)) = 0"

partial_function (option) mem_strlen :: "bmem \<Rightarrow> u64 \<Rightarrow> nat option" where
  "mem_strlen m p = (if m p = 0 then Some 0 else Option.bind (mem_strlen m (p + 1)) (\<lambda>n. Some (Suc n)))"

end
