(* ===== verification/Elf_Relo.thy ===== *)
theory Elf_Relo
  imports Insn Byte_Memory
begin

text \<open>
  The relocation of a loaded module, \<^verbatim>\<open>kernel/patch/module/relo.c\<close>: the instruction and data
  relocations of AArch64 applied to a byte-addressed memory, with the overflow test of each and
  the loop over the entries of a relocation section.  The tables are read from the memory that
  is being relocated, as the code reads them; the section headers are an array of records.
\<close>

abbreviation (input) ENOEXEC :: s32 where "ENOEXEC \<equiv> 8"
abbreviation (input) ERANGE :: s32 where "ERANGE \<equiv> 34"

section \<open>Single relocations\<close>

datatype reloc_op = RELOC_OP_NONE | RELOC_OP_ABS | RELOC_OP_PREL | RELOC_OP_PAGE

fun do_reloc :: "reloc_op \<Rightarrow> u64 \<Rightarrow> u64 \<Rightarrow> u64" where
  "do_reloc RELOC_OP_ABS place val = val"
| "do_reloc RELOC_OP_PREL place val = val - place"
| "do_reloc RELOC_OP_PAGE place val = (val AND NOT 0xfff) - (place AND NOT 0xfff)"
| "do_reloc RELOC_OP_NONE place val = 0"

text \<open>
  The mask \<open>(1 << len) - 1\<close> is computed in \<open>int\<close>.  For the lengths 32 and 64 the shift is
  undefined in C; \<open>ub_shift len\<close> stands for the value the compiled program gets.
\<close>

definition int_shift_1 :: "(nat \<Rightarrow> s32) \<Rightarrow> nat \<Rightarrow> s32" where
  "int_shift_1 ub_shift len = (if len < 31 then push_bit len 1 else ub_shift len)"

definition reloc_data :: "(nat \<Rightarrow> s32) \<Rightarrow> reloc_op \<Rightarrow> u64 \<Rightarrow> u64 \<Rightarrow> nat \<Rightarrow> bmem \<Rightarrow> s32 \<times> bmem" where
  "reloc_data ub_shift op place val len m =
     (let imm_mask = (scast (int_shift_1 ub_shift len - 1) :: u64);
          sval = do_reloc op place val
      in if len \<noteq> 16 \<and> len \<noteq> 32 \<and> len \<noteq> 64 then (0, m)
         else let m = store_le (len div 8) place sval m;
                  sval = signed_drop_bit (len - 1) (sval AND NOT (drop_bit 1 imm_mask))
              in if sval + 1 > 2 then (- ERANGE, m) else (0, m))"

text \<open>\<open>AARCH64_INSN_IMM_MOVNZ\<close> and \<open>AARCH64_INSN_IMM_MOVK\<close> are the names \<open>IMM_MAX\<close> and \<open>IMM_16\<close>.\<close>

definition reloc_insn_movw :: "reloc_op \<Rightarrow> u64 \<Rightarrow> u64 \<Rightarrow> nat \<Rightarrow> imm_type \<Rightarrow> bmem \<Rightarrow> s32 \<times> bmem" where
  "reloc_insn_movw op place val lsb type m =
     (let insn = load32 m place;
          sval = signed_drop_bit lsb (do_reloc op place val);
          imm = sval AND 0xffff;
          (insn, imm, type) =
            (if type = IMM_MAX
             then let insn = insn AND NOT (push_bit 29 3);
                      (insn, imm) = (if 0 \<le>s imm then (insn OR push_bit 29 2, imm) else (insn, NOT imm))
                  in (insn, imm, IMM_16)
             else (insn, imm, type));
          insn = encode_immediate type insn imm;
          m = store32 place insn m;
          sval = signed_drop_bit 16 sval;
          (sval, limit) = (if type \<noteq> IMM_16 then (sval + 1, 1) else (sval, 0))
      in if sval > limit then (- ERANGE, m) else (0, m))"

definition reloc_insn_imm :: "reloc_op \<Rightarrow> u64 \<Rightarrow> u64 \<Rightarrow> nat \<Rightarrow> nat \<Rightarrow> imm_type \<Rightarrow> bmem \<Rightarrow> s32 \<times> bmem" where
  "reloc_insn_imm op place val lsb len type m =
     (let insn = load32 m place;
          sval = signed_drop_bit lsb (do_reloc op place val);
          imm_mask = drop_bit lsb (push_bit (lsb + len) 1 - 1);
          imm = sval AND imm_mask;
          m = store32 place (encode_immediate type insn imm) m;
          sval = signed_drop_bit (len - 1) (sval AND NOT (drop_bit 1 imm_mask))
      in if sval + 1 \<ge> 2 then (- ERANGE, m) else (0, m))"


section \<open>The relocation types\<close>

datatype reloc_action =
    No_Reloc
  | Reloc_Data reloc_op nat
  | Reloc_Movw reloc_op nat imm_type
  | Reloc_Imm reloc_op nat nat imm_type

text \<open>The cases of the switch: the type, whether an overflow is an error, and the call made.\<close>

definition reloc_table :: "(u64 \<times> bool \<times> reloc_action) list" where
  "reloc_table =
     [(0, True, No_Reloc), (256, True, No_Reloc),
      (257, False, Reloc_Data RELOC_OP_ABS 64), (258, True, Reloc_Data RELOC_OP_ABS 32),
      (259, True, Reloc_Data RELOC_OP_ABS 16), (260, False, Reloc_Data RELOC_OP_PREL 64),
      (261, True, Reloc_Data RELOC_OP_PREL 32), (262, True, Reloc_Data RELOC_OP_PREL 16),
      (264, False, Reloc_Movw RELOC_OP_ABS 0 IMM_16), (263, True, Reloc_Movw RELOC_OP_ABS 0 IMM_16),
      (266, False, Reloc_Movw RELOC_OP_ABS 16 IMM_16), (265, True, Reloc_Movw RELOC_OP_ABS 16 IMM_16),
      (268, False, Reloc_Movw RELOC_OP_ABS 32 IMM_16), (267, True, Reloc_Movw RELOC_OP_ABS 32 IMM_16),
      (269, False, Reloc_Movw RELOC_OP_ABS 48 IMM_16),
      (270, True, Reloc_Movw RELOC_OP_ABS 0 IMM_MAX), (271, True, Reloc_Movw RELOC_OP_ABS 16 IMM_MAX),
      (272, True, Reloc_Movw RELOC_OP_ABS 32 IMM_MAX),
      (288, False, Reloc_Movw RELOC_OP_PREL 0 IMM_16), (287, True, Reloc_Movw RELOC_OP_PREL 0 IMM_MAX),
      (290, False, Reloc_Movw RELOC_OP_PREL 16 IMM_16), (289, True, Reloc_Movw RELOC_OP_PREL 16 IMM_MAX),
      (292, False, Reloc_Movw RELOC_OP_PREL 32 IMM_16), (291, True, Reloc_Movw RELOC_OP_PREL 32 IMM_MAX),
      (293, False, Reloc_Movw RELOC_OP_PREL 48 IMM_MAX),
      (273, True, Reloc_Imm RELOC_OP_PREL 2 19 IMM_19), (274, True, Reloc_Imm RELOC_OP_PREL 0 21 IMM_ADR),
      (276, False, Reloc_Imm RELOC_OP_PAGE 12 21 IMM_ADR), (275, True, Reloc_Imm RELOC_OP_PAGE 12 21 IMM_ADR),
      (277, False, Reloc_Imm RELOC_OP_ABS 0 12 IMM_12), (278, False, Reloc_Imm RELOC_OP_ABS 0 12 IMM_12),
      (284, False, Reloc_Imm RELOC_OP_ABS 1 11 IMM_12), (285, False, Reloc_Imm RELOC_OP_ABS 2 10 IMM_12),
      (286, False, Reloc_Imm RELOC_OP_ABS 3 9 IMM_12), (299, False, Reloc_Imm RELOC_OP_ABS 4 8 IMM_12),
      (279, True, Reloc_Imm RELOC_OP_PREL 2 14 IMM_14), (280, True, Reloc_Imm RELOC_OP_PREL 2 19 IMM_19),
      (282, True, Reloc_Imm RELOC_OP_PREL 2 26 IMM_26), (283, True, Reloc_Imm RELOC_OP_PREL 2 26 IMM_26)]"

fun perform_reloc :: "(nat \<Rightarrow> s32) \<Rightarrow> reloc_action \<Rightarrow> u64 \<Rightarrow> u64 \<Rightarrow> bmem \<Rightarrow> s32 \<times> bmem" where
  "perform_reloc ub No_Reloc loc val m = (0, m)"
| "perform_reloc ub (Reloc_Data op len) loc val m = reloc_data ub op loc val len m"
| "perform_reloc ub (Reloc_Movw op lsb type) loc val m = reloc_insn_movw op loc val lsb type m"
| "perform_reloc ub (Reloc_Imm op lsb len type) loc val m = reloc_insn_imm op loc val lsb len type m"

text \<open>One entry: the switch and the overflow test behind it.\<close>

definition relocate_one :: "(nat \<Rightarrow> s32) \<Rightarrow> u64 \<Rightarrow> u64 \<Rightarrow> u64 \<Rightarrow> bmem \<Rightarrow> s32 \<times> bmem" where
  "relocate_one ub type loc val m =
     (case map_of reloc_table type of
        None \<Rightarrow> (- ENOEXEC, m)
      | Some (overflow_check, action) \<Rightarrow>
          (case perform_reloc ub action loc val m of
             (ovf, m) \<Rightarrow> if overflow_check \<and> ovf = - ERANGE then (- ENOEXEC, m) else (0, m)))"

section \<open>A relocation section\<close>

record elf_shdr =
  sh_name :: u32
  sh_type :: u32
  sh_flags :: u64
  sh_addr :: u64
  sh_offset :: u64
  sh_size :: u64
  sh_link :: u32
  sh_info :: u32
  sh_addralign :: u64
  sh_entsize :: u64

text \<open>The fields of an \<open>Elf64_Rela\<close> and an \<open>Elf64_Sym\<close>, 24 bytes each.\<close>

record elf_rela =
  r_offset :: u64
  r_info :: u64
  r_addend :: u64

definition rela_at :: "bmem \<Rightarrow> u64 \<Rightarrow> elf_rela" where
  "rela_at m a = \<lparr>r_offset = load_le 8 m a, r_info = load_le 8 m (a + 8), r_addend = load_le 8 m (a + 16)\<rparr>"

definition sym_value_at :: "bmem \<Rightarrow> u64 \<Rightarrow> u64" where
  "sym_value_at m a = load_le 8 m (a + 8)"

definition r_sym :: "elf_rela \<Rightarrow> u64" where "r_sym r = drop_bit 32 (r_info r)"
definition r_type :: "elf_rela \<Rightarrow> u64" where "r_type r = r_info r AND 0xffffffff"

definition relocate_entry :: "(nat \<Rightarrow> s32) \<Rightarrow> elf_shdr list \<Rightarrow> nat \<Rightarrow> nat \<Rightarrow> u32 \<Rightarrow> bmem \<Rightarrow> s32 \<times> bmem" where
  "relocate_entry ub sechdrs symindex relsec i m =
     (let r = rela_at m (sh_addr (sechdrs ! relsec) + 24 * ucast i);
          loc = sh_addr (sechdrs ! unat (sh_info (sechdrs ! relsec))) + r_offset r;
          val = sym_value_at m (sh_addr (sechdrs ! symindex) + 24 * r_sym r) + r_addend r
      in relocate_one ub (r_type r) loc val m)"

text \<open>
  The loop counts with an \<open>unsigned int\<close> against a 64-bit number of entries, so for a section of
  \<open>2 ^ 32\<close> entries or more it does not end by itself: \<open>None\<close>.
\<close>

partial_function (option) apply_loop ::
    "(nat \<Rightarrow> s32) \<Rightarrow> elf_shdr list \<Rightarrow> nat \<Rightarrow> nat \<Rightarrow> u32 \<Rightarrow> bmem \<Rightarrow> (s32 \<times> bmem) option" where
  "apply_loop ub sechdrs symindex relsec i m =
     (if ucast i < sh_size (sechdrs ! relsec) div 24
      then (case relocate_entry ub sechdrs symindex relsec i m of
              (rc, m) \<Rightarrow> if rc \<noteq> 0 then Some (rc, m) else apply_loop ub sechdrs symindex relsec (i + 1) m)
      else Some (0, m))"

definition apply_relocate_add ::
    "(nat \<Rightarrow> s32) \<Rightarrow> elf_shdr list \<Rightarrow> nat \<Rightarrow> nat \<Rightarrow> bmem \<Rightarrow> (s32 \<times> bmem) option" where
  "apply_relocate_add ub sechdrs symindex relsec m = apply_loop ub sechdrs symindex relsec 0 m"

text \<open>Sections of type \<open>SHT_REL\<close> are ignored.\<close>

definition apply_relocate :: "elf_shdr list \<Rightarrow> nat \<Rightarrow> nat \<Rightarrow> bmem \<Rightarrow> s32 \<times> bmem" where
  "apply_relocate sechdrs symindex relsec m = (0, m)"

section \<open>Encoding an immediate\<close>

text \<open>
  Every field but that of \<open>ADR\<close> is a run of bits: encoding a value puts its low bits there and
  keeps the rest of the instruction.
\<close>

fun imm_span :: "imm_type \<Rightarrow> (nat \<times> nat) option" where
  "imm_span IMM_26 = Some (0, 26)"
| "imm_span IMM_19 = Some (5, 19)"
| "imm_span IMM_16 = Some (5, 16)"
| "imm_span IMM_14 = Some (5, 14)"
| "imm_span IMM_12 = Some (10, 12)"
| "imm_span IMM_9 = Some (12, 9)"
| "imm_span IMM_7 = Some (15, 7)"
| "imm_span IMM_6 = Some (10, 6)"
| "imm_span IMM_S = Some (10, 6)"
| "imm_span IMM_R = Some (16, 6)"
| "imm_span _ = None"

lemma imm_span_field: "imm_span t = Some (s, w) \<Longrightarrow> imm_field t = Some (mask w, s) \<and> s + w \<le> 32 \<and> t \<noteq> IMM_ADR"
  by (cases t) (auto simp: mask_eq_exp_minus_1)

lemma encode_immediate_span:
  assumes "imm_span t = Some (s, w)"
  shows "encode_immediate t i v = (i AND NOT (push_bit s (mask w))) OR push_bit s (take_bit w (ucast v))"
proof -
  from imm_span_field [OF assms] have f: "imm_field t = Some (mask w, s)" and b: "s + w \<le> 32"
    and t: "t \<noteq> IMM_ADR" by auto
  have "ucast (push_bit s (v AND ucast (mask w :: u32))) = (push_bit s (take_bit w (ucast v)) :: u32)"
    by (rule bit_word_eqI) (use b in \<open>auto simp: bit_simps\<close>)
  then show ?thesis using f t by (simp add: encode_immediate_def imm_value_def)
qed

lemma encode_immediate_adr:
  "encode_immediate IMM_ADR i v =
     (i AND NOT 0x60FFFFE0) OR push_bit 29 (take_bit 2 (ucast v)) OR push_bit 5 (take_bit 19 (ucast (drop_bit 2 v)))"
proof -
  have m: "push_bit 5 (push_bit 24 0x3 OR 0x7ffff) = (0x60FFFFE0 :: u32)" by simp
  have k: "(0x3 :: u64) = mask 2" "(0x7ffff :: u64) = mask 19" "(ucast (push_bit 24 3 OR 0x7ffff :: u32) :: u64) = push_bit 24 (mask 2) OR mask 19"
    by (simp_all add: mask_eq_exp_minus_1)
  have "ucast (push_bit 5 (imm_value IMM_ADR v AND ucast (push_bit 24 3 OR 0x7ffff :: u32))) =
      (push_bit 29 (take_bit 2 (ucast v)) OR push_bit 5 (take_bit 19 (ucast (drop_bit 2 v))) :: u32)"
    unfolding imm_value_def k(3) unfolding k(1,2)
    by (rule bit_word_eqI) (auto simp: bit_simps)
  then show ?thesis by (simp only: encode_immediate_def imm_field.simps option.case prod.case m or.assoc)
qed

end
