(* ===== verification/Insn_Exec.thy ===== *)
theory Insn_Exec
  imports A64 Elf_Relo
begin

text \<open>
  What the encoders of \<^verbatim>\<open>insn.c\<close> and the relocations of \<^verbatim>\<open>relo.c\<close> mean to the processor:
  generated and relocated branches jump to their target, relocated address computations yield
  the address of the symbol, and the overflow tests refuse exactly what cannot be encoded.
\<close>

section \<open>Fields of encoded instructions\<close>

lemma field_encode:
  assumes "imm_span t = Some (s, w)"
  shows "field (encode_immediate t i v) s w = take_bit w (ucast v)"
proof -
  have "s + w \<le> 32" using imm_span_field [OF assms] by blast
  then show ?thesis unfolding encode_immediate_span [OF assms] field_def
    by (auto intro!: bit_word_eqI simp: bit_simps)
qed

lemma encode_and:
  assumes "imm_span t = Some (s, w)" "k AND push_bit s (mask w) = 0"
  shows "encode_immediate t i v AND k = i AND k"
proof (rule bit_word_eqI)
  fix n assume n: "n < LENGTH(32)"
  have "\<not> (bit k n \<and> bit (push_bit s (mask w) :: u32) n)"
    using arg_cong [OF assms(2), where f = "\<lambda>x. bit x n"] by (simp add: bit_and_iff)
  then show "bit (encode_immediate t i v AND k) n \<longleftrightarrow> bit (i AND k) n"
    using n unfolding encode_immediate_span [OF assms(1)] by (auto simp: bit_simps)
qed

lemma field_encode_adr:
  "field (encode_immediate IMM_ADR i v) 29 2 = take_bit 2 (ucast v)"
  "field (encode_immediate IMM_ADR i v) 5 19 = take_bit 19 (ucast (drop_bit 2 v))"
  "encode_immediate IMM_ADR i v AND 0x9F00001F = i AND 0x9F00001F"
proof -
  have m: "NOT (0x60FFFFE0 :: u32) = NOT (push_bit 29 (mask 2) OR push_bit 5 (mask 19))"
    "(0x9F00001F :: u32) = NOT (push_bit 29 (mask 2) OR push_bit 5 (mask 19))"
    by (simp_all add: mask_eq_exp_minus_1)
  show "field (encode_immediate IMM_ADR i v) 29 2 = take_bit 2 (ucast v)"
    unfolding encode_immediate_adr m(1) field_def by (rule bit_word_eqI) (auto simp: bit_simps)
  show "field (encode_immediate IMM_ADR i v) 5 19 = take_bit 19 (ucast (drop_bit 2 v))"
    unfolding encode_immediate_adr m(1) field_def by (rule bit_word_eqI) (auto simp: bit_simps)
  show "encode_immediate IMM_ADR i v AND 0x9F00001F = i AND 0x9F00001F"
    unfolding encode_immediate_adr m by (rule bit_word_eqI) (auto simp: bit_simps)
qed

section \<open>Signed values of a width\<close>

text \<open>The values that a signed field of \<open>n\<close> bits can hold.\<close>

definition fits_signed :: "nat \<Rightarrow> u64 \<Rightarrow> bool" where
  "fits_signed n v \<longleftrightarrow> - (2 ^ (n - 1)) \<le> sint v \<and> sint v < 2 ^ (n - 1)"

lemma fits_signed_take:
  assumes "1 \<le> n" "n \<le> 64"
  shows "fits_signed n v \<longleftrightarrow> signed_take_bit (n - 1) v = v"
proof -
  have "sint (signed_take_bit (n - 1) v) = signed_take_bit (n - 1) (sint v)"
    by (rule bit_eqI) (use assms in \<open>auto simp: bit_sint_iff bit_signed_take_bit_iff min_def not_less\<close>)
  then have "signed_take_bit (n - 1) v = v \<longleftrightarrow> signed_take_bit (n - 1) (sint v) = sint v"
    by (metis signed_word_eqI)
  then show ?thesis by (simp add: fits_signed_def signed_take_bit_int_eq_self_iff)
qed

lemma small_unsigned: "x + 1 < 2 \<longleftrightarrow> sint (x :: u64) = - 1 \<or> sint x = 0"
proof -
  have "x + 1 < 2 \<longleftrightarrow> x + 1 = 0 \<or> x + 1 = 1"
  proof -
    have "x + 1 < 2 \<longleftrightarrow> unat (x + 1) < 2" by (simp add: word_less_nat_alt)
    also have "\<dots> \<longleftrightarrow> unat (x + 1) = unat (0 :: u64) \<or> unat (x + 1) = unat (1 :: u64)" by auto
    finally show ?thesis by (simp only: word_unat_eq_iff [symmetric])
  qed
  also have "\<dots> \<longleftrightarrow> x = - 1 \<or> x = 0" by (simp add: eq_neg_iff_add_eq_0)
  also have "\<dots> \<longleftrightarrow> sint x = - 1 \<or> sint x = 0"
  proof -
    have inj: "sint a = sint b \<longleftrightarrow> a = b" for a b :: u64 by (auto intro: signed_word_eqI)
    show ?thesis using inj [of x "- 1"] inj [of x 0] by simp
  qed
  finally show ?thesis .
qed

lemma le_div_pow: "c \<le> z div 2 ^ k \<longleftrightarrow> c * 2 ^ k \<le> (z :: int)"
proof
  assume "c \<le> z div 2 ^ k"
  then have "c * 2 ^ k \<le> (z div 2 ^ k) * 2 ^ k" by (rule mult_right_mono) simp
  also have "\<dots> \<le> z" using div_mult_mod_eq [of z "2 ^ k"] pos_mod_sign [of "2 ^ k" z, OF zero_less_power] by linarith
  finally show "c * 2 ^ k \<le> z" .
next
  assume "c * 2 ^ k \<le> z"
  then have "c * 2 ^ k div 2 ^ k \<le> z div 2 ^ k" by (rule zdiv_mono1) simp
  then show "c \<le> z div 2 ^ k" by simp
qed

lemma signed_shift_small:
  fixes v :: u64
  shows "signed_drop_bit (n - 1) v + 1 < 2 \<longleftrightarrow> fits_signed n v"
proof -
  have "sint (signed_drop_bit (n - 1) v) = sint v div 2 ^ (n - 1)"
    by (simp add: sint_signed_drop_bit_eq drop_bit_eq_div)
  moreover have "z div 2 ^ k = - 1 \<or> z div 2 ^ k = 0 \<longleftrightarrow> - (2 ^ k) \<le> z \<and> z < 2 ^ k" for z :: int and k
  proof -
    have "z div 2 ^ k = - 1 \<longleftrightarrow> - (2 ^ k) \<le> z \<and> z < 0"
      using le_div_pow [of "- 1" z k] le_div_pow [of 0 z k] by auto
    moreover have "z div 2 ^ k = 0 \<longleftrightarrow> 0 \<le> z \<and> z < 2 ^ k"
      using le_div_pow [of 0 z k] le_div_pow [of 1 z k] by auto
    ultimately show ?thesis by auto
  qed
  ultimately show ?thesis by (simp add: small_unsigned fits_signed_def)
qed

text \<open>The offset of a branch, from the value stored in its field.\<close>

lemma offset_stored:
  assumes f: "field i lo w = take_bit w (ucast (signed_drop_bit 2 d))"
    and "d AND 3 = 0" "fits_signed (w + 2) d" "2 \<le> w" "w \<le> 32"
  shows "offset i lo w = d"
proof -
  have low: "\<not> bit d n" if "n < 2" for n
  proof -
    have "d AND mask 2 = 0" using assms(2) by (simp add: mask_eq_exp_minus_1)
    then have "\<not> bit (d AND mask 2) n" by simp
    with that show ?thesis by (simp add: bit_simps)
  qed
  have sh: "2 \<le> n \<Longrightarrow> Suc (Suc (n - 2)) = n" for n by simp
  have ge: "bit d n \<Longrightarrow> 2 \<le> n" for n using low by (meson not_less)
  have "signed_take_bit (w + 1) (push_bit 2 (ucast (field i lo w))) = signed_take_bit (w + 1) d"
    unfolding f by (rule bit_word_eqI) (use assms(4,5) ge in \<open>auto simp: bit_simps min_def not_le not_less sh\<close>)
  also have "\<dots> = d" using assms(3-5) fits_signed_take [of "w + 2" d] by simp
  finally show ?thesis by (simp add: offset_def)
qed

lemma fits_signed_drop: "1 \<le> n \<Longrightarrow> fits_signed n (signed_drop_bit k v) \<longleftrightarrow> fits_signed (n + k) v"
proof -
  assume n: "1 \<le> n"
  have s: "sint (signed_drop_bit k v) = sint v div 2 ^ k" by (simp add: sint_signed_drop_bit_eq drop_bit_eq_div)
  have p: "(2 :: int) ^ (n + k - 1) = 2 ^ (n - 1) * 2 ^ k" using n by (simp add: power_add [symmetric])
  have "sint v div 2 ^ k < 2 ^ (n - 1) \<longleftrightarrow> sint v < 2 ^ (n - 1) * 2 ^ k"
    using le_div_pow [of "2 ^ (n - 1)" "sint v" k] by linarith
  moreover have "- (2 ^ (n - 1)) \<le> sint v div 2 ^ k \<longleftrightarrow> - (2 ^ (n - 1) * 2 ^ k) \<le> sint v"
    using le_div_pow [of "- (2 ^ (n - 1))" "sint v" k] by simp
  ultimately show ?thesis unfolding fits_signed_def s p by blast
qed

section \<open>Generated branches\<close>

lemma signed_less_sint: "x <s y \<longleftrightarrow> sint x < sint y" "x \<le>s y \<longleftrightarrow> sint x \<le> sint y"
  by (simp_all add: word_sless_alt word_sle_eq)

lemma branch_imm_common_outcome:
  "branch_imm_common p a SZ_128M =
     (if p AND 3 = 0 \<and> a AND 3 = 0 \<and> fits_signed 28 (a - p) then Some (a - p) else None)"
  "branch_imm_common p a SZ_1M =
     (if p AND 3 = 0 \<and> a AND 3 = 0 \<and> fits_signed 21 (a - p) then Some (a - p) else None)"
  by (auto simp: branch_imm_common_def fits_signed_def signed_less_sint Let_def not_less not_le)

lemma low_bits_diff:
  assumes "take_bit n a = 0" "take_bit n b = 0" "n \<le> 64"
  shows "take_bit n (a - b) = (0 :: u64)"
proof -
  have u: "take_bit n x = 0 \<longleftrightarrow> uint x mod 2 ^ n = 0" for x :: u64
    by (simp only: word_uint_eq_iff unsigned_take_bit_eq) (simp add: take_bit_eq_mod)
  have "(2 :: int) ^ n dvd 2 ^ 64" using assms(3) by (rule le_imp_power_dvd)
  moreover have len64: "LENGTH(64) = 64" by simp
  ultimately have "uint (a - b) mod 2 ^ n = (uint a - uint b) mod 2 ^ n"
    by (simp only: uint_word_ariths mod_mod_cancel)
  with assms show ?thesis unfolding u by (metis diff_zero mod_0 mod_diff_eq)
qed

lemma aligned_diff: "p AND 3 = 0 \<Longrightarrow> a AND 3 = 0 \<Longrightarrow> (a - p) AND 3 = (0 :: u64)"
  using low_bits_diff [of 2 a p] by (simp add: take_bit_eq_mask mask_eq_exp_minus_1)

lemma exec_encoded_b:
  assumes "fits_signed 28 d" "d AND 3 = 0"
  shows "i AND 0xFC000000 = 0x14000000 \<Longrightarrow>
      a64_exec m (encode_immediate IMM_26 i (signed_drop_bit 2 d)) c = Some (goto (pc c + d) c)" (is "?B \<Longrightarrow> ?jump")
    and "i AND 0xFC000000 = 0x94000000 \<Longrightarrow>
      a64_exec m (encode_immediate IMM_26 i (signed_drop_bit 2 d)) c = Some (goto (pc c + d) (set_reg 30 (pc c + 4) c))" (is "?BL \<Longrightarrow> ?call")
proof -
  let ?w = "encode_immediate IMM_26 i (signed_drop_bit 2 d)"
  have o: "offset ?w 0 26 = d"
    by (rule offset_stored) (use assms field_encode [of IMM_26 0 26] in auto)
  have t: "?w AND 0xFC000000 = i AND 0xFC000000"
    by (rule encode_and [of _ 0 26]) (simp_all add: mask_eq_exp_minus_1)
  show ?jump if ?B using exec_B [of ?w m c] that t o by simp
  show ?call if ?BL using exec_BL [of ?w m c] that t o by simp
qed

lemma exec_encoded_bc:
  assumes "fits_signed 21 d" "d AND 3 = 0" "k \<le> 0xe"
  shows "a64_exec m (encode_immediate IMM_19 (0x54000000 OR k) (signed_drop_bit 2 d)) c =
      Some (goto (if cond_holds c k then pc c + d else pc c + 4) c)"
proof -
  let ?w = "encode_immediate IMM_19 (0x54000000 OR k) (signed_drop_bit 2 d)"
  have o: "offset ?w 5 19 = d"
    by (rule offset_stored) (use assms field_encode [of IMM_19 5 19] in auto)
  have t: "?w AND 0xFF00001F = (0x54000000 OR k) AND 0xFF00001F"
    by (rule encode_and [of _ 5 19]) (simp_all add: mask_eq_exp_minus_1)
  have k: "k AND 0xF = k"
  proof -
    have "unat k < 2 ^ 4" using assms(3) by (simp add: word_le_nat_alt)
    then have "take_bit 4 k = k" by (simp add: word_unat_eq_iff unsigned_take_bit_eq take_bit_nat_eq_self)
    then show ?thesis by (simp add: take_bit_eq_mask mask_eq_exp_minus_1)
  qed
  have kz: "k AND 0xFF000010 = 0"
  proof -
    have "k AND 0xFF000010 = k AND (0xF AND 0xFF000010)" using k by (metis and.assoc)
    then show ?thesis by simp
  qed
  have "field ?w 0 4 = ?w AND 0xF" by (simp add: field_def take_bit_eq_mask mask_eq_exp_minus_1)
  also have "\<dots> = (0x54000000 OR k) AND 0xF" using and_submask [OF t, of "0xF"] by (simp add: and.assoc)
  also have "\<dots> = k" using k by (simp add: bit.conj_disj_distrib2)
  finally have f: "field ?w 0 4 = k" .
  have "?w AND 0xFF000010 = (0x54000000 OR k) AND 0xFF000010" using and_submask [OF t, of "0xFF000010"] by (simp add: and.assoc)
  also have "\<dots> = 0x54000000" using kz by (simp add: bit.conj_disj_distrib2)
  finally have "?w AND 0xFF000010 = 0x54000000" .
  from exec_BC [OF this] show ?thesis by (simp add: o f)
qed

lemma gen_branch_imm_eq:
  "gen_branch_imm p a BRANCH_NOLINK =
     (if p AND 3 = 0 \<and> a AND 3 = 0 \<and> fits_signed 28 (a - p)
      then Some (encode_immediate IMM_26 0x14000000 (signed_drop_bit 2 (a - p))) else None)"
  "gen_branch_imm p a BRANCH_LINK =
     (if p AND 3 = 0 \<and> a AND 3 = 0 \<and> fits_signed 28 (a - p)
      then Some (encode_immediate IMM_26 0x94000000 (signed_drop_bit 2 (a - p))) else None)"
  "gen_cond_branch_imm p a k =
     (if p AND 3 = 0 \<and> a AND 3 = 0 \<and> fits_signed 21 (a - p) \<and> k \<le> 0xe
      then Some (encode_immediate IMM_19 (0x54000000 OR k) (signed_drop_bit 2 (a - p))) else None)"
  by (simp_all add: gen_branch_imm_def gen_cond_branch_imm_def branch_imm_common_outcome not_le)

lemma exec_generated:
  "gen_branch_imm (pc c) a BRANCH_NOLINK = Some i \<Longrightarrow> a64_exec m i c = Some (goto a c)"
  "gen_branch_imm (pc c) a BRANCH_LINK = Some i \<Longrightarrow> a64_exec m i c = Some (goto a (set_reg 30 (pc c + 4) c))"
  "gen_cond_branch_imm (pc c) a k = Some i \<Longrightarrow>
     a64_exec m i c = Some (goto (if cond_holds c k then a else pc c + 4) c)"
  by (auto simp: gen_branch_imm_eq exec_encoded_b exec_encoded_bc aligned_diff split: if_splits)

text \<open>
  A branch or a call generated for an address jumps to exactly this address when it is
  executed at the place it was generated for, the call with the return address behind it; a
  conditional branch does so when its condition holds and otherwise continues.  The
  generators panic exactly when an address is not aligned or the distance does not fit.
\<close>
theorem generated_branch_jumps:
  "(gen_branch_imm p a BRANCH_NOLINK = None \<longleftrightarrow> \<not> (p AND 3 = 0 \<and> a AND 3 = 0 \<and> fits_signed 28 (a - p))) \<and>
   (gen_branch_imm p a BRANCH_LINK = None \<longleftrightarrow> \<not> (p AND 3 = 0 \<and> a AND 3 = 0 \<and> fits_signed 28 (a - p))) \<and>
   (gen_cond_branch_imm p a k = None \<longleftrightarrow> \<not> (p AND 3 = 0 \<and> a AND 3 = 0 \<and> fits_signed 21 (a - p) \<and> k \<le> 0xe)) \<and>
   (\<forall>i m c. pc c = p \<longrightarrow>
      (gen_branch_imm p a BRANCH_NOLINK = Some i \<longrightarrow> a64_exec m i c = Some (goto a c)) \<and>
      (gen_branch_imm p a BRANCH_LINK = Some i \<longrightarrow> a64_exec m i c = Some (goto a (set_reg 30 (p + 4) c))) \<and>
      (gen_cond_branch_imm p a k = Some i \<longrightarrow>
         a64_exec m i c = Some (goto (if cond_holds c k then a else p + 4) c)))"
  by (intro conjI allI impI; (simp add: gen_branch_imm_eq; fail | metis exec_generated))


theorem generated_branch_jumps_witness:
  "gen_branch_imm 0x1000 0x2000 BRANCH_LINK = Some 0x94000400 \<and>
   a64_exec (\<lambda>_. 0) 0x94000400 (demo_cpu\<lparr>pc := 0x1000\<rparr>) =
     Some (goto 0x2000 (set_reg 30 (0x1000 + 4) (demo_cpu\<lparr>pc := 0x1000\<rparr>)))"
proof -
  have g: "gen_branch_imm 0x1000 0x2000 BRANCH_LINK = Some 0x94000400"
    by (simp add: gen_branch_imm_eq fits_signed_def) (simp add: encode_immediate_def imm_value_def)
  have "pc (demo_cpu\<lparr>pc := 0x1000\<rparr>) = 0x1000" by simp
  with g show ?thesis using generated_branch_jumps [of "0x1000" "0x2000" 0] by blast
qed

section \<open>Relocated instructions\<close>

lemma sdrop_high:
  assumes "k \<le> 63"
  shows "signed_drop_bit k (v AND NOT (mask k)) = signed_drop_bit k (v :: u64)"
  by (rule bit_word_eqI) (use assms in \<open>auto simp: bit_simps bit_signed_drop_bit_iff\<close>)

lemma reloc_insn_imm_outcome:
  assumes "1 \<le> len" "lsb + len \<le> 63"
  shows "reloc_insn_imm op p v lsb len t m =
     (if fits_signed (len + lsb) (do_reloc op p v) then 0 else - ERANGE,
      store32 p (encode_immediate t (load32 m p) (take_bit len (signed_drop_bit lsb (do_reloc op p v)))) m)"
proof -
  let ?s = "signed_drop_bit lsb (do_reloc op p v)"
  have k: "drop_bit lsb (push_bit (lsb + len) 1 - 1) = (mask len :: u64)"
  proof -
    have "push_bit (lsb + len) 1 - 1 = (mask (lsb + len) :: u64)" by (simp add: mask_eq_exp_minus_1)
    then show ?thesis using assms by (auto intro!: bit_word_eqI simp: bit_simps)
  qed
  have h: "drop_bit 1 (mask len) = (mask (len - 1) :: u64)"
    by (rule bit_word_eqI) (use assms in \<open>auto simp: bit_simps\<close>)
  have "signed_drop_bit (len - 1) (?s AND NOT (drop_bit 1 (mask len))) + 1 \<ge> 2 \<longleftrightarrow> \<not> fits_signed len ?s"
    unfolding h using assms signed_shift_small [of len ?s] by (simp add: sdrop_high not_less [symmetric])
  moreover have "fits_signed len ?s \<longleftrightarrow> fits_signed (len + lsb) (do_reloc op p v)"
    using assms by (simp add: fits_signed_drop)
  moreover have "?s AND mask len = take_bit len ?s" by (simp add: take_bit_eq_mask)
  ultimately show ?thesis unfolding reloc_insn_imm_def Let_def k by simp
qed

text \<open>The instruction words of a byte memory.\<close>

definition words_of :: "bmem \<Rightarrow> u64 \<Rightarrow> u32" where
  "words_of m a = load32 m a"

lemma relocate_branch_eq:
  assumes "t = 282 \<or> t = 283"
  shows "relocate_one ub t p v m =
     (if fits_signed 28 (v - p) then 0 else - ENOEXEC,
      store32 p (encode_immediate IMM_26 (load32 m p) (signed_drop_bit 2 (v - p))) m)"
proof -
  have e: "encode_immediate IMM_26 i (take_bit 26 x) = encode_immediate IMM_26 i x" for i x
  proof -
    have "take_bit 26 (ucast (take_bit 26 x) :: u32) = take_bit 26 (ucast x)"
      by (rule bit_word_eqI) (auto simp: bit_simps)
    then show ?thesis by (simp add: encode_immediate_span [of IMM_26 0 26])
  qed
  have "map_of reloc_table t = Some (True, Reloc_Imm RELOC_OP_PREL 2 26 IMM_26)"
    using assms by (auto simp: reloc_table_def)
  then show ?thesis by (simp add: relocate_one_def reloc_insn_imm_outcome e)
qed

text \<open>
  C22: Relocating a branch or a call of a module: it is refused exactly when the symbol is
  farther away than 128 MiB, no byte outside the instruction changes, and if it is accepted and the
  distance is a multiple of four, executing the relocated instruction takes the processor to the symbol.
\<close>
theorem relocated_elf_branch:
  assumes "t = 282 \<or> t = 283" "relocate_one ub t p v m = (rc, m')"
  shows "(rc = 0 \<longleftrightarrow> - (2 ^ 27) \<le> sint (v - p) \<and> sint (v - p) < 2 ^ 27) \<and>
    (rc \<noteq> 0 \<longrightarrow> rc = - ENOEXEC) \<and> (\<forall>b. \<not> in_range p 4 b \<longrightarrow> m' b = m b) \<and>
    (rc = 0 \<and> (v - p) AND 3 = 0 \<and> pc c = p \<longrightarrow>
       (load32 m p AND 0xFC000000 = 0x14000000 \<longrightarrow> a64_step (words_of m') c = Some (goto v c)) \<and>
       (load32 m p AND 0xFC000000 = 0x94000000 \<longrightarrow> a64_step (words_of m') c = Some (goto v (set_reg 30 (p + 4) c))))"
proof -
  have eq: "rc = (if fits_signed 28 (v - p) then 0 else - ENOEXEC)"
      "m' = store32 p (encode_immediate IMM_26 (load32 m p) (signed_drop_bit 2 (v - p))) m"
    using assms(2) by (simp_all add: relocate_branch_eq [OF assms(1)])
  have f: "fits_signed 28 (v - p) \<longleftrightarrow> - (2 ^ 27) \<le> sint (v - p) \<and> sint (v - p) < 2 ^ 27"
    by (simp add: fits_signed_def)
  have fr: "m' b = m b" if "\<not> in_range p 4 b" for b
    using that by (simp add: eq store32_def store_le_frame)
  have st: "a64_step (words_of m') c = a64_exec (words_of m') (encode_immediate IMM_26 (load32 m p) (signed_drop_bit 2 (v - p))) c"
    if "pc c = p" using that by (simp add: a64_step_def words_of_def eq)
  show ?thesis
    using fr exec_encoded_b [of "v - p" "load32 m p" "words_of m'" c] by (simp add: eq(1) f [simplified] st)
qed


theorem relocated_elf_branch_witness:
  "a64_step (words_of (snd (relocate_one (\<lambda>_. 0) 283 0 0x2000 (\<lambda>a. if a = 3 then 0x94 else 0)))) (demo_cpu\<lparr>pc := 0\<rparr>) =
     Some (goto 0x2000 (set_reg 30 (0 + 4) (demo_cpu\<lparr>pc := 0\<rparr>)))"
proof -
  let ?m = "\<lambda>a :: u64. if a = 3 then 0x94 else 0 :: u8"
  obtain rc m' where r: "relocate_one (\<lambda>_. 0) 283 0 0x2000 ?m = (rc, m')" by fastforce
  have o: "load32 ?m 0 = 0x94000000" by (simp add: load32_bytes)
  show ?thesis using relocated_elf_branch [OF _ r, of "demo_cpu\<lparr>pc := 0\<rparr>"] by (simp add: o r)
qed

section \<open>Address computations\<close>

lemma exec_ADD:
  assumes "i AND 0xFFC00000 = 0x91000000" "field i 0 5 \<noteq> 31" "field i 5 5 \<noteq> 31"
  shows "a64_exec m i c = Some (goto (pc c + 4) (set_reg (field i 0 5) (reg c (field i 5 5) + ucast (field i 10 12)) c))"
proof -
  have "i AND 0xFC000000 \<noteq> 0x14000000" "i AND 0xFC000000 \<noteq> 0x94000000" "i AND 0xFF000010 \<noteq> 0x54000000"
      "i AND 0x7E000000 \<noteq> 0x34000000" "i AND 0x7E000000 \<noteq> 0x36000000" "i AND 0x9F000000 \<noteq> 0x10000000"
      "i AND 0x9F000000 \<noteq> 0x90000000" "i AND 0xFF000000 \<noteq> 0x58000000"
    using and_submask [OF assms(1), of "0xFC000000"] and_submask [OF assms(1), of "0x7E000000"]
      and_submask [OF assms(1), of "0x9F000000"] and_submask [OF assms(1), of "0xFF000000"]
      and_submask [of i "0xFF000010" _ "0xFF000000"] by auto
  then show ?thesis using assms by (simp add: a64_exec_def Let_def)
qed

text \<open>A computation of the address of a symbol in register \<open>r\<close>: \<open>ADRP r\<close> and \<open>ADD r, r\<close>.\<close>

definition adrp_word :: "u32 \<Rightarrow> u32 \<Rightarrow> bool" where
  "adrp_word r i \<longleftrightarrow> i AND 0x9F000000 = 0x90000000 \<and> field i 0 5 = r"

definition add_word :: "u32 \<Rightarrow> u32 \<Rightarrow> bool" where
  "add_word r i \<longleftrightarrow> i AND 0xFFC00000 = 0x91000000 \<and> field i 0 5 = r \<and> field i 5 5 = r"

lemma field_and_eq: "w AND k = i AND k \<Longrightarrow> push_bit lo (mask n) AND NOT k = 0 \<Longrightarrow> lo + n \<le> 32 \<Longrightarrow> field w lo n = field i lo n"
proof -
  assume a: "w AND k = i AND k" "push_bit lo (mask n) AND NOT k = 0" "lo + n \<le> 32"
  have b: "bit k j" if "lo \<le> j" "j < lo + n" for j
    using arg_cong [OF a(2), where f = "\<lambda>x. bit x j"] that a(3) by (auto simp: bit_simps)
  have c: "bit w j = bit i j" if "lo \<le> j" "j < lo + n" for j
    using arg_cong [OF a(1), where f = "\<lambda>x. bit x j"] b [OF that] by (simp add: bit_and_iff)
  show ?thesis unfolding field_def
    by (rule bit_word_eqI) (use c in \<open>auto simp: bit_simps\<close>)
qed

lemma exec_encoded_adrp:
  assumes "adrp_word r i" "take_bit 12 d = 0" "fits_signed 33 d"
  shows "a64_exec m (encode_immediate IMM_ADR i (take_bit 21 (signed_drop_bit 12 d))) c =
      Some (goto (pc c + 4) (set_reg r ((pc c AND NOT 0xFFF) + d) c))"
proof -
  let ?w = "encode_immediate IMM_ADR i (take_bit 21 (signed_drop_bit 12 d))"
  have low: "\<not> bit d n" if "n < 12" for n
    using arg_cong [OF assms(2), where f = "\<lambda>x. bit x n"] that by (simp add: bit_take_bit_iff)
  then have ge: "bit d n \<Longrightarrow> 12 \<le> n" for n by (meson not_less)
  have e: "signed_take_bit 32 (push_bit 14 (ucast (field ?w 5 19)) OR push_bit 12 (ucast (field ?w 29 2))) = d"
  proof -
    have "signed_take_bit 32 (push_bit 14 (ucast (field ?w 5 19)) OR push_bit 12 (ucast (field ?w 29 2))) =
        signed_take_bit 32 d" unfolding field_encode_adr
      by (rule bit_word_eqI) (use ge in \<open>auto simp: bit_simps min_def not_le not_less le_Suc_eq\<close>)
    then show ?thesis using assms(3) fits_signed_take [of 33 d] by simp
  qed
  have "?w AND 0x9F000000 = i AND 0x9F000000"
    using and_submask [OF field_encode_adr(3), of "0x9F000000"] by (simp add: and.assoc)
  moreover have "field ?w 0 5 = field i 0 5"
    by (rule field_and_eq [OF field_encode_adr(3)]) (simp_all add: mask_eq_exp_minus_1)
  ultimately show ?thesis using exec_ADRP [of ?w m c] assms(1) e by (simp add: adrp_word_def)
qed

lemma exec_encoded_add:
  assumes "add_word r i" "r \<noteq> 31"
  shows "a64_exec m (encode_immediate IMM_12 i (take_bit 12 v)) c =
      Some (goto (pc c + 4) (set_reg r (reg c r + take_bit 12 v) c))"
proof -
  let ?w = "encode_immediate IMM_12 i (take_bit 12 v)"
  have k: "?w AND 0xFFC003FF = i AND 0xFFC003FF"
    by (rule encode_and [of _ 10 12]) (simp_all add: mask_eq_exp_minus_1)
  have "?w AND 0xFFC00000 = i AND 0xFFC00000"
    using and_submask [OF k, of "0xFFC00000"] by (simp add: and.assoc)
  moreover have "field ?w 0 5 = field i 0 5" "field ?w 5 5 = field i 5 5"
    by (rule field_and_eq [OF k]; simp add: mask_eq_exp_minus_1)+
  moreover have "(ucast (field ?w 10 12) :: u64) = take_bit 12 v"
    unfolding field_encode [of IMM_12 10 12, simplified] by (rule bit_word_eqI) (auto simp: bit_simps)
  ultimately show ?thesis using exec_ADD [of ?w m c] assms by (simp add: add_word_def)
qed

lemma relocate_page_eq:
  "relocate_one ub 275 p v m =
     (let d = (v AND NOT 0xFFF) - (p AND NOT 0xFFF)
      in (if fits_signed 33 d then 0 else - ENOEXEC,
          store32 p (encode_immediate IMM_ADR (load32 m p) (take_bit 21 (signed_drop_bit 12 d))) m))"
  "relocate_one ub 277 p v m = (0, store32 p (encode_immediate IMM_12 (load32 m p) (take_bit 12 v)) m)"
proof -
  have "map_of reloc_table 275 = Some (True, Reloc_Imm RELOC_OP_PAGE 12 21 IMM_ADR)"
    "map_of reloc_table 277 = Some (False, Reloc_Imm RELOC_OP_ABS 0 12 IMM_12)"
    by (simp_all add: reloc_table_def)
  then show "relocate_one ub 275 p v m =
     (let d = (v AND NOT 0xFFF) - (p AND NOT 0xFFF)
      in (if fits_signed 33 d then 0 else - ENOEXEC,
          store32 p (encode_immediate IMM_ADR (load32 m p) (take_bit 21 (signed_drop_bit 12 d))) m))"
    "relocate_one ub 277 p v m = (0, store32 p (encode_immediate IMM_12 (load32 m p) (take_bit 12 v)) m)"
    by (simp_all add: relocate_one_def reloc_insn_imm_outcome Let_def)
qed

lemma load32_other: "\<not> in_range p 4 q \<Longrightarrow> \<not> in_range q 4 p \<Longrightarrow> load32 (store32 p w m) q = load32 m q"
proof -
  assume d: "\<not> in_range p 4 q" "\<not> in_range q 4 p"
  have "\<not> in_range p 4 b" if b: "in_range q 4 b" for b
  proof
    assume a: "in_range p 4 b"
    let ?x = "b - p" and ?y = "b - q"
    have xy: "q - p = ?x - ?y" "p - q = ?y - ?x" by simp_all
    show False
    proof (cases "?y \<le> ?x")
      case True
      then have "unat (q - p) = unat ?x - unat ?y" unfolding xy by (rule unat_sub)
      with a d(1) show ?thesis by (simp add: in_range_def)
    next
      case False
      then have "unat (p - q) = unat ?y - unat ?x" unfolding xy by (intro unat_sub) simp
      with b d(2) show ?thesis by (simp add: in_range_def)
    qed
  qed
  then show ?thesis by (intro load32_frame) (simp add: store32_def store_le_frame)
qed

lemma page_parts:
  "take_bit 12 ((v AND NOT 0xFFF) - (p AND NOT 0xFFF)) = (0 :: u64)"
  "(v AND NOT 0xFFF) + take_bit 12 v = (v :: u64)"
proof -
  have k: "(0xFFF :: u64) = mask 12" by (simp add: mask_eq_exp_minus_1)
  have z: "take_bit 12 (x AND NOT (mask 12)) = 0" for x :: u64
    by (rule bit_word_eqI) (auto simp: bit_simps)
  show "take_bit 12 ((v AND NOT 0xFFF) - (p AND NOT 0xFFF)) = 0"
    unfolding k by (rule low_bits_diff [OF z z]) simp
  have "(v AND NOT (mask 12)) AND take_bit 12 v = 0" by (rule bit_word_eqI) (auto simp: bit_simps)
  then have "(v AND NOT (mask 12)) + take_bit 12 v = (v AND NOT (mask 12)) OR take_bit 12 v"
    by (rule disjunctive_add_eq_or)
  also have "\<dots> = v" by (rule bit_word_eqI) (auto simp: bit_simps)
  finally show "(v AND NOT 0xFFF) + take_bit 12 v = v" unfolding k .
qed

text \<open>
  C23: The two relocations of an address computation, \<open>ADRP\<close> for the page and \<open>ADD\<close> for the
  offset in it: executing the relocated pair leaves the address of the symbol in the register.
  The first one is refused exactly when the pages are farther apart than 4 GiB.
\<close>
theorem relocated_elf_address:
  assumes "relocate_one ub 275 p v m = (rc, m1)" "relocate_one ub 277 (p + 4) v m1 = (rc', m2)"
    and "adrp_word r (load32 m p)" "add_word r (load32 m (p + 4))" "r < 31" "pc c = p"
  shows "(rc = 0 \<longleftrightarrow> fits_signed 33 ((v AND NOT 0xFFF) - (p AND NOT 0xFFF))) \<and> (rc \<noteq> 0 \<longrightarrow> rc = - ENOEXEC) \<and> rc' = 0 \<and>
    (rc = 0 \<longrightarrow> (\<exists>c'. a64_run (words_of m2) 2 c = Some c' \<and> pc c' = p + 8 \<and> reg c' r = v \<and>
       (\<forall>k. k \<noteq> unat r \<longrightarrow> xr c' k = xr c k)))"
proof -
  let ?d = "(v AND NOT 0xFFF) - (p AND NOT 0xFFF)"
  let ?i = "encode_immediate IMM_ADR (load32 m p) (take_bit 21 (signed_drop_bit 12 ?d))"
  let ?j = "encode_immediate IMM_12 (load32 m (p + 4)) (take_bit 12 v)"
  have apart: "\<not> in_range p 4 (p + 4)" "\<not> in_range (p + 4) 4 p"
  proof -
    have "p + 4 - p = 4" "p - (p + 4) = - 4" by simp_all
    then show "\<not> in_range p 4 (p + 4)" "\<not> in_range (p + 4) 4 p" by (simp_all only: in_range_def) simp_all
  qed
  have r1: "rc = (if fits_signed 33 ?d then 0 else - ENOEXEC)" "m1 = store32 p ?i m"
    using assms(1) by (simp_all only: relocate_page_eq Let_def prod.inject)
  have r2: "rc' = 0" "m2 = store32 (p + 4) ?j m1"
    using assms(2) r1(2) by (simp_all add: relocate_page_eq(2) load32_other apart)
  have code: "words_of m2 p = ?i" "words_of m2 (p + 4) = ?j"
    by (simp_all add: words_of_def r2 r1(2) load32_other apart)
  have run: "a64_run (words_of m2) 2 c = Some (goto (p + 8) (set_reg r v (set_reg r ((p AND NOT 0xFFF) + ?d) c)))"
    if "fits_signed 33 ?d"
  proof -
    let ?c1 = "goto (p + 4) (set_reg r ((p AND NOT 0xFFF) + ?d) c)"
    have r31: "r \<noteq> 31" using assms(5) by auto
    have 1: "a64_exec (words_of m2) ?i c = Some ?c1"
      using exec_encoded_adrp [OF assms(3) page_parts(1) that] assms(6) by simp
    have v1: "reg ?c1 r = v AND NOT 0xFFF" using r31 by (simp add: reg_def set_reg_def goto_def)
    have p8: "pc ?c1 + 4 = p + 8" by (simp add: goto_def)
    have 2: "a64_exec (words_of m2) ?j ?c1 = Some (goto (p + 8) (set_reg r v ?c1))"
      using exec_encoded_add [OF assms(4) r31, of "words_of m2" v ?c1] unfolding v1 page_parts(2) p8 .
    have "goto (p + 8) (set_reg r v ?c1) = goto (p + 8) (set_reg r v (set_reg r ((p AND NOT 0xFFF) + ?d) c))"
      by (simp add: goto_def set_reg_def)
    with 1 2 show ?thesis by (simp add: eval_nat_numeral a64_step_def code assms(6))
  qed
  have "reg (goto (p + 8) (set_reg r v c')) r = v" "k \<noteq> unat r \<Longrightarrow> xr (goto a (set_reg r x c')) k = xr c' k" for c' k a x
    using assms(5) by (auto simp: reg_def set_reg_def goto_def)
  with run r1(1) r2(1) show ?thesis by (auto simp: goto_def set_reg_def reg_def)
qed

theorem relocated_elf_address_witness:
  "\<exists>c'. a64_run (words_of (snd (relocate_one (\<lambda>_. 0) 277 4 0x5678
      (snd (relocate_one (\<lambda>_. 0) 275 0 0x5678 (\<lambda>a. if a = 3 then 0x90 else if a = 7 then 0x91 else 0)))))) 2
      (demo_cpu\<lparr>pc := 0\<rparr>) = Some c' \<and> reg c' 0 = 0x5678"
proof -
  let ?m = "\<lambda>a :: u64. if a = 3 then 0x90 else if a = 7 then 0x91 else 0 :: u8"
  obtain rc m1 where 1: "relocate_one (\<lambda>_. 0) 275 0 0x5678 ?m = (rc, m1)" by fastforce
  obtain rc' m2 where 2: "relocate_one (\<lambda>_. 0) 277 (0 + 4) 0x5678 m1 = (rc', m2)" by fastforce
  have w: "load32 ?m 0 = 0x90000000" "load32 ?m (0 + 4) = 0x91000000" by (simp_all add: load32_bytes)
  have a: "adrp_word 0 (load32 ?m 0)" "add_word 0 (load32 ?m (0 + 4))"
    unfolding w by (simp_all add: adrp_word_def add_word_def field_def)
  have "fits_signed 33 ((0x5678 AND NOT 0xFFF) - (0 AND NOT 0xFFF))" by (simp add: fits_signed_def)
  then show ?thesis
    using relocated_elf_address [OF 1 2 a, of "demo_cpu\<lparr>pc := 0\<rparr>"] 1 2 by auto
qed

section \<open>Data and immediate moves\<close>

lemma movw_signed_outcome:
  "lsb + 16 < 64 \<Longrightarrow> fst (reloc_insn_movw op p v lsb IMM_MAX m) =
     (if 0 \<le> sint (do_reloc op p v) \<and> sint (do_reloc op p v) < 2 ^ (lsb + 16) then 0 else - ERANGE)"
proof -
  assume "lsb + 16 < 64"
  let ?d = "do_reloc op p v"
  have "sint (signed_drop_bit (16 + lsb) ?d) = sint ?d div 2 ^ (16 + lsb)"
    by (simp only: sint_signed_drop_bit_eq drop_bit_eq_div)
  then have "signed_drop_bit (16 + lsb) ?d = 0 \<longleftrightarrow> sint ?d div 2 ^ (16 + lsb) = 0"
    by (metis signed_0 signed_word_eqI)
  also have "\<dots> \<longleftrightarrow> 0 \<le> sint ?d \<and> sint ?d < 2 ^ (lsb + 16)"
    using le_div_pow [of 0 "sint ?d" "16 + lsb"] le_div_pow [of 1 "sint ?d" "16 + lsb"]
    by (auto simp: add.commute)
  finally have "0 < signed_drop_bit (16 + lsb) ?d \<longleftrightarrow> \<not> (0 \<le> sint ?d \<and> sint ?d < 2 ^ (lsb + 16))"
    by (simp add: word_gt_0)
  then show ?thesis
    by (simp add: reloc_insn_movw_def Let_def split: if_splits)
qed

text \<open>The signed moves always become \<open>MOVZ\<close> of the bits of the field: \<open>imm\<close> has been masked and is never negative.\<close>

lemma movw_signed_writes:
  "\<exists>w. snd (reloc_insn_movw op p v lsb IMM_MAX m) = store32 p w m \<and> w AND 0x60000000 = 0x40000000 \<and>
     field w 5 16 = ucast (take_bit 16 (signed_drop_bit lsb (do_reloc op p v)))"
proof -
  let ?imm = "signed_drop_bit lsb (do_reloc op p v) AND 0xffff"
  have i: "?imm = take_bit 16 (signed_drop_bit lsb (do_reloc op p v))"
    by (simp add: take_bit_eq_mask mask_eq_exp_minus_1)
  have "\<not> bit ?imm 63" unfolding i by (simp add: bit_take_bit_iff)
  then have "\<not> sint ?imm < 0" using bit_last_iff [of ?imm] by simp
  then have nn: "0 \<le>s ?imm" by (simp add: word_sle_eq)
  let ?w = "encode_immediate IMM_16 ((load32 m p AND NOT (push_bit 29 3)) OR push_bit 29 2) ?imm"
  have "snd (reloc_insn_movw op p v lsb IMM_MAX m) = store32 p ?w m"
    using nn by (simp add: reloc_insn_movw_def Let_def split: if_splits)
  moreover have "?w AND 0x60000000 = ((load32 m p AND NOT (push_bit 29 3)) OR push_bit 29 2) AND 0x60000000"
    by (rule encode_and [of _ 5 16]) (simp_all add: mask_eq_exp_minus_1)
  moreover have "((load32 m p AND NOT (push_bit 29 3)) OR push_bit 29 2) AND 0x60000000 = (0x40000000 :: u32)"
    by (simp add: bit.conj_disj_distrib2 and.assoc)
  moreover have "field ?w 5 16 = take_bit 16 (ucast ?imm)" by (rule field_encode) simp
  moreover have "take_bit 16 (ucast ?imm) = (ucast (take_bit 16 (signed_drop_bit lsb (do_reloc op p v))) :: u32)"
    unfolding i by (rule bit_word_eqI) (auto simp: bit_simps)
  ultimately show ?thesis by metis
qed

text \<open>
  C24: of the seven relocations of a move with a signed value, the six that check for overflow refuse every
  negative value; \<open>R_AARCH64_MOVW_PREL_G3\<close> (293), which does not check, accepts every value.  All of them write a
  \<open>MOVZ\<close> with the bits of the value at their place, never a \<open>MOVN\<close> with the inverted ones, as a negative
  value needs.
\<close>
theorem signed_movw_refuses_negative:
  assumes "t \<in> {270, 271, 272, 287, 289, 291, 293}" "relocate_one ub t p v m = (rc, m')"
  shows "let d = (if t \<in> {270, 271, 272} then v else v - p);
             lsb = (if t \<in> {270, 287} then 0 else if t \<in> {271, 289} then 16 else if t = 293 then 48 else 32)
    in (rc = 0 \<longleftrightarrow> t = 293 \<or> 0 \<le> sint d \<and> sint d < 2 ^ (lsb + 16)) \<and>
       load32 m' p AND 0x60000000 = 0x40000000 \<and> field (load32 m' p) 5 16 = ucast (take_bit 16 (signed_drop_bit lsb d))"
proof -
  have e: "fst (relocate_one ub t' p v m) = (if chk \<and> fst (reloc_insn_movw op p v lsb IMM_MAX m) = - ERANGE then - ENOEXEC else 0)"
    and w: "snd (relocate_one ub t' p v m) = snd (reloc_insn_movw op p v lsb IMM_MAX m)"
    if "map_of reloc_table t' = Some (chk, Reloc_Movw op lsb IMM_MAX)" for t' op lsb chk
    using that by (simp_all add: relocate_one_def split: prod.splits)
  have rc: "rc = fst (relocate_one ub t p v m)" "m' = snd (relocate_one ub t p v m)" using assms(2) by simp_all
  have "\<exists>chk op lsb. map_of reloc_table t = Some (chk, Reloc_Movw op lsb IMM_MAX) \<and> (chk \<longleftrightarrow> t \<noteq> 293) \<and>
      do_reloc op p v = (if t \<in> {270, 271, 272} then v else v - p) \<and> (t \<noteq> 293 \<longrightarrow> lsb + 16 < 64) \<and>
      lsb = (if t \<in> {270, 287} then 0 else if t \<in> {271, 289} then 16 else if t = 293 then 48 else 32)"
    using assms(1) by (elim insertE emptyE; simp add: reloc_table_def ex_bool_eq)
  then obtain chk op lsb where t: "map_of reloc_table t = Some (chk, Reloc_Movw op lsb IMM_MAX)" "chk \<longleftrightarrow> t \<noteq> 293"
      "do_reloc op p v = (if t \<in> {270, 271, 272} then v else v - p)" "t \<noteq> 293 \<longrightarrow> lsb + 16 < 64"
      "lsb = (if t \<in> {270, 287} then 0 else if t \<in> {271, 289} then 16 else if t = 293 then 48 else 32)"
    by blast
  obtain i where i: "m' = store32 p i m" "i AND 0x60000000 = 0x40000000"
      "field i 5 16 = ucast (take_bit 16 (signed_drop_bit lsb (do_reloc op p v)))"
    using movw_signed_writes [of op p v lsb m] unfolding rc(2) w [OF t(1)] by blast
  have "rc = 0 \<longleftrightarrow> t = 293 \<or> 0 \<le> sint (do_reloc op p v) \<and> sint (do_reloc op p v) < 2 ^ (lsb + 16)"
  proof (cases "t = 293")
    case True
    then show ?thesis unfolding rc(1) e [OF t(1)] using t(2) by simp
  next
    case False
    with t(4) have "lsb + 16 < 64" by simp
    from movw_signed_outcome [OF this, of op p v m] show ?thesis
      unfolding rc(1) e [OF t(1)] using t(2) False by (simp split: if_splits)
  qed
  then show ?thesis using i unfolding t(3) Let_def t(5) [symmetric] by simp
qed

theorem signed_movw_refuses_negative_witness:
  "fst (relocate_one (\<lambda>_. 0) 270 0x1000 (- 1) (\<lambda>_. 0)) \<noteq> 0"
proof -
  obtain rc m' where r: "relocate_one (\<lambda>_. 0) 270 0x1000 (- 1) (\<lambda>_. 0) = (rc, m')" by fastforce
  show ?thesis using signed_movw_refuses_negative [OF _ r] by (simp add: r Let_def)
qed

lemma small3_unsigned: "x + 1 > 2 \<longleftrightarrow> \<not> (- 1 \<le> sint (x :: u64) \<and> sint x < 2)"
proof -
  have "x + 1 > 2 \<longleftrightarrow> \<not> unat (x + 1) \<le> unat (2 :: u64)" by (simp add: word_less_nat_alt not_le)
  also have "unat (x + 1) \<le> unat (2 :: u64) \<longleftrightarrow>
      unat (x + 1) = unat (0 :: u64) \<or> unat (x + 1) = unat (1 :: u64) \<or> unat (x + 1) = unat (2 :: u64)" by auto
  also have "\<dots> \<longleftrightarrow> x + 1 = 0 \<or> x + 1 = 1 \<or> x + 1 = 2" by (simp only: word_unat_eq_iff [symmetric])
  also have "\<dots> \<longleftrightarrow> x = - 1 \<or> x = 0 \<or> x = 1" by (auto simp: eq_neg_iff_add_eq_0)
  also have "\<dots> \<longleftrightarrow> sint x = - 1 \<or> sint x = 0 \<or> sint x = 1"
  proof -
    have inj: "sint a = sint b \<longleftrightarrow> a = b" for a b :: u64 by (auto intro: signed_word_eqI)
    show ?thesis using inj [of x "- 1"] inj [of x 0] inj [of x 1] by simp
  qed
  also have "\<dots> \<longleftrightarrow> - 1 \<le> sint x \<and> sint x < 2" by auto
  finally show ?thesis .
qed

lemma shift_in_range:
  "signed_drop_bit n v + 1 > 2 \<longleftrightarrow> \<not> (- (2 ^ n) \<le> sint (v :: u64) \<and> sint v < 2 ^ (n + 1))"
  using le_div_pow [of "- 1" "sint v" n] le_div_pow [of 2 "sint v" n]
  by (auto simp: small3_unsigned sint_signed_drop_bit_eq drop_bit_eq_div)

lemma reloc_data_outcome:
  "fst (reloc_data ub op p s 16 m) = (if - (2 ^ 15) \<le> sint (do_reloc op p s) \<and> sint (do_reloc op p s) < 2 ^ 16 then 0 else - ERANGE)"
  "ub 32 = 1 \<Longrightarrow> fst (reloc_data ub op p s 32 m) =
     (if - (2 ^ 31) \<le> sint (do_reloc op p s) \<and> sint (do_reloc op p s) < 2 ^ 32 then 0 else - ERANGE)"
  "ub 32 = 0 \<Longrightarrow> fst (reloc_data ub op p s 32 m) = (if 0 \<le> sint (do_reloc op p s) then 0 else - ERANGE)"
proof -
  have m16: "(scast (int_shift_1 ub 16 - 1) :: u64) = mask 16" by (simp add: int_shift_1_def mask_eq_exp_minus_1)
  have d16: "drop_bit 1 (mask 16 :: u64) = mask 15" by (simp add: mask_eq_exp_minus_1)
  show "fst (reloc_data ub op p s 16 m) = (if - (2 ^ 15) \<le> sint (do_reloc op p s) \<and> sint (do_reloc op p s) < 2 ^ 16 then 0 else - ERANGE)"
    unfolding reloc_data_def Let_def m16 d16 using shift_in_range [of 15 "do_reloc op p s"] by (simp add: sdrop_high)
  show "fst (reloc_data ub op p s 32 m) =
     (if - (2 ^ 31) \<le> sint (do_reloc op p s) \<and> sint (do_reloc op p s) < 2 ^ 32 then 0 else - ERANGE)" if "ub 32 = 1"
    unfolding reloc_data_def Let_def using shift_in_range [of 31 "do_reloc op p s"] that by (simp add: int_shift_1_def)
  show "fst (reloc_data ub op p s 32 m) = (if 0 \<le> sint (do_reloc op p s) then 0 else - ERANGE)" if "ub 32 = 0"
  proof -
    let ?d = "do_reloc op p s"
    have k': "NOT (mask 63 :: u64) = 0x8000000000000000" by (simp add: mask_eq_exp_minus_1)
    have p63: "(0x8000000000000000 :: u64) = push_bit 63 1" by simp
    have e: "?d AND 0x8000000000000000 = (if bit ?d 63 then 0x8000000000000000 else 0)"
      unfolding p63
    proof (rule bit_word_eqI)
      fix n assume "n < LENGTH(64)"
      then show "bit (?d AND push_bit 63 1) n \<longleftrightarrow> bit (if bit ?d 63 then push_bit 63 1 else 0 :: u64) n"
        by (cases "n = 63") (auto simp: bit_simps simp del: push_bit_of_1)
    qed
    have b: "bit ?d 63 \<longleftrightarrow> sint ?d < 0" by (simp add: bit_last_iff [symmetric, where 'a = 64, simplified])
    show ?thesis unfolding reloc_data_def Let_def using that b
      by (simp add: int_shift_1_def k' e)
  qed
qed

text \<open>
  A data relocation stores the value and is refused exactly when the value has neither a
  signed nor an unsigned representation of the width, for 16 bits.  For 32 bits the test depends
  on the undefined shift: if it gives one, the test is exact; if it gives zero, every
  negative value is refused and every positive one accepted.
\<close>
theorem data_relocation_range:
  assumes "v = (if t \<in> {258, 259} then s else s - p)"
  shows "(t \<in> {259, 262} \<longrightarrow> (fst (relocate_one ub t p s m) = 0 \<longleftrightarrow> - (2 ^ 15) \<le> sint v \<and> sint v < 2 ^ 16)) \<and>
    (t \<in> {258, 261} \<and> ub 32 = 1 \<longrightarrow> (fst (relocate_one ub t p s m) = 0 \<longleftrightarrow> - (2 ^ 31) \<le> sint v \<and> sint v < 2 ^ 32)) \<and>
    (t \<in> {258, 261} \<and> ub 32 = 0 \<longrightarrow> (fst (relocate_one ub t p s m) = 0 \<longleftrightarrow> 0 \<le> sint v)) \<and>
    (t \<in> {257, 260} \<longrightarrow> fst (relocate_one ub t p s m) = 0)"
proof -
  have e: "fst (relocate_one ub t' p s m) = (if b \<and> fst (reloc_data ub op p s len m) = - ERANGE then - ENOEXEC else 0)"
    if "map_of reloc_table t' = Some (b, Reloc_Data op len)" for t' op len b
    using that by (simp add: relocate_one_def split: prod.splits)
  note es = e [of 259 True RELOC_OP_ABS 16] e [of 262 True RELOC_OP_PREL 16] e [of 258 True RELOC_OP_ABS 32]
    e [of 261 True RELOC_OP_PREL 32] e [of 257 False RELOC_OP_ABS 64] e [of 260 False RELOC_OP_PREL 64]
  show ?thesis unfolding assms
    by (intro conjI impI; elim conjE insertE emptyE; use es in \<open>simp add: reloc_table_def reloc_data_outcome\<close>)
qed

theorem data_relocation_range_witness:
  "fst (relocate_one (\<lambda>_. 0) 258 0 (- 1) m) \<noteq> 0 \<and> fst (relocate_one (\<lambda>_. 1) 258 0 (- 1) m) = 0"
  using data_relocation_range [of "- 1" 258 "- 1" 0 "\<lambda>_. 0" m] data_relocation_range [of "- 1" 258 "- 1" 0 "\<lambda>_. 1" m]
  by simp

section \<open>The branches of the hook engine\<close>

text \<open>What the engine takes for a short distance: one that fits the field of a branch, or exactly 128 MiB.\<close>

lemma short_branch:
  assumes "can_b_rel src dst"
  obtains "fits_signed 28 (dst - src)" | "dst - src = 0x8000000"
proof -
  let ?d = "dst - src"
  have up: "sint v = uint v \<and> uint v \<le> 134217728" if "v \<le> 0x8000000" for v :: u64
  proof -
    have "uint v \<le> 134217728" using that by (simp add: word_le_def)
    moreover have "- (2 ^ 63) \<le> uint v" by (rule order_trans [of _ 0]) simp_all
    ultimately show ?thesis by (simp add: sint_uint signed_take_bit_int_eq_self)
  qed
  have down: "sint (- v) = - uint v" if "v \<le> 0x8000000" for v :: u64
  proof -
    have "- uint v < 2 ^ 63" by (rule le_less_trans [of _ 0]) simp_all
    then show ?thesis using up [OF that] by (simp add: sint_word_ariths signed_take_bit_int_eq_self)
  qed
  from assms consider "?d \<le> 0x8000000" | "src - dst \<le> 0x8000000" by (auto simp: can_b_rel_def)
  then show thesis
  proof cases
    case 1
    show thesis
    proof (cases "uint ?d = 134217728")
      case True
      then have "?d = 0x8000000" by (simp add: word_uint_eq_iff)
      then show thesis by (rule that(2))
    next
      case False
      moreover have "- 134217728 \<le> uint ?d" by (rule order_trans [of _ 0]) simp_all
      ultimately show thesis using up [OF 1] by (intro that(1)) (simp add: fits_signed_def)
    qed
  next
    case 2
    moreover have "- uint (src - dst) < 134217728" by (rule le_less_trans [of _ 0]) simp_all
    moreover have "sint ?d = - uint (src - dst)" using down [OF 2] by simp
    ultimately show thesis using up [OF 2] by (intro that(1)) (simp add: fits_signed_def)
  qed
qed

text \<open>
  C21: A relative branch of the hook engine takes the processor to its target, except when the target is exactly
  128 MiB ahead, which \<open>can_b_rel\<close> accepts: then the branch goes as far back.
\<close>
theorem branch_relative_reaches:
  assumes "branch_relative src dst = w # ws" "src AND 3 = 0" "dst AND 3 = 0" "pc c = src"
  shows "a64_exec m w c = Some (goto (if dst - src = 0x8000000 then src - 0x8000000 else dst) c)"
proof -
  let ?d = "dst - src"
  let ?x = "ucast (drop_bit 2 (?d AND mask 28)) :: u32"
  have w: "w = 0x14000000 OR ?x" and r: "can_b_rel src dst"
    using assms(1) by (simp_all add: branch_relative_def mask_eq_exp_minus_1 split: if_splits)
  have "take_bit 26 ?x = take_bit 26 (ucast (signed_drop_bit 2 ?d))"
    by (rule bit_word_eqI) (auto simp: bit_simps bit_signed_drop_bit_iff)
  then have f: "field w 0 26 = take_bit 26 (ucast (signed_drop_bit 2 ?d))"
    unfolding w field_def by simp
  have "?x AND NOT (mask 26) = 0" by (rule bit_word_eqI) (auto simp: bit_simps)
  moreover have "NOT (mask 26) = (0xFC000000 :: u32)" by (simp add: mask_eq_exp_minus_1)
  ultimately have "?x AND 0xFC000000 = 0" by metis
  then have "w AND 0xFC000000 = 0x14000000" unfolding w by (simp add: bit.conj_disj_distrib2)
  then have e: "a64_exec m w c = Some (goto (src + offset w 0 26) c)"
    using exec_B [of w m c] assms(4) by simp
  from short_branch [OF r] show ?thesis
  proof cases
    case 1
    then have "?d \<noteq> 0x8000000" by (auto simp: fits_signed_def)
    moreover have "offset w 0 26 = ?d"
      using offset_stored [OF f] 1 assms(2,3) by (simp add: aligned_diff)
    ultimately show ?thesis using e by simp
  next
    case 2
    then have "w = 0x16000000" by (simp add: w mask_eq_exp_minus_1)
    moreover have "offset 0x16000000 0 26 = - 0x8000000" by code_simp
    ultimately have "offset w 0 26 = - 0x8000000" by simp
    then show ?thesis using e 2 by simp
  qed
qed

theorem branch_relative_reaches_witness:
  "branch_relative 0x1000 0x8001000 \<noteq> [] \<and>
   a64_exec (\<lambda>_. 0) (hd (branch_relative 0x1000 0x8001000)) (demo_cpu\<lparr>pc := 0x1000\<rparr>) =
     Some (goto (0x1000 - 0x8000000) (demo_cpu\<lparr>pc := 0x1000\<rparr>))"
  using branch_relative_reaches [of "0x1000" "0x8001000" _ _ "demo_cpu\<lparr>pc := 0x1000\<rparr>" "\<lambda>_. 0"]
  by (simp add: branch_relative_def can_b_rel_def)

end
