(* ===== verification/Baselib.thy ===== *)
theory Baselib
  imports Byte_Memory
begin

text \<open>
  The memory and string routines of \<^verbatim>\<open>kernel/base/baselib.c\<close>, which the code uses before the kernel's
  own are known, over the byte memory.  A pointer is an address and the null pointer is 0; counts
  are natural numbers.  A routine that runs to a NUL which is not there does not return: \<open>None\<close>.
\<close>

section \<open>Memory\<close>

primrec lib_memccpy :: "nat \<Rightarrow> u64 \<Rightarrow> u64 \<Rightarrow> u8 \<Rightarrow> bmem \<Rightarrow> u64 \<times> bmem" where
  "lib_memccpy 0 q p c m = (0, m)"
| "lib_memccpy (Suc n) q p c m =
     (let ch = m p; m = m(q := ch) in if ch = c then (q + 1, m) else lib_memccpy n (q + 1) (p + 1) c m)"

primrec lib_memchr :: "nat \<Rightarrow> u64 \<Rightarrow> u8 \<Rightarrow> bmem \<Rightarrow> u64" where
  "lib_memchr 0 sp c m = 0"
| "lib_memchr (Suc n) sp c m = (if m sp = c then sp else lib_memchr n (sp + 1) c m)"

primrec lib_memcmp :: "nat \<Rightarrow> u64 \<Rightarrow> u64 \<Rightarrow> bmem \<Rightarrow> int" where
  "lib_memcmp 0 c1 c2 m = 0"
| "lib_memcmp (Suc n) c1 c2 m =
     (let d = uint (m c1) - uint (m c2) in if d \<noteq> 0 then d else lib_memcmp n (c1 + 1) (c2 + 1) m)"

primrec lib_memcpy :: "nat \<Rightarrow> u64 \<Rightarrow> u64 \<Rightarrow> bmem \<Rightarrow> bmem" where
  "lib_memcpy 0 q p m = m"
| "lib_memcpy (Suc n) q p m = lib_memcpy n (q + 1) (p + 1) (m(q := m p))"

text \<open>The loop from the end, with the pointers behind the ranges.\<close>

primrec copy_down :: "nat \<Rightarrow> u64 \<Rightarrow> u64 \<Rightarrow> bmem \<Rightarrow> bmem" where
  "copy_down 0 q p m = m"
| "copy_down (Suc n) q p m = copy_down n (q - 1) (p - 1) (m(q - 1 := m (p - 1)))"

definition lib_memmove :: "nat \<Rightarrow> u64 \<Rightarrow> u64 \<Rightarrow> bmem \<Rightarrow> bmem" where
  "lib_memmove n dst src m =
     (if dst < src then lib_memcpy n dst src m else copy_down n (dst + of_nat n) (src + of_nat n) m)"

primrec memrchr_from :: "nat \<Rightarrow> u64 \<Rightarrow> u8 \<Rightarrow> bmem \<Rightarrow> u64" where
  "memrchr_from 0 sp c m = 0"
| "memrchr_from (Suc n) sp c m = (if m sp = c then sp else memrchr_from n (sp - 1) c m)"

definition lib_memrchr :: "nat \<Rightarrow> u64 \<Rightarrow> u8 \<Rightarrow> bmem \<Rightarrow> u64" where
  "lib_memrchr n s c m = memrchr_from n (s + of_nat n - 1) c m"

primrec lib_memset :: "nat \<Rightarrow> u64 \<Rightarrow> u8 \<Rightarrow> bmem \<Rightarrow> bmem" where
  "lib_memset 0 q c m = m"
| "lib_memset (Suc n) q c m = lib_memset n (q + 1) c (m(q := c))"

primrec lib_memswap :: "nat \<Rightarrow> u64 \<Rightarrow> u64 \<Rightarrow> bmem \<Rightarrow> bmem" where
  "lib_memswap 0 p q m = m"
| "lib_memswap (Suc n) p q m = (let tmp = m p; m = m(p := m q); m = m(q := tmp) in lib_memswap n (p + 1) (q + 1) m)"

text \<open>The search for a string of \<open>k\<close> bytes in \<open>n\<close> bytes; the steps depend on its first two bytes.\<close>

function memmem_loop :: "nat \<Rightarrow> nat \<Rightarrow> u64 \<Rightarrow> nat \<Rightarrow> u64 \<Rightarrow> nat \<Rightarrow> nat \<Rightarrow> bmem \<Rightarrow> u64" where
  "memmem_loop k l y n x sz j m =
     (if k = 0 \<or> l = 0 \<or> j > n - sz then 0
      else if m (x + 1) \<noteq> m (y + of_nat j + 1) then memmem_loop k l y n x sz (j + k) m
      else if lib_memcmp (sz - 2) (x + 2) (y + of_nat j + 2) m = 0 \<and> m x = m (y + of_nat j) then y + of_nat j
      else memmem_loop k l y n x sz (j + l) m)"
  by pat_completeness auto
termination
  by (relation "measure (\<lambda>(k, l, y, n, x, sz, j, m). Suc (n - sz) - j)") auto

declare memmem_loop.simps [simp del]

definition lib_memmem :: "u64 \<Rightarrow> nat \<Rightarrow> u64 \<Rightarrow> nat \<Rightarrow> bmem \<Rightarrow> u64" where
  "lib_memmem y n x sz m =
     (if sz > n \<or> sz = 0 \<or> n = 0 then 0
      else if sz \<noteq> 1
      then (let (k, l) = (if m x = m (x + 1) then (2, 1) else (1, 2)) in memmem_loop k l y n x sz 0 m)
      else lib_memchr n y (m x) m)"

section \<open>Strings\<close>

text \<open>\<open>toupper\<close> of \<^verbatim>\<open>ctype.h\<close>.\<close>

definition c_toupper :: "int \<Rightarrow> int" where
  "c_toupper c = (if 97 \<le> c \<and> c \<le> 122 then c - 32 else c)"

partial_function (option) lib_strcasecmp :: "u64 \<Rightarrow> u64 \<Rightarrow> bmem \<Rightarrow> int option" where
  "lib_strcasecmp c1 c2 m =
     (let ch = m c1; d = c_toupper (uint ch) - c_toupper (uint (m c2))
      in if d \<noteq> 0 \<or> ch = 0 then Some d else lib_strcasecmp (c1 + 1) (c2 + 1) m)"

partial_function (option) lib_strchr :: "u64 \<Rightarrow> u8 \<Rightarrow> bmem \<Rightarrow> u64 option" where
  "lib_strchr s c m = (if m s \<noteq> c then (if m s = 0 then Some 0 else lib_strchr (s + 1) c m) else Some s)"

partial_function (option) lib_strcmp :: "u64 \<Rightarrow> u64 \<Rightarrow> bmem \<Rightarrow> int option" where
  "lib_strcmp c1 c2 m =
     (let ch = m c1; d = uint ch - uint (m c2)
      in if d \<noteq> 0 \<or> ch = 0 then Some d else lib_strcmp (c1 + 1) (c2 + 1) m)"

partial_function (option) lib_strcpy :: "u64 \<Rightarrow> u64 \<Rightarrow> bmem \<Rightarrow> bmem option" where
  "lib_strcpy q p m = (let ch = m p; m = m(q := ch) in if ch = 0 then Some m else lib_strcpy (q + 1) (p + 1) m)"

partial_function (option) strlcpy_loop :: "u64 \<Rightarrow> u64 \<Rightarrow> nat \<Rightarrow> nat \<Rightarrow> bmem \<Rightarrow> (u64 \<times> nat \<times> bmem) option" where
  "strlcpy_loop q p bytes size' m =
     (let ch = m p
      in if ch = 0 then Some (q, bytes, m)
         else if bytes + 1 < size' then strlcpy_loop (q + 1) (p + 1) (bytes + 1) size' (m(q := ch))
         else strlcpy_loop q (p + 1) (bytes + 1) size' m)"

definition lib_strlcpy :: "u64 \<Rightarrow> u64 \<Rightarrow> nat \<Rightarrow> bmem \<Rightarrow> (nat \<times> bmem) option" where
  "lib_strlcpy dst src size' m =
     (case strlcpy_loop dst src 0 size' m of None \<Rightarrow> None
      | Some (q, bytes, m) \<Rightarrow> Some (bytes, if size' \<noteq> 0 then m(q := 0) else m))"

partial_function (option) lib_strlen :: "u64 \<Rightarrow> bmem \<Rightarrow> nat option" where
  "lib_strlen s m = (if m s \<noteq> 0 then Option.bind (lib_strlen (s + 1) m) (\<lambda>n. Some (Suc n)) else Some 0)"

primrec lib_strncasecmp :: "nat \<Rightarrow> u64 \<Rightarrow> u64 \<Rightarrow> bmem \<Rightarrow> int" where
  "lib_strncasecmp 0 c1 c2 m = 0"
| "lib_strncasecmp (Suc n) c1 c2 m =
     (let ch = m c1; d = c_toupper (uint ch) - c_toupper (uint (m c2))
      in if d \<noteq> 0 \<or> ch = 0 then d else lib_strncasecmp n (c1 + 1) (c2 + 1) m)"

primrec lib_strncpy :: "nat \<Rightarrow> u64 \<Rightarrow> u64 \<Rightarrow> bmem \<Rightarrow> bmem" where
  "lib_strncpy 0 q p m = m"
| "lib_strncpy (Suc n) q p m = (let ch = m p; m = m(q := ch) in if ch = 0 then m else lib_strncpy n (q + 1) (p + 1) m)"

text \<open>The end of the destination is searched, then the characters are copied as by \<open>lib_strncpy\<close>.\<close>

definition lib_strncat :: "u64 \<Rightarrow> u64 \<Rightarrow> nat \<Rightarrow> bmem \<Rightarrow> bmem option" where
  "lib_strncat dst src n m = map_option (\<lambda>q. lib_strncpy n q src m) (lib_strchr dst 0 m)"

definition lib_strcat :: "u64 \<Rightarrow> u64 \<Rightarrow> bmem \<Rightarrow> bmem option" where
  "lib_strcat dst src m = Option.bind (lib_strchr dst 0 m) (\<lambda>q. lib_strcpy q src m)"

primrec lib_strncmp :: "nat \<Rightarrow> u64 \<Rightarrow> u64 \<Rightarrow> bmem \<Rightarrow> int" where
  "lib_strncmp 0 c1 c2 m = 0"
| "lib_strncmp (Suc n) c1 c2 m =
     (let ch = m c1; d = uint ch - uint (m c2) in if d \<noteq> 0 \<or> ch = 0 then d else lib_strncmp n (c1 + 1) (c2 + 1) m)"

primrec lib_strnlen :: "nat \<Rightarrow> u64 \<Rightarrow> bmem \<Rightarrow> nat" where
  "lib_strnlen 0 s m = 0"
| "lib_strnlen (Suc n) s m = (if m s \<noteq> 0 then Suc (lib_strnlen n (s + 1) m) else 0)"

text \<open>The inner loop of \<open>lib_strpbrk\<close> and \<open>lib_strspn\<close>: the place of a character in a string, or of its NUL.\<close>

partial_function (option) find_char :: "u64 \<Rightarrow> u8 \<Rightarrow> bmem \<Rightarrow> u64 option" where
  "find_char c ch m = (if m c = 0 then Some c else if ch = m c then Some c else find_char (c + 1) ch m)"

partial_function (option) strpbrk_loop :: "u64 \<Rightarrow> u64 \<Rightarrow> u64 \<Rightarrow> bmem \<Rightarrow> u64 option" where
  "strpbrk_loop s1 s2 c m =
     (if m s1 \<noteq> 0
      then Option.bind (find_char s2 (m s1) m) (\<lambda>c. if m c \<noteq> 0 then Some s1 else strpbrk_loop (s1 + 1) s2 c m)
      else if m c = 0 then Some 0 else Some s1)"

definition lib_strpbrk :: "u64 \<Rightarrow> u64 \<Rightarrow> bmem \<Rightarrow> u64 option" where
  "lib_strpbrk s1 s2 m = (if m s1 = 0 then Some 0 else strpbrk_loop s1 s2 s2 m)"

partial_function (option) strrchr_loop :: "u64 \<Rightarrow> u8 \<Rightarrow> u64 \<Rightarrow> bmem \<Rightarrow> u64 option" where
  "strrchr_loop s c found m =
     (if m s \<noteq> 0 then strrchr_loop (s + 1) c (if m s = c then s else found) m else Some found)"

definition lib_strrchr :: "u64 \<Rightarrow> u8 \<Rightarrow> bmem \<Rightarrow> u64 option" where
  "lib_strrchr s c m = strrchr_loop s c 0 m"

text \<open>\<open>lib_strsep\<close>: the token, the rest and the memory in which the token is terminated.\<close>

definition lib_strsep :: "u64 \<Rightarrow> u64 \<Rightarrow> bmem \<Rightarrow> (u64 \<times> u64 \<times> bmem) option" where
  "lib_strsep s delim m =
     (if s = 0 then Some (0, s, m)
      else case lib_strpbrk s delim m of None \<Rightarrow> None
      | Some e \<Rightarrow> if e \<noteq> 0 then Some (s, e + 1, m(e := 0)) else Some (s, e, m))"

partial_function (option) lib_strspn :: "u64 \<Rightarrow> u64 \<Rightarrow> bmem \<Rightarrow> nat option" where
  "lib_strspn s1 s2 m =
     (if m s1 \<noteq> 0
      then Option.bind (find_char s2 (m s1) m)
             (\<lambda>c. if m c = 0 then Some 0 else Option.bind (lib_strspn (s1 + 1) s2 m) (\<lambda>n. Some (Suc n)))
      else Some 0)"

definition lib_strstr :: "u64 \<Rightarrow> u64 \<Rightarrow> bmem \<Rightarrow> u64 option" where
  "lib_strstr haystack needle m =
     Option.bind (lib_strlen haystack m) (\<lambda>n. Option.bind (lib_strlen needle m) (\<lambda>k. Some (lib_memmem haystack n needle k m)))"


section \<open>Searching\<close>

lemma memcmp_eq: "lib_memcmp n a b m = 0 \<longleftrightarrow> (\<forall>t < n. m (a + of_nat t) = m (b + of_nat t))"
proof (induction n arbitrary: a b)
  case (Suc n)
  have "(\<forall>t < Suc n. m (a + of_nat t) = m (b + of_nat t)) \<longleftrightarrow>
      m a = m b \<and> (\<forall>t < n. m (a + 1 + of_nat t) = m (b + 1 + of_nat t))"
    by (auto simp: less_Suc_eq_0_disj algebra_simps)
  then show ?case using Suc by (simp add: Let_def word_uint_eq_iff)
qed simp

definition occurs :: "u64 \<Rightarrow> nat \<Rightarrow> u64 \<Rightarrow> nat \<Rightarrow> bmem \<Rightarrow> nat \<Rightarrow> bool" where
  "occurs y n x sz m i \<longleftrightarrow> i + sz \<le> n \<and> (\<forall>t < sz. m (y + of_nat i + of_nat t) = m (x + of_nat t))"

definition first_occurrence :: "u64 \<Rightarrow> nat \<Rightarrow> u64 \<Rightarrow> nat \<Rightarrow> bmem \<Rightarrow> u64 \<Rightarrow> bool" where
  "first_occurrence y n x sz m r \<longleftrightarrow>
     (\<exists>i. occurs y n x sz m i \<and> (\<forall>j < i. \<not> occurs y n x sz m j) \<and> r = y + of_nat i) \<or>
     (r = 0 \<and> (\<forall>i. \<not> occurs y n x sz m i))"

lemma occurs_two:
  assumes "2 \<le> sz"
  shows "occurs y n x sz m j \<longleftrightarrow> j + sz \<le> n \<and> m x = m (y + of_nat j) \<and> m (x + 1) = m (y + of_nat j + 1) \<and>
     lib_memcmp (sz - 2) (x + 2) (y + of_nat j + 2) m = 0"
proof -
  obtain s where s: "sz = Suc (Suc s)" using assms by (metis Suc_le_D numeral_2_eq_2 Suc_le_mono)
  have split: "(\<forall>t < Suc (Suc s). P t) \<longleftrightarrow> P 0 \<and> P 1 \<and> (\<forall>t < s. P (Suc (Suc t)))" for P :: "nat \<Rightarrow> bool"
    by (auto simp: less_Suc_eq_0_disj)
  have shift: "a + of_nat (Suc (Suc t)) = a + 2 + of_nat t" for a :: u64 and t by simp
  show ?thesis
    unfolding occurs_def s split shift memcmp_eq by (auto simp: eq_commute)
qed

lemma memmem_loop_first:
  assumes "2 \<le> sz" "sz \<le> n" "if m x = m (x + 1) then k = 2 \<and> l = 1 else k = 1 \<and> l = 2"
    and "\<forall>i < j. \<not> occurs y n x sz m i"
  shows "first_occurrence y n x sz m (memmem_loop k l y n x sz j m)"
  using assms
proof (induction k l y n x sz j m rule: memmem_loop.induct)
  case (1 k l y n x sz j m)
  have kl: "k \<noteq> 0" "l \<noteq> 0" using 1(5) by (auto split: if_splits)
  note two = occurs_two [OF 1(3), of y n x m]
  show ?case
  proof (cases "j > n - sz")
    case True
    have "\<not> occurs y n x sz m i" for i
    proof (cases "i < j")
      case False
      then show ?thesis using True by (auto simp: occurs_def)
    qed (use 1(6) in simp)
    then show ?thesis using True by (subst memmem_loop.simps) (simp add: first_occurrence_def)
  next
    case False
    show ?thesis
    proof (cases "m (x + 1) = m (y + of_nat j + 1)")
      case mis: False
      have "\<not> occurs y n x sz m i" if ij: "i < j + k" for i
      proof -
        have "k = 1 \<or> k = 2" using 1(5) by (auto split: if_splits)
        then consider "i < j" | "i = j" | "i = Suc j" "k = 2" using ij by linarith
        then show ?thesis
        proof cases
          case 3
          then have "m x = m (x + 1)" using 1(5) by (auto split: if_splits)
          then show ?thesis using two [of "Suc j"] mis 3 by (auto simp: algebra_simps)
        qed (use 1(6) two [of j] mis in auto)
      qed
      moreover have "memmem_loop k l y n x sz j m = memmem_loop k l y n x sz (j + k) m"
        using mis kl False by (subst memmem_loop.simps) simp
      ultimately show ?thesis using 1(1) [OF _ mis] kl False 1(3-5) by simp
    next
      case eq: True
      show ?thesis
      proof (cases "lib_memcmp (sz - 2) (x + 2) (y + of_nat j + 2) m = 0 \<and> m x = m (y + of_nat j)")
        case True
        then have "occurs y n x sz m j" using two [of j] eq False 1(4) by auto
        then show ?thesis using True eq False kl 1(6)
          by (subst memmem_loop.simps) (auto simp: first_occurrence_def)
      next
        case no: False
        have "\<not> occurs y n x sz m i" if ij: "i < j + l" for i
        proof -
          have "l = 1 \<or> l = 2" using 1(5) by (auto split: if_splits)
          then consider "i < j" | "i = j" | "i = Suc j" "l = 2" using ij by linarith
          then show ?thesis
          proof cases
            case 3
            then have "m x \<noteq> m (x + 1)" using 1(5) by (auto split: if_splits)
            then show ?thesis using two [of "Suc j"] eq 3 by (auto simp: algebra_simps)
          qed (use 1(6) two [of j] no in auto)
        qed
        moreover have "memmem_loop k l y n x sz j m = memmem_loop k l y n x sz (j + l) m"
          using eq no kl False by (subst memmem_loop.simps) auto
        ultimately show ?thesis using 1(2) [OF _ _ no] eq kl False 1(3-5) by simp
      qed
    qed
  qed
qed

lemma memchr_first: "first_occurrence y n x 1 m (lib_memchr n y (m x) m)"
proof (induction n arbitrary: y)
  case 0
  show ?case by (simp add: first_occurrence_def occurs_def)
next
  case (Suc n)
  have shift: "occurs y (Suc n) x 1 m (Suc i) \<longleftrightarrow> occurs (y + 1) n x 1 m i" for i
    by (auto simp: occurs_def algebra_simps)
  show ?case
  proof (cases "m y = m x")
    case True
    then have "occurs y (Suc n) x 1 m 0" by (simp add: occurs_def)
    then show ?thesis using True by (auto simp: first_occurrence_def)
  next
    case False
    then have z: "\<not> occurs y (Suc n) x 1 m 0" by (simp add: occurs_def)
    have r: "lib_memchr (Suc n) y (m x) m = lib_memchr n (y + 1) (m x) m" using False by simp
    from Suc [of "y + 1"] show ?thesis unfolding r first_occurrence_def
    proof (elim disjE exE conjE)
      fix i assume i: "occurs (y + 1) n x 1 m i" "\<forall>j < i. \<not> occurs (y + 1) n x 1 m j" "lib_memchr n (y + 1) (m x) m = y + 1 + of_nat i"
      have "occurs y (Suc n) x 1 m (Suc i)" "\<forall>j < Suc i. \<not> occurs y (Suc n) x 1 m j"
        using i shift z by (auto simp: less_Suc_eq_0_disj)
      then show "(\<exists>i. occurs y (Suc n) x 1 m i \<and> (\<forall>j<i. \<not> occurs y (Suc n) x 1 m j) \<and> lib_memchr n (y + 1) (m x) m = y + of_nat i) \<or>
          (lib_memchr n (y + 1) (m x) m = 0 \<and> (\<forall>i. \<not> occurs y (Suc n) x 1 m i))"
        using i(3) by (intro disjI1 exI [of _ "Suc i"]) (simp add: algebra_simps)
    next
      assume a: "lib_memchr n (y + 1) (m x) m = 0" "\<forall>i. \<not> occurs (y + 1) n x 1 m i"
      have "\<not> occurs y (Suc n) x 1 m i" for i using a(2) shift z by (cases i) auto
      then show "(\<exists>i. occurs y (Suc n) x 1 m i \<and> (\<forall>j<i. \<not> occurs y (Suc n) x 1 m j) \<and> lib_memchr n (y + 1) (m x) m = y + of_nat i) \<or>
          (lib_memchr n (y + 1) (m x) m = 0 \<and> (\<forall>i. \<not> occurs y (Suc n) x 1 m i))"
        using a(1) by blast
    qed
  qed
qed

text \<open>
  C33: The search with variable steps of \<open>lib_memmem\<close> finds the first occurrence of a string that is not
  empty, or reports that there is none.
\<close>
theorem memmem_first_occurrence:
  assumes "0 < sz"
  shows "(\<exists>i. occurs y n x sz m i \<and> (\<forall>j < i. \<not> occurs y n x sz m j) \<and> lib_memmem y n x sz m = y + of_nat i) \<or>
    (lib_memmem y n x sz m = 0 \<and> (\<forall>i. \<not> occurs y n x sz m i))"
proof -
  have "first_occurrence y n x sz m (lib_memmem y n x sz m)"
  proof (cases "sz > n \<or> n = 0")
    case True
    then have "\<forall>i. \<not> occurs y n x sz m i" using assms by (auto simp: occurs_def)
    then show ?thesis using True by (auto simp: lib_memmem_def first_occurrence_def)
  next
    case False
    show ?thesis
    proof (cases "sz = 1")
      case True
      then show ?thesis using memchr_first [of y n x m] False by (simp add: lib_memmem_def)
    next
      case two: False
      then have "2 \<le> sz" using assms by simp
      then show ?thesis using memmem_loop_first [of sz n m x 2 1 0 y] memmem_loop_first [of sz n m x 1 2 0 y] False two
        by (auto simp: lib_memmem_def)
    qed
  qed
  then show ?thesis by (simp only: first_occurrence_def)
qed

theorem memmem_first_occurrence_witness:
  "lib_memmem 0x100 4 0x200 2 (\<lambda>a. if a = 0x102 \<or> a = 0x103 \<or> a = 0x200 \<or> a = 0x201 then 1 else 0) \<noteq> 0"
proof -
  let ?m = "\<lambda>a :: u64. if a = 0x102 \<or> a = 0x103 \<or> a = 0x200 \<or> a = 0x201 then 1 else 0 :: u8"
  have "occurs 0x100 4 0x200 2 ?m 2" by (auto simp: occurs_def less_Suc_eq numeral_2_eq_2)
  with memmem_first_occurrence [of 2 "0x100" 4 "0x200" ?m] obtain i where
    i: "occurs 0x100 4 0x200 2 ?m i" "lib_memmem 0x100 4 0x200 2 ?m = 0x100 + of_nat i" by auto
  have "i \<le> 2" using i(1) by (simp add: occurs_def)
  then have "i = 0 \<or> i = 1 \<or> i = 2" by auto
  then show ?thesis using i(2) by auto
qed


section \<open>Moving\<close>

lemma unat_minus_Suc:
  fixes d :: u64
  assumes "d \<noteq> 0"
  shows "unat (d - 1) = unat d - 1"
  using assms by (simp add: unat_sub word_le_nat_alt unat_gt_0 Suc_leI)

lemma memcpy_forward:
  assumes "n \<le> unat (q - p) \<or> q = p" "n \<le> 2 ^ 64"
  shows "lib_memcpy n q p m a = (if unat (a - q) < n then m (p + (a - q)) else m a)"
  using assms
proof (induction n arbitrary: q p m)
  case (Suc n)
  let ?m = "m(q := m p)"
  have IH: "lib_memcpy (Suc n) q p m a = (if unat (a - q - 1) < n then ?m (p + (a - q)) else ?m a)"
  proof -
    have e: "q + 1 - (p + 1) = q - p" "a - (q + 1) = a - q - 1" "p + 1 + (a - q - 1) = p + (a - q)" by simp_all
    have "n \<le> unat (q + 1 - (p + 1)) \<or> q + 1 = p + 1" unfolding e using Suc.prems(1) by auto
    from Suc.IH [OF this, of ?m] Suc.prems(2) show ?thesis unfolding e by (simp del: fun_upd_apply)
  qed
  show ?case
  proof (cases "a = q")
    case True
    have "unat (- 1 :: u64) = 2 ^ 64 - 1" by (simp add: unsigned_minus_1_eq_mask mask_eq_exp_minus_1)
    then show ?thesis using IH True Suc.prems(2) by auto
  next
    case False
    then have d: "unat (a - q - 1) = unat (a - q) - 1" "0 < unat (a - q)"
      by (simp_all add: unat_minus_Suc unat_gt_0)
    have "p + (a - q) \<noteq> q" if "unat (a - q) < Suc n"
    proof
      assume e: "p + (a - q) = q"
      then have "a - q = q - p" by (simp add: algebra_simps)
      then show False using that Suc.prems(1) False by auto
    qed
    then show ?thesis using IH d False by auto
  qed
qed simp

lemma copy_down_backward:
  assumes "n \<le> unat (p - q) \<or> q = p" "n \<le> 2 ^ 64"
  shows "copy_down n q p m a = (if unat (q - 1 - a) < n then m (p - (q - a)) else m a)"
  using assms
proof (induction n arbitrary: q p m)
  case (Suc n)
  let ?m = "m(q - 1 := m (p - 1))"
  have IH: "copy_down (Suc n) q p m a = (if unat (q - 1 - a - 1) < n then ?m (p - (q - a)) else ?m a)"
  proof -
    have e: "p - 1 - (q - 1) = p - q" "q - 1 - 1 - a = q - 1 - a - 1" "p - 1 - (q - 1 - a) = p - (q - a)" by simp_all
    have "n \<le> unat (p - 1 - (q - 1)) \<or> q - 1 = p - 1" unfolding e using Suc.prems(1) by auto
    from Suc.IH [OF this, of ?m] Suc.prems(2) show ?thesis unfolding e by (simp del: fun_upd_apply)
  qed
  show ?case
  proof (cases "a = q - 1")
    case True
    have "unat (- 1 :: u64) = 2 ^ 64 - 1" by (simp add: unsigned_minus_1_eq_mask mask_eq_exp_minus_1)
    then show ?thesis using IH True Suc.prems(2) by auto
  next
    case False
    then have z: "q - 1 - a \<noteq> 0" by auto
    then have d: "unat (q - 1 - a - 1) = unat (q - 1 - a) - 1" "0 < unat (q - 1 - a)"
      using unat_minus_Suc [of "q - 1 - a"] by (simp_all only: unat_gt_0 simp_thms)
    have "p - (q - a) \<noteq> q - 1" if "unat (q - 1 - a) < Suc n"
    proof
      assume e: "p - (q - a) = q - 1"
      then have "q - 1 - a = p - q" by (simp add: algebra_simps)
      then have "unat (p - q) < Suc n" "p - q \<noteq> 0" using that z by metis+
      then show False using Suc.prems(1) by auto
    qed
    then show ?thesis using IH d False by auto
  qed
qed simp

lemma unat_gap:
  fixes a b :: u64
  assumes "a < b" "unat b + n \<le> 2 ^ 64"
  shows "n \<le> unat (a - b)"
  using assms by (simp add: unat_sub_if' word_less_nat_alt)

text \<open>
  \<open>lib_memmove\<close> copies its \<open>n\<close> bytes as they were before the call, also where the two ranges
  overlap, and leaves every other byte as it was.
\<close>
theorem memmove_correct:
  assumes "unat dst + n \<le> 2 ^ 64" "unat src + n \<le> 2 ^ 64"
  shows "lib_memmove n dst src m a = (if unat (a - dst) < n then m (src + (a - dst)) else m a)"
proof (cases "dst < src")
  case True
  then show ?thesis using memcpy_forward [of n dst src m a] unat_gap [of dst src n] assms
    by (simp add: lib_memmove_def)
next
  case False
  then have g: "n \<le> unat (src - dst) \<or> dst = src"
    using unat_gap [of src dst n] assms(1) by (cases "src = dst") auto
  have "copy_down n (dst + of_nat n) (src + of_nat n) m a =
      (if unat (of_nat n - 1 - (a - dst)) < n then m (src + (a - dst)) else m a)"
    using copy_down_backward [of n "src + of_nat n" "dst + of_nat n" m a] g assms(1)
    by (simp add: algebra_simps)
  moreover have "unat (of_nat n - 1 - (a - dst)) < n \<longleftrightarrow> unat (a - dst) < n"
  proof (cases n)
    case (Suc k)
    then have "k < 2 ^ 64" using assms(1) by simp
    then have "unat (of_nat k :: u64) = k" by (simp add: unat_of_nat)
    moreover have "unat (a - dst) < 2 ^ 64" using unsigned_less [of "a - dst", where 'a=nat] by simp
    ultimately have "unat (of_nat k - (a - dst)) < Suc k \<longleftrightarrow> unat (a - dst) < Suc k"
      by (auto simp add: unat_sub_if')
    then show ?thesis using Suc by simp
  qed simp
  ultimately show ?thesis using False by (simp add: lib_memmove_def)
qed

theorem memmove_correct_witness:
  "lib_memmove 4 0x102 0x100 (\<lambda>a. ucast a) 0x104 = 2"
  using memmove_correct [of "0x102" 4 "0x100" "\<lambda>a. ucast a" "0x104"] by simp

end
