(* ===== verification/Sha256.thy ===== *)
theory Sha256
  imports Prelude
begin

text \<open>
  The SHA-256 of \<^verbatim>\<open>kernel/base/sha256.c\<close>, with which the super key's hash is checked, and the proof that
  it computes the digest of the standard: the message schedule and rounds of FIPS 180, the padding,
  and the concatenation of the pieces in which the message is given.
\<close>

section \<open>The code\<close>

record sha_ctx =
  sha_data :: "u8 list"
  datalen :: u32
  bitlen :: u64
  sha_state :: "u32 list"

definition ROTRIGHT :: "u32 \<Rightarrow> nat \<Rightarrow> u32" where
  "ROTRIGHT a b = drop_bit b a OR push_bit (32 - b) a"

definition CH :: "u32 \<Rightarrow> u32 \<Rightarrow> u32 \<Rightarrow> u32" where
  "CH x y z = (x AND y) XOR (NOT x AND z)"

definition MAJ :: "u32 \<Rightarrow> u32 \<Rightarrow> u32 \<Rightarrow> u32" where
  "MAJ x y z = (x AND y) XOR (x AND z) XOR (y AND z)"

definition EP0 :: "u32 \<Rightarrow> u32" where
  "EP0 x = ROTRIGHT x 2 XOR ROTRIGHT x 13 XOR ROTRIGHT x 22"

definition EP1 :: "u32 \<Rightarrow> u32" where
  "EP1 x = ROTRIGHT x 6 XOR ROTRIGHT x 11 XOR ROTRIGHT x 25"

definition SIG0 :: "u32 \<Rightarrow> u32" where
  "SIG0 x = ROTRIGHT x 7 XOR ROTRIGHT x 18 XOR drop_bit 3 x"

definition SIG1 :: "u32 \<Rightarrow> u32" where
  "SIG1 x = ROTRIGHT x 17 XOR ROTRIGHT x 19 XOR drop_bit 10 x"

definition sha_k :: "u32 list" where
  "sha_k =
   [0x428a2f98, 0x71374491, 0xb5c0fbcf, 0xe9b5dba5, 0x3956c25b, 0x59f111f1, 0x923f82a4, 0xab1c5ed5,
    0xd807aa98, 0x12835b01, 0x243185be, 0x550c7dc3, 0x72be5d74, 0x80deb1fe, 0x9bdc06a7, 0xc19bf174,
    0xe49b69c1, 0xefbe4786, 0x0fc19dc6, 0x240ca1cc, 0x2de92c6f, 0x4a7484aa, 0x5cb0a9dc, 0x76f988da,
    0x983e5152, 0xa831c66d, 0xb00327c8, 0xbf597fc7, 0xc6e00bf3, 0xd5a79147, 0x06ca6351, 0x14292967,
    0x27b70a85, 0x2e1b2138, 0x4d2c6dfc, 0x53380d13, 0x650a7354, 0x766a0abb, 0x81c2c92e, 0x92722c85,
    0xa2bfe8a1, 0xa81a664b, 0xc24b8b70, 0xc76c51a3, 0xd192e819, 0xd6990624, 0xf40e3585, 0x106aa070,
    0x19a4c116, 0x1e376c08, 0x2748774c, 0x34b0bcb5, 0x391c0cb3, 0x4ed8aa4a, 0x5b9cca4f, 0x682e6ff3,
    0x748f82ee, 0x78a5636f, 0x84c87814, 0x8cc70208, 0x90befffa, 0xa4506ceb, 0xbef9a3f7, 0xc67178f2]"

text \<open>The array \<open>m\<close> of \<open>sha256_transform\<close>, filled from the front.\<close>

definition first_words :: "u8 list \<Rightarrow> u32 list" where
  "first_words d = map (\<lambda>i. push_bit 24 (ucast (d ! (4 * i))) OR push_bit 16 (ucast (d ! (4 * i + 1))) OR
     push_bit 8 (ucast (d ! (4 * i + 2))) OR ucast (d ! (4 * i + 3))) [0..<16]"

definition next_word :: "u32 list \<Rightarrow> nat \<Rightarrow> u32 list" where
  "next_word m i = m @ [SIG1 (m ! (i - 2)) + m ! (i - 7) + SIG0 (m ! (i - 15)) + m ! (i - 16)]"

fun sha_round :: "u32 list \<Rightarrow> u32 list \<Rightarrow> nat \<Rightarrow> u32 list" where
  "sha_round m [a, b, c, d, e, f, g, h] i =
     (let t1 = h + EP1 e + CH e f g + sha_k ! i + m ! i; t2 = EP0 a + MAJ a b c
      in [t1 + t2, a, b, c, d + t1, e, f, g])"
| "sha_round m v i = v"

definition sha256_transform :: "u8 list \<Rightarrow> sha_ctx \<Rightarrow> sha_ctx" where
  "sha256_transform d ctx =
     (let m = foldl next_word (first_words d) [16..<64]
      in ctx\<lparr>sha_state := map2 (+) (sha_state ctx) (foldl (sha_round m) (sha_state ctx) [0..<64])\<rparr>)"

definition sha_init_state :: "u32 list" where
  "sha_init_state =
     [0x6a09e667, 0xbb67ae85, 0x3c6ef372, 0xa54ff53a, 0x510e527f, 0x9b05688c, 0x1f83d9ab, 0x5be0cd19]"

definition sha256_init :: "sha_ctx \<Rightarrow> sha_ctx" where
  "sha256_init ctx = ctx\<lparr>datalen := 0, bitlen := 0, sha_state := sha_init_state\<rparr>"

definition update_byte :: "sha_ctx \<Rightarrow> u8 \<Rightarrow> sha_ctx" where
  "update_byte ctx b =
     (let ctx = ctx\<lparr>sha_data := (sha_data ctx)[unat (datalen ctx) := b], datalen := datalen ctx + 1\<rparr>
      in if datalen ctx = 64
         then let ctx = sha256_transform (sha_data ctx) ctx in ctx\<lparr>bitlen := bitlen ctx + 512, datalen := 0\<rparr>
         else ctx)"

text \<open>The counter has 32 bits, the length 64.\<close>

partial_function (option) update_loop :: "u32 \<Rightarrow> (nat \<Rightarrow> u8) \<Rightarrow> u64 \<Rightarrow> sha_ctx \<Rightarrow> sha_ctx option" where
  "update_loop i d len ctx =
     (if ucast i < len then update_loop (i + 1) d len (update_byte ctx (d (unat i))) else Some ctx)"

definition sha256_update :: "(nat \<Rightarrow> u8) \<Rightarrow> u64 \<Rightarrow> sha_ctx \<Rightarrow> sha_ctx option" where
  "sha256_update d len ctx = update_loop 0 d len ctx"

text \<open>Writing the bytes \<open>bs\<close> from position \<open>i\<close> on.\<close>

primrec put_bytes :: "nat \<Rightarrow> u8 list \<Rightarrow> u8 list \<Rightarrow> u8 list" where
  "put_bytes i [] d = d"
| "put_bytes i (b # bs) d = put_bytes (Suc i) bs (d[i := b])"

definition length_bytes :: "u64 \<Rightarrow> u8 list" where
  "length_bytes n = map (\<lambda>i. ucast (drop_bit (56 - 8 * i) n)) [0..<8]"

definition hash_bytes :: "u32 list \<Rightarrow> u8 list" where
  "hash_bytes s = map (\<lambda>j. ucast (drop_bit (24 - (j mod 4) * 8) (s ! (j div 4)) AND 0x000000ff)) [0..<32]"

definition sha256_final :: "sha_ctx \<Rightarrow> sha_ctx \<times> u8 list" where
  "sha256_final ctx =
     (let i = unat (datalen ctx);
          ctx = (if datalen ctx < 56
                 then ctx\<lparr>sha_data := put_bytes i (0x80 # replicate (55 - i) 0) (sha_data ctx)\<rparr>
                 else let d = put_bytes i (0x80 # replicate (63 - i) 0) (sha_data ctx);
                          ctx = sha256_transform d (ctx\<lparr>sha_data := d\<rparr>)
                      in ctx\<lparr>sha_data := put_bytes 0 (replicate 56 0) (sha_data ctx)\<rparr>);
          ctx = ctx\<lparr>bitlen := bitlen ctx + ucast (datalen ctx * 8)\<rparr>;
          ctx = ctx\<lparr>sha_data := put_bytes 56 (length_bytes (bitlen ctx)) (sha_data ctx)\<rparr>;
          ctx = sha256_transform (sha_data ctx) ctx
      in (ctx, hash_bytes (sha_state ctx)))"

section \<open>The standard\<close>

text \<open>
  Blocks, schedule, rounds and padding as FIPS 180 gives them, over messages that are whole bytes.
  The functions of the standard rotate words; \<open>W\<close> is a recursion.
\<close>

definition fips_Sigma0 :: "u32 \<Rightarrow> u32" where
  "fips_Sigma0 x = word_rotr 2 x XOR word_rotr 13 x XOR word_rotr 22 x"

definition fips_Sigma1 :: "u32 \<Rightarrow> u32" where
  "fips_Sigma1 x = word_rotr 6 x XOR word_rotr 11 x XOR word_rotr 25 x"

definition fips_sigma0 :: "u32 \<Rightarrow> u32" where
  "fips_sigma0 x = word_rotr 7 x XOR word_rotr 18 x XOR drop_bit 3 x"

definition fips_sigma1 :: "u32 \<Rightarrow> u32" where
  "fips_sigma1 x = word_rotr 17 x XOR word_rotr 19 x XOR drop_bit 10 x"

definition big_endian :: "u8 list \<Rightarrow> u32" where
  "big_endian bs = foldl (\<lambda>w b. 256 * w + ucast b) 0 bs"

fun fips_W :: "u8 list \<Rightarrow> nat \<Rightarrow> u32" where
  "fips_W B t =
     (if t < 16 then big_endian (take 4 (drop (4 * t) B))
      else fips_sigma1 (fips_W B (t - 2)) + fips_W B (t - 7) + fips_sigma0 (fips_W B (t - 15)) + fips_W B (t - 16))"

declare fips_W.simps [simp del]

fun fips_step :: "u8 list \<Rightarrow> u32 \<times> u32 \<times> u32 \<times> u32 \<times> u32 \<times> u32 \<times> u32 \<times> u32 \<Rightarrow> nat \<Rightarrow>
    u32 \<times> u32 \<times> u32 \<times> u32 \<times> u32 \<times> u32 \<times> u32 \<times> u32" where
  "fips_step B (a, b, c, d, e, f, g, h) t =
     (let T1 = h + fips_Sigma1 e + ((e AND f) XOR (NOT e AND g)) + sha_k ! t + fips_W B t;
          T2 = fips_Sigma0 a + ((a AND b) XOR (a AND c) XOR (b AND c))
      in (T1 + T2, a, b, c, d + T1, e, f, g))"

fun fips_compress :: "u8 list \<Rightarrow> u32 \<times> u32 \<times> u32 \<times> u32 \<times> u32 \<times> u32 \<times> u32 \<times> u32 \<Rightarrow>
    u32 \<times> u32 \<times> u32 \<times> u32 \<times> u32 \<times> u32 \<times> u32 \<times> u32" where
  "fips_compress B (h0, h1, h2, h3, h4, h5, h6, h7) =
     (case foldl (fips_step B) (h0, h1, h2, h3, h4, h5, h6, h7) [0..<64] of
        (a, b, c, d, e, f, g, h) \<Rightarrow> (h0 + a, h1 + b, h2 + c, h3 + d, h4 + e, h5 + f, h6 + g, h7 + h))"

text \<open>The message, a one bit, zeros and the length in bits as 64 bits, to a multiple of 64 bytes.\<close>

definition fips_pad :: "u8 list \<Rightarrow> u8 list" where
  "fips_pad msg = msg @ [0x80] @ replicate ((119 - length msg mod 64) mod 64) 0 @
     map (\<lambda>i. word_of_nat (8 * length msg div 256 ^ (7 - i))) [0..<8]"

fun fips_blocks :: "u8 list \<Rightarrow> u8 list list" where
  "fips_blocks xs = (if length xs < 64 then [] else take 64 xs # fips_blocks (drop 64 xs))"

declare fips_blocks.simps [simp del]

fun fips_bytes :: "u32 \<times> u32 \<times> u32 \<times> u32 \<times> u32 \<times> u32 \<times> u32 \<times> u32 \<Rightarrow> u8 list" where
  "fips_bytes (h0, h1, h2, h3, h4, h5, h6, h7) =
     concat (map (\<lambda>w. map (\<lambda>i. word_of_nat (unat w div 256 ^ (3 - i))) [0..<4]) [h0, h1, h2, h3, h4, h5, h6, h7])"

definition fips_sha256 :: "u8 list \<Rightarrow> u8 list" where
  "fips_sha256 msg = fips_bytes (foldl (\<lambda>H B. fips_compress B H)
     (0x6a09e667, 0xbb67ae85, 0x3c6ef372, 0xa54ff53a, 0x510e527f, 0x9b05688c, 0x1f83d9ab, 0x5be0cd19)
     (fips_blocks (fips_pad msg)))"


section \<open>Agreement\<close>

lemma ROTRIGHT_rotr:
  assumes "0 < n" "n < 32"
  shows "ROTRIGHT x n = word_rotr n x"
proof (rule bit_word_eqI)
  fix i assume "i < LENGTH(32)"
  then show "bit (ROTRIGHT x n) i = bit (word_rotr n x) i"
    using assms by (auto simp: ROTRIGHT_def bit_simps mod_if not_le add.commute [of i] dest: bit_imp_le_length)
qed

lemma sigmas:
  "EP0 = fips_Sigma0" "EP1 = fips_Sigma1" "SIG0 = fips_sigma0" "SIG1 = fips_sigma1"
  by (simp_all add: fun_eq_iff EP0_def EP1_def SIG0_def SIG1_def fips_Sigma0_def fips_Sigma1_def
      fips_sigma0_def fips_sigma1_def ROTRIGHT_rotr)

lemma shift_add_or:
  fixes w :: u32
  shows "256 * w + ucast (b :: u8) = push_bit 8 w OR ucast b"
proof -
  have "\<not> bit b n" if "8 \<le> n" for n using that bit_imp_le_length [of b n] by auto
  then have "push_bit 8 w AND ucast b = 0" by (auto intro!: bit_word_eqI simp: bit_simps)
  then have "push_bit 8 w OR ucast b = push_bit 8 w + ucast b" by (simp add: disjunctive_add_eq_or)
  then show ?thesis by (simp add: push_bit_eq_mult)
qed

lemma first_words_nth:
  assumes "i < 16" "length d = 64"
  shows "first_words d ! i = big_endian (take 4 (drop (4 * i) d))"
proof -
  have s: "drop (4 * i) d = d ! (4 * i) # d ! (4 * i + 1) # d ! (4 * i + 2) # d ! (4 * i + 3) # drop (4 * i + 4) d"
    using assms by (simp add: Cons_nth_drop_Suc numeral_eq_Suc)
  show ?thesis unfolding s
    using assms(1) by (simp add: first_words_def big_endian_def shift_add_or push_bit_or or.assoc)
qed

definition schedule :: "u8 list \<Rightarrow> nat \<Rightarrow> u32 list" where
  "schedule d n = foldl next_word (first_words d) [16..<16 + n]"

lemma schedule_Suc: "schedule d (Suc n) = next_word (schedule d n) (16 + n)"
  by (simp only: schedule_def add_Suc_right upt_Suc_append le_add1 foldl_append foldl.simps)

lemma schedule_W:
  assumes "length d = 64"
  shows "length (schedule d n) = 16 + n \<and> (\<forall>t < 16 + n. schedule d n ! t = fips_W d t)"
proof (induction n)
  case 0
  show ?case using first_words_nth [OF _ assms] by (auto simp: schedule_def first_words_def fips_W.simps [of d])
next
  case (Suc n)
  have "t < 16 + Suc n \<longleftrightarrow> t < 16 + n \<or> t = 16 + n" for t by auto
  then show ?case using Suc fips_W.simps [of d "16 + n"]
    by (auto simp: schedule_Suc next_word_def nth_append sigmas)
qed

fun st_list :: "u32 \<times> u32 \<times> u32 \<times> u32 \<times> u32 \<times> u32 \<times> u32 \<times> u32 \<Rightarrow> u32 list" where
  "st_list (a, b, c, d, e, f, g, h) = [a, b, c, d, e, f, g, h]"

lemma tuple8:
  obtains a b c d e f g h where "H = (a, b, c, d, e, f, g, h)"
  by (metis surj_pair)

lemma rounds_step:
  assumes "\<forall>t < n. m ! t = fips_W B t"
  shows "foldl (sha_round m) (st_list H) [0..<n] = st_list (foldl (fips_step B) H [0..<n])"
  using assms
proof (induction n)
  case (Suc n)
  obtain a b c d e f g h where f: "foldl (fips_step B) H [0..<n] = (a, b, c, d, e, f, g, h)" by (rule tuple8 [of "foldl (fips_step B) H [0..<n]"])
  show ?case using Suc by (simp add: f Let_def CH_def MAJ_def sigmas)
qed simp

lemma transform_compress:
  assumes "sha_state ctx = st_list H" "length B = 64"
  shows "sha256_transform B ctx = ctx\<lparr>sha_state := st_list (fips_compress B H)\<rparr>"
proof -
  obtain h0 h1 h2 h3 h4 h5 h6 h7 where H: "H = (h0, h1, h2, h3, h4, h5, h6, h7)" by (rule tuple8 [of H])
  obtain a b c d e f g h where f: "foldl (fips_step B) H [0..<64] = (a, b, c, d, e, f, g, h)" by (rule tuple8 [of "foldl (fips_step B) H [0..<64]"])
  have "foldl (sha_round (foldl next_word (first_words B) [16..<64])) (st_list H) [0..<64] = [a, b, c, d, e, f, g, h]"
    using rounds_step [of 64 _ B H] schedule_W [OF assms(2), of 48] f by (simp add: schedule_def del: upt_Suc)
  then show ?thesis using assms(1) f by (simp add: sha256_transform_def H del: upt_Suc)
qed


section \<open>Absorbing a message\<close>

lemma fips_blocks_append:
  assumes "64 dvd length xs"
  shows "fips_blocks (xs @ ys) = fips_blocks xs @ fips_blocks ys"
  using assms
proof (induction xs rule: fips_blocks.induct)
  case (1 xs)
  show ?case
  proof (cases "xs = []")
    case False
    then have l: "64 \<le> length xs" using 1(2) dvd_imp_le [of 64 "length xs"] by auto
    then have "64 dvd length (drop 64 xs)" using 1(2) by (simp add: dvd_minus_self)
    then show ?thesis using 1(1) l fips_blocks.simps [of xs] fips_blocks.simps [of "xs @ ys"] by simp
  qed (simp add: fips_blocks.simps [of "[]"])
qed

lemma fips_blocks_short: "length ys < 64 \<Longrightarrow> fips_blocks ys = []"
  by (simp add: fips_blocks.simps)

lemma fips_blocks_one: "length ys = 64 \<Longrightarrow> fips_blocks ys = [ys]"
  by (simp add: fips_blocks.simps [of ys] fips_blocks_short)

definition whole :: "u8 list \<Rightarrow> u8 list" where
  "whole msg = take (64 * (length msg div 64)) msg"

definition rest :: "u8 list \<Rightarrow> u8 list" where
  "rest msg = drop (64 * (length msg div 64)) msg"

lemma whole_rest: "msg = whole msg @ rest msg"
  by (simp add: whole_def rest_def)

lemma whole_length: "length (whole msg) = 64 * (length msg div 64)"
  by (simp add: whole_def min_absorb2)

lemma rest_length: "length (rest msg) = length msg mod 64"
  by (simp add: rest_def minus_mult_div_eq_mod)

lemma fips_blocks_rest: "fips_blocks (msg @ ys) = fips_blocks msg @ fips_blocks (rest msg @ ys)"
proof -
  have "fips_blocks (whole msg @ (rest msg @ ys)) = fips_blocks (whole msg) @ fips_blocks (rest msg @ ys)"
    "fips_blocks (whole msg @ rest msg) = fips_blocks (whole msg) @ fips_blocks (rest msg)"
    by (simp_all add: fips_blocks_append whole_length)
  moreover have "fips_blocks (rest msg) = []" by (simp add: fips_blocks_short rest_length)
  ultimately show ?thesis by (simp flip: whole_rest append_assoc)
qed

definition sha_iv :: "u32 \<times> u32 \<times> u32 \<times> u32 \<times> u32 \<times> u32 \<times> u32 \<times> u32" where
  "sha_iv = (0x6a09e667, 0xbb67ae85, 0x3c6ef372, 0xa54ff53a, 0x510e527f, 0x9b05688c, 0x1f83d9ab, 0x5be0cd19)"

definition chain :: "u8 list \<Rightarrow> u32 \<times> u32 \<times> u32 \<times> u32 \<times> u32 \<times> u32 \<times> u32 \<times> u32" where
  "chain msg = foldl (\<lambda>H B. fips_compress B H) sha_iv (fips_blocks msg)"

text \<open>What the context holds when the bytes \<open>msg\<close> have been given.\<close>

definition absorbed :: "u8 list \<Rightarrow> sha_ctx \<Rightarrow> bool" where
  "absorbed msg ctx \<longleftrightarrow> length (sha_data ctx) = 64 \<and> unat (datalen ctx) = length (rest msg) \<and>
     take (length (rest msg)) (sha_data ctx) = rest msg \<and>
     bitlen ctx = of_nat (8 * length (whole msg)) \<and> sha_state ctx = st_list (chain msg)"

lemma absorbed_init: "length (sha_data ctx) = 64 \<Longrightarrow> absorbed [] (sha256_init ctx)"
  by (simp add: absorbed_def sha256_init_def rest_def whole_def chain_def sha_iv_def sha_init_state_def
      fips_blocks_short)

lemma take_update_next: "n < length d \<Longrightarrow> take (Suc n) (d[n := b]) = take n d @ [b]"
  by (simp add: take_Suc_conv_app_nth)

lemma absorb_byte:
  assumes "absorbed msg ctx"
  shows "absorbed (msg @ [b]) (update_byte ctx b)"
proof -
  let ?r = "length (rest msg)"
  have r: "?r < 64" by (simp add: rest_length)
  note A = assms [unfolded absorbed_def]
  have n: "unat (datalen ctx + 1) = Suc ?r"
    using A r by (simp add: unat_word_ariths)
  have full: "datalen ctx + 1 = 64 \<longleftrightarrow> Suc ?r = 64"
    using n by (simp add: word_unat_eq_iff)
  have d: "take (Suc ?r) ((sha_data ctx)[?r := b]) = rest msg @ [b]"
    using A r by (simp add: take_update_next)
  have lm: "length msg = 64 * (length msg div 64) + ?r" by (simp add: rest_length)
  show ?thesis
  proof (cases "Suc ?r = 64")
    case False
    then have "length (msg @ [b]) div 64 = length msg div 64" using r lm
      by (simp add: rest_length div_Suc mod_Suc)
    then have q: "whole (msg @ [b]) = whole msg" "rest (msg @ [b]) = rest msg @ [b]"
      by (simp_all add: whole_def rest_def)
    have "chain (msg @ [b]) = chain msg"
      using r False by (simp add: chain_def fips_blocks_rest [of msg "[b]"] fips_blocks_short)
    then show ?thesis
      using A False full d n by (simp add: absorbed_def update_byte_def Let_def q)
  next
    case True
    then have "length (msg @ [b]) div 64 = Suc (length msg div 64)" by (simp add: rest_length div_Suc mod_Suc)
    then have q: "rest (msg @ [b]) = []" "length (whole (msg @ [b])) = length (whole msg) + 64"
      using True lm by (simp_all add: whole_length rest_def)
    let ?B = "rest msg @ [b]"
    have B: "(sha_data ctx)[?r := b] = ?B" "length ?B = 64" using d A True by simp_all
    have "chain (msg @ [b]) = fips_compress ?B (chain msg)"
      using True by (simp add: chain_def fips_blocks_rest [of msg "[b]"] fips_blocks_one)
    then show ?thesis
      using A full True B transform_compress [of "ctx\<lparr>sha_data := ?B, datalen := datalen ctx + 1\<rparr>" "chain msg" ?B]
      by (simp add: absorbed_def update_byte_def Let_def q)
  qed
qed

lemma unat_counter: "unat (ucast (i :: u32) :: u64) = unat i"
  using unat_bounds(2) [of i] by (simp add: unsigned_ucast_eq take_bit_nat_eq_self)

lemma update_loop_foldl:
  assumes "unat i \<le> n" "n < 2 ^ 32"
  shows "update_loop i d (of_nat n) ctx = Some (foldl update_byte ctx (map d [unat i..<n]))"
  using assms
proof (induction "n - unat i" arbitrary: i ctx)
  case 0
  then show ?case
    by (subst update_loop.simps) (simp add: word_less_nat_alt unat_of_nat_u64 unat_counter)
next
  case (Suc k)
  have lt: "unat i < n" using Suc by simp
  have s: "unat (i + 1) = Suc (unat i)" using lt Suc.prems(2) by (simp add: unat_word_ariths)
  have "update_loop i d (of_nat n) ctx = update_loop (i + 1) d (of_nat n) (update_byte ctx (d (unat i)))"
    using lt Suc.prems(2) by (subst update_loop.simps) (simp add: word_less_nat_alt unat_of_nat_u64 unat_counter)
  moreover have "map d [unat i..<n] = d (unat i) # map d [Suc (unat i)..<n]" using lt by (simp add: upt_conv_Cons)
  ultimately show ?case
    using Suc.hyps(1) [of "i + 1" "update_byte ctx (d (unat i))"] Suc.hyps(2) Suc.prems lt s by simp
qed

lemma absorb_bytes: "absorbed msg ctx \<Longrightarrow> absorbed (msg @ bs) (foldl update_byte ctx bs)"
proof (induction bs arbitrary: msg ctx)
  case (Cons b bs)
  show ?case using Cons.IH [OF absorb_byte [OF Cons.prems, of b]] by simp
qed simp

section \<open>The digest\<close>

lemma put_bytes_eq:
  "i + length bs \<le> length d \<Longrightarrow> put_bytes i bs d = take i d @ bs @ drop (i + length bs) d"
proof (induction bs arbitrary: i d)
  case (Cons b bs)
  then show ?case by (simp add: take_update_next)
qed simp

lemma ucast_byte: "(ucast (drop_bit k w) :: u8) = word_of_nat (unat w div 2 ^ k)"
  by (rule bit_word_eqI) (simp add: bit_simps flip: drop_bit_eq_div)

lemma hash_byte: "(ucast (drop_bit k (w :: u32) AND 0x000000ff) :: u8) = word_of_nat (unat w div 2 ^ k)"
proof -
  have m: "0xFF = (mask 8 :: u32)" by (simp add: mask_eq_exp_minus_1)
  have "(ucast (drop_bit k w AND 0x000000ff) :: u8) = ucast (drop_bit k w)"
    unfolding m by (auto intro!: bit_word_eqI simp: bit_simps)
  then show ?thesis by (simp add: ucast_byte)
qed

lemma hash_bytes_fips: "hash_bytes (st_list H) = fips_bytes H"
proof -
  obtain a b c d e f g h where H: "H = (a, b, c, d, e, f, g, h)" by (rule tuple8 [of H])
  have u: "[0..<32] = [0,1,2,3,4,5,6,7,8,9,10,11,12,13,14,15,16,17,18,19,20,21,22,23,24,25,26,27,28,29,30,31]"
    "[0..<4] = [0, 1, 2, 3]" by (simp_all add: upt_rec)
  show ?thesis unfolding H hash_bytes_def st_list.simps fips_bytes.simps hash_byte u
    by simp
qed

lemma length_bytes_fips:
  "length_bytes (of_nat n) = map (\<lambda>i. word_of_nat (n div 256 ^ (7 - i))) [0..<8]"
proof -
  have "ucast (drop_bit (56 - 8 * i) (of_nat n :: u64)) = (word_of_nat (n div 256 ^ (7 - i)) :: u8)" if "i < 8" for i
  proof -
    have "(256 :: nat) ^ (7 - i) = (2 ^ 8) ^ (7 - i)" by simp
    also have "\<dots> = 2 ^ (56 - 8 * i)" by (simp only: power_mult [symmetric] diff_mult_distrib2) simp
    finally have p: "(256 :: nat) ^ (7 - i) = 2 ^ (56 - 8 * i)" .
    show ?thesis unfolding p using that
      by (intro bit_word_eqI) (auto simp: bit_simps simp flip: drop_bit_eq_div)
  qed
  then show ?thesis by (simp add: length_bytes_def)
qed

definition length_field :: "u8 list \<Rightarrow> u8 list" where
  "length_field msg = map (\<lambda>i. word_of_nat (8 * length msg div 256 ^ (7 - i))) [0..<8]"

lemma final_blocks:
  "fips_sha256 msg = fips_bytes (foldl (\<lambda>H B. fips_compress B H) (chain msg)
     (fips_blocks (rest msg @ [0x80] @ replicate ((119 - length (rest msg)) mod 64) 0 @ length_field msg)))"
  unfolding fips_sha256_def fips_pad_def sha_iv_def [symmetric] length_field_def [symmetric]
  by (subst fips_blocks_rest) (simp add: chain_def rest_length)

lemma final_length:
  assumes "absorbed msg ctx"
  shows "length_bytes (bitlen ctx + ucast (datalen ctx * 8)) = length_field msg"
proof -
  have r: "length (rest msg) < 64" by (simp add: rest_length)
  have d: "datalen ctx = of_nat (length (rest msg))"
    using assms r by (simp add: absorbed_def word_unat_eq_iff unat_of_nat take_bit_nat_eq_self)
  have "unat (datalen ctx * 8) = 8 * length (rest msg)"
    using r by (simp add: d unat_word_ariths unat_of_nat take_bit_nat_eq_self)
  then have "ucast (datalen ctx * 8) = (of_nat (8 * length (rest msg)) :: u64)"
    using r by (simp add: word_unat_eq_iff unat_counter unat_of_nat_u64 del: of_nat_mult)
  moreover have "length msg = length (whole msg) + length (rest msg)"
    using arg_cong [OF whole_rest [of msg], of length] by simp
  ultimately have "bitlen ctx + ucast (datalen ctx * 8) = of_nat (8 * length msg)"
    using assms by (simp add: absorbed_def)
  then show ?thesis by (simp only: length_bytes_fips length_field_def)
qed

lemma final_absorbed:
  assumes A: "absorbed msg ctx"
  shows "snd (sha256_final ctx) = fips_sha256 msg"
proof -
  let ?r = "length (rest msg)" and ?L = "length_field msg"
  have r: "?r < 64" and L: "length ?L = 8" by (simp_all add: rest_length length_field_def)
  have u: "unat (datalen ctx) = ?r" and small: "datalen ctx < 56 \<longleftrightarrow> ?r < 56"
    and d: "length (sha_data ctx) = 64" "take ?r (sha_data ctx) = rest msg" and st: "sha_state ctx = st_list (chain msg)"
    using A by (simp_all add: absorbed_def word_less_nat_alt)
  show ?thesis
  proof (cases "?r < 56")
    case True
    let ?B = "rest msg @ 0x80 # replicate (55 - ?r) 0"
    have "put_bytes ?r (0x80 # replicate (55 - ?r) 0) (sha_data ctx) = ?B @ drop 56 (sha_data ctx)"
      using True d by (simp add: put_bytes_eq del: put_bytes.simps)
    moreover have "put_bytes 56 ?L (?B @ drop 56 (sha_data ctx)) = ?B @ ?L"
    proof -
      have "56 - ?r = Suc (55 - ?r)" using True by simp
      then show ?thesis using True L d by (subst put_bytes_eq) simp_all
    qed
    moreover have "(119 - ?r) mod 64 = 55 - ?r" using True by (simp add: mod_if)
    ultimately show ?thesis
      using True L small u st transform_compress [of "ctx\<lparr>bitlen := bitlen ctx + ucast (datalen ctx * 8), sha_data := ?B @ ?L\<rparr>" "chain msg" "?B @ ?L"]
      by (simp add: sha256_final_def Let_def final_length [OF A] final_blocks fips_blocks_one hash_bytes_fips del: put_bytes.simps)
  next
    case False
    define B where B_def: "B = rest msg @ 0x80 # replicate (63 - ?r) 0"
    let ?c = "ctx\<lparr>sha_data := B, sha_state := st_list (fips_compress B (chain msg))\<rparr>"
    have B: "put_bytes ?r (0x80 # replicate (63 - ?r) 0) (sha_data ctx) = B" "length B = 64"
      using r d by (simp_all add: B_def put_bytes_eq del: put_bytes.simps)
    have Z: "put_bytes 0 (replicate 56 0) B = replicate 56 0 @ drop 56 B"
      using B(2) by (subst put_bytes_eq) simp_all
    have P: "put_bytes 56 ?L (replicate 56 0 @ drop 56 B) = replicate 56 0 @ ?L"
      using L B(2) by (subst put_bytes_eq) simp_all
    have T: "sha256_transform B (ctx\<lparr>sha_data := B\<rparr>) = ?c"
      using transform_compress [of "ctx\<lparr>sha_data := B\<rparr>" "chain msg" B] st B(2) by simp
    have T2: "sha_state (sha256_transform (replicate 56 0 @ ?L) (ctx\<lparr>sha_state := st_list (fips_compress B (chain msg)),
        bitlen := b, sha_data := d\<rparr>)) = st_list (fips_compress (replicate 56 0 @ ?L) (fips_compress B (chain msg)))" for b d
      using L by (subst transform_compress) simp_all
    have code: "snd (sha256_final ctx) = fips_bytes (fips_compress (replicate 56 0 @ ?L) (fips_compress B (chain msg)))"
      using False small u
      by (simp add: sha256_final_def Let_def B(1) T Z P T2 final_length [OF A] hash_bytes_fips del: put_bytes.simps)
    have z: "(119 - ?r) mod 64 = (63 - ?r) + 56" using False r by (simp add: mod_if)
    have "rest msg @ [0x80] @ replicate ((119 - ?r) mod 64) 0 @ ?L = B @ (replicate 56 0 @ ?L)"
      unfolding z by (simp add: B_def replicate_add)
    moreover have "fips_blocks (B @ (replicate 56 0 @ ?L)) = [B, replicate 56 0 @ ?L]"
      using B(2) L by (subst fips_blocks_append) (simp_all add: fips_blocks_one)
    ultimately show ?thesis by (simp only: final_blocks code foldl.simps)
  qed
qed


text \<open>A message given in pieces, as the callers do it.\<close>

definition update_all :: "u8 list list \<Rightarrow> sha_ctx \<Rightarrow> sha_ctx option" where
  "update_all pieces ctx =
     foldl (\<lambda>c bs. Option.bind c (sha256_update (\<lambda>i. bs ! i) (of_nat (length bs)))) (Some ctx) pieces"

lemma update_all_absorbs:
  assumes "absorbed msg ctx" "\<forall>bs \<in> set pieces. length bs < 2 ^ 32"
  shows "\<exists>ctx'. update_all pieces ctx = Some ctx' \<and> absorbed (msg @ concat pieces) ctx'"
  using assms
proof (induction pieces arbitrary: msg ctx)
  case (Cons bs pieces)
  then obtain c where c: "sha256_update (\<lambda>i. bs ! i) (of_nat (length bs)) ctx = Some c" "absorbed (msg @ bs) c"
    using update_loop_foldl [of 0 "length bs" "\<lambda>i. bs ! i"] absorb_bytes [of msg ctx bs]
    by (auto simp: sha256_update_def map_nth)
  then show ?case using Cons.IH [of "msg @ bs" c] Cons.prems(2) by (simp add: update_all_def)
qed (simp add: update_all_def)

text \<open>
  C34: Whatever a context held before \<open>sha256_init\<close>, and however the message is cut into pieces of less
  than \<open>2 ^ 32\<close> bytes, \<open>sha256_update\<close> returns for each of them and \<open>sha256_final\<close> gives the SHA-256 digest
  of their concatenation, by the schedule, rounds and padding of the standard.
\<close>
theorem sha256_is_standard:
  assumes "length (sha_data ctx) = 64" "\<forall>bs \<in> set pieces. length bs < 2 ^ 32"
  shows "\<exists>ctx'. update_all pieces (sha256_init ctx) = Some ctx' \<and> snd (sha256_final ctx') = fips_sha256 (concat pieces)"
  using update_all_absorbs [OF absorbed_init [OF assms(1)] assms(2)] final_absorbed by auto

definition blank_ctx :: sha_ctx where
  "blank_ctx = \<lparr>sha_data = replicate 64 0xAA, datalen = 7, bitlen = 3, sha_state = replicate 8 0\<rparr>"

theorem sha256_is_standard_witness:
  "map_option (\<lambda>c. snd (sha256_final c)) (update_all [[0x61], [], [0x62, 0x63]] (sha256_init blank_ctx)) =
     Some (fips_sha256 [0x61, 0x62, 0x63])"
  using sha256_is_standard [of blank_ctx "[[0x61], [], [0x62, 0x63]]"] by (auto simp: blank_ctx_def)

text \<open>The shape of a context: 64 bytes of data of which less than 64 are used, and eight words of state.\<close>

definition ctx_wf :: "sha_ctx \<Rightarrow> bool" where
  "ctx_wf ctx \<longleftrightarrow> length (sha_data ctx) = 64 \<and> datalen ctx < 64 \<and> length (sha_state ctx) = 8"

lemma length_round: "length v = 8 \<Longrightarrow> length (sha_round m v i) = 8"
  by (cases "(m, v, i)" rule: sha_round.cases) (simp_all add: Let_def)

lemma length_rounds: "length v = 8 \<Longrightarrow> length (foldl (sha_round m) v is) = 8"
  by (induction "is" arbitrary: v) (simp_all add: length_round)

lemma transform_wf: "ctx_wf ctx \<Longrightarrow> ctx_wf (sha256_transform d ctx)"
  by (simp add: ctx_wf_def sha256_transform_def Let_def length_rounds)

lemma update_byte_wf:
  assumes "ctx_wf ctx"
  shows "ctx_wf (update_byte ctx b)"
proof -
  have "datalen ctx + 1 < 64 \<or> datalen ctx + 1 = 64"
    using assms by (auto simp: ctx_wf_def word_less_nat_alt word_unat_eq_iff unat_word_ariths)
  then show ?thesis
    using assms by (auto simp: ctx_wf_def update_byte_def Let_def sha256_transform_def length_rounds)
qed

lemma update_loop_wf:
  assumes "update_loop i d len ctx = Some ctx'"
  shows "unat len < 2 ^ 32 \<and> (ctx_wf ctx \<longrightarrow> ctx_wf ctx')"
proof (rule update_loop.raw_induct [where P = "\<lambda>i d len ctx ctx'. unat len < 2 ^ 32 \<and> (ctx_wf ctx \<longrightarrow> ctx_wf ctx')", OF _ assms])
  fix f i d and len :: u64 and ctx ctx'
  assume IH: "\<And>i d len ctx ctx'. f i d len ctx = Some ctx' \<Longrightarrow> unat len < 2 ^ 32 \<and> (ctx_wf ctx \<longrightarrow> ctx_wf ctx')"
    and e: "(if ucast (i :: u32) < len then f (i + 1) d len (update_byte ctx (d (unat i))) else Some ctx) = Some ctx'"
  show "unat len < 2 ^ 32 \<and> (ctx_wf ctx \<longrightarrow> ctx_wf ctx')"
  proof (cases "ucast i < len")
    case True
    with e IH [of "i + 1" d len "update_byte ctx (d (unat i))" ctx'] show ?thesis by (simp add: update_byte_wf)
  next
    case False
    with unat_counter [of i] unat_bounds(2) [of i] have "unat len < 2 ^ 32" by (simp add: word_less_nat_alt)
    with False e show ?thesis by simp
  qed
qed

lemma length_put_bytes [simp]: "length (put_bytes i bs d) = length d"
  by (induction bs arbitrary: i d) simp_all

text \<open>
  C35: \<open>sha256_update\<close> returns exactly for the lengths below \<open>2 ^ 32\<close>: its counter has 32 bits, so that with a
  greater length it never reaches the end.
\<close>
theorem sha256_update_returns: "(\<exists>ctx'. sha256_update d len ctx = Some ctx') \<longleftrightarrow> unat len < 2 ^ 32"
proof
  assume "\<exists>ctx'. sha256_update d len ctx = Some ctx'"
  then show "unat len < 2 ^ 32" using update_loop_wf by (auto simp: sha256_update_def)
next
  assume "unat len < 2 ^ 32"
  then show "\<exists>ctx'. sha256_update d len ctx = Some ctx'"
    using update_loop_foldl [of 0 "unat len" d ctx] by (simp add: sha256_update_def)
qed

end
