(* ===== verification/Predata.thy ===== *)
theory Predata
  imports Baselib Sha256
begin

text \<open>
  The super key and the data handed over at boot, \<^verbatim>\<open>kernel/base/predata.c\<close>: the check of a key against
  the super key and against the hash of the root key, the random numbers, and the walk over the extra
  items behind the kernel patch.  Keys are addresses in the byte memory.
\<close>

abbreviation (input) SUPER_KEY_LEN :: nat where "SUPER_KEY_LEN \<equiv> 64"
abbreviation (input) HASH_LEN :: nat where "HASH_LEN \<equiv> 32"

section \<open>The super key\<close>

record pd_state =
  pd_mem :: bmem
  superkey :: u64
  root_superkey :: u64
  enable_root_key :: bool
  first_time :: bool
  rand_state :: u64

text \<open>The comparison runs to the end of the super key; without one it does not return: \<open>None\<close>.\<close>

partial_function (option) auth_loop :: "u64 \<Rightarrow> u64 \<Rightarrow> s32 \<Rightarrow> bmem \<Rightarrow> s32 option" where
  "auth_loop s k rc m =
     (if m s \<noteq> 0 then auth_loop (s + 1) (k + 1) (rc OR ucast (m s XOR m k)) m else Some rc)"

definition reset_superkey :: "u64 \<Rightarrow> pd_state \<Rightarrow> pd_state option" where
  "reset_superkey key st =
     (case lib_strlcpy (superkey st) key SUPER_KEY_LEN (pd_mem st) of None \<Rightarrow> None
      | Some (n, m) \<Rightarrow> Some (st\<lparr>pd_mem := m\<rparr>))"

definition enable_auth_root_key :: "bool \<Rightarrow> pd_state \<Rightarrow> pd_state" where
  "enable_auth_root_key e st = st\<lparr>enable_root_key := e\<rparr>"

text \<open>The hash of a key in a context that is not initialised before.\<close>

definition key_hash :: "sha_ctx \<Rightarrow> u64 \<Rightarrow> bmem \<Rightarrow> u8 list option" where
  "key_hash ctx key m =
     map_option (\<lambda>c. snd (sha256_final c))
       (sha256_update (\<lambda>i. m (key + of_nat i)) (of_nat (lib_strnlen SUPER_KEY_LEN key m)) (sha256_init ctx))"

text \<open>The root key authenticates as well; the first time it becomes the super key.\<close>

definition auth_superkey :: "sha_ctx \<Rightarrow> u64 \<Rightarrow> pd_state \<Rightarrow> (s32 \<times> pd_state) option" where
  "auth_superkey ctx key st =
     (case auth_loop (superkey st) key 0 (pd_mem st) of None \<Rightarrow> None
      | Some rc \<Rightarrow>
          if rc = 0 then Some (0, st)
          else if \<not> enable_root_key st then Some (1, st)
          else (case key_hash ctx key (pd_mem st) of None \<Rightarrow> None
                | Some hash \<Rightarrow>
                    if map (\<lambda>i. pd_mem st (root_superkey st + of_nat i)) [0..<HASH_LEN] \<noteq> hash then Some (1, st)
                    else if \<not> first_time st then Some (0, st)
                    else (case reset_superkey key (st\<lparr>first_time := False\<rparr>) of None \<Rightarrow> None
                          | Some st \<Rightarrow> Some (0, st\<lparr>enable_root_key := False\<rparr>))))"

section \<open>Random numbers and initialisation\<close>

definition rand_next :: "pd_state \<Rightarrow> u64 \<times> pd_state" where
  "rand_next st = (let r = 1103515245 * rand_state st + 12345 in (r, st\<lparr>rand_state := r\<rparr>))"

definition key_chars :: "u8 list" where
  "key_chars = map of_char ''ABCDEFGHIJKLMNOPQRSTUVWXYZabcdefghijklmnopqrstuvwxyz0123456789''"

primrec random_key :: "nat \<Rightarrow> u64 \<Rightarrow> pd_state \<Rightarrow> pd_state" where
  "random_key 0 i st = st"
| "random_key (Suc n) i st =
     (let (r, st) = rand_next st
      in random_key n (i + 1) (st\<lparr>pd_mem := (pd_mem st)(superkey st + i := key_chars ! unat (r mod 62))\<rparr>))"

text \<open>The addresses of the patch configuration, 64 words, become absolute unless they are zero.\<close>

definition relocate_config :: "u64 \<Rightarrow> u64 \<Rightarrow> bmem \<Rightarrow> bmem" where
  "relocate_config config va m =
     fold (\<lambda>i m. let a = config + 8 * of_nat i; p = load_le 8 m a in if p \<noteq> 0 then store_le 8 a (p + va) m else m) [0..<64] m"

text \<open>The factors of the random state and whether a root key is used instead of a super key.\<close>

definition predata_init :: "u64 list \<Rightarrow> u64 \<Rightarrow> u64 \<Rightarrow> u64 \<Rightarrow> pd_state \<Rightarrow> pd_state" where
  "predata_init factors compile_time config va st =
     (let m = pd_mem st;
          word = (\<lambda>a r. let w = load_le 8 m a in if w \<noteq> 0 then r * w else r);
          r = foldl (*) (rand_state st) factors;
          r = word (root_superkey st) (word (superkey st) (word compile_time r));
          st = st\<lparr>rand_state := r, enable_root_key := False\<rparr>;
          st = (if lib_strnlen SUPER_KEY_LEN (superkey st) m = 0 then random_key 15 0 (st\<lparr>enable_root_key := True\<rparr>) else st)
      in st\<lparr>pd_mem := relocate_config config va (pd_mem st)\<rparr>)"

section \<open>Extra items\<close>

record extra_item =
  ei_magic :: "u8 list"
  ei_args_size :: s32
  ei_con_size :: s32
  ei_type :: s32

definition extra_at :: "bmem \<Rightarrow> u64 \<Rightarrow> extra_item" where
  "extra_at m a = \<lparr>ei_magic = map (\<lambda>i. m (a + of_nat i)) [0..<4], ei_args_size = ucast (load_le 4 m (a + 8)),
     ei_con_size = ucast (load_le 4 m (a + 12)), ei_type = ucast (load_le 4 m (a + 16))\<rparr>"

text \<open>
  The callback gets the item, the arguments or a null pointer, and the contents.  The comparison of the
  magic number leaves its own loop only, so it has no effect.
\<close>

partial_function (option) on_each_extra_item ::
    "(extra_item \<Rightarrow> u64 \<Rightarrow> u64 \<Rightarrow> 'u \<Rightarrow> s32 \<times> 'u) \<Rightarrow> bmem \<Rightarrow> u64 \<Rightarrow> u64 \<Rightarrow> 'u \<Rightarrow> (s32 \<times> 'u) option" where
  "on_each_extra_item cb m item_addr end_addr u =
     (if \<not> item_addr < end_addr then Some (0, u)
      else let item = extra_at m item_addr
      in if ei_type item = 0 then Some (0, u)
         else let args = (if 0 <s ei_args_size item then item_addr + 128 else 0);
                  con = item_addr + 128 + scast (ei_args_size item)
              in (case cb item args con u of
                    (rc, u) \<Rightarrow> if rc \<noteq> 0 then Some (rc, u)
                      else on_each_extra_item cb m (item_addr + 128 + scast (ei_args_size item) + scast (ei_con_size item)) end_addr u))"


section \<open>Keys\<close>

text \<open>A terminated string of bytes in memory.\<close>

definition holds :: "bmem \<Rightarrow> u64 \<Rightarrow> u8 list \<Rightarrow> bool" where
  "holds m a bs \<longleftrightarrow> (\<forall>i < length bs. m (a + of_nat i) = bs ! i \<and> bs ! i \<noteq> 0) \<and> m (a + of_nat (length bs)) = 0"

definition begins :: "bmem \<Rightarrow> u64 \<Rightarrow> u8 list \<Rightarrow> bool" where
  "begins m a bs \<longleftrightarrow> (\<forall>i < length bs. m (a + of_nat i) = bs ! i)"

lemma holds_Cons: "holds m a (b # bs) \<longleftrightarrow> m a = b \<and> b \<noteq> 0 \<and> holds m (a + 1) bs"
  by (auto simp: holds_def less_Suc_eq_0_disj algebra_simps)

lemma begins_Cons: "begins m a (b # bs) \<longleftrightarrow> m a = b \<and> begins m (a + 1) bs"
  by (auto simp: begins_def less_Suc_eq_0_disj algebra_simps)

lemma or_eq_0: "(a :: s32) OR b = 0 \<longleftrightarrow> a = 0 \<and> b = 0"
  by (auto simp: bit_eq_iff bit_simps)

lemma ucast_xor_eq_0: "(ucast (a XOR b :: u8) :: s32) = 0 \<longleftrightarrow> a = b"
proof
  assume z: "(ucast (a XOR b) :: s32) = 0"
  show "a = b"
  proof (rule bit_word_eqI)
    fix n assume n: "n < LENGTH(8)"
    have "bit (ucast (a XOR b) :: s32) n \<longleftrightarrow> bit a n \<noteq> bit b n" using n by (auto simp: bit_simps)
    then show "bit a n \<longleftrightarrow> bit b n" by (simp add: z)
  qed
qed simp

lemma auth_loop_prefix:
  assumes "holds m s sk"
  shows "\<exists>r. auth_loop s k rc m = Some r \<and> (r = 0 \<longleftrightarrow> rc = 0 \<and> begins m k sk)"
  using assms
proof (induction sk arbitrary: s k rc)
  case Nil
  then show ?case by (subst auth_loop.simps) (simp add: holds_def begins_def)
next
  case (Cons b sk)
  from Cons.IH [of "s + 1" "k + 1" "rc OR ucast (b XOR m k)"] Cons.prems show ?case
    by (subst auth_loop.simps) (auto simp: holds_Cons begins_Cons or_eq_0 ucast_xor_eq_0)
qed

lemma auth_without_root:
  assumes "holds (pd_mem st) (superkey st) sk" "\<not> enable_root_key st"
  shows "auth_superkey ctx key st = Some (if begins (pd_mem st) key sk then 0 else 1, st)"
  using auth_loop_prefix [OF assms(1), of key 0] assms(2) by (auto simp: auth_superkey_def)

text \<open>
  C36: With the root key disabled a key is accepted exactly when it begins with the super key: anything may
  follow, and an empty super key accepts every key.  The check changes nothing.
\<close>
theorem auth_superkey_prefix:
  assumes "holds (pd_mem st) (superkey st) sk" "\<not> enable_root_key st"
  shows "auth_superkey ctx key st =
    Some (if \<forall>i < length sk. pd_mem st (key + of_nat i) = sk ! i then 0 else 1, st)"
  using auth_without_root [OF assms, of ctx key] by (simp add: begins_def)

definition demo_pd :: pd_state where
  "demo_pd = \<lparr>pd_mem = (\<lambda>a. if a = 0x100 \<or> a = 0x200 then 107 else if a = 0x201 then 33 else 0), superkey = 0x100,
     root_superkey = 0x140, enable_root_key = False, first_time = True, rand_state = 1\<rparr>"

theorem auth_superkey_prefix_witness: "auth_superkey blank_ctx 0x200 demo_pd = Some (0, demo_pd)"
  using auth_superkey_prefix [of demo_pd "[107]" blank_ctx "0x200"] by (simp add: demo_pd_def holds_def)

lemma strlcpy_loop_copies:
  assumes "holds m p bs" "\<forall>i < length bs. \<forall>j \<le> length bs. q + of_nat i \<noteq> p + of_nat j"
    "n + length bs < sz" "length bs < 2 ^ 64"
  shows "\<exists>m'. strlcpy_loop q p n sz m = Some (q + of_nat (length bs), n + length bs, m') \<and> begins m' q bs \<and>
    (\<forall>a. (\<forall>i < length bs. a \<noteq> q + of_nat i) \<longrightarrow> m' a = m a)"
  using assms
proof (induction bs arbitrary: p q n m)
  case Nil
  then show ?case by (subst strlcpy_loop.simps) (simp add: holds_def begins_def)
next
  case (Cons b bs)
  let ?m = "m(q := b)"
  have apart: "q + of_nat i \<noteq> p + of_nat j" if "i \<le> length bs" "j \<le> Suc (length bs)" for i j
    using Cons.prems(2) that by auto
  have qp: "q \<noteq> p + of_nat j" if "j \<le> Suc (length bs)" for j using apart [of 0 j] that by simp
  have "holds ?m (p + 1) bs"
  proof -
    have h: "holds m (p + 1) bs" using Cons.prems(1) by (simp add: holds_Cons)
    have "?m (p + 1 + of_nat j) = m (p + 1 + of_nat j)" if "j \<le> length bs" for j
      using qp [of "Suc j"] that by (auto simp: algebra_simps)
    then show ?thesis using h unfolding holds_def by (auto simp del: fun_upd_apply)
  qed
  moreover have "\<forall>i < length bs. \<forall>j \<le> length bs. q + 1 + of_nat i \<noteq> p + 1 + of_nat j"
    using apart [of "Suc i" "Suc j" for i j] by (auto simp: algebra_simps)
  ultimately obtain m' where m': "strlcpy_loop (q + 1) (p + 1) (Suc n) sz ?m =
      Some (q + 1 + of_nat (length bs), Suc n + length bs, m')" "begins m' (q + 1) bs"
      "\<forall>a. (\<forall>i < length bs. a \<noteq> q + 1 + of_nat i) \<longrightarrow> m' a = ?m a"
    using Cons.IH [of ?m "p + 1" "q + 1" "Suc n"] Cons.prems(3,4) by (auto simp del: fun_upd_apply)
  have fresh: "q \<noteq> q + 1 + of_nat i" if "i < length bs" for i
  proof -
    have "Suc i < 2 ^ 64" using that Cons.prems(4) by simp
    then have "(of_nat (Suc i) :: u64) \<noteq> 0" by (simp add: word_unat_eq_iff unat_of_nat_u64 del: of_nat_Suc)
    then show ?thesis by (simp add: algebra_simps)
  qed
  then have "m' q = b" using m'(3) by auto
  moreover have "strlcpy_loop q p n sz m = strlcpy_loop (q + 1) (p + 1) (Suc n) sz ?m"
    using Cons.prems(1,3) by (subst strlcpy_loop.simps) (simp add: holds_Cons)
  moreover have "m' a = m a" if h: "\<forall>i < length (b # bs). a \<noteq> q + of_nat i" for a
  proof -
    have "a \<noteq> q" "\<forall>i < length bs. a \<noteq> q + 1 + of_nat i"
      using h [rule_format, of 0] h [rule_format, of "Suc i" for i] by (auto simp: algebra_simps)
    then show ?thesis using m'(3) by simp
  qed
  ultimately show ?case using m'(1,2) by (auto simp: begins_Cons algebra_simps)
qed


text \<open>
  C37: After the super key has been reset to a terminated string of less than 64 bytes elsewhere in memory,
  and without the root key, the keys accepted are exactly those that begin with it.
\<close>
theorem reset_superkey_authenticates:
  assumes "holds (pd_mem st) key bs" "length bs < SUPER_KEY_LEN" "\<not> enable_root_key st"
    "\<forall>i < SUPER_KEY_LEN. \<forall>j < SUPER_KEY_LEN. superkey st + of_nat i \<noteq> key + of_nat j"
  shows "\<exists>st'. reset_superkey key st = Some st' \<and>
    (\<forall>ctx k. auth_superkey ctx k st' = Some (if \<forall>i < length bs. pd_mem st' (k + of_nat i) = bs ! i then 0 else 1, st'))"
proof -
  let ?s = "superkey st"
  from strlcpy_loop_copies [OF assms(1), of ?s 0 64] assms(2,4) obtain m' where
    m': "strlcpy_loop ?s key 0 64 (pd_mem st) = Some (?s + of_nat (length bs), length bs, m')" "begins m' ?s bs"
    by auto
  let ?m = "m'(?s + of_nat (length bs) := 0)"
  have r: "reset_superkey key st = Some (st\<lparr>pd_mem := ?m\<rparr>)"
    by (simp add: reset_superkey_def lib_strlcpy_def m'(1))
  have "?s + of_nat i \<noteq> ?s + of_nat (length bs)" if "i < length bs" for i
  proof -
    have "unat (of_nat i :: u64) \<noteq> unat (of_nat (length bs) :: u64)"
      using that assms(2) by (simp add: unat_of_nat_u64)
    then show ?thesis by auto
  qed
  moreover have "bs ! i \<noteq> 0" if "i < length bs" for i using assms(1) that by (simp add: holds_def)
  ultimately have "holds ?m ?s bs" using m'(2) by (auto simp: holds_def begins_def)
  then have "auth_superkey ctx k (st\<lparr>pd_mem := ?m\<rparr>) =
      Some (if \<forall>i < length bs. ?m (k + of_nat i) = bs ! i then 0 else 1, st\<lparr>pd_mem := ?m\<rparr>)" for ctx k
    using auth_without_root [of "st\<lparr>pd_mem := ?m\<rparr>" bs ctx k] assms(3) by (simp add: begins_def del: fun_upd_apply)
  then show ?thesis using r by (intro exI [of _ "st\<lparr>pd_mem := ?m\<rparr>"]) simp
qed

theorem reset_superkey_authenticates_witness:
  "\<exists>st'. reset_superkey 0x200 demo_pd = Some st' \<and> auth_superkey blank_ctx 0x200 st' \<noteq> None"
proof -
  have "0x100 + of_nat i \<noteq> (0x200 + of_nat j :: u64)" if "i < 64" "j < 64" for i j
  proof -
    have "unat (0x100 + of_nat i :: u64) = 0x100 + i" "unat (0x200 + of_nat j :: u64) = 0x200 + j"
      using that by (simp_all add: unat_word_ariths unat_of_nat_u64)
    then show ?thesis using that by auto
  qed
  then show ?thesis using reset_superkey_authenticates [of demo_pd "0x200" "[107, 33]"]
    by (fastforce simp: demo_pd_def holds_def less_Suc_eq)
qed

section \<open>The walk over the extra items\<close>

text \<open>
  When no item has a negative size and the end of the region is not near the end of the address
  space, the walk over the extra items returns, whatever the memory holds and the callback does.
\<close>
theorem on_each_extra_item_returns:
  assumes "\<forall>a < e. 0 \<le>s ei_args_size (extra_at m a) \<and> 0 \<le>s ei_con_size (extra_at m a)" "unat e + 2 ^ 33 < 2 ^ 64"
  shows "\<exists>r. on_each_extra_item cb m a e u = Some r"
proof (induction "unat e - unat a" arbitrary: a u rule: less_induct)
  case less
  show ?case
  proof (cases "a < e")
    case False
    then show ?thesis by (subst on_each_extra_item.simps) simp
  next
    case True
    let ?x = "ei_args_size (extra_at m a)" and ?y = "ei_con_size (extra_at m a)"
    let ?b = "a + 128 + scast ?x + scast ?y"
    have up: "unat (scast w :: u64) < 2 ^ 31" if "0 \<le>s w" for w :: s32
    proof -
      have s: "0 \<le> sint w" "sint w < 2 ^ 31" using that sint_lt [of w] by (simp_all add: word_sle_eq)
      have "(scast w :: u64) = word_of_int (sint w)" by (simp only: scast_eq)
      also have "\<dots> = ucast w" by (simp add: uint_eq_sint [OF s(1), symmetric])
      finally have "unat (scast w :: u64) = unat w" by (simp add: unat_counter)
      moreover have "int (unat w) < int (2 ^ 31)" using uint_eq_sint [OF s(1)] s(2) by simp
      ultimately show ?thesis by (simp only: of_nat_less_iff)
    qed
    have "unat ?b = unat a + 128 + unat (scast ?x :: u64) + unat (scast ?y :: u64)"
      using up [of ?x] up [of ?y] assms True by (simp add: unat_word_ariths word_less_nat_alt)
    then have "unat e - unat ?b < unat e - unat a" using True by (simp add: word_less_nat_alt)
    then have "\<exists>r. on_each_extra_item cb m ?b e u' = Some r" for u' by (rule less)
    then show ?thesis using True
      by (subst on_each_extra_item.simps) (auto simp: Let_def split: prod.split)
  qed
qed


lemma load_ones: "load_le 4 (\<lambda>_. 1) a = 0x01010101"
proof -
  have n: "(4 :: nat) = Suc (Suc (Suc (Suc 0)))" by simp
  show ?thesis unfolding n load_le.simps by simp
qed

theorem on_each_extra_item_returns_witness:
  "\<exists>r. on_each_extra_item (\<lambda>it args con n. (0, Suc n)) (\<lambda>_. 1) 0x1000 0x1090 0 = Some r"
proof -
  have "0 \<le>s (0x01010101 :: s32)" by (simp add: word_sle_eq)
  then have "\<forall>a < 0x1090. 0 \<le>s ei_args_size (extra_at (\<lambda>_. 1) a) \<and> 0 \<le>s ei_con_size (extra_at (\<lambda>_. 1) a)"
    by (simp add: extra_at_def load_ones)
  then show ?thesis by (rule on_each_extra_item_returns) simp
qed

text \<open>The item at \<open>a\<close> leads back to itself.\<close>

definition stuck_at :: "(extra_item \<Rightarrow> u64 \<Rightarrow> u64 \<Rightarrow> 'u \<Rightarrow> s32 \<times> 'u) \<Rightarrow> bmem \<Rightarrow> u64 \<Rightarrow> u64 \<Rightarrow> bool" where
  "stuck_at cb m a e \<longleftrightarrow> a < e \<and> ei_type (extra_at m a) \<noteq> 0 \<and>
     scast (ei_args_size (extra_at m a)) + scast (ei_con_size (extra_at m a)) = (- 128 :: u64) \<and>
     (\<forall>it x y u. fst (cb it x y u) = 0)"

text \<open>
  An item whose sizes add up to minus its own length makes the walk stay at it for ever when the
  callback accepts every item, whatever its magic number is.
\<close>
theorem extra_item_negative_size_loops:
  assumes "a < e" "ei_type (extra_at m a) \<noteq> 0"
    "scast (ei_args_size (extra_at m a)) + scast (ei_con_size (extra_at m a)) = (- 128 :: u64)"
    "\<forall>it x y u. fst (cb it x y u) = 0"
  shows "on_each_extra_item cb m a e u = None"
proof (rule ccontr)
  assume "on_each_extra_item cb m a e u \<noteq> None"
  then obtain r where "on_each_extra_item cb m a e u = Some r" by auto
  then have "\<not> stuck_at cb m a e"
  proof (rule on_each_extra_item.raw_induct [where P = "\<lambda>cb m a e u r. \<not> stuck_at cb m a e", rotated])
    fix f and cb :: "extra_item \<Rightarrow> u64 \<Rightarrow> u64 \<Rightarrow> 'a \<Rightarrow> s32 \<times> 'a" and m a e u r
    assume IH: "\<And>(cb :: extra_item \<Rightarrow> u64 \<Rightarrow> u64 \<Rightarrow> 'a \<Rightarrow> s32 \<times> 'a) m a e u r. f cb m a e u = Some r \<Longrightarrow> \<not> stuck_at cb m a e"
      and run: "(if \<not> a < e then Some (0, u) else let item = extra_at m a in if ei_type item = 0 then Some (0, u)
          else let args = (if 0 <s ei_args_size item then a + 128 else 0); con = a + 128 + scast (ei_args_size item)
            in (case cb item args con u of (rc, u) \<Rightarrow> if rc \<noteq> 0 then Some (rc, u)
                else f cb m (a + 128 + scast (ei_args_size item) + scast (ei_con_size item)) e u)) = Some r"
    show "\<not> stuck_at cb m a e"
    proof
      assume s: "stuck_at cb m a e"
      have "a + 128 + scast (ei_args_size (extra_at m a)) + scast (ei_con_size (extra_at m a)) =
          a + 128 + (scast (ei_args_size (extra_at m a)) + scast (ei_con_size (extra_at m a)))"
        by (simp only: add.assoc)
      also have "\<dots> = a" using s unfolding stuck_at_def by simp
      finally have again: "a + 128 + scast (ei_args_size (extra_at m a)) + scast (ei_con_size (extra_at m a)) = a" .
      have "\<exists>u'. f cb m a e u' = Some r"
        using run s unfolding stuck_at_def Let_def again case_prod_beta by (auto split: if_splits)
      then show False using IH s by blast
    qed
  qed
  then show False using assms by (simp add: stuck_at_def)
qed

theorem extra_item_negative_size_loops_witness:
  "on_each_extra_item (\<lambda>it args con n. (0, Suc n)) (\<lambda>a. if a \<in> {0x1008, 0x1009, 0x100A, 0x100B, 0x100C, 0x100D, 0x100E, 0x100F}
     then (if a = 0x1008 then 0x81 else 0xFF) else if a = 0x1010 then 1 else 0) 0x1000 0x2000 0 = None"
proof (rule extra_item_negative_size_loops)
  let ?m = "\<lambda>a :: u64. if a \<in> {0x1008, 0x1009, 0x100A, 0x100B, 0x100C, 0x100D, 0x100E, 0x100F}
     then (if a = 0x1008 then 0x81 else 0xFF) else if a = 0x1010 then 1 else 0 :: u8"
  have n: "(4 :: nat) = Suc (Suc (Suc (Suc 0)))" by simp
  have l: "load_le 4 ?m 0x1008 = 0xFFFFFF81" "load_le 4 ?m 0x100C = 0xFFFFFFFF" "load_le 4 ?m 0x1010 = 1"
    unfolding n load_le.simps by simp_all
  show "ei_type (extra_at ?m 0x1000) \<noteq> 0"
    "scast (ei_args_size (extra_at ?m 0x1000)) + scast (ei_con_size (extra_at ?m 0x1000)) = (- 128 :: u64)"
    using l by (simp_all add: extra_at_def del: insert_iff)
qed simp_all

end
