(* ===== verification/Kstorage.thy ===== *)
theory Kstorage
  imports Prelude "HOL-Library.Multiset"
begin

text \<open>
  The keyed storage of \<^verbatim>\<open>kernel/patch/common/kstorage.c\<close>: four groups of entries, each a linked list
  with the newest entry first.  An entry is a node with an identity, since a writer keeps a
  pointer to the entry it found before it takes the lock; a write is therefore two steps, the
  search and the link.  Sequential use refines a map per group; the interface is the locale
  \<open>keyed_store\<close>.
\<close>

section \<open>State\<close>

abbreviation (input) KSTORAGE_MAX_GROUP_NUM :: nat where "KSTORAGE_MAX_GROUP_NUM \<equiv> 4"

record kstorage =
  ks_node :: nat \<comment> \<open>the identity of the allocated block\<close>
  ks_did :: u64
  ks_bytes :: "u8 list" \<comment> \<open>\<open>dlen\<close> bytes of data\<close>

record kstore =
  ks_groups :: "kstorage list list"
  group_sizes :: "int list"
  used_max_group :: int
  next_node :: nat
  ks_live :: nat \<comment> \<open>allocated blocks\<close>

definition kstorage_init :: kstore where
  "kstorage_init = \<lparr>ks_groups = replicate 4 [], group_sizes = replicate 4 0, used_max_group = - 1, next_node = 0, ks_live = 0\<rparr>"

definition try_alloc_kstroage_group :: "kstore \<Rightarrow> int \<times> kstore" where
  "try_alloc_kstroage_group st =
     (if used_max_group st + 1 \<ge> 4 then (- 1, st)
      else let st = st\<lparr>used_max_group := used_max_group st + 1\<rparr> in (used_max_group st, st))"

definition bad_gid :: "int \<Rightarrow> bool" where
  "bad_gid gid \<longleftrightarrow> gid < 0 \<or> gid \<ge> 4"

abbreviation ksgroup :: "kstore \<Rightarrow> int \<Rightarrow> kstorage list" where
  "ksgroup st gid \<equiv> ks_groups st ! nat gid"

definition kstorage_group_size :: "kstore \<Rightarrow> int \<Rightarrow> int" where
  "kstorage_group_size st gid = (if bad_gid gid then - 2 else group_sizes st ! nat gid)"

section \<open>Writing\<close>

text \<open>
  The search and the allocation.  The data are read from the memory \<open>src\<close> at \<open>offset\<close>; a
  copy from user space may fail with an error, and then the new block is not freed.  A negative
  length is passed on to the allocator and to \<open>memcpy\<close> as a huge size: \<open>None\<close>.
\<close>

datatype pending_write = Failed int | Linked "nat option" kstorage

definition write_search ::
    "bool \<Rightarrow> (int \<Rightarrow> u8) \<Rightarrow> int option \<Rightarrow> int \<Rightarrow> u64 \<Rightarrow> int \<Rightarrow> int \<Rightarrow> kstore \<Rightarrow> (pending_write \<times> kstore) option" where
  "write_search alloc_ok src user_err gid did offset len st =
     (if bad_gid gid then Some (Failed (- 2), st)
      else let old = find (\<lambda>pos. ks_did pos = did) (ksgroup st gid)
      in if \<not> alloc_ok then Some (Failed (- 12), st)
         else if len < 0 then None
         else let st = st\<lparr>ks_live := ks_live st + 1\<rparr>
         in (case user_err of Some e \<Rightarrow> Some (Failed e, st)
             | None \<Rightarrow>
                 let new = \<lparr>ks_node = next_node st, ks_did = did, ks_bytes = map (\<lambda>i. src (offset + int i)) [0..<nat len]\<rparr>
                 in Some (Linked (map_option ks_node old) new, st\<lparr>next_node := next_node st + 1\<rparr>)))"

text \<open>
  The link, under the lock.  Replacing an entry that has been unlinked in the meantime writes
  through the pointers of a dead node: \<open>None\<close>.  The old block is freed after the grace period.
\<close>

definition write_link :: "int \<Rightarrow> nat option \<Rightarrow> kstorage \<Rightarrow> kstore \<Rightarrow> kstore option" where
  "write_link gid old new st =
     (case old of
        None \<Rightarrow> Some (st\<lparr>ks_groups := (ks_groups st)[nat gid := new # ksgroup st gid],
                        group_sizes := (group_sizes st)[nat gid := group_sizes st ! nat gid + 1]\<rparr>)
      | Some n \<Rightarrow>
          if n \<notin> ks_node ` set (ksgroup st gid) then None
          else Some (st\<lparr>ks_groups := (ks_groups st)[nat gid := map (\<lambda>pos. if ks_node pos = n then new else pos) (ksgroup st gid)],
                        ks_live := ks_live st - 1\<rparr>))"

definition write_kstorage ::
    "bool \<Rightarrow> (int \<Rightarrow> u8) \<Rightarrow> int option \<Rightarrow> int \<Rightarrow> u64 \<Rightarrow> int \<Rightarrow> int \<Rightarrow> kstore \<Rightarrow> (int \<times> kstore) option" where
  "write_kstorage alloc_ok src user_err gid did offset len st =
     (case write_search alloc_ok src user_err gid did offset len st of
        None \<Rightarrow> None
      | Some (Failed e, st) \<Rightarrow> Some (e, st)
      | Some (Linked old new, st) \<Rightarrow> map_option (Pair 0) (write_link gid old new st))"

section \<open>Reading and removing\<close>

definition get_kstorage :: "kstore \<Rightarrow> int \<Rightarrow> u64 \<Rightarrow> int + kstorage" where
  "get_kstorage st gid did =
     (if bad_gid gid then Inl (- 2)
      else case find (\<lambda>pos. ks_did pos = did) (ksgroup st gid) of None \<Rightarrow> Inl (- 2) | Some pos \<Rightarrow> Inr pos)"

text \<open>The walk over a group: the loop's result is a second variable of the same name, so the outer one stays 0.\<close>

fun walk_group :: "(kstorage \<Rightarrow> 'u \<Rightarrow> int \<times> 'u) \<Rightarrow> kstorage list \<Rightarrow> 'u \<Rightarrow> 'u" where
  "walk_group cb [] u = u"
| "walk_group cb (pos # rest) u = (case cb pos u of (rc, u) \<Rightarrow> if rc \<noteq> 0 then u else walk_group cb rest u)"

definition on_each_kstorage_elem :: "kstore \<Rightarrow> int \<Rightarrow> (kstorage \<Rightarrow> 'u \<Rightarrow> int \<times> 'u) \<Rightarrow> 'u \<Rightarrow> int \<times> 'u" where
  "on_each_kstorage_elem st gid cb u = (if bad_gid gid then (- 2, u) else (0, walk_group cb (ksgroup st gid) u))"

text \<open>
  The bytes copied to the caller, or the result of a failed copy to user space.  An offset
  outside the data makes the length negative or the source lie outside: \<open>None\<close>.
\<close>

definition read_kstorage :: "kstore \<Rightarrow> int option \<Rightarrow> int \<Rightarrow> u64 \<Rightarrow> int \<Rightarrow> int \<Rightarrow> (int \<times> u8 list) option" where
  "read_kstorage st user_err gid did offset len =
     (case get_kstorage st gid did of
        Inl e \<Rightarrow> Some (e, [])
      | Inr pos \<Rightarrow>
          let dlen = int (length (ks_bytes pos));
              min_len = (if dlen - offset > len then len else dlen - offset)
          in (case user_err of Some e \<Rightarrow> Some (e, [])
              | None \<Rightarrow> if min_len < 0 \<or> offset < 0 then None
                        else Some (0, take (nat min_len) (drop (nat offset) (ks_bytes pos)))))"

text \<open>
  The identifiers copied, with the index each is written to.  \<open>copy i\<close> is the result of the copy to
  user space in the \<open>i\<close>-th round; a failure replaces the counter by the error.
\<close>

fun list_ids :: "(nat \<Rightarrow> int) option \<Rightarrow> int \<Rightarrow> kstorage list \<Rightarrow> nat \<Rightarrow> int \<Rightarrow> (int \<times> u64) list \<Rightarrow> int \<times> (int \<times> u64) list" where
  "list_ids copy idslen [] i cnt out = (cnt, out)"
| "list_ids copy idslen (pos # rest) i cnt out =
     (if cnt \<ge> idslen then (cnt, out)
      else case copy of
             None \<Rightarrow> list_ids copy idslen rest (Suc i) (cnt + 1) (out @ [(cnt, ks_did pos)])
           | Some f \<Rightarrow>
               if f i \<le> 0 then list_ids copy idslen rest (Suc i) (f i + 1) out
               else list_ids copy idslen rest (Suc i) (cnt + 1) (out @ [(cnt, ks_did pos)]))"

definition list_kstorage_ids :: "kstore \<Rightarrow> (nat \<Rightarrow> int) option \<Rightarrow> int \<Rightarrow> int \<Rightarrow> int \<times> (int \<times> u64) list" where
  "list_kstorage_ids st copy gid idslen =
     (if bad_gid gid then (- 2, []) else list_ids copy idslen (ksgroup st gid) 0 0 [])"

fun remove_first :: "u64 \<Rightarrow> kstorage list \<Rightarrow> kstorage list" where
  "remove_first did [] = []"
| "remove_first did (pos # rest) = (if ks_did pos = did then rest else pos # remove_first did rest)"

definition remove_kstorage :: "int \<Rightarrow> u64 \<Rightarrow> kstore \<Rightarrow> int \<times> kstore" where
  "remove_kstorage gid did st =
     (if bad_gid gid then (- 2, st)
      else if did \<in> ks_did ` set (ksgroup st gid)
      then (0, st\<lparr>ks_groups := (ks_groups st)[nat gid := remove_first did (ksgroup st gid)],
                  group_sizes := (group_sizes st)[nat gid := group_sizes st ! nat gid - 1],
                  ks_live := ks_live st - 1\<rparr>)
      else (0, st))"

section \<open>The map a group stands for\<close>

definition content :: "kstore \<Rightarrow> int \<Rightarrow> u64 \<rightharpoonup> u8 list" where
  "content st gid = map_of (map (\<lambda>pos. (ks_did pos, ks_bytes pos)) (ksgroup st gid))"

definition kstore_inv :: "kstore \<Rightarrow> bool" where
  "kstore_inv st \<longleftrightarrow>
     length (ks_groups st) = 4 \<and> length (group_sizes st) = 4 \<and>
     (\<forall>g < 4. distinct (map ks_did (ks_groups st ! g)) \<and> distinct (map ks_node (ks_groups st ! g)) \<and>
        (\<forall>pos \<in> set (ks_groups st ! g). ks_node pos < next_node st) \<and>
        group_sizes st ! g = int (length (ks_groups st ! g)))"

lemma kstore_inv_init [simp]: "kstore_inv kstorage_init"
  by (simp add: kstore_inv_def kstorage_init_def)

lemma find_map_of: "map_option ks_bytes (find (\<lambda>pos. ks_did pos = did) ps) = map_of (map (\<lambda>pos. (ks_did pos, ks_bytes pos)) ps) did"
  by (induction ps) auto

lemma find_in: "find (\<lambda>pos. ks_did pos = did) ps = Some pos \<Longrightarrow> pos \<in> set ps \<and> ks_did pos = did"
  by (auto simp: find_Some_iff)

lemma find_none: "find (\<lambda>pos. ks_did pos = did) ps = None \<longleftrightarrow> did \<notin> ks_did ` set ps"
  by (auto simp: find_None_iff)

lemma map_of_remove_first:
  "distinct (map ks_did ps) \<Longrightarrow>
     map_of (map (\<lambda>pos. (ks_did pos, ks_bytes pos)) (remove_first did ps)) =
     (map_of (map (\<lambda>pos. (ks_did pos, ks_bytes pos)) ps))(did := None)"
proof (induction ps)
  case (Cons p ps)
  have "map_of (map (\<lambda>pos. (ks_did pos, ks_bytes pos)) ps) (ks_did p) = None"
    using Cons.prems by (auto simp: map_of_eq_None_iff)
  with Cons show ?case by (auto simp: fun_eq_iff)
qed simp

lemma remove_first_props:
  "set (remove_first did ps) \<subseteq> set ps" "distinct (map f ps) \<Longrightarrow> distinct (map f (remove_first did ps))"
  "did \<in> ks_did ` set ps \<Longrightarrow> Suc (length (remove_first did ps)) = length ps"
proof -
  show sub: "set (remove_first did ps) \<subseteq> set ps" for ps by (induction ps) auto
  show "distinct (map f ps) \<Longrightarrow> distinct (map f (remove_first did ps))" using sub by (induction ps) fastforce+
  show "did \<in> ks_did ` set ps \<Longrightarrow> Suc (length (remove_first did ps)) = length ps" by (induction ps) auto
qed

lemma map_of_replace:
  assumes "distinct (map ks_did ps)" "distinct (map ks_node ps)" "pos \<in> set ps" "ks_did pos = did" "ks_did new = did"
  shows "map_of (map (\<lambda>pos. (ks_did pos, ks_bytes pos)) (map (\<lambda>p. if ks_node p = ks_node pos then new else p) ps)) =
     (map_of (map (\<lambda>pos. (ks_did pos, ks_bytes pos)) ps))(did \<mapsto> ks_bytes new)"
    "map ks_did (map (\<lambda>p. if ks_node p = ks_node pos then new else p) ps) = map ks_did ps"
proof -
  have eq: "p = pos" if "p \<in> set ps" "ks_node p = ks_node pos" for p
    using that assms(2,3) by (auto simp: distinct_map inj_on_def)
  show d: "map ks_did (map (\<lambda>p. if ks_node p = ks_node pos then new else p) ps) = map ks_did ps"
    using eq assms(4,5) by (auto simp: map_eq_conv)
  show "map_of (map (\<lambda>pos. (ks_did pos, ks_bytes pos)) (map (\<lambda>p. if ks_node p = ks_node pos then new else p) ps)) =
     (map_of (map (\<lambda>pos. (ks_did pos, ks_bytes pos)) ps))(did \<mapsto> ks_bytes new)"
    using assms(1,3,4) eq assms(5)
  proof (induction ps)
    case (Cons p ps)
    show ?case
    proof (cases "p = pos")
      case True
      have "pos \<notin> set ps" using Cons.prems(1) True by auto
      then have "ks_node q \<noteq> ks_node pos" if "q \<in> set ps" for q using Cons.prems(4) that by force
      then have "map (\<lambda>p. if ks_node p = ks_node pos then new else p) ps = ps" by (intro map_idI) auto
      then show ?thesis using True Cons.prems by (auto simp: fun_eq_iff)
    next
      case False
      then have "ks_node p \<noteq> ks_node pos" using Cons.prems(4) by force
      moreover have "ks_did p \<noteq> did" using False Cons.prems by (auto simp: image_iff)
      moreover have "pos \<in> set ps" using Cons.prems(2) False by simp
      ultimately show ?thesis using Cons by (auto simp: fun_eq_iff)
    qed
  qed simp
qed

section \<open>Operations as updates of the map\<close>

lemma other_group: "length (ks_groups st) = 4 \<Longrightarrow> h \<noteq> nat gid \<Longrightarrow> (ks_groups st)[nat gid := g] ! h = ks_groups st ! h"
  by simp

lemma inv_update:
  assumes "kstore_inv st" "\<not> bad_gid gid" "distinct (map ks_did g)" "distinct (map ks_node g)"
    "\<forall>pos \<in> set g. ks_node pos < n" "next_node st \<le> n" "z = int (length g)"
  shows "kstore_inv (st\<lparr>ks_groups := (ks_groups st)[nat gid := g], group_sizes := (group_sizes st)[nat gid := z],
      ks_live := l, next_node := n\<rparr>)"
proof -
  have k: "distinct (map ks_did (ks_groups st ! h)) \<and> distinct (map ks_node (ks_groups st ! h)) \<and>
      (\<forall>pos \<in> set (ks_groups st ! h). ks_node pos < n) \<and> group_sizes st ! h = int (length (ks_groups st ! h))"
    if "h < 4" for h using assms(1,6) that unfolding kstore_inv_def by (meson less_le_trans)
  have "length (ks_groups st) = 4" "length (group_sizes st) = 4" "nat gid < 4"
    using assms(1,2) by (auto simp: kstore_inv_def bad_gid_def)
  with k assms(3-5,7) show ?thesis by (simp add: kstore_inv_def nth_list_update)
qed

lemma group_inv:
  assumes "kstore_inv st" "\<not> bad_gid gid"
  shows "distinct (map ks_did (ksgroup st gid))" "distinct (map ks_node (ksgroup st gid))"
    "\<forall>pos \<in> set (ksgroup st gid). ks_node pos < next_node st" "group_sizes st ! nat gid = int (length (ksgroup st gid))"
    "nat gid < length (ks_groups st)" "nat gid < length (group_sizes st)"
proof -
  have "nat gid < 4" using assms(2) by (auto simp: bad_gid_def)
  then show "distinct (map ks_did (ksgroup st gid))" "distinct (map ks_node (ksgroup st gid))"
    "\<forall>pos \<in> set (ksgroup st gid). ks_node pos < next_node st" "group_sizes st ! nat gid = int (length (ksgroup st gid))"
    "nat gid < length (ks_groups st)" "nat gid < length (group_sizes st)"
    using assms(1) unfolding kstore_inv_def by auto
qed

lemma content_put:
  assumes "nat gid < length (ks_groups st)"
  shows "content (st\<lparr>ks_groups := (ks_groups st)[nat gid := g]\<rparr>) gid = map_of (map (\<lambda>pos. (ks_did pos, ks_bytes pos)) g)"
  using assms by (simp add: content_def)

lemma write_refines:
  assumes inv: "kstore_inv st" and g: "\<not> bad_gid gid" and len: "0 \<le> len"
  shows "\<exists>st'. write_kstorage True src None gid did offset len st = Some (0, st') \<and> kstore_inv st' \<and>
    content st' gid = (content st gid)(did \<mapsto> map (\<lambda>i. src (offset + int i)) [0..<nat len]) \<and>
    (\<forall>h. h \<noteq> nat gid \<longrightarrow> ks_groups st' ! h = ks_groups st ! h) \<and>
    int (ks_live st') = int (ks_live st) + (if content st gid did = None then 1 else 0)"
proof -
  let ?v = "map (\<lambda>i. src (offset + int i)) [0..<nat len]"
  let ?new = "\<lparr>ks_node = next_node st, ks_did = did, ks_bytes = ?v\<rparr>"
  let ?g = "ksgroup st gid"
  note gi = group_inv [OF inv g]
  show ?thesis
  proof (cases "find (\<lambda>pos. ks_did pos = did) ?g")
    case None
    let ?st = "st\<lparr>ks_groups := (ks_groups st)[nat gid := ?new # ?g], group_sizes := (group_sizes st)[nat gid := group_sizes st ! nat gid + 1],
      ks_live := ks_live st + 1, next_node := next_node st + 1\<rparr>"
    have run: "write_kstorage True src None gid did offset len st = Some (0, ?st)"
      using g len None by (simp add: write_kstorage_def write_search_def write_link_def Let_def)
    have "kstore_inv ?st"
      by (rule inv_update [OF inv g]) (use gi None in \<open>auto simp: find_none\<close>)
    moreover have "content ?st gid = (content st gid)(did \<mapsto> ?v)" using gi(5) by (simp add: content_def)
    moreover have "content st gid did = None" using None find_map_of [of did ?g] by (simp add: content_def)
    ultimately show ?thesis using run by auto
  next
    case (Some pos)
    have p: "pos \<in> set ?g" "ks_did pos = did" using find_in [OF Some] by auto
    let ?m = "map (\<lambda>q. if ks_node q = ks_node pos then ?new else q) ?g"
    let ?st = "st\<lparr>ks_groups := (ks_groups st)[nat gid := ?m], ks_live := ks_live st + 1 - 1, next_node := next_node st + 1\<rparr>"
    have run: "write_kstorage True src None gid did offset len st = Some (0, ?st)"
      using g len Some p by (simp add: write_kstorage_def write_search_def write_link_def Let_def)
    have nd: "ks_did ?new = did" by simp
    note m = map_of_replace [OF gi(1,2) p nd]
    have dn: "distinct (map ks_node ?m)"
    proof -
      have inj: "inj_on ks_node (set ?g)" using gi(2) by (simp add: distinct_map)
      have "inj_on (\<lambda>q. ks_node (if ks_node q = ks_node pos then ?new else q)) (set ?g)"
        using gi(3) inj p(1) by (auto simp: inj_on_def)
      then show ?thesis using gi(2) by (simp add: distinct_map comp_def)
    qed
    have "kstore_inv (st\<lparr>ks_groups := (ks_groups st)[nat gid := ?m], group_sizes := (group_sizes st)[nat gid := group_sizes st ! nat gid],
        ks_live := ks_live st + 1 - 1, next_node := next_node st + 1\<rparr>)"
      by (rule inv_update [OF inv g _ dn]) (use gi in \<open>simp_all only: m(2), auto\<close>)
    then have "kstore_inv ?st" by simp
    moreover have "content ?st gid = (content st gid)(did \<mapsto> ?v)" using gi(5) m(1) by (simp add: content_def)
    moreover have "content st gid did \<noteq> None" using Some unfolding content_def find_map_of [symmetric] by simp
    ultimately show ?thesis using run by auto
  qed
qed

lemma remove_refines:
  assumes inv: "kstore_inv st" and g: "\<not> bad_gid gid"
  shows "\<exists>st'. remove_kstorage gid did st = (0, st') \<and> kstore_inv st' \<and> content st' gid = (content st gid)(did := None) \<and>
    (\<forall>h. h \<noteq> nat gid \<longrightarrow> ks_groups st' ! h = ks_groups st ! h)"
proof -
  let ?g = "ksgroup st gid"
  note gi = group_inv [OF inv g]
  show ?thesis
  proof (cases "did \<in> ks_did ` set ?g")
    case True
    let ?r = "remove_first did ?g"
    let ?st = "st\<lparr>ks_groups := (ks_groups st)[nat gid := ?r], group_sizes := (group_sizes st)[nat gid := group_sizes st ! nat gid - 1],
      ks_live := ks_live st - 1\<rparr>"
    have len: "group_sizes st ! nat gid - 1 = int (length ?r)" using remove_first_props(3) [OF True] gi(4) by simp
    have k: "distinct (map ks_did ?r)" "distinct (map ks_node ?r)" "\<forall>pos \<in> set ?r. ks_node pos < next_node st"
      using gi(1-3) remove_first_props(1,2) by (blast intro: remove_first_props(2))+
    have "kstore_inv (?st\<lparr>next_node := next_node st\<rparr>)"
      using inv_update [OF inv g k order_refl len, of "ks_live st - 1"] by simp
    then have "kstore_inv ?st" by simp
    moreover have "content ?st gid = (content st gid)(did := None)"
      using gi(1,5) by (simp add: content_def map_of_remove_first)
    moreover have "remove_kstorage gid did st = (0, ?st)" using True g by (simp add: remove_kstorage_def)
    ultimately show ?thesis by auto
  next
    case False
    then have "content st gid did = None" by (auto simp: content_def map_of_eq_None_iff image_iff)
    then have "content st gid = (content st gid)(did := None)" by auto
    then show ?thesis using False g inv by (simp add: remove_kstorage_def)
  qed
qed

lemma size_content:
  assumes inv: "kstore_inv st" and g: "\<not> bad_gid gid"
  shows "kstorage_group_size st gid = int (card (dom (content st gid)))"
proof -
  note gi = group_inv [OF inv g]
  have "dom (content st gid) = ks_did ` set (ksgroup st gid)" by (simp add: content_def dom_map_of_conv_image_fst image_image)
  then have "card (dom (content st gid)) = length (ksgroup st gid)"
    using gi(1) by (metis distinct_card length_map set_map)
  with gi(4) g show ?thesis by (simp add: kstorage_group_size_def)
qed

lemma get_content:
  "\<not> bad_gid gid \<Longrightarrow> (case get_kstorage st gid did of Inl e \<Rightarrow> e = - 2 \<and> content st gid did = None
     | Inr pos \<Rightarrow> ks_did pos = did \<and> content st gid did = Some (ks_bytes pos))"
  unfolding content_def find_map_of [symmetric]
  by (auto simp: get_kstorage_def find_Some_iff split: option.splits)

lemma read_content:
  assumes "\<not> bad_gid gid" "0 \<le> offset" "0 \<le> len"
  shows "read_kstorage st None gid did offset len =
    (case content st gid did of None \<Rightarrow> Some (- 2, [])
     | Some bs \<Rightarrow> if offset \<le> int (length bs) then Some (0, take (nat len) (drop (nat offset) bs)) else None)"
  using get_content [OF assms(1), of st did] assms(2,3)
  by (auto simp: read_kstorage_def Let_def split: sum.splits)

section \<open>The interface\<close>

text \<open>What a client of the storage relies on: a map with insertion, removal, lookup and a counter.\<close>

locale keyed_store =
  fixes put :: "'k \<Rightarrow> 'v \<Rightarrow> 's \<Rightarrow> 's"
    and del :: "'k \<Rightarrow> 's \<Rightarrow> 's"
    and get :: "'s \<Rightarrow> 'k \<Rightarrow> 'v option"
    and num :: "'s \<Rightarrow> int"
    and inv :: "'s \<Rightarrow> bool"
  assumes put_inv: "inv s \<Longrightarrow> inv (put k v s)"
    and del_inv: "inv s \<Longrightarrow> inv (del k s)"
    and get_put: "inv s \<Longrightarrow> get (put k v s) = (get s)(k \<mapsto> v)"
    and get_del: "inv s \<Longrightarrow> get (del k s) = (get s)(k := None)"
    and finite_dom: "inv s \<Longrightarrow> finite (dom (get s))"
    and num_dom: "inv s \<Longrightarrow> num s = int (card (dom (get s)))"
begin

lemma num_put: "inv s \<Longrightarrow> num (put k v s) = num s + (if get s k = None then 1 else 0)"
  using finite_dom [of s] by (auto simp: num_dom put_inv get_put card_insert_if)

lemma num_del: "inv s \<Longrightarrow> num (del k s) = num s - (if get s k = None then 0 else 1)"
proof -
  assume i: "inv s"
  have "1 \<le> card (dom (get s))" if "get s k = Some y" for y
    using finite_dom [OF i] that by (simp add: Suc_le_eq card_gt_0_iff) auto
  with i show ?thesis by (auto simp: num_dom del_inv get_del card_Diff_singleton_if finite_dom of_nat_diff)
qed

lemma put_put: "inv s \<Longrightarrow> get (put k w (put k v s)) = get (put k w s)"
  by (simp add: get_put put_inv)

lemma del_put: "inv s \<Longrightarrow> get (del k (put k v s)) = get (del k s)"
  by (simp add: get_put get_del put_inv)

text \<open>A sequence of insertions and removals, the last one for a key deciding.\<close>

definition apply_update :: "'k \<times> 'v option \<Rightarrow> 's \<Rightarrow> 's" where
  "apply_update u s = (case snd u of None \<Rightarrow> del (fst u) s | Some v \<Rightarrow> put (fst u) v s)"

lemma get_updates:
  "inv s \<Longrightarrow> inv (fold apply_update us s) \<and>
     get (fold apply_update us s) = fold (\<lambda>(k, v) m. m(k := v)) us (get s)"
proof (induction us arbitrary: s)
  case (Cons u us)
  have "inv (apply_update u s)" "get (apply_update u s) = (get s)(fst u := snd u)"
    using Cons.prems by (auto simp: apply_update_def put_inv del_inv get_put get_del split: option.splits)
  with Cons.IH [of "apply_update u s"] show ?case by (simp add: case_prod_beta)
qed simp

end

text \<open>The storage as the interface, for one group: data in kernel memory, the allocation succeeding.\<close>

definition ks_put :: "int \<Rightarrow> u64 \<Rightarrow> u8 list \<Rightarrow> kstore \<Rightarrow> kstore" where
  "ks_put gid did bs st = (case write_kstorage True (\<lambda>i. bs ! nat i) None gid did 0 (int (length bs)) st of
     None \<Rightarrow> st | Some (rc, st') \<Rightarrow> st')"

definition ks_del :: "int \<Rightarrow> u64 \<Rightarrow> kstore \<Rightarrow> kstore" where
  "ks_del gid did st = snd (remove_kstorage gid did st)"

lemma ks_put_refines:
  assumes "kstore_inv st" "\<not> bad_gid gid"
  shows "kstore_inv (ks_put gid did bs st)" "content (ks_put gid did bs st) gid = (content st gid)(did \<mapsto> bs)"
proof -
  have "map (\<lambda>i. bs ! nat (0 + int i)) [0..<nat (int (length bs))] = bs" by (simp add: map_nth)
  with write_refines [OF assms, of "int (length bs)" "\<lambda>i. bs ! nat i" did 0]
  show "kstore_inv (ks_put gid did bs st)" "content (ks_put gid did bs st) gid = (content st gid)(did \<mapsto> bs)"
    by (auto simp: ks_put_def)
qed

lemma ks_del_refines:
  assumes "kstore_inv st" "\<not> bad_gid gid"
  shows "kstore_inv (ks_del gid did st)" "content (ks_del gid did st) gid = (content st gid)(did := None)"
  using remove_refines [OF assms, of did] by (auto simp: ks_del_def)

lemma finite_content: "finite (dom (content st gid))"
  by (simp add: content_def finite_dom_map_of)

interpretation su_store: keyed_store "ks_put 0" "ks_del 0" "\<lambda>st. content st 0" "\<lambda>st. kstorage_group_size st 0" kstore_inv
  by unfold_locales (simp_all add: ks_put_refines ks_del_refines finite_content size_content bad_gid_def)

interpretation exclude_store: keyed_store "ks_put 1" "ks_del 1" "\<lambda>st. content st 1" "\<lambda>st. kstorage_group_size st 1" kstore_inv
  by unfold_locales (simp_all add: ks_put_refines ks_del_refines finite_content size_content bad_gid_def)


section \<open>What the storage guarantees, and what it does not\<close>

text \<open>
  C31: Used one call after another, a group of the storage is a map: a write replaces exactly the
  entry of its key by the bytes at the offset and leaves the other groups alone, a removal deletes
  it, a read yields the stored bytes from its offset on, cut to the length asked for, and the
  size of the group is the number of its keys.
\<close>
theorem kstorage_is_map:
  assumes "kstore_inv st" "0 \<le> gid" "gid < 4" "0 \<le> len" "0 \<le> offset"
  shows "(\<exists>st'. write_kstorage True src None gid did offset len st = Some (0, st') \<and> kstore_inv st' \<and>
       content st' gid = (content st gid)(did \<mapsto> map (\<lambda>i. src (offset + int i)) [0..<nat len]) \<and>
       (\<forall>h. h \<noteq> nat gid \<longrightarrow> ks_groups st' ! h = ks_groups st ! h)) \<and>
    (\<exists>st'. remove_kstorage gid did st = (0, st') \<and> kstore_inv st' \<and> content st' gid = (content st gid)(did := None) \<and>
       (\<forall>h. h \<noteq> nat gid \<longrightarrow> ks_groups st' ! h = ks_groups st ! h)) \<and>
    read_kstorage st None gid did offset len =
      (case content st gid did of None \<Rightarrow> Some (- 2, [])
       | Some bs \<Rightarrow> if offset \<le> int (length bs) then Some (0, take (nat len) (drop (nat offset) bs)) else None) \<and>
    kstorage_group_size st gid = int (card (dom (content st gid)))"
proof -
  have g: "\<not> bad_gid gid" using assms(2,3) by (simp add: bad_gid_def)
  show ?thesis
    using write_refines [OF assms(1) g assms(4), of src did offset] remove_refines [OF assms(1) g, of did]
      read_content [OF g assms(5,4)] size_content [OF assms(1) g] by blast
qed

theorem kstorage_is_map_witness:
  "\<exists>st'. write_kstorage True (\<lambda>i. of_int i) None 0 7 1 2 kstorage_init = Some (0, st') \<and> content st' 0 7 = Some [1, 2]"
  using kstorage_is_map [of kstorage_init 0 2 1 "\<lambda>i. of_int i" 7] by (auto simp: upt_rec numeral_2_eq_2)

text \<open>
  The search of a write happens before its lock is taken.  Two writers of the same new key whose
  steps interleave both insert: the group holds two entries for the key, its size counts
  both, and removing the key brings the first writer's data back.  A writer that found an
  entry which is removed before the link writes through an unlinked node.
\<close>
theorem kstorage_write_race:
  assumes "kstore_inv st" "\<not> bad_gid gid" "0 \<le> len" "content st gid did = None"
    and "write_search True src1 None gid did 0 len st = Some (Linked o1 new1, st1)"
    and "write_search True src2 None gid did 0 len st1 = Some (Linked o2 new2, st2)"
    and "write_link gid o1 new1 st2 = Some st3"
  shows "\<exists>st4. write_link gid o2 new2 st3 = Some st4 \<and> ksgroup st4 gid = new2 # new1 # ksgroup st gid \<and>
    kstorage_group_size st4 gid = int (card (dom (content st4 gid))) + 1 \<and>
    content (snd (remove_kstorage gid did st4)) gid did = Some (map (\<lambda>i. src1 (int i)) [0..<nat len]) \<and>
    write_link gid (Some (ks_node new1)) new2 (snd (remove_kstorage gid did st3)) = None"
proof -
  note gi = group_inv [OF assms(1,2)]
  have f: "find (\<lambda>pos. ks_did pos = did) (ksgroup st gid) = None"
    using assms(4) unfolding content_def find_map_of [symmetric] by simp
  then have none: "did \<notin> ks_did ` set (ksgroup st gid)" by (simp add: find_none)
  have s1: "o1 = None" "new1 = \<lparr>ks_node = next_node st, ks_did = did, ks_bytes = map (\<lambda>i. src1 (int i)) [0..<nat len]\<rparr>"
      "st1 = st\<lparr>ks_live := ks_live st + 1, next_node := next_node st + 1\<rparr>"
    using assms(2,3,5) f by (auto simp: write_search_def Let_def)
  have s2: "o2 = None" "new2 = \<lparr>ks_node = next_node st + 1, ks_did = did, ks_bytes = map (\<lambda>i. src2 (int i)) [0..<nat len]\<rparr>"
      "st2 = st\<lparr>ks_live := ks_live st + 2, next_node := next_node st + 2\<rparr>"
    using assms(2,3,6) f by (auto simp: write_search_def Let_def s1)
  have s3: "st3 = st2\<lparr>ks_groups := (ks_groups st)[nat gid := new1 # ksgroup st gid],
        group_sizes := (group_sizes st)[nat gid := group_sizes st ! nat gid + 1]\<rparr>"
    using assms(7) by (simp add: write_link_def s1(1) s2(3))
  let ?st4 = "st2\<lparr>ks_groups := (ks_groups st)[nat gid := new2 # new1 # ksgroup st gid],
        group_sizes := (group_sizes st)[nat gid := group_sizes st ! nat gid + 2]\<rparr>"
  have l: "write_link gid o2 new2 st3 = Some ?st4" using gi(5,6) by (simp add: write_link_def s2(1) s3 add.commute)
  have g4: "ksgroup ?st4 gid = new2 # new1 # ksgroup st gid" using gi(5) by simp
  have dom4: "dom (content ?st4 gid) = insert did (ks_did ` set (ksgroup st gid))"
    unfolding content_def g4 by (auto simp: dom_map_of_conv_image_fst image_image s1(2) s2(2))
  have "card (ks_did ` set (ksgroup st gid)) = length (ksgroup st gid)"
    using gi(1) by (metis distinct_card length_map set_map)
  then have "card (dom (content ?st4 gid)) = Suc (length (ksgroup st gid))" unfolding dom4 using none by simp
  moreover have "kstorage_group_size ?st4 gid = int (length (ksgroup st gid)) + 2"
    using gi(4,6) assms(2) by (simp add: kstorage_group_size_def)
  ultimately have sz: "kstorage_group_size ?st4 gid = int (card (dom (content ?st4 gid))) + 1" by linarith
  have "did \<in> ks_did ` set (ksgroup ?st4 gid)" unfolding g4 by (simp add: s2(2))
  then have rm: "content (snd (remove_kstorage gid did ?st4)) gid did = Some (map (\<lambda>i. src1 (int i)) [0..<nat len])"
    using gi(5) assms(2) by (simp add: remove_kstorage_def content_def s1(2) s2(2))
  have "ksgroup st3 gid = new1 # ksgroup st gid" using gi(5) by (simp add: s3)
  then have "ksgroup (snd (remove_kstorage gid did st3)) gid = ksgroup st gid"
    using gi(5) assms(2) by (simp add: remove_kstorage_def s1(2) s3 s2(3))
  then have "write_link gid (Some (ks_node new1)) new2 (snd (remove_kstorage gid did st3)) = None"
    using gi(3) by (auto simp: write_link_def s1(2))
  with l g4 sz rm show ?thesis by blast
qed

theorem kstorage_write_race_witness:
  "\<exists>st4. kstorage_group_size st4 0 = int (card (dom (content st4 0))) + 1"
proof -
  let ?st = kstorage_init
  have c: "content ?st 0 5 = None" by (simp add: content_def kstorage_init_def)
  obtain p1 st1 where 1: "write_search True (\<lambda>_. 1) None 0 5 0 1 ?st = Some (Linked None p1, st1)"
    by (simp add: write_search_def Let_def bad_gid_def kstorage_init_def)
  obtain p2 st2 where 2: "write_search True (\<lambda>_. 2) None 0 5 0 1 st1 = Some (Linked None p2, st2)"
    using 1 by (auto simp: write_search_def Let_def bad_gid_def kstorage_init_def)
  obtain st3 where 3: "write_link 0 None p1 st2 = Some st3" by (simp add: write_link_def)
  have g: "\<not> bad_gid 0" by (simp add: bad_gid_def)
  from kstorage_write_race [OF kstore_inv_init g _ c 1 2 3] show ?thesis by auto
qed

end
