(* ===== verification/Su_List.thy ===== *)
theory Su_List
  imports Kstorage
begin

text \<open>
  The list of users that may become root, \<^verbatim>\<open>kernel/patch/common/sucompat.c\<close>: profiles stored in the
  first group of the keyed storage, the users excluded from modules in the second one, and the
  decision of the \<open>execve\<close> and \<open>faccessat\<close> hooks.
\<close>

abbreviation (input) SCONTEXT_LEN :: nat where "SCONTEXT_LEN \<equiv> 96"

record su_profile =
  prof_uid :: u32
  prof_to_uid :: u32
  prof_scontext :: "u8 list"

text \<open>The bytes of a \<open>struct su_profile\<close> and of an \<open>int\<close>, and reading them back.\<close>

definition le32 :: "u32 \<Rightarrow> u8 list" where
  "le32 v = [ucast v, ucast (drop_bit 8 v), ucast (drop_bit 16 v), ucast (drop_bit 24 v)]"

definition from_le32 :: "u8 list \<Rightarrow> u32" where
  "from_le32 bs = ucast (bs ! 0) OR push_bit 8 (ucast (bs ! 1)) OR push_bit 16 (ucast (bs ! 2)) OR push_bit 24 (ucast (bs ! 3))"

definition profile_bytes :: "su_profile \<Rightarrow> u8 list" where
  "profile_bytes p = le32 (prof_uid p) @ le32 (prof_to_uid p) @ prof_scontext p"

definition profile_of :: "u8 list \<Rightarrow> su_profile" where
  "profile_of bs = \<lparr>prof_uid = from_le32 bs, prof_to_uid = from_le32 (drop 4 bs), prof_scontext = take SCONTEXT_LEN (drop 8 bs)\<rparr>"

lemma from_le32 [simp]: "from_le32 (le32 v @ bs) = v"
proof (rule bit_word_eqI)
  fix n assume "n < LENGTH(32)"
  then consider "n < 8" | "8 \<le> n" "n < 16" | "16 \<le> n" "n < 24" | "24 \<le> n" "n < 32" by fastforce
  then show "bit (from_le32 (le32 v @ bs)) n \<longleftrightarrow> bit v n"
    by cases (auto simp: from_le32_def le32_def bit_simps)
qed

lemma length_le32 [simp]: "length (le32 v) = 4"
  by (simp add: le32_def)

lemma profile_roundtrip: "length (prof_scontext p) = SCONTEXT_LEN \<Longrightarrow> profile_of (profile_bytes p) = p"
  by (simp add: profile_of_def profile_bytes_def)

section \<open>The list\<close>

text \<open>The two groups; \<open>su_compat_init\<close> takes them when the storage is fresh.\<close>

record su_state =
  su_store :: kstore
  su_gid :: int
  exclude_gid :: int

definition su_groups :: "kstore \<Rightarrow> int \<times> su_state" where
  "su_groups st =
     (let (g, st) = try_alloc_kstroage_group st
      in if g \<noteq> 0 then (- 12, \<lparr>su_store = st, su_gid = g, exclude_gid = - 1\<rparr>)
         else let (h, st) = try_alloc_kstroage_group st
              in (if h \<noteq> 1 then - 12 else 0, \<lparr>su_store = st, su_gid = g, exclude_gid = h\<rparr>))"

definition is_su_allow_uid :: "su_state \<Rightarrow> u32 \<Rightarrow> bool" where
  "is_su_allow_uid su uid =
     (case get_kstorage (su_store su) (su_gid su) (ucast uid) of
        Inl e \<Rightarrow> False
      | Inr ks \<Rightarrow> if ks_bytes ks = [] then False else prof_uid (profile_of (ks_bytes ks)) = uid)"

text \<open>
  96 bytes are copied from the pointer to the context, whatever the length of the string there;
  \<open>ctx\<close> is the memory at the pointer, or at the empty literal for a null pointer.
\<close>

definition su_add_allow_uid :: "bool \<Rightarrow> u32 \<Rightarrow> u32 \<Rightarrow> (nat \<Rightarrow> u8) \<Rightarrow> su_state \<Rightarrow> (int \<times> su_state) option" where
  "su_add_allow_uid alloc_ok uid to_uid ctx su =
     (let bs = profile_bytes \<lparr>prof_uid = uid, prof_to_uid = to_uid, prof_scontext = map ctx [0..<SCONTEXT_LEN]\<rparr>
      in case write_kstorage alloc_ok (\<lambda>i. bs ! nat i) None (su_gid su) (ucast uid) 0 (int (length bs)) (su_store su) of
           None \<Rightarrow> None
         | Some (rc, st) \<Rightarrow> Some (rc, su\<lparr>su_store := st\<rparr>))"

definition su_remove_allow_uid :: "u32 \<Rightarrow> su_state \<Rightarrow> int \<times> su_state" where
  "su_remove_allow_uid uid su =
     (case remove_kstorage (su_gid su) (ucast uid) (su_store su) of (rc, st) \<Rightarrow> (rc, su\<lparr>su_store := st\<rparr>))"

definition su_allow_uid_nums :: "su_state \<Rightarrow> int" where
  "su_allow_uid_nums su = kstorage_group_size (su_store su) (su_gid su)"

text \<open>The callback that lists the users: an output that is full ends the walk.\<close>

definition allow_uids_cb :: "(nat \<Rightarrow> int) option \<Rightarrow> int \<Rightarrow> kstorage \<Rightarrow> u32 list \<Rightarrow> int \<times> u32 list" where
  "allow_uids_cb copy out_num ks out =
     (if int (length out) \<ge> out_num then (- 105, out)
      else let uid = prof_uid (profile_of (ks_bytes ks))
      in case copy of
           Some f \<Rightarrow> if f (length out) \<le> 0 then (f (length out), out) else (0, out @ [uid])
         | None \<Rightarrow> (0, out @ [uid]))"

definition su_allow_uids :: "su_state \<Rightarrow> (nat \<Rightarrow> int) option \<Rightarrow> int \<Rightarrow> int \<times> u32 list" where
  "su_allow_uids su copy out_num =
     (case on_each_kstorage_elem (su_store su) (su_gid su) (allow_uids_cb copy out_num) [] of
        (rc, out) \<Rightarrow> (int (length out), out))"

definition su_allow_uid_profile :: "su_state \<Rightarrow> int option \<Rightarrow> u32 \<Rightarrow> int \<times> su_profile option" where
  "su_allow_uid_profile su copy uid =
     (case get_kstorage (su_store su) (su_gid su) (ucast uid) of
        Inl e \<Rightarrow> (- 2, None)
      | Inr ks \<Rightarrow>
          (case copy of
             None \<Rightarrow> (0, Some (profile_of (ks_bytes ks)))
           | Some rc \<Rightarrow> (rc, if rc \<le> 0 then None else Some (profile_of (ks_bytes ks)))))"

section \<open>Users excluded from modules\<close>

definition set_ap_mod_exclude :: "bool \<Rightarrow> u32 \<Rightarrow> u32 \<Rightarrow> su_state \<Rightarrow> (int \<times> su_state) option" where
  "set_ap_mod_exclude alloc_ok uid exclude su =
     (if exclude \<noteq> 0
      then (case write_kstorage alloc_ok (\<lambda>i. le32 exclude ! nat i) None (exclude_gid su) (ucast uid) 0 4 (su_store su) of
              None \<Rightarrow> None | Some (rc, st) \<Rightarrow> Some (rc, su\<lparr>su_store := st\<rparr>))
      else (case remove_kstorage (exclude_gid su) (ucast uid) (su_store su) of (rc, st) \<Rightarrow> Some (rc, su\<lparr>su_store := st\<rparr>)))"

definition get_ap_mod_exclude :: "u32 \<Rightarrow> su_state \<Rightarrow> u32 option" where
  "get_ap_mod_exclude uid su =
     (case read_kstorage (su_store su) None (exclude_gid su) (ucast uid) 0 4 of
        None \<Rightarrow> None
      | Some (rc, bs) \<Rightarrow> Some (if rc < 0 then 0 else from_le32 (bs @ drop (length bs) [0, 0, 0, 0])))"

text \<open>All \<open>len\<close> words of the array are copied, also those that have not been written: \<open>stack\<close>.\<close>

definition list_ap_mod_exclude :: "su_state \<Rightarrow> (nat \<Rightarrow> u64) \<Rightarrow> nat \<Rightarrow> int \<times> u32 list" where
  "list_ap_mod_exclude su stack len =
     (case list_kstorage_ids (su_store su) None (exclude_gid su) (int len) of
        (n, out) \<Rightarrow> (n, map (\<lambda>i. ucast (case map_of out (int i) of None \<Rightarrow> stack i | Some did \<Rightarrow> did)) [0..<len]))"

section \<open>The path of the su command\<close>

datatype exec_action = Pass | Become u32 "u8 list" | Supercmd

definition before_execve :: "su_state \<Rightarrow> string \<Rightarrow> string \<Rightarrow> string option \<Rightarrow> u32 \<Rightarrow> exec_action" where
  "before_execve su su_path supercmd filename uid =
     (case filename of
        None \<Rightarrow> Pass
      | Some f \<Rightarrow>
          if f = [] then Pass
          else if su_path = f
          then (case su_allow_uid_profile su None uid of
                  (rc, Some p) \<Rightarrow> if rc \<noteq> 0 then Pass else Become (prof_to_uid p) (prof_scontext p)
                | (rc, None) \<Rightarrow> Pass)
          else if supercmd = f then Supercmd else Pass)"

text \<open>The file name that \<open>faccessat\<close> and \<open>fstatat\<close> see.\<close>

definition su_handler_filename :: "su_state \<Rightarrow> string \<Rightarrow> string \<Rightarrow> string option \<Rightarrow> bool \<Rightarrow> u32 \<Rightarrow> string option" where
  "su_handler_filename su su_path sh_path filename stack_ok uid =
     (if \<not> is_su_allow_uid su uid then filename
      else case filename of None \<Rightarrow> None
      | Some f \<Rightarrow> if f \<noteq> [] \<and> su_path = f \<and> stack_ok then Some sh_path else filename)"

section \<open>Sequences of grants and revocations\<close>

datatype su_command = Grant u32 u32 "u8 list" | Revoke u32

fun su_run :: "su_command list \<Rightarrow> su_state \<Rightarrow> su_state" where
  "su_run [] su = su"
| "su_run (Grant uid to ctx # cs) su =
     su_run cs (case su_add_allow_uid True uid to (\<lambda>i. ctx ! i) su of None \<Rightarrow> su | Some (rc, su) \<Rightarrow> su)"
| "su_run (Revoke uid # cs) su = su_run cs (snd (su_remove_allow_uid uid su))"

text \<open>The specification: a map from users to the profile of the last grant.\<close>

fun su_spec :: "su_command list \<Rightarrow> (u32 \<rightharpoonup> u32 \<times> u8 list) \<Rightarrow> (u32 \<rightharpoonup> u32 \<times> u8 list)" where
  "su_spec [] m = m"
| "su_spec (Grant uid to ctx # cs) m = su_spec cs (m(uid \<mapsto> (to, ctx)))"
| "su_spec (Revoke uid # cs) m = su_spec cs (m(uid := None))"

definition su_rep :: "su_state \<Rightarrow> (u32 \<rightharpoonup> u32 \<times> u8 list) \<Rightarrow> bool" where
  "su_rep su m \<longleftrightarrow>
     kstore_inv (su_store su) \<and> su_gid su = 0 \<and>
     content (su_store su) 0 =
       (\<lambda>did. if did \<in> range (ucast :: u32 \<Rightarrow> u64)
              then map_option (\<lambda>(to, ctx). profile_bytes \<lparr>prof_uid = ucast did, prof_to_uid = to, prof_scontext = ctx\<rparr>) (m (ucast did))
              else None)"

lemma ucast_back [simp]: "(ucast (ucast (u :: u32) :: u64) :: u32) = u"
  by (rule bit_word_eqI) (auto simp: bit_simps)

lemma ucast_inj: "(ucast (u :: u32) :: u64) = ucast v \<longleftrightarrow> u = v"
  by (metis ucast_back)

lemma su_rep_grant:
  assumes "su_rep su m" "length ctx = SCONTEXT_LEN"
  shows "\<exists>su'. su_add_allow_uid True uid to (\<lambda>i. ctx ! i) su = Some (0, su') \<and> su_rep su' (m(uid \<mapsto> (to, ctx)))"
proof -
  let ?bs = "profile_bytes \<lparr>prof_uid = uid, prof_to_uid = to, prof_scontext = map (\<lambda>i. ctx ! i) [0..<SCONTEXT_LEN]\<rparr>"
  have ctx: "map (\<lambda>i. ctx ! i) [0..<SCONTEXT_LEN] = ctx" using assms(2) map_nth [of ctx] by simp
  have g: "\<not> bad_gid 0" "kstore_inv (su_store su)" "su_gid su = 0" using assms(1) by (simp_all add: bad_gid_def su_rep_def)
  have id: "map (\<lambda>i. ?bs ! nat (0 + int i)) [0..<nat (int (length ?bs))] = ?bs" by (simp add: map_nth)
  obtain st' where w: "write_kstorage True (\<lambda>i. ?bs ! nat i) None 0 (ucast uid) 0 (int (length ?bs)) (su_store su) = Some (0, st')"
      "kstore_inv st'" "content st' 0 = (content (su_store su) 0)(ucast uid \<mapsto> ?bs)"
    using write_refines [OF g(2,1), of "int (length ?bs)" "\<lambda>i. ?bs ! nat i" "ucast uid" 0] unfolding id by auto
  have run: "su_add_allow_uid True uid to (\<lambda>i. ctx ! i) su = Some (0, su\<lparr>su_store := st'\<rparr>)"
    using w(1) by (simp add: su_add_allow_uid_def Let_def g(3))
  moreover have "su_rep (su\<lparr>su_store := st'\<rparr>) (m(uid \<mapsto> (to, ctx)))"
    using assms(1) w(2,3) by (auto simp: su_rep_def fun_eq_iff ctx ucast_inj)
  ultimately show ?thesis by blast
qed

lemma su_rep_revoke:
  assumes "su_rep su m"
  shows "su_rep (snd (su_remove_allow_uid uid su)) (m(uid := None))"
proof -
  have g: "\<not> bad_gid 0" "kstore_inv (su_store su)" "su_gid su = 0" using assms(1) by (simp_all add: bad_gid_def su_rep_def)
  obtain st' where r: "remove_kstorage 0 (ucast uid) (su_store su) = (0, st')" "kstore_inv st'"
      "content st' 0 = (content (su_store su) 0)(ucast uid := None)"
    using remove_refines [OF g(2,1), of "ucast uid"] by auto
  show ?thesis using assms r by (auto simp: su_remove_allow_uid_def g(3) su_rep_def fun_eq_iff ucast_inj)
qed

definition grants_ok :: "su_command list \<Rightarrow> bool" where
  "grants_ok cs \<longleftrightarrow> (\<forall>uid to ctx. Grant uid to ctx \<in> set cs \<longrightarrow> length ctx = SCONTEXT_LEN)"

lemma su_run_rep: "su_rep su m \<Longrightarrow> grants_ok cs \<Longrightarrow> su_rep (su_run cs su) (su_spec cs m)"
proof (induction cs arbitrary: su m)
  case (Cons c cs)
  have ok: "grants_ok cs" using Cons.prems(2) by (auto simp: grants_ok_def)
  show ?case
  proof (cases c)
    case (Grant uid to ctx)
    then have "length ctx = SCONTEXT_LEN" using Cons.prems(2) by (auto simp: grants_ok_def)
    from su_rep_grant [OF Cons.prems(1) this] obtain su' where
      s: "su_add_allow_uid True uid to (\<lambda>i. ctx ! i) su = Some (0, su')" "su_rep su' (m(uid \<mapsto> (to, ctx)))" by blast
    show ?thesis using Cons.IH [OF s(2) ok] by (simp only: Grant su_run.simps su_spec.simps s(1) option.case prod.case)
  next
    case (Revoke uid)
    then show ?thesis using Cons.IH [OF su_rep_revoke [OF Cons.prems(1)] ok, of uid] by (simp only: su_run.simps su_spec.simps)
  qed
qed simp

lemma su_rep_content:
  "su_rep su m \<Longrightarrow> content (su_store su) 0 (ucast uid) =
     map_option (\<lambda>(to, ctx). profile_bytes \<lparr>prof_uid = uid, prof_to_uid = to, prof_scontext = ctx\<rparr>) (m uid)"
  by (simp add: su_rep_def)

lemma su_rep_queries:
  assumes "su_rep su m" "\<forall>to ctx. m uid = Some (to, ctx) \<longrightarrow> length ctx = SCONTEXT_LEN"
  shows "is_su_allow_uid su uid \<longleftrightarrow> m uid \<noteq> None"
    "su_allow_uid_profile su None uid =
       (case m uid of None \<Rightarrow> (- 2, None)
        | Some (to, ctx) \<Rightarrow> (0, Some \<lparr>prof_uid = uid, prof_to_uid = to, prof_scontext = ctx\<rparr>))"
proof -
  have g: "\<not> bad_gid 0" "su_gid su = 0" using assms(1) by (simp_all add: bad_gid_def su_rep_def)
  note c = get_content [OF g(1), of "su_store su" "ucast uid"] su_rep_content [OF assms(1), of uid]
  have ne: "profile_bytes p \<noteq> []" for p by (simp add: profile_bytes_def le32_def)
  have pu: "prof_uid (profile_of (profile_bytes p)) = prof_uid p" for p by (simp add: profile_of_def profile_bytes_def)
  show "is_su_allow_uid su uid \<longleftrightarrow> m uid \<noteq> None"
  proof (cases "m uid")
    case None
    then show ?thesis using c by (auto simp: is_su_allow_uid_def g(2) split: sum.splits)
  next
    case (Some p)
    obtain to ctx where p: "p = (to, ctx)" by (cases p)
    let ?p = "\<lparr>prof_uid = uid, prof_to_uid = to, prof_scontext = ctx\<rparr>"
    from c Some p obtain ks where "get_kstorage (su_store su) 0 (ucast uid) = Inr ks" "ks_bytes ks = profile_bytes ?p"
      by (auto split: sum.splits)
    then show ?thesis using Some ne [of ?p] pu [of ?p] by (simp add: is_su_allow_uid_def g(2))
  qed
  show "su_allow_uid_profile su None uid =
       (case m uid of None \<Rightarrow> (- 2, None)
        | Some (to, ctx) \<Rightarrow> (0, Some \<lparr>prof_uid = uid, prof_to_uid = to, prof_scontext = ctx\<rparr>))"
    using c assms(2)
    by (cases "m uid") (auto simp: su_allow_uid_profile_def g(2) profile_roundtrip split: sum.splits)
qed

lemma card_dom_rep:
  assumes "su_rep su m"
  shows "card (dom (content (su_store su) 0)) = card (dom m)"
proof -
  have "dom (content (su_store su) 0) = ucast ` dom m"
    using assms by (auto simp: su_rep_def dom_def image_iff split: if_splits) (metis ucast_back)+
  moreover have "inj_on (ucast :: u32 \<Rightarrow> u64) (dom m)" by (auto simp: inj_on_def ucast_inj)
  ultimately show ?thesis by (simp add: card_image)
qed

lemma su_spec_ctx:
  "grants_ok cs \<Longrightarrow> \<forall>uid to ctx. m uid = Some (to, ctx) \<longrightarrow> length ctx = SCONTEXT_LEN \<Longrightarrow>
     \<forall>uid to ctx. su_spec cs m uid = Some (to, ctx) \<longrightarrow> length ctx = SCONTEXT_LEN"
proof (induction cs arbitrary: m)
  case (Cons c cs)
  have ok: "grants_ok cs" using Cons.prems(1) by (auto simp: grants_ok_def)
  show ?case
  proof (cases c)
    case (Grant uid to ctx)
    then have "length ctx = SCONTEXT_LEN" using Cons.prems(1) by (auto simp: grants_ok_def)
    with Cons.prems(2) have "\<forall>u t x. (m(uid \<mapsto> (to, ctx))) u = Some (t, x) \<longrightarrow> length x = SCONTEXT_LEN" by auto
    from Cons.IH [OF ok this] show ?thesis by (simp only: Grant su_spec.simps)
  next
    case (Revoke uid)
    have "\<forall>u t x. (m(uid := None)) u = Some (t, x) \<longrightarrow> length x = SCONTEXT_LEN" using Cons.prems(2) by auto
    from Cons.IH [OF ok this] show ?thesis by (simp only: Revoke su_spec.simps)
  qed
qed simp

definition fresh_su :: su_state where
  "fresh_su = snd (su_groups kstorage_init)"

lemma fresh_su_rep: "su_rep fresh_su (\<lambda>_. None)"
proof -
  have f: "fresh_su = \<lparr>su_store = kstorage_init\<lparr>used_max_group := 1\<rparr>, su_gid = 0, exclude_gid = 1\<rparr>"
    by (simp add: fresh_su_def su_groups_def try_alloc_kstroage_group_def kstorage_init_def)
  have "kstore_inv (kstorage_init\<lparr>used_max_group := 1\<rparr>)" by (simp add: kstore_inv_def kstorage_init_def)
  moreover have "content (kstorage_init\<lparr>used_max_group := 1\<rparr>) 0 = (\<lambda>_. None)" by (simp add: content_def kstorage_init_def)
  ultimately show ?thesis unfolding su_rep_def f by (auto simp: fun_eq_iff)
qed

text \<open>
  C32: After any sequence of grants and revocations from the initial state, a user is allowed
  exactly if the last command for it was a grant; its profile, and with it the identity a
  process that executes the su command takes on, is the one of that grant, every other process
  keeps its own, and the number reported is the number of allowed users.
\<close>
theorem su_list_correct:
  assumes "grants_ok cs"
  shows "let su = su_run cs fresh_su; m = su_spec cs (\<lambda>_. None)
    in (is_su_allow_uid su uid \<longleftrightarrow> m uid \<noteq> None) \<and> su_allow_uid_nums su = int (card (dom m)) \<and>
       (path \<noteq> [] \<longrightarrow> before_execve su path supercmd (Some path) uid =
          (case m uid of None \<Rightarrow> Pass | Some (to, ctx) \<Rightarrow> Become to ctx))"
proof -
  let ?su = "su_run cs fresh_su" and ?m = "su_spec cs (\<lambda>_. None)"
  have rep: "su_rep ?su ?m" by (rule su_run_rep [OF fresh_su_rep assms])
  have ctx: "\<forall>to ctx. ?m uid = Some (to, ctx) \<longrightarrow> length ctx = SCONTEXT_LEN"
    using su_spec_ctx [OF assms, of "\<lambda>_. None"] by auto
  note q = su_rep_queries [OF rep ctx]
  have "su_allow_uid_nums ?su = int (card (dom ?m))"
    using rep card_dom_rep [OF rep] by (simp add: su_allow_uid_nums_def su_rep_def size_content bad_gid_def)
  with q show ?thesis by (auto simp: Let_def before_execve_def split: option.splits)
qed

theorem su_list_correct_witness:
  "before_execve (su_run [Grant 2000 0 (replicate 96 0), Grant 1000 5 (replicate 96 1), Revoke 1000] fresh_su)
     ''/system/bin/kp'' ''/system/bin/truncate'' (Some ''/system/bin/kp'') 2000 = Become 0 (replicate 96 0)"
  using su_list_correct [of "[Grant 2000 0 (replicate 96 0), Grant 1000 5 (replicate 96 1), Revoke 1000]" 2000
      "''/system/bin/kp''" "''/system/bin/truncate''"]
  by (simp add: Let_def grants_ok_def del: su_run.simps)


section \<open>Exclusions\<close>

lemma write_is_put:
  assumes "kstore_inv st" "\<not> bad_gid gid"
  shows "write_kstorage True (\<lambda>i. bs ! nat i) None gid did 0 (int (length bs)) st = Some (0, ks_put gid did bs st)"
  using write_refines [OF assms, of "int (length bs)" "\<lambda>i. bs ! nat i" did 0] by (auto simp: ks_put_def)

lemma remove_is_del:
  assumes "kstore_inv st" "\<not> bad_gid gid"
  shows "remove_kstorage gid did st = (0, ks_del gid did st)"
  using remove_refines [OF assms, of did] by (auto simp: ks_del_def)

lemma get_exclude_content:
  "exclude_gid su = 1 \<Longrightarrow> get_ap_mod_exclude uid su =
     Some (case content (su_store su) 1 (ucast uid) of None \<Rightarrow> 0 | Some bs \<Rightarrow> from_le32 (take 4 bs @ drop (length (take 4 bs)) [0, 0, 0, 0]))"
  using read_content [of 1 0 4 "su_store su" "ucast uid"]
  by (auto simp: get_ap_mod_exclude_def bad_gid_def from_le32_def split: option.splits)

text \<open>
  Excluding a user and reading the exclusion back gives the value set, other users keep
  theirs, and clearing it gives zero; the number of exclusions grows by one only for a user that had none.
\<close>
theorem exclude_roundtrip:
  assumes "kstore_inv (su_store su)" "exclude_gid su = 1" "e \<noteq> 0"
  shows "\<exists>su'. set_ap_mod_exclude True uid e su = Some (0, su') \<and> get_ap_mod_exclude uid su' = Some e \<and>
      (\<forall>v. v \<noteq> uid \<longrightarrow> get_ap_mod_exclude v su' = get_ap_mod_exclude v su) \<and>
      kstorage_group_size (su_store su') 1 = kstorage_group_size (su_store su) 1 +
        (if content (su_store su) 1 (ucast uid) = None then 1 else 0) \<and>
      (\<exists>su''. set_ap_mod_exclude True uid 0 su' = Some (0, su'') \<and> get_ap_mod_exclude uid su'' = Some 0)"
proof -
  have g: "\<not> bad_gid 1" by (simp add: bad_gid_def)
  let ?st = "ks_put 1 (ucast uid) (le32 e) (su_store su)" let ?su = "su\<lparr>su_store := ?st\<rparr>"
  have w: "write_kstorage True (\<lambda>i. le32 e ! nat i) None 1 (ucast uid) 0 4 (su_store su) = Some (0, ?st)"
    using write_is_put [OF assms(1) g, of "le32 e" "ucast uid"] by simp
  have i: "kstore_inv ?st" by (rule exclude_store.put_inv [OF assms(1)])
  let ?su' = "?su\<lparr>su_store := ks_del 1 (ucast uid) ?st\<rparr>"
  have "set_ap_mod_exclude True uid 0 ?su = Some (0, ?su')"
    using remove_is_del [OF i g] assms(2) by (simp add: set_ap_mod_exclude_def)
  moreover have "get_ap_mod_exclude uid ?su' = Some 0"
    using assms(2) exclude_store.get_del [OF i] by (simp add: get_exclude_content)
  moreover have "get_ap_mod_exclude uid ?su = Some e"
    using assms(2) exclude_store.get_put [OF assms(1)] from_le32 [of e "[]"]
    by (simp add: get_exclude_content)
  moreover have "get_ap_mod_exclude v ?su = get_ap_mod_exclude v su" if "v \<noteq> uid" for v
    using assms(2) that exclude_store.get_put [OF assms(1)] by (simp add: get_exclude_content ucast_inj)
  moreover have "set_ap_mod_exclude True uid e su = Some (0, ?su)"
    using w assms(2,3) by (simp add: set_ap_mod_exclude_def)
  moreover note exclude_store.num_put [OF assms(1), of "ucast uid" "le32 e"]
  ultimately show ?thesis by auto
qed

theorem exclude_roundtrip_witness:
  "\<exists>su'. set_ap_mod_exclude True 10050 1 fresh_su = Some (0, su') \<and> get_ap_mod_exclude 10050 su' = Some 1"
proof -
  have "exclude_gid fresh_su = 1" by (simp add: fresh_su_def su_groups_def try_alloc_kstroage_group_def kstorage_init_def)
  moreover have "kstore_inv (su_store fresh_su)" using fresh_su_rep by (simp add: su_rep_def)
  ultimately show ?thesis using exclude_roundtrip [of fresh_su 1 10050] by auto
qed

end
