(* ===== verification/Kp_Symbol.thy ===== *)
theory Kp_Symbol
  imports Prelude
begin

text \<open>
  The table of symbols that KernelPatch exports to its modules, \<^verbatim>\<open>kernel/base/symbol.c\<close>: the
  entries between two linker symbols are a list, names are strings without NUL, and
  \<open>char\<close> is unsigned as on AArch64.
\<close>

record kp_symbol =
  ks_addr :: u64
  ks_hash :: u64
  ks_name :: string

definition hash_step :: "u64 \<Rightarrow> char \<Rightarrow> u64" where
  "hash_step hash c = (push_bit 5 hash + hash) + of_char c"

definition sym_hash :: "string \<Rightarrow> u64" where
  "sym_hash str = foldl hash_step 5381 str"

fun local_strcmp :: "string \<Rightarrow> string \<Rightarrow> int" where
  "local_strcmp (a # s) (b # t) = (if a \<noteq> b then int (code_of a) - int (code_of b) else local_strcmp s t)"
| "local_strcmp (a # s) [] = int (code_of a)"
| "local_strcmp [] (b # t) = - int (code_of b)"
| "local_strcmp [] [] = 0"

fun symbol_lookup_name :: "kp_symbol list \<Rightarrow> string \<Rightarrow> u64" where
  "symbol_lookup_name [] name = 0"
| "symbol_lookup_name (s # symbols) name =
     (if sym_hash name = ks_hash s \<and> local_strcmp name (ks_name s) = 0 then ks_addr s
      else symbol_lookup_name symbols name)"

definition symbol_init :: "u64 \<Rightarrow> u64 \<Rightarrow> kp_symbol list \<Rightarrow> kp_symbol list" where
  "symbol_init link_base_addr runtime_base_addr symbols =
     map (\<lambda>s. s\<lparr>ks_addr := ks_addr s - link_base_addr + runtime_base_addr, ks_hash := sym_hash (ks_name s)\<rparr>) symbols"

lemma of_char_eq_0: "of_char c = (0 :: nat) \<longleftrightarrow> c = NUL"
  by (cases c) (simp add: of_char_def horner_sum_simps)

lemma local_strcmp_eq: "no_nul s \<Longrightarrow> no_nul t \<Longrightarrow> local_strcmp s t = 0 \<longleftrightarrow> s = t"
  by (induction s t rule: local_strcmp.induct) (auto simp: of_char_eq_0)

text \<open>
  After the initialisation the lookup of a name yields the run-time address of the first entry
  with exactly this name, or zero: the hash only saves comparisons.
\<close>
theorem symbol_lookup_correct:
  assumes "no_nul name" "\<forall>s \<in> set symbols. no_nul (ks_name s)"
  shows "symbol_lookup_name (symbol_init link run symbols) name =
    (case find (\<lambda>s. ks_name s = name) symbols of None \<Rightarrow> 0 | Some s \<Rightarrow> ks_addr s - link + run)"
  using assms(2) by (induction symbols) (auto simp: symbol_init_def local_strcmp_eq assms(1))

theorem symbol_lookup_correct_witness:
  "symbol_lookup_name (symbol_init 0x1000 0x5000 [\<lparr>ks_addr = 0x1100, ks_hash = 0, ks_name = ''hook''\<rparr>]) ''hook'' = 0x5100"
  by (subst symbol_lookup_correct) simp_all

end
