(* ===== verification/Module_Load.thy ===== *)
theory Module_Load
  imports Elf_Relo Kp_Symbol
begin

text \<open>
  Loading a module: the ELF part of \<^verbatim>\<open>kernel/patch/module/module.c\<close>.  The image and the loaded
  module stand in the byte memory of \<^verbatim>\<open>Elf_Relo\<close>; the section headers, which the code updates in
  place, are a list of records of the load information.  Strings are read from memory.
\<close>

abbreviation (input) EIO :: s32 where "EIO \<equiv> 5"
abbreviation (input) EEXIST :: s32 where "EEXIST \<equiv> 17"

abbreviation (input) SHF_WRITE :: u64 where "SHF_WRITE \<equiv> 1"
abbreviation (input) SHF_ALLOC :: u64 where "SHF_ALLOC \<equiv> 2"
abbreviation (input) SHF_EXECINSTR :: u64 where "SHF_EXECINSTR \<equiv> 4"
abbreviation (input) SHT_SYMTAB :: u32 where "SHT_SYMTAB \<equiv> 2"
abbreviation (input) SHT_RELA :: u32 where "SHT_RELA \<equiv> 4"
abbreviation (input) SHT_NOBITS :: u32 where "SHT_NOBITS \<equiv> 8"
abbreviation (input) SHT_REL :: u32 where "SHT_REL \<equiv> 9"

section \<open>Strings in memory\<close>

text \<open>A C string as a value, for the strings handed to other parts of the program.\<close>

partial_function (option) read_str :: "bmem \<Rightarrow> u64 \<Rightarrow> string option" where
  "read_str m p = (if m p = 0 then Some [] else Option.bind (read_str m (p + 1)) (\<lambda>s. Some (char_of (unat (m p)) # s)))"

lemma unat_pred: "\<not> sz \<le> 1 \<Longrightarrow> unat (sz - 1) < unat (sz :: u64)"
proof -
  assume "\<not> sz \<le> 1"
  then have "1 \<le> sz" "1 < unat sz" by (simp_all add: word_le_nat_alt)
  then show ?thesis by (simp add: unat_sub)
qed

text \<open>\<open>next_string\<close>: two loops over characters, each counting the remaining size down.\<close>

function skip_chars :: "bool \<Rightarrow> bmem \<Rightarrow> u64 \<Rightarrow> u64 \<Rightarrow> (u64 \<times> u64) option" where
  "skip_chars nul m p sz =
     (if (m p = 0) = nul then (if sz \<le> 1 then None else skip_chars nul m (p + 1) (sz - 1)) else Some (p, sz))"
  by pat_completeness auto
termination
  by (relation "measure (\<lambda>(nul, m, p, sz). unat sz)") (auto dest: unat_pred)

declare skip_chars.simps [simp del]

definition next_string :: "bmem \<Rightarrow> u64 \<Rightarrow> u64 \<Rightarrow> (u64 \<times> u64) option" where
  "next_string m string secsize =
     (case skip_chars False m string secsize of None \<Rightarrow> None
      | Some (string, secsize) \<Rightarrow> skip_chars True m string secsize)"

lemma skip_chars_le: "skip_chars nul m p sz = Some (q, sz') \<Longrightarrow> unat sz' \<le> unat sz"
proof (induction nul m p sz rule: skip_chars.induct)
  case (1 nul m p sz)
  show ?case
  proof (cases "(m p = 0) = nul")
    case True
    with 1(2) have s: "\<not> sz \<le> 1" "skip_chars nul m (p + 1) (sz - 1) = Some (q, sz')"
      by (subst (asm) skip_chars.simps; simp split: if_splits)+
    then have "unat sz' \<le> unat (sz - 1)" using 1(1) True by blast
    moreover have "unat (sz - 1) \<le> unat sz" using unat_pred [OF s(1)] by simp
    ultimately show ?thesis by simp
  next
    case False
    with 1(2) show ?thesis by (subst (asm) skip_chars.simps) (simp split: if_splits)
  qed
qed

lemma skip_chars_less:
  assumes "(m p = 0) = nul" "skip_chars nul m p sz = Some (q, sz')"
  shows "unat sz' < unat sz"
proof -
  from assms have s: "\<not> sz \<le> 1" "skip_chars nul m (p + 1) (sz - 1) = Some (q, sz')"
    by (subst (asm) skip_chars.simps; simp split: if_splits)+
  have "unat (sz - 1) < unat sz" using unat_pred [OF s(1)] by simp
  with skip_chars_le [OF s(2)] show ?thesis by simp
qed

lemma next_string_less: "next_string m p sz = Some (q, sz') \<Longrightarrow> unat sz' < unat sz"
proof -
  assume "next_string m p sz = Some (q, sz')"
  then obtain r t where a: "skip_chars False m p sz = Some (r, t)" and b: "skip_chars True m r t = Some (q, sz')"
    by (auto simp: next_string_def split: option.splits prod.splits)
  show ?thesis
  proof (cases "m p = 0")
    case True
    with a have "r = p" "t = sz" by (subst (asm) skip_chars.simps; simp)+
    with b True show ?thesis by (auto intro: skip_chars_less)
  next
    case False
    with a have "unat t < unat sz" by (auto intro: skip_chars_less)
    with skip_chars_le [OF b] show ?thesis by simp
  qed
qed

section \<open>Load information\<close>

record elf_ehdr =
  e_magic :: bool \<comment> \<open>the first four bytes are the magic number\<close>
  e_type :: u16
  e_machine :: u16
  e_shoff :: u64
  e_shentsize :: u16
  e_shnum :: u16
  e_shstrndx :: u16

definition ehdr_at :: "bmem \<Rightarrow> u64 \<Rightarrow> elf_ehdr" where
  "ehdr_at m a = \<lparr>e_magic = (mem_prefix m a [CHR 0x7F, CHR ''E'', CHR ''L'', CHR ''F'']),
     e_type = ucast (load_le 2 m (a + 16)), e_machine = ucast (load_le 2 m (a + 18)),
     e_shoff = load_le 8 m (a + 40), e_shentsize = ucast (load_le 2 m (a + 58)),
     e_shnum = ucast (load_le 2 m (a + 60)), e_shstrndx = ucast (load_le 2 m (a + 62))\<rparr>"

definition shdr_at :: "bmem \<Rightarrow> u64 \<Rightarrow> elf_shdr" where
  "shdr_at m a = \<lparr>sh_name = ucast (load_le 4 m a), sh_type = ucast (load_le 4 m (a + 4)),
     sh_flags = load_le 8 m (a + 8), sh_addr = load_le 8 m (a + 16), sh_offset = load_le 8 m (a + 24),
     sh_size = load_le 8 m (a + 32), sh_link = ucast (load_le 4 m (a + 40)), sh_info = ucast (load_le 4 m (a + 44)),
     sh_addralign = load_le 8 m (a + 48), sh_entsize = load_le 8 m (a + 56)\<rparr>"

record load_info =
  li_hdr :: u64
  li_len :: u64
  sechdrs :: "elf_shdr list"
  secstrings :: u64
  strtab :: u64
  info_base :: u64
  info_size :: u64
  info_name :: u64
  info_version :: u64
  info_license :: u64
  info_author :: u64
  info_description :: u64
  index_sym :: u32
  index_str :: u32
  index_info :: u32
  symoffs :: u64
  stroffs :: u64

record kmodule =
  mod_base :: u64
  mod_name :: u64
  mod_version :: u64
  mod_license :: u64
  mod_author :: u64
  mod_description :: u64
  mod_args :: "string option"
  mod_ctl_args :: "string option"
  mod_init :: u64
  mod_ctl0 :: u64
  mod_ctl1 :: u64
  mod_exit :: u64
  mod_size :: u32
  mod_text_size :: u32
  mod_ro_size :: u32
  mod_start :: u64

definition elf_header_check :: "bmem \<Rightarrow> u64 \<Rightarrow> u64 \<Rightarrow> s32" where
  "elf_header_check m hdr len =
     (let e = ehdr_at m hdr
      in if len \<le> 64 then - ENOEXEC
         else if \<not> e_magic e \<or> e_type e \<noteq> 1 \<or> e_machine e \<noteq> 183 \<or> e_shentsize e \<noteq> 64 then - ENOEXEC
         else if e_shoff e \<ge> len \<or> ucast (e_shnum e) * 64 > len - e_shoff e then - ENOEXEC
         else 0)"

text \<open>\<open>find_sec\<close>: the first allocated section of the name from index 1 on, or 0.\<close>

definition find_sec :: "bmem \<Rightarrow> load_info \<Rightarrow> string \<Rightarrow> nat" where
  "find_sec m info name =
     (case find (\<lambda>i. sh_flags (sechdrs info ! i) AND SHF_ALLOC \<noteq> 0 \<and>
                     mem_str m (secstrings info + ucast (sh_name (sechdrs info ! i))) name)
             [1..<length (sechdrs info)] of
        None \<Rightarrow> 0 | Some i \<Rightarrow> i)"

definition get_sh_base :: "bmem \<Rightarrow> load_info \<Rightarrow> string \<Rightarrow> u64" where
  "get_sh_base m info name =
     (let i = find_sec m info name in if i = 0 then 0 else li_hdr info + sh_offset (sechdrs info ! i))"

definition get_sh_size :: "bmem \<Rightarrow> load_info \<Rightarrow> string \<Rightarrow> u64" where
  "get_sh_size m info name =
     (let i = find_sec m info name in if i = 0 then 0 else sh_entsize (sechdrs info ! i))"

text \<open>The search for \<open>tag=\<close> among the strings of the information section; 0 when there is none.\<close>

function modinfo_from :: "bmem \<Rightarrow> string \<Rightarrow> u64 \<Rightarrow> u64 \<Rightarrow> u64" where
  "modinfo_from m tag p sz =
     (if p = 0 then 0
      else if mem_prefix m p tag \<and> m (p + of_nat (length tag)) = of_char (CHR ''='')
      then p + of_nat (length tag) + 1
      else (case next_string m p sz of None \<Rightarrow> 0 | Some (p, sz) \<Rightarrow> modinfo_from m tag p sz))"
  by pat_completeness auto
termination
  by (relation "measure (\<lambda>(m, tag, p, sz). unat sz)") (auto dest: next_string_less)

declare modinfo_from.simps [simp del]

definition get_next_modinfo :: "bmem \<Rightarrow> load_info \<Rightarrow> string \<Rightarrow> u64 \<Rightarrow> u64" where
  "get_next_modinfo m info tag prev =
     (let infosec = sechdrs info ! unat (index_info info); sz = sh_size infosec; modinfo = li_hdr info + sh_offset infosec
      in if prev \<noteq> 0
         then (case next_string m prev (sz - (prev - modinfo)) of None \<Rightarrow> 0 | Some (p, sz) \<Rightarrow> modinfo_from m tag p sz)
         else modinfo_from m tag modinfo sz)"

definition get_modinfo :: "bmem \<Rightarrow> load_info \<Rightarrow> string \<Rightarrow> u64" where
  "get_modinfo m info tag = get_next_modinfo m info tag 0"


section \<open>Layout of the module\<close>

text \<open>\<open>ALIGN (x, a)\<close> on an \<open>unsigned int\<close>.\<close>

definition align32 :: "u32 \<Rightarrow> u32 \<Rightarrow> u32" where
  "align32 x a = (x + (a - 1)) AND NOT (a - 1)"

definition sec_align :: "elf_shdr \<Rightarrow> u64" where
  "sec_align s = (if sh_addralign s = 0 then 1 else sh_addralign s)"

definition get_offset :: "u32 \<Rightarrow> elf_shdr \<Rightarrow> u64 \<times> u32" where
  "get_offset sz s = (let ret = ucast (align32 sz (ucast (sec_align s))) in (ret, ucast (ret + sh_size s)))"

definition layout_one :: "u64 \<Rightarrow> u64 \<Rightarrow> nat \<Rightarrow> u32 \<times> elf_shdr list \<Rightarrow> u32 \<times> elf_shdr list" where
  "layout_one need avoid i = (\<lambda>(sz, secs).
     let s = secs ! i
     in if sh_flags s AND need \<noteq> need \<or> sh_flags s AND avoid \<noteq> 0 \<or> sh_entsize s \<noteq> - 1 then (sz, secs)
        else (case get_offset sz s of (ret, sz) \<Rightarrow> (sz, secs[i := s\<lparr>sh_entsize := ret\<rparr>])))"

definition layout_pass :: "u64 \<Rightarrow> u64 \<Rightarrow> u32 \<times> elf_shdr list \<Rightarrow> u32 \<times> elf_shdr list" where
  "layout_pass need avoid st = fold (layout_one need avoid) [0..<length (snd st)] st"

definition layout_sections :: "u64 \<Rightarrow> kmodule \<Rightarrow> elf_shdr list \<Rightarrow> kmodule \<times> elf_shdr list" where
  "layout_sections page_size md secs =
     (let secs = map (\<lambda>s. s\<lparr>sh_entsize := - 1\<rparr>) secs;
          page = ucast page_size;
          (sz, secs) = layout_pass (SHF_EXECINSTR OR SHF_ALLOC) 0 (mod_size md, secs);
          text_size = align32 sz page;
          (sz, secs) = layout_pass SHF_ALLOC SHF_WRITE (text_size, secs);
          ro_size = align32 sz page;
          (sz, secs) = layout_pass (SHF_WRITE OR SHF_ALLOC) 0 (ro_size, secs);
          (sz, secs) = layout_pass SHF_ALLOC 0 (sz, secs)
      in (md\<lparr>mod_size := align32 sz page, mod_text_size := text_size, mod_ro_size := ro_size\<rparr>, secs))"

text \<open>A symbol: its name, its section and its value.\<close>

definition st_name_at :: "bmem \<Rightarrow> u64 \<Rightarrow> u64" where "st_name_at m a = load_le 4 m a"
definition st_shndx_at :: "bmem \<Rightarrow> u64 \<Rightarrow> u64" where "st_shndx_at m a = load_le 2 m (a + 6)"

definition is_core_symbol :: "bmem \<Rightarrow> u64 \<Rightarrow> elf_shdr list \<Rightarrow> bool" where
  "is_core_symbol m src secs \<longleftrightarrow>
     (let ndx = st_shndx_at m src
      in if ndx = 0 \<or> ndx \<ge> of_nat (length secs) \<or> st_name_at m src = 0 then False
         else let s = secs ! unat ndx in sh_flags s AND SHF_ALLOC \<noteq> 0 \<and> sh_flags s AND SHF_EXECINSTR \<noteq> 0)"

text \<open>The names and the number of the core symbols; an unterminated name is not survived: \<open>None\<close>.\<close>

fun core_symbols :: "bmem \<Rightarrow> u64 \<Rightarrow> u64 \<Rightarrow> elf_shdr list \<Rightarrow> nat list \<Rightarrow> u32 \<times> u32 \<Rightarrow> (u32 \<times> u32) option" where
  "core_symbols m strs src secs [] (strtab_size, ndst) = Some (strtab_size, ndst)"
| "core_symbols m strs src secs (i # is) (strtab_size, ndst) =
     (let a = src + 24 * of_nat i
      in if i = 0 \<or> is_core_symbol m a secs
         then (case mem_strlen m (strs + st_name_at m a) of None \<Rightarrow> None
               | Some n \<Rightarrow> core_symbols m strs src secs is (strtab_size + of_nat n + 1, ndst + 1))
         else core_symbols m strs src secs is (strtab_size, ndst))"

definition place_section :: "nat \<Rightarrow> kmodule \<Rightarrow> elf_shdr list \<Rightarrow> kmodule \<times> elf_shdr list" where
  "place_section i md secs =
     (let s = (secs ! i)\<lparr>sh_flags := sh_flags (secs ! i) OR SHF_ALLOC\<rparr>
      in case get_offset (mod_size md) s of
           (ret, sz) \<Rightarrow> (md\<lparr>mod_size := sz\<rparr>, secs[i := s\<lparr>sh_entsize := ret\<rparr>]))"

definition layout_symtab :: "bmem \<Rightarrow> kmodule \<Rightarrow> load_info \<Rightarrow> (kmodule \<times> load_info) option" where
  "layout_symtab m md info =
     (let (md, secs) = place_section (unat (index_sym info)) md (sechdrs info);
          symsect = secs ! unat (index_sym info);
          src = li_hdr info + sh_offset symsect;
          nsrc = (ucast (sh_size symsect div 24) :: u32)
      in case core_symbols m (strtab info) src secs [0..<unat nsrc] (1, 0) of None \<Rightarrow> None
         | Some (strtab_size, ndst) \<Rightarrow>
             let symo = (ucast (align32 (mod_size md) (ucast (sec_align symsect))) :: u64);
                 sz = (ucast (symo + ucast ndst * 24) :: u32);
                 info = info\<lparr>symoffs := symo, stroffs := ucast sz\<rparr>;
                 (md, secs) = place_section (unat (index_str info)) (md\<lparr>mod_size := sz + strtab_size\<rparr>) secs
             in Some (md, info\<lparr>sechdrs := secs\<rparr>))"

section \<open>Reading the image\<close>

text \<open>The loop of \<open>rewrite_section_headers\<close> from index 1 on; a section beyond the image ends it.\<close>

fun rewrite_from :: "u64 \<Rightarrow> u64 \<Rightarrow> elf_shdr list \<Rightarrow> s32 \<times> elf_shdr list" where
  "rewrite_from hdr len [] = (0, [])"
| "rewrite_from hdr len (s # secs) =
     (if sh_type s \<noteq> SHT_NOBITS \<and> len < sh_offset s + sh_size s then (- ENOEXEC, s # secs)
      else (case rewrite_from hdr len secs of
              (rc, secs) \<Rightarrow> (rc, s\<lparr>sh_addr := hdr + sh_offset s\<rparr> # secs)))"

text \<open>A header without sections makes the code write to a header that is not there: \<open>None\<close>.\<close>

fun rewrite_section_headers :: "u64 \<Rightarrow> u64 \<Rightarrow> elf_shdr list \<Rightarrow> (s32 \<times> elf_shdr list) option" where
  "rewrite_section_headers hdr len [] = None"
| "rewrite_section_headers hdr len (s # secs) =
     (case rewrite_from hdr len secs of (rc, secs) \<Rightarrow> Some (rc, s\<lparr>sh_addr := 0\<rparr> # secs))"

text \<open>The symbol table: the first section of its type, with the string table it links to.\<close>

definition find_symtab :: "load_info \<Rightarrow> load_info" where
  "find_symtab info =
     (case find (\<lambda>i. sh_type (sechdrs info ! i) = SHT_SYMTAB) [1..<length (sechdrs info)] of
        None \<Rightarrow> info
      | Some i \<Rightarrow>
          let link = sh_link (sechdrs info ! i)
          in info\<lparr>index_sym := of_nat i, index_str := link, strtab := li_hdr info + sh_offset (sechdrs info ! unat link)\<rparr>)"

definition setup_load_info :: "bmem \<Rightarrow> load_info \<Rightarrow> (s32 \<times> load_info) option" where
  "setup_load_info m info =
     (let e = ehdr_at m (li_hdr info);
          secs = map (\<lambda>i. shdr_at m (li_hdr info + e_shoff e + 64 * of_nat i)) [0..<unat (e_shnum e)];
          info = info\<lparr>sechdrs := secs,
                      secstrings := li_hdr info + sh_offset (shdr_at m (li_hdr info + e_shoff e + 64 * ucast (e_shstrndx e)))\<rparr>
      in case rewrite_section_headers (li_hdr info) (li_len info) secs of None \<Rightarrow> None
         | Some (rc, secs) \<Rightarrow>
             let info = info\<lparr>sechdrs := secs\<rparr>
             in if rc \<noteq> 0 then Some (rc, info)
                else if find_sec m info ''.kpm.init'' = 0 \<or> find_sec m info ''.kpm.exit'' = 0 then Some (- ENOEXEC, info)
                else let info = info\<lparr>index_info := of_nat (find_sec m info ''.kpm.info'')\<rparr>
                in if index_info info = 0 then Some (- ENOEXEC, info)
                   else let info = info\<lparr>info_base := get_sh_base m info ''.kpm.info'', info_size := get_sh_size m info ''.kpm.info''\<rparr>;
                            name = get_modinfo m info ''name''
                   in if name = 0 then Some (- ENOEXEC, info)
                      else let info = info\<lparr>info_name := name\<rparr>; version = get_modinfo m info ''version''
                      in if version = 0 then Some (- ENOEXEC, info)
                         else let info = find_symtab (info\<lparr>info_version := version,
                                    info_license := get_modinfo m info ''license'', info_author := get_modinfo m info ''author'',
                                    info_description := get_modinfo m info ''description''\<rparr>)
                         in Some (if index_sym info = 0 then - ENOEXEC else 0, info))"


section \<open>Moving the sections\<close>

definition mem_copy :: "u64 \<Rightarrow> u64 \<Rightarrow> u64 \<Rightarrow> bmem \<Rightarrow> bmem" where
  "mem_copy dest src n m = (\<lambda>a. if a - dest < n then m (src + (a - dest)) else m a)"

definition mem_zero :: "u64 \<Rightarrow> u64 \<Rightarrow> bmem \<Rightarrow> bmem" where
  "mem_zero dest n m = (\<lambda>a. if a - dest < n then 0 else m a)"

text \<open>The pointers of the module that are found by the name of a section.\<close>

definition note_section :: "bmem \<Rightarrow> u64 \<Rightarrow> u64 \<Rightarrow> kmodule \<Rightarrow> kmodule" where
  "note_section m sname dest md =
     (let md = (if mod_init md = 0 \<and> mem_str m sname ''.kpm.init'' then md\<lparr>mod_init := dest\<rparr> else md);
          md = (if mem_str m sname ''.kpm.ctl0'' then md\<lparr>mod_ctl0 := dest\<rparr> else md);
          md = (if mem_str m sname ''.kpm.ctl1'' then md\<lparr>mod_ctl1 := dest\<rparr> else md);
          md = (if mod_exit md = 0 \<and> mem_str m sname ''.kpm.exit'' then md\<lparr>mod_exit := dest\<rparr> else md)
      in if mod_base md = 0 \<and> mem_str m sname ''.kpm.info'' then md\<lparr>mod_base := dest\<rparr> else md)"

definition move_section :: "u64 \<Rightarrow> nat \<Rightarrow> kmodule \<times> elf_shdr list \<times> bmem \<Rightarrow> kmodule \<times> elf_shdr list \<times> bmem" where
  "move_section strs i = (\<lambda>(md, secs, m).
     let s = secs ! i
     in if sh_flags s AND SHF_ALLOC = 0 then (md, secs, m)
        else let dest = mod_start md + sh_entsize s;
                 m = (if sh_type s \<noteq> SHT_NOBITS then mem_copy dest (sh_addr s) (sh_size s) m else m)
             in (note_section m (strs + ucast (sh_name s)) dest md, secs[i := s\<lparr>sh_addr := dest\<rparr>], m))"

text \<open>\<open>kp_malloc_exec\<close> is the parameter \<open>exec_alloc\<close>, a function of the size; 0 is a failure.\<close>

definition move_module ::
    "(u32 \<Rightarrow> u64) \<Rightarrow> kmodule \<Rightarrow> load_info \<Rightarrow> bmem \<Rightarrow> s32 \<times> kmodule \<times> load_info \<times> bmem" where
  "move_module exec_alloc md info m =
     (let start = exec_alloc (mod_size md); md = md\<lparr>mod_start := start\<rparr>
      in if start = 0 then (- ENOMEM, md, info, m)
         else let m = mem_zero start (ucast (mod_size md)) m;
                  (md, secs, m) = fold (move_section (secstrings info)) [1..<length (sechdrs info)] (md, sechdrs info, m);
                  moved = (\<lambda>p. p - info_base info + mod_base md);
                  md = md\<lparr>mod_name := moved (info_name info), mod_version := moved (info_version info)\<rparr>;
                  md = (if info_license info \<noteq> 0 then md\<lparr>mod_license := moved (info_license info)\<rparr> else md);
                  md = (if info_author info \<noteq> 0 then md\<lparr>mod_author := moved (info_author info)\<rparr> else md);
                  md = (if info_description info \<noteq> 0 then md\<lparr>mod_description := moved (info_description info)\<rparr> else md)
              in (0, md, info\<lparr>sechdrs := secs\<rparr>, m))"

section \<open>Symbols and relocations\<close>

text \<open>
  One symbol; \<open>None\<close> when it names a section that does not exist, whose header the code
  would read, or when its name is not terminated.
\<close>

definition simplify_symbol ::
    "kp_symbol list \<Rightarrow> u64 \<Rightarrow> elf_shdr list \<Rightarrow> u64 \<Rightarrow> s32 \<times> bmem \<Rightarrow> (s32 \<times> bmem) option" where
  "simplify_symbol symbols strs secs a = (\<lambda>(ret, m).
     let ndx = st_shndx_at m a; name = strs + st_name_at m a
     in if ndx = 0xfff2 then Some (if mem_prefix m name ''__gnu_lto'' then - ENOEXEC else ret, m)
        else if ndx = 0xfff1 then Some (ret, m)
        else if ndx = 0
        then (case read_str m name of None \<Rightarrow> None
              | Some name \<Rightarrow>
                  let addr = symbol_lookup_name symbols name
                  in Some (if addr = 0 then (- ENOENT, m) else (ret, store_le 8 (a + 8) addr m)))
        else if ndx \<ge> of_nat (length secs) then None
        else Some (ret, store_le 8 (a + 8) (sym_value_at m a + sh_addr (secs ! unat ndx)) m))"

partial_function (option) simplify_loop ::
    "kp_symbol list \<Rightarrow> u64 \<Rightarrow> elf_shdr list \<Rightarrow> u64 \<Rightarrow> u64 \<Rightarrow> u32 \<Rightarrow> s32 \<times> bmem \<Rightarrow> (s32 \<times> bmem) option" where
  "simplify_loop symbols strs secs tab n i st =
     (if ucast i < n
      then Option.bind (simplify_symbol symbols strs secs (tab + 24 * ucast i) st)
             (simplify_loop symbols strs secs tab n (i + 1))
      else Some st)"

definition simplify_symbols :: "kp_symbol list \<Rightarrow> load_info \<Rightarrow> bmem \<Rightarrow> (s32 \<times> bmem) option" where
  "simplify_symbols symbols info m =
     (let symsec = sechdrs info ! unat (index_sym info)
      in simplify_loop symbols (strtab info) (sechdrs info) (sh_addr symsec) (sh_size symsec div 24) 1 (0, m))"

fun relocate_sections ::
    "(nat \<Rightarrow> s32) \<Rightarrow> elf_shdr list \<Rightarrow> nat \<Rightarrow> nat list \<Rightarrow> s32 \<times> bmem \<Rightarrow> (s32 \<times> bmem) option" where
  "relocate_sections ub secs symindex [] st = Some st"
| "relocate_sections ub secs symindex (i # is) (rc, m) =
     (let infosec = sh_info (secs ! i)
      in if infosec \<ge> of_nat (length secs) \<or> sh_flags (secs ! unat infosec) AND SHF_ALLOC = 0
         then relocate_sections ub secs symindex is (rc, m)
         else (case (if sh_type (secs ! i) = SHT_REL then Some (apply_relocate secs symindex i m)
                     else if sh_type (secs ! i) = SHT_RELA then apply_relocate_add ub secs symindex i m
                     else Some (rc, m)) of
                 None \<Rightarrow> None
               | Some (rc, m) \<Rightarrow> if rc <s 0 then Some (rc, m) else relocate_sections ub secs symindex is (rc, m)))"

definition apply_relocations :: "(nat \<Rightarrow> s32) \<Rightarrow> load_info \<Rightarrow> bmem \<Rightarrow> (s32 \<times> bmem) option" where
  "apply_relocations ub info m =
     relocate_sections ub (sechdrs info) (unat (index_sym info)) [1..<length (sechdrs info)] (0, m)"

end
