(* ===== verification/Module_Layout.thy ===== *)
theory Module_Layout
  imports Module_Load
begin

text \<open>
  The layout of a module and the copying of its sections: the allocated sections get aligned
  places that do not overlap and lie in the module's memory, and after \<open>move_module\<close> each of them
  holds the bytes of the image, or zeros.
\<close>

section \<open>Alignment\<close>

lemma unat_up: "unat (ucast (x :: u32) :: u64) = unat x"
  using unat_bounds(2) [of x] by (simp add: unsigned_ucast_eq take_bit_nat_eq_self)

lemma unat_down: "unat (y :: u64) < 2 ^ 32 \<Longrightarrow> unat (ucast y :: u32) = unat y"
  by (simp add: unsigned_ucast_eq take_bit_nat_eq_self)

lemma unat_pow: "k < 32 \<Longrightarrow> unat (2 ^ k :: u32) = 2 ^ k" "k < 64 \<Longrightarrow> unat (2 ^ k :: u64) = 2 ^ k"
proof -
  show "unat (2 ^ k :: u32) = 2 ^ k" if "k < 32"
  proof -
    have "(2 :: nat) ^ k < 2 ^ 32" using that by (rule power_strict_increasing) simp
    then show ?thesis using unat_of_nat [where ?'a = 32, of "2 ^ k"] by (simp add: take_bit_nat_eq_self)
  qed
  show "unat (2 ^ k :: u64) = 2 ^ k" if "k < 64"
  proof -
    have "(2 :: nat) ^ k < 2 ^ 64" using that by (rule power_strict_increasing) simp
    then show ?thesis using unat_of_nat [where ?'a = 64, of "2 ^ k"] by (simp add: take_bit_nat_eq_self)
  qed
qed

lemma align32_bounds:
  assumes "a = 2 ^ k" "k < 32" "unat x + unat a \<le> 2 ^ 32"
  shows "unat x \<le> unat (align32 x a)" "unat (align32 x a) < unat x + unat a" "take_bit k (align32 x a) = 0"
proof -
  have ua: "unat a = 2 ^ k" using assms(1,2) by (simp add: unat_pow)
  have m: "a - 1 = mask k" by (simp add: assms(1) mask_eq_exp_minus_1)
  have um: "unat (mask k :: u32) = 2 ^ k - 1" 
  proof -
    have "1 \<le> (2 ^ k :: u32)" using assms(2) by (simp add: word_le_nat_alt unat_pow)
    then show ?thesis using assms(2) by (simp add: mask_eq_exp_minus_1 unat_sub unat_pow)
  qed
  let ?y = "x + mask k"
  have uy: "unat ?y = unat x + (2 ^ k - 1)"
  proof -
    have "unat x + unat (mask k :: u32) < 2 ^ 32" 
    proof -
      have "(1 :: nat) \<le> 2 ^ k" by simp
      then show ?thesis using assms(3) unfolding um ua by linarith
    qed
    then show ?thesis by (simp add: um unat_word_ariths)
  qed
  have e: "align32 x a = ?y - take_bit k ?y"
  proof -
    have "NOT ?y AND take_bit k ?y = 0" by (rule bit_word_eqI) (auto simp: bit_simps)
    then have "?y - take_bit k ?y = ?y AND NOT (take_bit k ?y)" by (rule disjunctive_diff_eq_and_not)
    also have "\<dots> = ?y AND NOT (mask k)" by (rule bit_word_eqI) (auto simp: bit_simps)
    finally show ?thesis by (simp add: align32_def m)
  qed
  have t: "unat (take_bit k ?y) = unat ?y mod 2 ^ k"
    by (simp only: unsigned_take_bit_eq) (simp add: take_bit_eq_mod)
  have u: "unat (align32 x a) = unat ?y - unat ?y mod 2 ^ k"
    unfolding e by (subst unat_sub) (simp_all add: t word_le_nat_alt)
  have "unat ?y mod 2 ^ k < 2 ^ k" by simp
  then show "unat x \<le> unat (align32 x a)" "unat (align32 x a) < unat x + unat a"
    unfolding u uy ua by linarith+
  show "take_bit k (align32 x a) = 0"
    unfolding align32_def m by (rule bit_word_eqI) (auto simp: bit_simps)
qed

section \<open>Places of sections\<close>

definition cost :: "elf_shdr \<Rightarrow> nat" where
  "cost s = unat (sec_align s) + unat (sh_size s)"

definition pending :: "elf_shdr \<Rightarrow> nat" where
  "pending s = (if sh_entsize s = - 1 then cost s else 0)"

definition potential :: "u32 \<times> elf_shdr list \<Rightarrow> nat" where
  "potential st = unat (fst st) + sum_list (map pending (snd st))"

definition aligned_section :: "elf_shdr \<Rightarrow> bool" where
  "aligned_section s \<longleftrightarrow> (\<exists>k < 32. sec_align s = 2 ^ k)"

definition placed :: "elf_shdr \<Rightarrow> bool" where
  "placed s \<longleftrightarrow> sh_entsize s \<noteq> - 1"

definition sec_end :: "elf_shdr \<Rightarrow> nat" where
  "sec_end s = unat (sh_entsize s) + unat (sh_size s)"

definition laid_out :: "u32 \<Rightarrow> elf_shdr list \<Rightarrow> bool" where
  "laid_out sz secs \<longleftrightarrow>
     (\<forall>s \<in> set secs. placed s \<longrightarrow>
        sh_flags s AND SHF_ALLOC \<noteq> 0 \<and> sec_end s \<le> unat sz \<and> unat (sh_entsize s) mod unat (sec_align s) = 0) \<and>
     (\<forall>i < length secs. \<forall>j < length secs. i \<noteq> j \<longrightarrow> placed (secs ! i) \<longrightarrow> placed (secs ! j) \<longrightarrow>
        sec_end (secs ! i) \<le> unat (sh_entsize (secs ! j)) \<or> sec_end (secs ! j) \<le> unat (sh_entsize (secs ! i)))"

lemma sec_align_place [simp]:
  "sec_align (s\<lparr>sh_entsize := x\<rparr>) = sec_align s" "sec_align (s\<lparr>sh_flags := y\<rparr>) = sec_align s"
  by (simp_all add: sec_align_def)

lemma get_offset_bounds:
  assumes "aligned_section s" "unat sz + cost s < 2 ^ 32" "get_offset sz s = (ret, sz')"
  shows "unat sz \<le> unat ret" "unat ret + unat (sh_size s) = unat sz'" "unat sz' \<le> unat sz + cost s"
    "unat ret mod unat (sec_align s) = 0" "ret \<noteq> - 1"
proof -
  obtain k where k: "k < 32" "sec_align s = 2 ^ k" using assms(1) by (auto simp: aligned_section_def)
  have ua: "unat (sec_align s) = 2 ^ k" using k by (simp add: unat_pow)
  let ?a = "ucast (sec_align s) :: u32"
  have a: "?a = 2 ^ k" unfolding k(2) by (rule bit_word_eqI) (use k(1) in \<open>auto simp: bit_simps\<close>)
  have ua': "unat ?a = 2 ^ k" using a k(1) by (simp add: unat_pow)
  let ?r = "align32 sz ?a"
  have le: "unat sz + unat ?a \<le> 2 ^ 32" using assms(2) ua ua' by (simp add: cost_def)
  note b = align32_bounds [OF a k(1) le]
  have r: "ret = ucast ?r" "sz' = ucast (ucast ?r + sh_size s)"
    using assms(3) by (auto simp: get_offset_def Let_def)
  have ur: "unat ret = unat ?r" by (simp add: r unat_up)
  show "unat sz \<le> unat ret" using b(1) ur by simp
  have lt: "unat ?r + unat (sh_size s) < 2 ^ 32" using b(2) assms(2) ua ua' by (simp add: cost_def)
  then have "unat ((ucast ?r :: u64) + sh_size s) = unat ?r + unat (sh_size s)"
    by (simp add: unat_word_ariths unat_up)
  then have uz: "unat sz' = unat ?r + unat (sh_size s)" using lt by (simp add: r unat_down)
  then show "unat ret + unat (sh_size s) = unat sz'" by (simp add: ur)
  show "unat sz' \<le> unat sz + cost s" using uz b(2) ua ua' by (simp add: cost_def)
  have "take_bit k (unat ?r) = 0" using arg_cong [OF b(3), of unat] by (simp only: unsigned_take_bit_eq unsigned_0)
  then show "unat ret mod unat (sec_align s) = 0" by (simp add: ur ua take_bit_eq_mod)
  have "unat ret < 2 ^ 32" using lt ur by simp
  then show "ret \<noteq> - 1" by (auto simp: unsigned_minus_1_eq_mask mask_eq_exp_minus_1)
qed


lemma sum_list_set:
  "i < length xs \<Longrightarrow> sum_list (map f (xs[i := y])) + f (xs ! i) = sum_list (map f xs) + (f y :: nat)"
proof (induction xs arbitrary: i)
  case (Cons a xs)
  then show ?case by (cases i) auto
qed simp

lemma cost_cong: "sh_size s = sh_size s' \<Longrightarrow> sh_addralign s = sh_addralign s' \<Longrightarrow> cost s = cost s'"
  by (simp add: cost_def sec_align_def)

lemma cost_place [simp]: "cost (s\<lparr>sh_entsize := x\<rparr>) = cost s"
  by (simp add: cost_def)

lemma place_keeps:
  assumes lay: "laid_out sz secs" and i: "i < length secs" and free: "\<not> placed (secs ! i)"
    and al: "aligned_section s" and pot: "potential (sz, secs) < 2 ^ 32"
    and s: "sh_size s = sh_size (secs ! i)" "sh_addralign s = sh_addralign (secs ! i)" "sh_flags s AND SHF_ALLOC \<noteq> 0"
    and off: "get_offset sz s = (ret, sz')"
  shows "laid_out sz' (secs[i := s\<lparr>sh_entsize := ret\<rparr>])"
    "potential (sz', secs[i := s\<lparr>sh_entsize := ret\<rparr>]) \<le> potential (sz, secs)"
proof -
  let ?s = "s\<lparr>sh_entsize := ret\<rparr>" let ?t = "secs[i := ?s]"
  have c: "cost (secs ! i) = cost s" by (rule cost_cong) (simp_all add: s)
  have pend: "pending (secs ! i) = cost s" using free by (simp add: pending_def placed_def c)
  have mem: "pending (secs ! i) \<le> sum_list (map pending secs)"
    using i by (auto intro!: member_le_sum_list)
  have "unat sz + cost s < 2 ^ 32" using pot mem by (simp add: potential_def pend)
  note b = get_offset_bounds [OF al this off]
  have p: "pending ?s = 0" using b(5) by (simp add: pending_def)
  show "potential (sz', ?t) \<le> potential (sz, secs)"
    using sum_list_set [OF i, of pending ?s] b(3) by (simp add: potential_def p pend)
  have e: "sec_end ?s = unat sz'" "unat (sh_entsize ?s) = unat ret" using b(2) by (simp_all add: sec_end_def)
  have sz: "unat sz \<le> unat sz'" using b(1,2) by simp
  have old: "sec_end (secs ! j) \<le> unat sz" if "j < length secs" "placed (secs ! j)" for j
    using lay that by (auto simp: laid_out_def)
  show "laid_out sz' ?t"
    unfolding laid_out_def
  proof (rule conjI; intro ballI allI impI)
    fix t assume t: "t \<in> set ?t" "placed t"
    show "sh_flags t AND SHF_ALLOC \<noteq> 0 \<and> sec_end t \<le> unat sz' \<and> unat (sh_entsize t) mod unat (sec_align t) = 0"
    proof (cases "t = ?s")
      case True
      then show ?thesis using s(3) e(1) b(4) by simp
    next
      case False
      with t(1) have "t \<in> set secs" using set_update_subset_insert [of secs i ?s] by auto
      with lay t(2) have "sh_flags t AND SHF_ALLOC \<noteq> 0" "sec_end t \<le> unat sz" "unat (sh_entsize t) mod unat (sec_align t) = 0"
        by (auto simp: laid_out_def)
      with sz show ?thesis by simp
    qed
  next
    fix j k assume jk: "j < length ?t" "k < length ?t" "j \<noteq> k" "placed (?t ! j)" "placed (?t ! k)"
    show "sec_end (?t ! j) \<le> unat (sh_entsize (?t ! k)) \<or> sec_end (?t ! k) \<le> unat (sh_entsize (?t ! j))"
    proof (cases "j = i \<or> k = i")
      case True
      then show ?thesis
        using jk old [of j] old [of k] b(1) i by (auto simp: nth_list_update)
    next
      case False
      then have "?t ! j = secs ! j" "?t ! k = secs ! k" by simp_all
      with jk lay show ?thesis by (auto simp: laid_out_def)
    qed
  qed
qed

text \<open>What a pass keeps: the places, the potential and everything but the places.\<close>

definition same_sections :: "elf_shdr list \<Rightarrow> elf_shdr list \<Rightarrow> bool" where
  "same_sections secs0 secs \<longleftrightarrow> map (\<lambda>s. s\<lparr>sh_entsize := 0\<rparr>) secs = map (\<lambda>s. s\<lparr>sh_entsize := 0\<rparr>) secs0"

definition lay_inv :: "nat \<Rightarrow> elf_shdr list \<Rightarrow> u32 \<times> elf_shdr list \<Rightarrow> bool" where
  "lay_inv bound secs0 st \<longleftrightarrow>
     laid_out (fst st) (snd st) \<and> potential st \<le> bound \<and> same_sections secs0 (snd st)"

lemma same_sections_fields:
  assumes "same_sections secs0 secs"
  shows "length secs = length secs0"
    "i < length secs0 \<Longrightarrow> secs ! i = (secs0 ! i)\<lparr>sh_entsize := sh_entsize (secs ! i)\<rparr>"
proof -
  show l: "length secs = length secs0" using assms by (metis length_map same_sections_def)
  assume i: "i < length secs0"
  have "(secs ! i)\<lparr>sh_entsize := 0\<rparr> = (secs0 ! i)\<lparr>sh_entsize := 0\<rparr>"
    using assms i l unfolding same_sections_def by (metis (no_types, lifting) nth_map)
  then have "((secs ! i)\<lparr>sh_entsize := 0\<rparr>)\<lparr>sh_entsize := sh_entsize (secs ! i)\<rparr> =
      ((secs0 ! i)\<lparr>sh_entsize := 0\<rparr>)\<lparr>sh_entsize := sh_entsize (secs ! i)\<rparr>" by (rule arg_cong)
  then show "secs ! i = (secs0 ! i)\<lparr>sh_entsize := sh_entsize (secs ! i)\<rparr>" by simp
qed

lemma layout_one_keeps:
  assumes inv: "lay_inv bound secs0 st" and "bound < 2 ^ 32" and al: "\<forall>s \<in> set secs0. aligned_section s"
    and i: "i < length secs0" and need: "need AND SHF_ALLOC = SHF_ALLOC"
  shows "lay_inv bound secs0 (layout_one need avoid i st)"
    "\<forall>j < length secs0. placed (snd st ! j) \<longrightarrow> snd (layout_one need avoid i st) ! j = snd st ! j"
    "sh_flags (secs0 ! i) AND need = need \<Longrightarrow> sh_flags (secs0 ! i) AND avoid = 0 \<Longrightarrow>
       placed (snd (layout_one need avoid i st) ! i)"
proof -
  obtain sz secs where st: "st = (sz, secs)" by (cases st)
  let ?s = "secs ! i"
  note f = same_sections_fields [of secs0 secs]
  have same: "same_sections secs0 secs" and lay: "laid_out sz secs" and pot: "potential (sz, secs) \<le> bound"
    using inv by (auto simp: st lay_inv_def)
  have len: "length secs = length secs0" by (rule f(1) [OF same])
  have si: "?s = (secs0 ! i)\<lparr>sh_entsize := sh_entsize ?s\<rparr>" by (rule f(2) [OF same i])
  have fl: "sh_flags ?s = sh_flags (secs0 ! i)" by (subst si) simp
  let ?skip = "sh_flags ?s AND need \<noteq> need \<or> sh_flags ?s AND avoid \<noteq> 0 \<or> sh_entsize ?s \<noteq> - 1"
  obtain ret sz' where off: "get_offset sz ?s = (ret, sz')" by (cases "get_offset sz ?s")
  have run: "layout_one need avoid i st = (if ?skip then st else (sz', secs[i := ?s\<lparr>sh_entsize := ret\<rparr>]))"
    by (simp add: layout_one_def st Let_def off)
  have alloc: "sh_flags ?s AND SHF_ALLOC \<noteq> 0" if "\<not> ?skip"
  proof -
    from that have "sh_flags ?s AND need = need" by simp
    then have "sh_flags ?s AND SHF_ALLOC = SHF_ALLOC" using need by (metis and.assoc)
    then show ?thesis by simp
  qed
  have ali: "aligned_section ?s"
  proof -
    have "sec_align ?s = sec_align (secs0 ! i)" by (subst si) (simp add: sec_align_def)
    then show ?thesis using al i by (simp add: aligned_section_def)
  qed
  have pl: "placed (?s\<lparr>sh_entsize := ret\<rparr>)" if "\<not> ?skip"
  proof -
    have "pending ?s \<le> sum_list (map pending secs)" using i len by (auto intro!: member_le_sum_list)
    then have "unat sz + cost ?s < 2 ^ 32" using that pot assms(2) by (simp add: potential_def pending_def)
    from get_offset_bounds(5) [OF ali this off] show ?thesis by (simp add: placed_def)
  qed
  show "lay_inv bound secs0 (layout_one need avoid i st)"
  proof (cases ?skip)
    case True
    then show ?thesis using inv unfolding run by simp
  next
    case False
    then have free: "\<not> placed ?s" by (simp add: placed_def)
    have "potential (sz, secs) < 2 ^ 32" using pot assms(2) by simp
    note k = place_keeps [OF lay _ free ali this refl refl alloc [OF False] off]
    have "same_sections secs0 (secs[i := ?s\<lparr>sh_entsize := ret\<rparr>])"
      using same i len arg_cong [OF si, of "sh_entsize_update (\<lambda>_. 0)"] unfolding same_sections_def
      by (simp add: map_update list_update_same_conv)
    then show ?thesis using k pot i len False unfolding run by (simp add: lay_inv_def)
  qed
  show "\<forall>j < length secs0. placed (snd st ! j) \<longrightarrow> snd (layout_one need avoid i st) ! j = snd st ! j"
    unfolding run by (auto simp: st placed_def) (metis nth_list_update_neq)
  show "placed (snd (layout_one need avoid i st) ! i)"
    if "sh_flags (secs0 ! i) AND need = need" "sh_flags (secs0 ! i) AND avoid = 0"
    using that pl i len unfolding run fl by (auto simp: st placed_def)
qed

lemma layout_pass_keeps:
  assumes inv: "lay_inv bound secs0 st" and b: "bound < 2 ^ 32" and al: "\<forall>s \<in> set secs0. aligned_section s"
    and need: "need AND SHF_ALLOC = SHF_ALLOC"
  shows "lay_inv bound secs0 (layout_pass need avoid st)"
    "\<forall>j < length secs0. placed (snd st ! j) \<longrightarrow> snd (layout_pass need avoid st) ! j = snd st ! j"
    "\<forall>i < length secs0. sh_flags (secs0 ! i) AND need = need \<longrightarrow> sh_flags (secs0 ! i) AND avoid = 0 \<longrightarrow>
       placed (snd (layout_pass need avoid st) ! i)"
proof -
  have run: "lay_inv bound secs0 (fold (layout_one need avoid) is st) \<and>
      (\<forall>j < length secs0. placed (snd st ! j) \<longrightarrow> snd (fold (layout_one need avoid) is st) ! j = snd st ! j) \<and>
      (\<forall>i \<in> set is. sh_flags (secs0 ! i) AND need = need \<longrightarrow> sh_flags (secs0 ! i) AND avoid = 0 \<longrightarrow>
         placed (snd (fold (layout_one need avoid) is st) ! i))"
    if "set is \<subseteq> {..<length secs0}" for "is" using that
  proof (induction "is" rule: rev_induct)
    case Nil
    then show ?case using inv by simp
  next
    case (snoc i "is")
    let ?st = "fold (layout_one need avoid) is st"
    from snoc have i: "i < length secs0" and sub: "set is \<subseteq> {..<length secs0}" by auto
    note ih = snoc.IH [OF sub]
    note k = layout_one_keeps [OF conjunct1 [OF ih] b al i need, of avoid]
    have old: "placed (snd ?st ! j) \<Longrightarrow> j < length secs0 \<Longrightarrow> placed (snd (layout_one need avoid i ?st) ! j)" for j
      using k(2) by simp
    show ?case
    proof (intro conjI)
      show "lay_inv bound secs0 (fold (layout_one need avoid) (is @ [i]) st)" using k(1) by simp
      show "\<forall>j < length secs0. placed (snd st ! j) \<longrightarrow> snd (fold (layout_one need avoid) (is @ [i]) st) ! j = snd st ! j"
        using ih k(2) by simp
      show "\<forall>j \<in> set (is @ [i]). sh_flags (secs0 ! j) AND need = need \<longrightarrow> sh_flags (secs0 ! j) AND avoid = 0 \<longrightarrow>
         placed (snd (fold (layout_one need avoid) (is @ [i]) st) ! j)"
        using ih k(3) old sub by (auto simp: subset_iff)
    qed
  qed
  have "length (snd st) = length secs0" using inv same_sections_fields(1) by (auto simp: lay_inv_def)
  then show "lay_inv bound secs0 (layout_pass need avoid st)"
    "\<forall>j < length secs0. placed (snd st ! j) \<longrightarrow> snd (layout_pass need avoid st) ! j = snd st ! j"
    "\<forall>i < length secs0. sh_flags (secs0 ! i) AND need = need \<longrightarrow> sh_flags (secs0 ! i) AND avoid = 0 \<longrightarrow>
       placed (snd (layout_pass need avoid st) ! i)"
    using run [of "[0..<length secs0]", OF equalityD1] by (auto simp: layout_pass_def lessThan_atLeast0)
qed

text \<open>Rounding the size up to pages between the passes.\<close>

lemma lay_inv_align:
  assumes "lay_inv bound secs0 (sz, secs)" "page = 2 ^ k" "k < 32" "bound + 2 ^ k \<le> 2 ^ 32"
  shows "lay_inv (bound + 2 ^ k) secs0 (align32 sz page, secs)" "unat sz \<le> unat (align32 sz page)"
proof -
  have ua: "unat page = 2 ^ k" using assms(2,3) by (simp add: unat_pow)
  have "unat sz \<le> bound" using assms(1) by (simp add: lay_inv_def potential_def)
  then have le: "unat sz + unat page \<le> 2 ^ 32" using assms(4) ua by simp
  note b = align32_bounds [OF assms(2,3) le]
  show "unat sz \<le> unat (align32 sz page)" by (rule b(1))
  show "lay_inv (bound + 2 ^ k) secs0 (align32 sz page, secs)"
    using assms(1) b(1,2) ua by (fastforce simp: lay_inv_def laid_out_def potential_def)
qed

lemma flag_bits:
  "(f :: u64) AND 2 \<noteq> 0 \<Longrightarrow> f AND 2 = 2" "f AND 1 \<noteq> 0 \<Longrightarrow> f AND 2 \<noteq> 0 \<Longrightarrow> f AND 3 = 3"
  "f AND 4 \<noteq> 0 \<Longrightarrow> f AND 2 \<noteq> 0 \<Longrightarrow> f AND 6 = 6"
proof -
  have s: "x AND 2 ^ k \<noteq> 0 \<Longrightarrow> x AND 2 ^ k = 2 ^ k" for x :: u64 and k
    by (auto simp: and_exp_eq_0_iff_not_bit intro!: bit_word_eqI simp: bit_and_iff bit_exp_iff)
  have 2: "f AND 2 \<noteq> 0 \<Longrightarrow> f AND 2 = 2" for f :: u64 using s [of f 1] by simp
  have 1: "f AND 1 \<noteq> 0 \<Longrightarrow> f AND 1 = 1" for f :: u64 using s [of f 0] by simp
  have 4: "f AND 4 \<noteq> 0 \<Longrightarrow> f AND 4 = 4" for f :: u64 using s [of f 2] by simp
  have d: "f AND 3 = (f AND 1) OR (f AND 2)" "f AND 6 = (f AND 4) OR (f AND 2)" for f :: u64
    by (simp_all flip: bit.conj_disj_distrib)
  show "f AND 2 \<noteq> 0 \<Longrightarrow> f AND 2 = 2" by (rule 2)
  show "f AND 1 \<noteq> 0 \<Longrightarrow> f AND 2 \<noteq> 0 \<Longrightarrow> f AND 3 = 3" using 1 [of f] 2 [of f] by (simp add: d)
  show "f AND 4 \<noteq> 0 \<Longrightarrow> f AND 2 \<noteq> 0 \<Longrightarrow> f AND 6 = 6" using 4 [of f] 2 [of f] by (simp add: d)
qed

lemma pass_cover:
  assumes "sh_flags s AND 2 \<noteq> 0"
  shows "sh_flags s AND 4 \<noteq> 0 \<Longrightarrow> sh_flags s AND 6 = 6"
    "sh_flags s AND 1 \<noteq> 0 \<Longrightarrow> sh_flags s AND 3 = 3" "sh_flags s AND 2 = 2"
  using flag_bits assms by auto

lemma laid_out_le: "laid_out sz secs \<Longrightarrow> s \<in> set secs \<Longrightarrow> placed s \<Longrightarrow> sec_end s \<le> unat sz"
  by (simp add: laid_out_def)

lemma fresh_inv:
  assumes "mod_size md = 0"
  shows "lay_inv (sum_list (map cost secs)) (map (\<lambda>s. s\<lparr>sh_entsize := - 1\<rparr>) secs) (mod_size md, map (\<lambda>s. s\<lparr>sh_entsize := - 1\<rparr>) secs)"
  using assms by (auto simp: lay_inv_def laid_out_def placed_def potential_def same_sections_def pending_def
      comp_def)

text \<open>What the layout of the sections yields.\<close>

lemma layout_sections_outcome:
  assumes al: "\<forall>s \<in> set secs. aligned_section s" and pg: "ucast page_size = (2 ^ k :: u32)" "k < 32"
    and fresh: "mod_size md = 0" and room: "sum_list (map cost secs) + 3 * 2 ^ k < 2 ^ 32"
    and run: "layout_sections page_size md secs = (md', secs')"
  shows "lay_inv (sum_list (map cost secs) + 3 * 2 ^ k) secs (mod_size md', secs')"
    "\<forall>i < length secs. placed (secs' ! i) \<longleftrightarrow> sh_flags (secs ! i) AND SHF_ALLOC \<noteq> 0"
    "\<forall>i < length secs. sh_flags (secs ! i) AND SHF_ALLOC \<noteq> 0 \<longrightarrow> sh_flags (secs ! i) AND SHF_EXECINSTR \<noteq> 0 \<longrightarrow>
       sec_end (secs' ! i) \<le> unat (mod_text_size md')"
    "\<forall>i < length secs. sh_flags (secs ! i) AND SHF_ALLOC \<noteq> 0 \<longrightarrow> sh_flags (secs ! i) AND SHF_WRITE = 0 \<longrightarrow>
       sec_end (secs' ! i) \<le> unat (mod_ro_size md')"
proof -
  let ?B = "sum_list (map cost secs)" let ?r = "map (\<lambda>s. s\<lparr>sh_entsize := - 1\<rparr>) secs"
  let ?page = "ucast page_size :: u32"
  let ?a = "layout_pass 6 0 (mod_size md, ?r)"
  let ?t = "align32 (fst ?a) ?page"
  let ?b = "layout_pass 2 1 (?t, snd ?a)"
  let ?o = "align32 (fst ?b) ?page"
  let ?c = "layout_pass 3 0 (?o, snd ?b)"
  let ?d = "layout_pass 2 0 ?c"
  have res: "mod_size md' = align32 (fst ?d) ?page" "mod_text_size md' = ?t" "mod_ro_size md' = ?o" "secs' = snd ?d"
    using run by (auto simp: layout_sections_def Let_def split: prod.splits)
  have alr: "\<forall>s \<in> set ?r. aligned_section s" using al by (simp add: aligned_section_def)
  have n: "(6 :: u64) AND 2 = 2" "(2 :: u64) AND 2 = 2" "(3 :: u64) AND 2 = 2" by simp_all
  note a = layout_pass_keeps [OF fresh_inv [OF fresh] _ alr n(1), of 0]
  note at = lay_inv_align [of ?B ?r "fst ?a" "snd ?a" ?page k, OF _ pg]
  have ra: "lay_inv ?B ?r ?a" using a(1) room by simp
  have ta: "lay_inv (?B + 2 ^ k) ?r (?t, snd ?a)" "unat (fst ?a) \<le> unat ?t" using at ra room by simp_all
  note b = layout_pass_keeps [OF ta(1) _ alr n(2), of 1]
  have rb: "lay_inv (?B + 2 ^ k) ?r ?b" using b(1) room by simp
  have tb: "lay_inv (?B + 2 ^ k + 2 ^ k) ?r (?o, snd ?b)" "unat (fst ?b) \<le> unat ?o"
    using lay_inv_align [of "?B + 2 ^ k" ?r "fst ?b" "snd ?b" ?page k, OF _ pg] rb room by simp_all
  note c = layout_pass_keeps [OF tb(1) _ alr n(3), of 0]
  have rc: "lay_inv (?B + 2 ^ k + 2 ^ k) ?r ?c" using c(1) room by simp
  note d = layout_pass_keeps [OF rc _ alr n(2), of 0]
  have rd: "lay_inv (?B + 2 ^ k + 2 ^ k) ?r ?d" using d(1) room by simp
  have fin: "lay_inv (?B + 2 ^ k + 2 ^ k + 2 ^ k) ?r (mod_size md', secs')"
    using lay_inv_align(1) [of "?B + 2 ^ k + 2 ^ k" ?r "fst ?d" "snd ?d" ?page k, OF _ pg] rd room by (simp add: res)
  then show "lay_inv (?B + 3 * 2 ^ k) secs (mod_size md', secs')"
    by (simp add: lay_inv_def same_sections_def comp_def)
  have bs: "?B < 2 ^ 32" "?B + 2 ^ k < 2 ^ 32" "?B + 2 ^ k + 2 ^ k < 2 ^ 32" using room by simp_all
  have kb: "snd ?b ! j = snd ?a ! j" if "j < length secs" "placed (snd ?a ! j)" for j
    using b(2) [OF bs(2)] that by simp
  have kc: "snd ?c ! j = snd ?b ! j" if "j < length secs" "placed (snd ?b ! j)" for j
    using c(2) [OF bs(3)] that by simp
  have kd: "secs' ! j = snd ?c ! j" if "j < length secs" "placed (snd ?c ! j)" for j
    using d(2) [OF bs(3)] that by (simp add: res)
  have len: "length (snd ?a) = length secs" "length (snd ?b) = length secs" "length secs' = length secs"
    using ra rb rd same_sections_fields(1) [of ?r] by (auto simp: lay_inv_def res)
  have pa: "placed (snd ?a ! i)" if "i < length secs" "sh_flags (secs ! i) AND 2 \<noteq> 0" "sh_flags (secs ! i) AND 4 \<noteq> 0" for i
    using a(3) [OF bs(1)] that pass_cover [OF that(2)] by simp
  have pb: "placed (snd ?b ! i)" if "i < length secs" "sh_flags (secs ! i) AND 2 \<noteq> 0" "sh_flags (secs ! i) AND 1 = 0" for i
    using b(3) [OF bs(2)] that pass_cover [OF that(2)] by simp
  have pc: "placed (snd ?c ! i)" if "i < length secs" "sh_flags (secs ! i) AND 2 \<noteq> 0" for i
  proof (cases "sh_flags (secs ! i) AND 1 = 0")
    case True
    then show ?thesis using pb [OF that True] kc [OF that(1)] by simp
  next
    case False
    then show ?thesis using c(3) [OF bs(3)] that pass_cover [OF that(2)] by simp
  qed
  have flags: "sh_flags (secs' ! i) = sh_flags (secs ! i)" if "i < length secs" for i
  proof -
    have "secs' ! i = (?r ! i)\<lparr>sh_entsize := sh_entsize (secs' ! i)\<rparr>"
      using same_sections_fields(2) [of ?r secs' i] fin that by (simp add: lay_inv_def)
    then have "sh_flags (secs' ! i) = sh_flags ((?r ! i)\<lparr>sh_entsize := sh_entsize (secs' ! i)\<rparr>)" by (rule arg_cong)
    then show ?thesis using that by simp
  qed
  show "\<forall>i < length secs. placed (secs' ! i) \<longleftrightarrow> sh_flags (secs ! i) AND SHF_ALLOC \<noteq> 0"
  proof (intro allI impI iffI)
    fix i assume i: "i < length secs"
    show "placed (secs' ! i)" if "sh_flags (secs ! i) AND 2 \<noteq> 0" using kd [OF i pc [OF i that]] pc [OF i that] by simp
    show "sh_flags (secs ! i) AND 2 \<noteq> 0" if "placed (secs' ! i)"
      using fin that flags [OF i] i len(3) by (auto simp: lay_inv_def laid_out_def)
  qed
  show "\<forall>i < length secs. sh_flags (secs ! i) AND SHF_ALLOC \<noteq> 0 \<longrightarrow> sh_flags (secs ! i) AND SHF_EXECINSTR \<noteq> 0 \<longrightarrow>
       sec_end (secs' ! i) \<le> unat (mod_text_size md')"
  proof (intro allI impI)
    fix i assume i: "i < length secs" and f: "sh_flags (secs ! i) AND 2 \<noteq> 0" "sh_flags (secs ! i) AND 4 \<noteq> 0"
    note p = pa [OF i f]
    have "secs' ! i = snd ?a ! i" using kb [OF i p] kc [OF i] kd [OF i] p by simp
    moreover have "sec_end (snd ?a ! i) \<le> unat (fst ?a)"
      using ra p i len(1) by (intro laid_out_le) (auto simp: lay_inv_def)
    ultimately show "sec_end (secs' ! i) \<le> unat (mod_text_size md')" using ta(2) by (simp add: res)
  qed
  show "\<forall>i < length secs. sh_flags (secs ! i) AND SHF_ALLOC \<noteq> 0 \<longrightarrow> sh_flags (secs ! i) AND SHF_WRITE = 0 \<longrightarrow>
       sec_end (secs' ! i) \<le> unat (mod_ro_size md')"
  proof (intro allI impI)
    fix i assume i: "i < length secs" and f: "sh_flags (secs ! i) AND 2 \<noteq> 0" "sh_flags (secs ! i) AND 1 = 0"
    note p = pb [OF i f]
    have "secs' ! i = snd ?b ! i" using kc [OF i p] kd [OF i] p by simp
    moreover have "sec_end (snd ?b ! i) \<le> unat (fst ?b)"
      using rb p i len(2) by (intro laid_out_le) (auto simp: lay_inv_def)
    ultimately show "sec_end (secs' ! i) \<le> unat (mod_ro_size md')" using tb(2) by (simp add: res)
  qed
qed

text \<open>
  C25: If the alignments are powers of two and the sections, their alignments and three pages fit
  into 32 bits, the layout gives every allocated section and no other a place: aligned, inside the
  size of the module, apart from all other places, the executable sections in the text part
  and the sections that are not writable in the read-only part.
\<close>
theorem layout_sections_disjoint:
  assumes "\<forall>s \<in> set secs. \<exists>j < 32. sec_align s = 2 ^ j" "ucast page_size = (2 ^ k :: u32)" "k < 32" "mod_size md = 0"
    and "(\<Sum>s\<leftarrow>secs. unat (sec_align s) + unat (sh_size s)) + 3 * 2 ^ k < 2 ^ 32"
    and "layout_sections page_size md secs = (md', secs')"
  shows "length secs' = length secs \<and>
    (\<forall>i < length secs.
       (sh_entsize (secs' ! i) \<noteq> - 1 \<longleftrightarrow> sh_flags (secs ! i) AND SHF_ALLOC \<noteq> 0) \<and>
       (sh_flags (secs ! i) AND SHF_ALLOC \<noteq> 0 \<longrightarrow>
          unat (sh_entsize (secs' ! i)) + unat (sh_size (secs' ! i)) \<le> unat (mod_size md') \<and>
          unat (sh_entsize (secs' ! i)) mod unat (sec_align (secs' ! i)) = 0 \<and>
          (sh_flags (secs ! i) AND SHF_EXECINSTR \<noteq> 0 \<longrightarrow>
             unat (sh_entsize (secs' ! i)) + unat (sh_size (secs' ! i)) \<le> unat (mod_text_size md')) \<and>
          (sh_flags (secs ! i) AND SHF_WRITE = 0 \<longrightarrow>
             unat (sh_entsize (secs' ! i)) + unat (sh_size (secs' ! i)) \<le> unat (mod_ro_size md')) \<and>
          (\<forall>j < length secs. j \<noteq> i \<and> sh_flags (secs ! j) AND SHF_ALLOC \<noteq> 0 \<longrightarrow>
             unat (sh_entsize (secs' ! i)) + unat (sh_size (secs' ! i)) \<le> unat (sh_entsize (secs' ! j)) \<or>
             unat (sh_entsize (secs' ! j)) + unat (sh_size (secs' ! j)) \<le> unat (sh_entsize (secs' ! i)))))"
proof -
  have al: "\<forall>s \<in> set secs. aligned_section s" using assms(1) by (simp add: aligned_section_def)
  have room: "sum_list (map cost secs) + 3 * 2 ^ k < 2 ^ 32" using assms(5) by (simp add: cost_def [abs_def])
  note o = layout_sections_outcome [OF al assms(2-4) room assms(6)]
  have len: "length secs' = length secs" using o(1) same_sections_fields(1) by (auto simp: lay_inv_def)
  have lay: "laid_out (mod_size md') secs'" using o(1) by (simp add: lay_inv_def)
  show ?thesis
    using len lay o(2-4) by (simp add: laid_out_def sec_end_def placed_def)
qed

definition demo_sections :: "elf_shdr list" where
  "demo_sections =
     map (\<lambda>(f, n, a). \<lparr>sh_name = 0, sh_type = 1, sh_flags = f, sh_addr = 0, sh_offset = 0, sh_size = n, sh_link = 0,
       sh_info = 0, sh_addralign = a, sh_entsize = 0\<rparr>) [(0, 0, 0), (6, 0x100, 4), (3, 0x20, 8)]"

definition demo_module :: kmodule where
  "demo_module = \<lparr>mod_base = 0, mod_name = 0, mod_version = 0, mod_license = 0, mod_author = 0, mod_description = 0,
     mod_args = None, mod_ctl_args = None, mod_init = 0, mod_ctl0 = 0, mod_ctl1 = 0, mod_exit = 0, mod_size = 0,
     mod_text_size = 0, mod_ro_size = 0, mod_start = 0\<rparr>"

theorem layout_sections_disjoint_witness:
  "let (md', secs') = layout_sections 0x1000 demo_module demo_sections
   in unat (sh_entsize (secs' ! 1)) + unat (sh_size (secs' ! 1)) \<le> unat (mod_text_size md') \<and> sh_entsize (secs' ! 0) = - 1"
proof -
  obtain md' secs' where r: "layout_sections 0x1000 demo_module demo_sections = (md', secs')" by fastforce
  have al: "\<forall>s \<in> set demo_sections. \<exists>j < 32. sec_align s = 2 ^ j"
  proof -
    have "(1 :: u64) = 2 ^ 0" "(4 :: u64) = 2 ^ 2" "(8 :: u64) = 2 ^ 3" by simp_all
    then show ?thesis unfolding demo_sections_def
      by (auto simp: sec_align_def intro: exI [of _ 0] exI [of _ 2] exI [of _ 3])
  qed
  have pg: "(ucast (0x1000 :: u64) :: u32) = 2 ^ 12" by simp
  show ?thesis
    using layout_sections_disjoint [OF al pg _ _ _ r] r
    by (simp add: demo_sections_def demo_module_def sec_align_def)
qed

section \<open>Moving the sections\<close>

lemma word_range:
  "unat e + unat n \<le> 2 ^ 64 \<Longrightarrow> (x - e < n) = (unat e \<le> unat x \<and> unat x < unat e + unat (n :: u64))"
proof (cases "e \<le> x")
  case True
  then have "unat (x - e) = unat x - unat e" by (rule unat_sub)
  then show ?thesis using True by (auto simp: word_less_nat_alt word_le_nat_alt)
next
  case False
  assume a: "unat e + unat n \<le> 2 ^ 64"
  have l: "unat x < unat e" using False by (simp add: word_le_nat_alt)
  have "unat (x - e) = unat x + 2 ^ 64 - unat e"
    using l by (simp add: unat_sub_if')
  then show ?thesis using a l unat_bounds(3) [of e] by (simp add: word_less_nat_alt)
qed

lemma note_section_start [simp]: "mod_start (note_section m p d md) = mod_start md" "mod_size (note_section m p d md) = mod_size md"
  by (simp_all add: note_section_def Let_def)

definition in_block :: "u64 \<Rightarrow> u32 \<Rightarrow> u64 \<Rightarrow> bool" where
  "in_block start sz a \<longleftrightarrow> unat (a - start) < unat sz"

definition alloc :: "elf_shdr \<Rightarrow> bool" where
  "alloc s \<longleftrightarrow> sh_flags s AND SHF_ALLOC \<noteq> 0"

text \<open>An address that no allocated section covers at its place.\<close>

definition in_gap :: "u64 \<Rightarrow> elf_shdr list \<Rightarrow> u64 \<Rightarrow> bool" where
  "in_gap start secs a \<longleftrightarrow>
     (\<forall>l < length secs. alloc (secs ! l) \<longrightarrow> \<not> a - (start + sh_entsize (secs ! l)) < sh_size (secs ! l))"

text \<open>The memory and the headers after the sections of the indices \<open>is\<close> have been moved.\<close>

definition moved :: "u64 \<Rightarrow> u32 \<Rightarrow> elf_shdr list \<Rightarrow> bmem \<Rightarrow> nat set \<Rightarrow> kmodule \<times> elf_shdr list \<times> bmem \<Rightarrow> bool" where
  "moved start sz secs m is = (\<lambda>(md, secs', m').
     mod_start md = start \<and> length secs' = length secs \<and>
     (\<forall>l < length secs. secs' ! l =
        (if l \<in> is \<and> alloc (secs ! l) then (secs ! l)\<lparr>sh_addr := start + sh_entsize (secs ! l)\<rparr> else secs ! l)) \<and>
     (\<forall>a. \<not> in_block start sz a \<longrightarrow> m' a = m a) \<and>
     (\<forall>a. in_block start sz a \<and> in_gap start secs a \<longrightarrow> m' a = 0) \<and>
     (\<forall>l < length secs. alloc (secs ! l) \<longrightarrow> (\<forall>t. t < sh_size (secs ! l) \<longrightarrow>
        m' (start + sh_entsize (secs ! l) + t) =
          (if l \<in> is \<and> sh_type (secs ! l) \<noteq> SHT_NOBITS then m (sh_addr (secs ! l) + t) else 0))))"

lemma section_in_block:
  assumes "laid_out sz secs" "l < length secs" "placed (secs ! l)" "t < sh_size (secs ! l)"
  shows "in_block start sz (start + sh_entsize (secs ! l) + t)"
proof -
  have e: "sec_end (secs ! l) \<le> unat sz" using assms(1-3) by (auto simp: laid_out_def)
  have "unat (sh_entsize (secs ! l)) + unat t < 2 ^ 64"
    using e unat_bounds(2) [of sz] assms(4) by (simp add: sec_end_def word_less_nat_alt)
  then have "unat (start + sh_entsize (secs ! l) + t - start) = unat (sh_entsize (secs ! l)) + unat t"
    by (simp add: unat_word_ariths)
  then show ?thesis using e assms(4) by (simp add: in_block_def sec_end_def word_less_nat_alt)
qed

lemma move_section_step:
  assumes inv: "moved start sz secs m is st" and i: "i < length secs" "i \<notin> is"
    and lay: "laid_out sz secs" "\<forall>l < length secs. alloc (secs ! l) \<longrightarrow> placed (secs ! l)"
    and src: "alloc (secs ! i) \<Longrightarrow> sh_type (secs ! i) \<noteq> SHT_NOBITS \<Longrightarrow>
       \<forall>t < sh_size (secs ! i). \<not> in_block start sz (sh_addr (secs ! i) + t)"
  shows "moved start sz secs m (insert i is) (move_section strs i st)"
proof -
  obtain md secs' m' where st: "st = (md, secs', m')" by (cases st)
  let ?s = "secs ! i"
  have len: "length secs' = length secs" and start: "mod_start md = start" and si: "secs' ! i = ?s"
    and frame: "\<And>a. \<not> in_block start sz a \<Longrightarrow> m' a = m a"
    using inv i by (auto simp: moved_def st)
  show ?thesis
  proof (cases "alloc ?s")
    case False
    then have "move_section strs i st = st" by (simp add: move_section_def st si alloc_def Let_def)
    moreover have "moved start sz secs m (insert i is) st"
      using inv False unfolding moved_def st by (auto simp: insert_iff)
    ultimately show ?thesis by simp
  next
    case True
    let ?d = "start + sh_entsize ?s"
    let ?m = "if sh_type ?s \<noteq> SHT_NOBITS then mem_copy ?d (sh_addr ?s) (sh_size ?s) m' else m'"
    have run: "move_section strs i st =
        (note_section ?m (strs + ucast (sh_name ?s)) ?d md, secs'[i := ?s\<lparr>sh_addr := ?d\<rparr>], ?m)"
      using True by (simp add: move_section_def st si alloc_def Let_def start)
    have fits: "sec_end (secs ! l) \<le> unat sz" if "l < length secs" "alloc (secs ! l)" for l
      using lay that by (auto simp: laid_out_def)
    have small: "unat sz < 2 ^ 32" using unat_bounds(2) .
    have x: "(a - ?d < sh_size ?s) = (unat (sh_entsize ?s) \<le> unat (a - start) \<and> unat (a - start) < sec_end ?s)" for a
    proof -
      have "a - ?d = (a - start) - sh_entsize ?s" by simp
      moreover have "unat (sh_entsize ?s) + unat (sh_size ?s) \<le> 2 ^ 64"
        using fits [OF i(1) True] small by (simp add: sec_end_def)
      ultimately show ?thesis using word_range [of "sh_entsize ?s" "sh_size ?s" "a - start"] unfolding sec_end_def by presburger
    qed
    have frame': "?m a = m a" if "\<not> in_block start sz a" for a
      using that frame [OF that] x [of a] fits [OF i(1) True] by (auto simp: mem_copy_def in_block_def)
    have bytes: "?m (start + sh_entsize (secs ! l) + t) =
          (if l \<in> insert i is \<and> sh_type (secs ! l) \<noteq> SHT_NOBITS then m (sh_addr (secs ! l) + t) else 0)"
      if l: "l < length secs" "alloc (secs ! l)" and t: "t < sh_size (secs ! l)" for l t
    proof -
      let ?a = "start + sh_entsize (secs ! l) + t"
      have old: "m' ?a = (if l \<in> is \<and> sh_type (secs ! l) \<noteq> SHT_NOBITS then m (sh_addr (secs ! l) + t) else 0)"
        using inv l t by (auto simp: moved_def st)
      have off: "unat (?a - start) = unat (sh_entsize (secs ! l)) + unat t"
      proof -
        have "unat (sh_entsize (secs ! l)) + unat t < 2 ^ 64"
          using fits [OF l] small t by (simp add: sec_end_def word_less_nat_alt)
        then show ?thesis by (simp add: unat_word_ariths)
      qed
      show ?thesis
      proof (cases "l = i")
        case True
        then show ?thesis using old i(2) t src frame \<open>alloc ?s\<close> by (auto simp: mem_copy_def)
      next
        case False
        have "sec_end (secs ! l) \<le> unat (sh_entsize ?s) \<or> sec_end ?s \<le> unat (sh_entsize (secs ! l))"
          using lay l i(1) False \<open>alloc ?s\<close> by (auto simp: laid_out_def)
        then have "\<not> (?a - ?d < sh_size ?s)"
          unfolding x off using t by (auto simp: sec_end_def word_less_nat_alt)
        then have "?m ?a = m' ?a" by (auto simp: mem_copy_def)
        then show ?thesis using old False by simp
      qed
    qed
    have hdrs: "secs'[i := ?s\<lparr>sh_addr := ?d\<rparr>] ! l =
        (if l \<in> insert i is \<and> alloc (secs ! l) then (secs ! l)\<lparr>sh_addr := start + sh_entsize (secs ! l)\<rparr> else secs ! l)"
      if "l < length secs" for l
    proof -
      have "secs' ! l = (if l \<in> is \<and> alloc (secs ! l) then (secs ! l)\<lparr>sh_addr := start + sh_entsize (secs ! l)\<rparr> else secs ! l)"
        using inv that by (auto simp: moved_def st)
      then show ?thesis using True that len by (cases "l = i") auto
    qed
    have gap: "?m a = 0" if "in_block start sz a" "in_gap start secs a" for a
    proof -
      have "m' a = 0" using inv that by (auto simp: moved_def st)
      moreover have "\<not> a - ?d < sh_size ?s" using that(2) i(1) True by (auto simp: in_gap_def)
      ultimately show ?thesis by (auto simp: mem_copy_def)
    qed
    show ?thesis unfolding run moved_def prod.case
      using frame' bytes hdrs len start gap by simp
  qed
qed

lemma move_sections_run:
  assumes inv: "moved start sz secs m is0 st" and sub: "set is \<subseteq> {..<length secs}" "distinct is" "is0 \<inter> set is = {}"
    and lay: "laid_out sz secs" "\<forall>l < length secs. alloc (secs ! l) \<longrightarrow> placed (secs ! l)"
    and src: "\<forall>i < length secs. alloc (secs ! i) \<and> sh_type (secs ! i) \<noteq> SHT_NOBITS \<longrightarrow>
       (\<forall>t < sh_size (secs ! i). \<not> in_block start sz (sh_addr (secs ! i) + t))"
  shows "moved start sz secs m (is0 \<union> set is) (fold (move_section strs) is st)"
  using inv sub
proof (induction "is" arbitrary: is0 st)
  case Nil
  then show ?case by simp
next
  case (Cons i "is")
  have "moved start sz secs m (insert i is0) (move_section strs i st)"
    by (rule move_section_step [OF Cons.prems(1) _ _ lay]) (use Cons.prems src in auto)
  from Cons.IH [OF this] Cons.prems show ?case by auto
qed

section \<open>The pointers found by the names of sections\<close>

lemma note_section_pointers [simp]:
  "mod_init (note_section m p d md) = (if mod_init md = 0 \<and> mem_str m p ''.kpm.init'' then d else mod_init md)"
  "mod_exit (note_section m p d md) = (if mod_exit md = 0 \<and> mem_str m p ''.kpm.exit'' then d else mod_exit md)"
  "mod_base (note_section m p d md) = (if mod_base md = 0 \<and> mem_str m p ''.kpm.info'' then d else mod_base md)"
  "mod_ctl0 (note_section m p d md) = (if mem_str m p ''.kpm.ctl0'' then d else mod_ctl0 md)"
  "mod_ctl1 (note_section m p d md) = (if mem_str m p ''.kpm.ctl1'' then d else mod_ctl1 md)"
  unfolding note_section_def Let_def by (auto split: if_splits)

lemma mem_prefix_cong:
  "\<forall>k < length s. m' (p + of_nat k) = m (p + of_nat k) \<Longrightarrow> mem_prefix m' p s = mem_prefix m p s"
proof (induction s arbitrary: p)
  case Nil
  then show ?case by simp
next
  case (Cons c s)
  have "m' (p + 1 + of_nat k) = m (p + 1 + of_nat k)" if "k < length s" for k
    using Cons.prems [rule_format, of "Suc k"] that by (simp add: ac_simps)
  with Cons.IH [of "p + 1"] Cons.prems [rule_format, of 0] show ?case by simp
qed

lemma mem_str_cong:
  assumes "\<forall>k \<le> length s. m' (p + of_nat k) = m (p + of_nat k)"
  shows "mem_str m' p s = mem_str m p s"
  unfolding mem_str_def using assms mem_prefix_cong [of s m' p m] by simp

text \<open>The place of the first of the sections \<open>js\<close> that is allocated and has the name; \<open>d\<close> when there is none.\<close>

definition place_of :: "bmem \<Rightarrow> u64 \<Rightarrow> elf_shdr list \<Rightarrow> u64 \<Rightarrow> string \<Rightarrow> u64 \<Rightarrow> nat list \<Rightarrow> u64" where
  "place_of m strs secs start name d js =
     (case find (\<lambda>i. alloc (secs ! i) \<and> mem_str m (strs + ucast (sh_name (secs ! i))) name) js of
        None \<Rightarrow> d | Some i \<Rightarrow> start + sh_entsize (secs ! i))"

definition pointers :: "bmem \<Rightarrow> u64 \<Rightarrow> elf_shdr list \<Rightarrow> u64 \<Rightarrow> kmodule \<Rightarrow> nat list \<Rightarrow> kmodule \<Rightarrow> bool" where
  "pointers m strs secs start md0 js md \<longleftrightarrow>
     mod_init md = place_of m strs secs start ''.kpm.init'' 0 js \<and>
     mod_exit md = place_of m strs secs start ''.kpm.exit'' 0 js \<and>
     mod_base md = place_of m strs secs start ''.kpm.info'' 0 js \<and>
     mod_ctl0 md = place_of m strs secs start ''.kpm.ctl0'' (mod_ctl0 md0) (rev js) \<and>
     mod_ctl1 md = place_of m strs secs start ''.kpm.ctl1'' (mod_ctl1 md0) (rev js)"

lemma find_append: "find P (xs @ ys) = (case find P xs of None \<Rightarrow> find P ys | Some x \<Rightarrow> Some x)"
  by (induction xs) auto

lemma place_of_last:
  "(\<forall>j \<in> set js. alloc (secs ! j) \<longrightarrow> start + sh_entsize (secs ! j) \<noteq> 0) \<Longrightarrow> place_of m strs secs start name 0 (js @ [i]) =
     (if place_of m strs secs start name 0 js = 0 \<and> alloc (secs ! i) \<and> mem_str m (strs + ucast (sh_name (secs ! i))) name
      then start + sh_entsize (secs ! i) else place_of m strs secs start name 0 js)"
proof (cases "find (\<lambda>i. alloc (secs ! i) \<and> mem_str m (strs + ucast (sh_name (secs ! i))) name) js")
  case None
  then show ?thesis by (simp add: place_of_def find_append)
next
  case (Some j)
  then have "j \<in> set js" "alloc (secs ! j)" by (auto simp: find_Some_iff)
  moreover assume "\<forall>j \<in> set js. alloc (secs ! j) \<longrightarrow> start + sh_entsize (secs ! j) \<noteq> 0"
  ultimately show ?thesis using Some by (simp add: place_of_def find_append)
qed

lemma place_of_first:
  "place_of m strs secs start name d (i # js) =
     (if alloc (secs ! i) \<and> mem_str m (strs + ucast (sh_name (secs ! i))) name
      then start + sh_entsize (secs ! i) else place_of m strs secs start name d js)"
  by (simp add: place_of_def)

lemma pointers_step:
  assumes inv: "moved start sz secs m is (md, secs', m')" "pointers m strs secs start md0 js md"
    and i: "i < length secs" "i \<notin> is" and js: "set js \<subseteq> {..<length secs}"
    and place: "\<And>j. j < length secs \<Longrightarrow> alloc (secs ! j) \<Longrightarrow> start + sh_entsize (secs ! j) \<noteq> 0"
    and run: "moved start sz secs m (insert i is) (move_section strs i (md, secs', m'))"
    and names: "\<And>j k. j < length secs \<Longrightarrow> k < 10 \<Longrightarrow> \<not> in_block start sz (strs + ucast (sh_name (secs ! j)) + of_nat k)"
  shows "pointers m strs secs start md0 (js @ [i]) (fst (move_section strs i (md, secs', m')))"
proof -
  obtain md2 secs2 m2 where st: "move_section strs i (md, secs', m') = (md2, secs2, m2)" by (metis prod_cases3)
  let ?s = "secs ! i"
  have si: "secs' ! i = ?s" "mod_start md = start" using inv(1) i by (auto simp: moved_def)
  have frame: "m2 a = m a" if "\<not> in_block start sz a" for a using run that by (simp add: moved_def st)
  have name: "mem_str m2 (strs + ucast (sh_name ?s)) n = mem_str m (strs + ucast (sh_name ?s)) n" if "length n = 9" for n
    by (rule mem_str_cong) (use frame names [OF i(1)] that in auto)
  have pl: "\<forall>j \<in> set js. alloc (secs ! j) \<longrightarrow> start + sh_entsize (secs ! j) \<noteq> 0" using js place by auto
  show ?thesis
  proof (cases "alloc ?s")
    case False
    then have "md2 = md" using st by (simp add: move_section_def si alloc_def Let_def)
    then show ?thesis using inv(2) False by (simp add: st pointers_def place_of_last [OF pl] place_of_first)
  next
    case True
    then have "md2 = note_section m2 (strs + ucast (sh_name ?s)) (start + sh_entsize ?s) md"
      using st by (auto simp: move_section_def si alloc_def Let_def)
    then show ?thesis using inv(2) True
      by (simp add: st pointers_def place_of_last [OF pl] place_of_first name)
  qed
qed

lemma pointers_run:
  assumes inv: "moved start sz secs m (set js) st" "pointers m strs secs start md0 js (fst st)"
    and sub: "set js \<subseteq> {..<length secs}" "set is \<subseteq> {..<length secs}" "distinct is" "set js \<inter> set is = {}"
    and lay: "laid_out sz secs" "\<forall>l < length secs. alloc (secs ! l) \<longrightarrow> placed (secs ! l)"
    and src: "\<forall>i < length secs. alloc (secs ! i) \<and> sh_type (secs ! i) \<noteq> SHT_NOBITS \<longrightarrow>
       (\<forall>t < sh_size (secs ! i). \<not> in_block start sz (sh_addr (secs ! i) + t))"
    and place: "\<And>j. j < length secs \<Longrightarrow> alloc (secs ! j) \<Longrightarrow> start + sh_entsize (secs ! j) \<noteq> 0"
    and names: "\<And>j k. j < length secs \<Longrightarrow> k < 10 \<Longrightarrow> \<not> in_block start sz (strs + ucast (sh_name (secs ! j)) + of_nat k)"
  shows "pointers m strs secs start md0 (js @ is) (fst (fold (move_section strs) is st))"
  using inv sub
proof (induction "is" arbitrary: js st)
  case Nil
  then show ?case by simp
next
  case (Cons i "is")
  obtain md1 secs1 m1 where st: "st = (md1, secs1, m1)" by (cases st)
  have i: "i < length secs" "i \<notin> set js" using Cons.prems by auto
  have run: "moved start sz secs m (insert i (set js)) (move_section strs i st)"
    by (rule move_section_step [OF Cons.prems(1) i lay]) (use i src in auto)
  have "pointers m strs secs start md0 (js @ [i]) (fst (move_section strs i st))"
    using pointers_step [of start sz secs m "set js" md1 secs1 m1 strs md0 js i] Cons.prems(1-3) i place run names
    unfolding st fst_conv by blast
  from Cons.IH [OF _ this] run Cons.prems show ?case by auto
qed

lemma place_of_find_sec:
  "place_of m (secstrings info) (sechdrs info) start name 0 [1..<length (sechdrs info)] =
     (if find_sec m info name = 0 then 0 else start + sh_entsize (sechdrs info ! find_sec m info name))"
proof -
  have "i \<noteq> 0" if "find P [1..<n] = Some i" for P i n
    using that by (auto simp: find_Some_iff)
  then show ?thesis by (auto simp: place_of_def find_sec_def alloc_def split: option.split)
qed

lemma place_nonzero:
  assumes "laid_out sz secs" "l < length secs" "placed (secs ! l)" "unat start + unat sz < 2 ^ 64" "start \<noteq> 0"
  shows "start + sh_entsize (secs ! l) \<noteq> 0"
proof -
  have "unat (sh_entsize (secs ! l)) \<le> unat sz"
    using laid_out_le [OF assms(1) _ assms(3)] assms(2) by (simp add: sec_end_def)
  then have "unat (start + sh_entsize (secs ! l)) = unat start + unat (sh_entsize (secs ! l))"
    using assms(4) by (simp add: unat_word_ariths)
  moreover have "0 < unat start" using assms(5) by (simp add: unat_gt_0)
  ultimately show ?thesis by auto
qed

text \<open>
  C26: When the sections are laid out in the module's size, and neither the contents nor the names of the
  sections lie in the block allocated for the module, which does not wrap around, \<open>move_module\<close> succeeds:
  every allocated section stands at its place with the bytes of the image, or zeros when it has no contents,
  and its header has the new address; the rest of the block is zero and no byte outside it has changed.
  The entry point, the exit routine and the base of the information are the places of the first allocated
  sections of those names (0 without one), the control routines those of the last ones, and the strings of
  the information keep their distance from its base.
\<close>
theorem move_module_copies:
  assumes "laid_out (mod_size md) (sechdrs info)" "\<forall>s \<in> set (sechdrs info). alloc s \<longrightarrow> sh_entsize s \<noteq> - 1"
    and "\<forall>s \<in> set (sechdrs info). alloc s \<and> sh_type s \<noteq> SHT_NOBITS \<longrightarrow>
       (\<forall>t < sh_size s. \<not> unat (sh_addr s + t - start) < unat (mod_size md))"
    and "exec_alloc (mod_size md) = start" "start \<noteq> 0" "\<not> alloc (sechdrs info ! 0)"
    and "move_module exec_alloc md info m = (rc, md', info', m')"
    and "unat start + unat (mod_size md) < 2 ^ 64" "mod_init md = 0" "mod_exit md = 0" "mod_base md = 0"
    and "\<forall>s \<in> set (sechdrs info). \<forall>k < 10. \<not> unat (secstrings info + ucast (sh_name s) + of_nat k - start) < unat (mod_size md)"
  shows "rc = 0 \<and> mod_start md' = start \<and> (\<forall>a. \<not> unat (a - start) < unat (mod_size md) \<longrightarrow> m' a = m a) \<and>
    (\<forall>a. unat (a - start) < unat (mod_size md) \<and> in_gap start (sechdrs info) a \<longrightarrow> m' a = 0) \<and>
    (\<forall>i < length (sechdrs info). alloc (sechdrs info ! i) \<longrightarrow>
       sh_addr (sechdrs info' ! i) = start + sh_entsize (sechdrs info ! i) \<and>
       (\<forall>t < sh_size (sechdrs info ! i). m' (sh_addr (sechdrs info' ! i) + t) =
          (if sh_type (sechdrs info ! i) = SHT_NOBITS then 0 else m (sh_addr (sechdrs info ! i) + t)))) \<and>
    (let first = (\<lambda>name. if find_sec m info name = 0 then 0 else start + sh_entsize (sechdrs info ! find_sec m info name));
         last = (\<lambda>name d. place_of m (secstrings info) (sechdrs info) start name d (rev [1..<length (sechdrs info)]));
         string = (\<lambda>p. p - info_base info + first ''.kpm.info'')
     in mod_init md' = first ''.kpm.init'' \<and> mod_exit md' = first ''.kpm.exit'' \<and> mod_base md' = first ''.kpm.info'' \<and>
        mod_ctl0 md' = last ''.kpm.ctl0'' (mod_ctl0 md) \<and> mod_ctl1 md' = last ''.kpm.ctl1'' (mod_ctl1 md) \<and>
        mod_name md' = string (info_name info) \<and> mod_version md' = string (info_version info))"
proof -
  let ?secs = "sechdrs info" and ?sz = "mod_size md" and ?md0 = "md\<lparr>mod_start := start\<rparr>"
  let ?m0 = "mem_zero start (ucast ?sz) m"
  let ?is = "[1..<length ?secs]"
  obtain md1 secs1 m1 where f: "fold (move_section (secstrings info)) ?is (?md0, ?secs, ?m0) = (md1, secs1, m1)"
    by (metis prod_cases3)
  have res: "rc = 0" "m' = m1" "sechdrs info' = secs1" "mod_start md' = mod_start md1" "mod_init md' = mod_init md1"
      "mod_exit md' = mod_exit md1" "mod_base md' = mod_base md1" "mod_ctl0 md' = mod_ctl0 md1" "mod_ctl1 md' = mod_ctl1 md1"
      "mod_name md' = info_name info - info_base info + mod_base md1"
      "mod_version md' = info_version info - info_base info + mod_base md1"
    using assms(4,5,7) f by (auto simp: move_module_def Let_def)
  have z: "?m0 a = (if in_block start ?sz a then 0 else m a)" for a
    by (simp add: mem_zero_def in_block_def word_less_nat_alt unat_up)
  have lay: "\<forall>l < length ?secs. alloc (?secs ! l) \<longrightarrow> placed (?secs ! l)" using assms(2) by (simp add: placed_def)
  have src: "\<forall>i < length ?secs. alloc (?secs ! i) \<and> sh_type (?secs ! i) \<noteq> SHT_NOBITS \<longrightarrow>
       (\<forall>t < sh_size (?secs ! i). \<not> in_block start ?sz (sh_addr (?secs ! i) + t))"
    using assms(3) by (simp add: in_block_def)
  have m0: "moved start ?sz ?secs m {} (?md0, ?secs, ?m0)"
    using section_in_block [OF assms(1)] lay by (auto simp: moved_def z)
  have sub: "set ?is \<subseteq> {..<length ?secs}" "distinct ?is" by auto
  have mv: "moved start ?sz ?secs m {1..<length ?secs} (md1, secs1, m1)"
    using move_sections_run [OF m0 sub _ assms(1) lay src, of "secstrings info"] unfolding f by simp
  have p0: "pointers m (secstrings info) ?secs start md [] ?md0"
    using assms(9-11) by (simp add: pointers_def place_of_def)
  have place: "start + sh_entsize (?secs ! j) \<noteq> 0" if "j < length ?secs" "alloc (?secs ! j)" for j
    using place_nonzero [OF assms(1) that(1) _ assms(8,5)] lay that by blast
  have names: "\<not> in_block start ?sz (secstrings info + ucast (sh_name (?secs ! j)) + of_nat k)"
    if "j < length ?secs" "k < 10" for j k
    using assms(12) that by (simp add: in_block_def)
  have "pointers m (secstrings info) ?secs start md ([] @ ?is) (fst (fold (move_section (secstrings info)) ?is (?md0, ?secs, ?m0)))"
    by (rule pointers_run [OF _ _ _ sub _ assms(1) lay src place names]) (use m0 p0 in simp_all)
  then have ptr: "pointers m (secstrings info) ?secs start md ?is md1" unfolding f fst_conv append_Nil .
  have pos: "Suc 0 \<le> i" if "alloc (?secs ! i)" for i using assms(6) that by (cases i) auto
  have "mod_init md' = (if find_sec m info ''.kpm.init'' = 0 then 0 else start + sh_entsize (?secs ! find_sec m info ''.kpm.init''))"
      "mod_exit md' = (if find_sec m info ''.kpm.exit'' = 0 then 0 else start + sh_entsize (?secs ! find_sec m info ''.kpm.exit''))"
      "mod_base md' = (if find_sec m info ''.kpm.info'' = 0 then 0 else start + sh_entsize (?secs ! find_sec m info ''.kpm.info''))"
      "mod_ctl0 md' = place_of m (secstrings info) ?secs start ''.kpm.ctl0'' (mod_ctl0 md) (rev ?is)"
      "mod_ctl1 md' = place_of m (secstrings info) ?secs start ''.kpm.ctl1'' (mod_ctl1 md) (rev ?is)"
    using ptr unfolding pointers_def res place_of_find_sec by blast+
  note P = this
  have S: "mod_name md' = info_name info - info_base info + mod_base md'" "mod_version md' = info_version info - info_base info + mod_base md'"
    by (simp_all add: res)
  have M: "rc = 0 \<and> mod_start md' = start \<and> (\<forall>a. \<not> unat (a - start) < unat (mod_size md) \<longrightarrow> m' a = m a) \<and>
    (\<forall>a. unat (a - start) < unat (mod_size md) \<and> in_gap start (sechdrs info) a \<longrightarrow> m' a = 0) \<and>
    (\<forall>i < length (sechdrs info). alloc (sechdrs info ! i) \<longrightarrow>
       sh_addr (sechdrs info' ! i) = start + sh_entsize (sechdrs info ! i) \<and>
       (\<forall>t < sh_size (sechdrs info ! i). m' (sh_addr (sechdrs info' ! i) + t) =
          (if sh_type (sechdrs info ! i) = SHT_NOBITS then 0 else m (sh_addr (sechdrs info ! i) + t))))"
    using mv pos by (auto simp: moved_def res(1-4) in_block_def)
  show ?thesis unfolding Let_def using M P S by argo
qed

definition demo_info :: load_info where
  "demo_info = \<lparr>li_hdr = 0, li_len = 0x1000, sechdrs =
       map (\<lambda>(n, f, e). \<lparr>sh_name = n, sh_type = 1, sh_flags = f, sh_addr = 0x100, sh_offset = 0x100, sh_size = 8, sh_link = 0,
         sh_info = 0, sh_addralign = 1, sh_entsize = e\<rparr>) [(0, 0, - 1), (0x200, 6, 0), (0, 3, 8)],
     secstrings = 0, strtab = 0, info_base = 0, info_size = 0, info_name = 0, info_version = 0, info_license = 0,
     info_author = 0, info_description = 0, index_sym = 0, index_str = 0, index_info = 0, symoffs = 0, stroffs = 0\<rparr>"

definition demo_image :: bmem where
  "demo_image = (\<lambda>a. if a - 0x200 < 10 then (map of_char ''.kpm.init'' @ [0]) ! unat (a - 0x200) else ucast a)"

theorem move_module_copies_witness:
  "let (rc, md', info', m') = move_module (\<lambda>_. 0x8000) (demo_module\<lparr>mod_size := 16\<rparr>) demo_info demo_image
   in rc = 0 \<and> m' (sh_addr (sechdrs info' ! 2) + 3) = 3 \<and> mod_init md' = 0x8000 \<and> mod_exit md' = 0"
proof -
  let ?md = "demo_module\<lparr>mod_size := 16\<rparr>"
  obtain rc md' info' m' where r: "move_module (\<lambda>_. 0x8000) ?md demo_info demo_image = (rc, md', info', m')"
    by (cases "move_module (\<lambda>_. 0x8000) ?md demo_info demo_image") auto
  have all3: "(\<forall>i < 3 :: nat. P i) \<longleftrightarrow> P 0 \<and> P 1 \<and> P 2" for P by (auto simp: less_Suc_eq numeral_3_eq_3 numeral_2_eq_2)
  have len: "length (sechdrs demo_info) = 3" by (simp add: demo_info_def)
  have lay: "laid_out (mod_size ?md) (sechdrs demo_info)"
    unfolding laid_out_def len all3 by (simp add: demo_info_def placed_def sec_end_def sec_align_def)
  have out: "\<not> unat (b + t - 0x8000) < (16 :: nat)" if "t < 16" "unat b < 0x1000" for t b :: u64
  proof -
    have u: "unat (b + t) = unat b + unat t" "unat (b + t) < 0x8000"
      using that by (simp_all add: word_less_nat_alt unat_word_ariths)
    have "unat (b + t - 0x8000) = unat (b + t) + 2 ^ 64 - 0x8000"
      using u(2) by (simp add: unat_sub_if')
    then show ?thesis using u(2) by simp
  qed
  have p: "\<forall>s \<in> set (sechdrs demo_info). alloc s \<longrightarrow> sh_entsize s \<noteq> - 1" "\<not> alloc (sechdrs demo_info ! 0)"
    by (simp_all add: demo_info_def alloc_def)
  have w: "t < 8 \<Longrightarrow> t < 16" for t :: u64 by (simp add: word_less_nat_alt)
  have q: "\<forall>s \<in> set (sechdrs demo_info). alloc s \<and> sh_type s \<noteq> SHT_NOBITS \<longrightarrow>
     (\<forall>t < sh_size s. \<not> unat (sh_addr s + t - 0x8000) < unat (mod_size ?md))"
    using out [where b = "0x100", OF w] by (auto simp: demo_info_def)
  have n: "\<forall>s \<in> set (sechdrs demo_info). \<forall>k < 10.
      \<not> unat (secstrings demo_info + ucast (sh_name s) + of_nat k - 0x8000) < unat (mod_size ?md)"
    using out [where b = "0x200"] out [where b = 0] by (auto simp: demo_info_def word_less_nat_alt unat_of_nat)
  have f: "find_sec demo_image demo_info ''.kpm.init'' = 1" "find_sec demo_image demo_info ''.kpm.exit'' = 0"
    by (simp_all add: find_sec_def demo_info_def demo_image_def mem_str_def upt_rec of_char_def)
  have z: "(0x8000 :: u64) \<noteq> 0" "unat (0x8000 :: u64) + unat (mod_size ?md) < 2 ^ 64"
    "mod_init ?md = 0" "mod_exit ?md = 0" "mod_base ?md = 0" by (simp_all add: demo_module_def)
  note t = move_module_copies [OF lay p(1) q refl z(1) p(2) r z(2-5) n]
  have "rc = 0" "mod_init md' = 0x8000" "mod_exit md' = 0"
    using t unfolding Let_def f by (simp_all add: demo_info_def)
  moreover have "m' (sh_addr (sechdrs info' ! 2) + 3) = demo_image (0x100 + 3)"
  proof -
    have "\<forall>i < 3. alloc (sechdrs demo_info ! i) \<longrightarrow> (\<forall>t < sh_size (sechdrs demo_info ! i).
        m' (sh_addr (sechdrs info' ! i) + t) =
          (if sh_type (sechdrs demo_info ! i) = SHT_NOBITS then 0 else demo_image (sh_addr (sechdrs demo_info ! i) + t)))"
      using t unfolding len by blast
    then show ?thesis unfolding all3 by (simp add: demo_info_def alloc_def)
  qed
  moreover have "demo_image (0x100 + 3) = 3" by (simp add: demo_image_def)
  ultimately show ?thesis by (simp add: r)
qed

end
