(* ===== verification/Module_Manage.thy ===== *)
theory Module_Manage
  imports Module_Layout "HOL-Library.Multiset"
begin

text \<open>
  Loading, controlling, listing and unloading modules: the rest of
  \<^verbatim>\<open>kernel/patch/module/module.c\<close>.  The state is the byte memory, the list of modules, the live blocks
  of the two allocators and the nesting of \<open>rcu_read_lock\<close>.  The entry points of a module are
  outside code: functions of the module and the memory.  \<open>None\<close> stands for a fault of the kernel.
\<close>

section \<open>State\<close>

record mstate =
  ms_mem :: bmem
  ms_modules :: "kmodule list"
  vm_live :: nat
  exec_live :: "u64 list"
  rcu_depth :: int

text \<open>What the surroundings decide: allocations (by their number), the symbols, the modules' entry points.\<close>

record kernel_env =
  vm_ok :: "nat \<Rightarrow> bool"
  exec_alloc :: "u32 \<Rightarrow> u64"
  env_page_size :: u64
  kp_symbols :: "kp_symbol list"
  ub_shift :: "nat \<Rightarrow> s32"
  run_init :: "kmodule \<Rightarrow> bmem \<Rightarrow> u64 \<times> bmem"
  run_exit :: "kmodule \<Rightarrow> bmem \<Rightarrow> u64 \<times> bmem"
  run_ctl0 :: "kmodule \<Rightarrow> bmem \<Rightarrow> u64 \<times> bmem"
  run_ctl1 :: "kmodule \<Rightarrow> bmem \<Rightarrow> u64 \<times> bmem"

definition new_module :: kmodule where
  "new_module = \<lparr>mod_base = 0, mod_name = 0, mod_version = 0, mod_license = 0, mod_author = 0, mod_description = 0,
     mod_args = None, mod_ctl_args = None, mod_init = 0, mod_ctl0 = 0, mod_ctl1 = 0, mod_exit = 0, mod_size = 0,
     mod_text_size = 0, mod_ro_size = 0, mod_start = 0\<rparr>"

definition new_load_info :: "u64 \<Rightarrow> u64 \<Rightarrow> load_info" where
  "new_load_info hdr len = \<lparr>li_hdr = hdr, li_len = len, sechdrs = [], secstrings = 0, strtab = 0, info_base = 0,
     info_size = 0, info_name = 0, info_version = 0, info_license = 0, info_author = 0, info_description = 0,
     index_sym = 0, index_str = 0, index_info = 0, symoffs = 0, stroffs = 0\<rparr>"

text \<open>The first module of the name and its position.\<close>

definition find_module :: "mstate \<Rightarrow> string \<Rightarrow> nat option" where
  "find_module st name = find (\<lambda>i. mem_str (ms_mem st) (mod_name (ms_modules st ! i)) name) [0..<length (ms_modules st)]"

section \<open>Loading and unloading\<close>

definition kvfree :: "'a option \<Rightarrow> mstate \<Rightarrow> mstate" where
  "kvfree p st = (case p of None \<Rightarrow> st | Some _ \<Rightarrow> st\<lparr>vm_live := vm_live st - 1\<rparr>)"

definition kp_free_exec :: "u64 \<Rightarrow> mstate \<Rightarrow> mstate" where
  "kp_free_exec p st = st\<lparr>exec_live := remove1 p (exec_live st)\<rparr>"

text \<open>The labels \<open>free\<close> and \<open>free1\<close>.\<close>

definition free_module :: "kmodule \<Rightarrow> mstate \<Rightarrow> mstate" where
  "free_module md st = kvfree (Some ()) (kp_free_exec (mod_start md) (kvfree (mod_args md) st))"

text \<open>From the moved module on: symbols, relocations, the entry point.\<close>

definition finish_load :: "kernel_env \<Rightarrow> kmodule \<Rightarrow> load_info \<Rightarrow> mstate \<Rightarrow> (u64 \<times> mstate) option" where
  "finish_load env md info st =
     (case simplify_symbols (kp_symbols env) info (ms_mem st) of None \<Rightarrow> None
      | Some (rc, m) \<Rightarrow>
          let st = st\<lparr>ms_mem := m\<rparr>
          in if rc \<noteq> 0 then Some (scast rc, free_module md st)
             else (case apply_relocations (ub_shift env) info (ms_mem st) of None \<Rightarrow> None
                   | Some (rc, m) \<Rightarrow>
                       let st = st\<lparr>ms_mem := m\<rparr>
                       in if rc \<noteq> 0 then Some (scast rc, free_module md st)
                          else (case run_init env md (ms_mem st) of
                                  (rc, m) \<Rightarrow>
                                    if rc = 0 then Some (0, st\<lparr>ms_mem := m, ms_modules := ms_modules st @ [md]\<rparr>)
                                    else Some (rc, free_module md (st\<lparr>ms_mem := snd (run_exit env md m)\<rparr>)))))"

definition place_module :: "kernel_env \<Rightarrow> string option \<Rightarrow> load_info \<Rightarrow> mstate \<Rightarrow> (u64 \<times> mstate) option" where
  "place_module env args info st =
     (let md = new_module\<lparr>mod_args := args\<rparr>;
          (md, secs) = layout_sections (env_page_size env) md (sechdrs info)
      in case layout_symtab (ms_mem st) md (info\<lparr>sechdrs := secs\<rparr>) of None \<Rightarrow> None
         | Some (md, info) \<Rightarrow>
             (case move_module (exec_alloc env) md info (ms_mem st) of
                (rc, md, info, m) \<Rightarrow>
                  let st = st\<lparr>ms_mem := m, exec_live := (if mod_start md = 0 then exec_live st else mod_start md # exec_live st)\<rparr>
                  in if rc \<noteq> 0 then Some (scast rc, free_module md st) else finish_load env md info st))"

definition load_module :: "kernel_env \<Rightarrow> u64 \<Rightarrow> s32 \<Rightarrow> string option \<Rightarrow> mstate \<Rightarrow> (u64 \<times> mstate) option" where
  "load_module env data len args st =
     (let m = ms_mem st; info = new_load_info data (scast len); rc = elf_header_check m data (scast len)
      in if rc \<noteq> 0 then Some (scast rc, st)
         else case setup_load_info m info of None \<Rightarrow> None
         | Some (rc, info) \<Rightarrow>
             if rc \<noteq> 0 then Some (scast rc, st)
             else (case read_str m (info_name info) of None \<Rightarrow> None
                   | Some name \<Rightarrow>
                       if find_module st name \<noteq> None then Some (scast (- EEXIST), st)
                       else if \<not> vm_ok env 0 then Some (scast (- ENOMEM), st)
                       else let st = st\<lparr>vm_live := vm_live st + 1\<rparr>
                       in (case args of
                             None \<Rightarrow> place_module env None info st
                           | Some a \<Rightarrow>
                               if \<not> vm_ok env 1 then Some (scast (- ENOMEM), kvfree (Some ()) st)
                               else place_module env (Some a) info (st\<lparr>vm_live := vm_live st + 1\<rparr>))))"

text \<open>
  Loading from a file: \<open>fs\<close> is the result of \<open>filp_open\<close>, an error or the bytes of the file, \<open>buf\<close> that of
  \<open>vmalloc\<close> and \<open>got\<close> the number of bytes \<open>kernel_read\<close> delivers.  The second component of the result says
  whether the file is left open.
\<close>

definition load_module_path ::
    "kernel_env \<Rightarrow> (string \<Rightarrow> u64 + u8 list) \<Rightarrow> u64 \<Rightarrow> nat \<Rightarrow> string option \<Rightarrow> string option \<Rightarrow> mstate \<Rightarrow> (u64 \<times> bool \<times> mstate) option" where
  "load_module_path env fs buf got path args st =
     (case path of None \<Rightarrow> Some (scast (- EINVAL), False, st)
      | Some path \<Rightarrow>
          (case fs path of Inl err \<Rightarrow> Some (err, False, st)
           | Inr bytes \<Rightarrow>
               if buf = 0 then Some (scast (- ENOMEM), True, st)
               else let len = length bytes;
                        m = (\<lambda>a. if unat (a - buf) < len then (if unat (a - buf) < got then bytes ! unat (a - buf) else 0)
                                 else ms_mem st a);
                        st = st\<lparr>ms_mem := m, vm_live := vm_live st + 1\<rparr>
               in if got \<noteq> len then Some (scast (- EIO), False, kvfree (Some ()) st)
                  else map_option (\<lambda>(rc, st). (rc, False, kvfree (Some ()) st)) (load_module env buf (of_nat len) args st)))"

definition unload_module :: "kernel_env \<Rightarrow> string option \<Rightarrow> mstate \<Rightarrow> u64 \<times> mstate" where
  "unload_module env name st =
     (case name of None \<Rightarrow> (scast (- EINVAL), st)
      | Some name \<Rightarrow>
          let st = st\<lparr>rcu_depth := rcu_depth st + 1\<rparr>;
              (rc, st) = (case find_module st name of
                  None \<Rightarrow> (scast (- ENOENT), st)
                | Some i \<Rightarrow>
                    let md = ms_modules st ! i;
                        st = st\<lparr>ms_modules := take i (ms_modules st) @ drop (Suc i) (ms_modules st)\<rparr>;
                        (rc, m) = run_exit env md (ms_mem st);
                        st = kvfree (mod_ctl_args md) (kvfree (mod_args md) (st\<lparr>ms_mem := m\<rparr>))
                    in (rc, kvfree (Some ()) (kp_free_exec (mod_start md) st)))
          in (rc, st\<lparr>rcu_depth := rcu_depth st - 1\<rparr>))"

section \<open>Control calls\<close>

text \<open>
  The pointer to the handler stands in the module's section of that name.  A module without the
  section has a null pointer, which the code dereferences.
\<close>

definition module_control0 :: "kernel_env \<Rightarrow> string option \<Rightarrow> string option \<Rightarrow> mstate \<Rightarrow> (u64 \<times> mstate) option" where
  "module_control0 env name ctl_args st =
     (case (name, ctl_args) of
        (Some name, Some a) \<Rightarrow>
          if a = [] then Some (scast (- EINVAL), st)
          else (case find_module st name of
                  None \<Rightarrow> Some (scast (- ENOENT), st)
                | Some i \<Rightarrow>
                    let md = ms_modules st ! i
                    in if mod_ctl0 md = 0 then None
                       else if load_le 8 (ms_mem st) (mod_ctl0 md) = 0 then Some (scast (- ENOSYS), st)
                       else let st = kvfree (mod_ctl_args md) st
                       in if \<not> vm_ok env 0
                          then Some (scast (- ENOMEM), st\<lparr>ms_modules := (ms_modules st)[i := md\<lparr>mod_ctl_args := None\<rparr>]\<rparr>)
                          else let md = md\<lparr>mod_ctl_args := Some a\<rparr>;
                                   st = st\<lparr>vm_live := vm_live st + 1, ms_modules := (ms_modules st)[i := md]\<rparr>
                          in (case run_ctl0 env md (ms_mem st) of (rc, m) \<Rightarrow> Some (rc, st\<lparr>ms_mem := m\<rparr>)))
      | _ \<Rightarrow> Some (scast (- EINVAL), st))"

definition module_control1 :: "kernel_env \<Rightarrow> string \<Rightarrow> mstate \<Rightarrow> (u64 \<times> mstate) option" where
  "module_control1 env name st =
     (case find_module st name of
        None \<Rightarrow> Some (scast (- ENOENT), st)
      | Some i \<Rightarrow>
          let md = ms_modules st ! i
          in if mod_ctl1 md = 0 then None
             else if load_le 8 (ms_mem st) (mod_ctl1 md) = 0 then Some (scast (- ENOSYS), st)
             else (case run_ctl1 env md (ms_mem st) of (rc, m) \<Rightarrow> Some (rc, st\<lparr>ms_mem := m\<rparr>)))"

definition get_module_nums :: "mstate \<Rightarrow> nat" where
  "get_module_nums st = length (ms_modules st)"


section \<open>Listing\<close>

text \<open>
  The kernel's \<open>snprintf\<close> at offset \<open>off\<close> of a buffer, with a size converted from \<open>int\<close>: it writes at
  most \<open>n - 1\<close> characters and a NUL, returns the full length, and refuses a size above \<open>INT_MAX\<close>.
  A write outside the buffer is \<open>None\<close>.
\<close>

definition write_at :: "nat \<Rightarrow> string \<Rightarrow> string \<Rightarrow> string option" where
  "write_at off s buf = (if off + length s \<le> length buf then Some (take off buf @ s @ drop (off + length s) buf) else None)"

definition snprintf_names :: "nat \<Rightarrow> int \<Rightarrow> string \<Rightarrow> string \<Rightarrow> (nat \<times> string) option" where
  "snprintf_names off n s buf =
     (if n < 0 then Some (0, buf)
      else if n = 0 then Some (length s, buf)
      else map_option (Pair (length s)) (write_at off (take (nat n - 1) s @ [NUL]) buf))"

fun list_from :: "int \<Rightarrow> string list \<Rightarrow> nat \<Rightarrow> string \<Rightarrow> (nat \<times> string) option" where
  "list_from sz [] off buf = Some (off, buf)"
| "list_from sz (name # names) off buf =
     (case snprintf_names off (sz - 1 - int off) (name @ [CHR 0x0A]) buf of None \<Rightarrow> None
      | Some (n, buf) \<Rightarrow> list_from sz names (off + n) buf)"

text \<open>The character before the end of the text is replaced by a NUL.\<close>

definition terminate_at :: "nat \<Rightarrow> string \<Rightarrow> string option" where
  "terminate_at off buf = (if off = 0 then Some buf else write_at (off - 1) [NUL] buf)"

definition list_modules :: "int \<Rightarrow> string list \<Rightarrow> string \<Rightarrow> (nat \<times> string) option" where
  "list_modules sz names buf =
     (case list_from sz names 0 buf of None \<Rightarrow> None
      | Some (off, buf) \<Rightarrow> map_option (Pair off) (terminate_at off buf))"

text \<open>The six fields of a module as text, the absent ones as the kernel prints a null pointer.\<close>

definition info_text :: "string list \<Rightarrow> string" where
  "info_text vals =
     concat (map (\<lambda>(k, v). k @ v @ [CHR 0x0A])
       (zip [''name='', ''version='', ''license='', ''author='', ''description='', ''args=''] vals))"

text \<open>
  The information of a module, given as its six values, and the nesting of the lock.  For an
  unknown name the function returns without unlocking.
\<close>

definition get_module_info :: "string list option \<Rightarrow> int \<Rightarrow> string \<Rightarrow> int \<Rightarrow> (int \<times> string \<times> int) option" where
  "get_module_info vals sz buf depth =
     (if sz \<le> 0 then Some (0, buf, depth)
      else case vals of None \<Rightarrow> Some (- 2, buf, depth + 1)
      | Some vals \<Rightarrow>
          (case snprintf_names 0 (sz - 1) (info_text vals) buf of None \<Rightarrow> None
           | Some (n, buf) \<Rightarrow> map_option (\<lambda>buf. (int n, buf, depth)) (terminate_at n buf)))"

section \<open>What the loading keeps\<close>

lemma place_section_args: "place_section i md secs = (md', secs') \<Longrightarrow> mod_args md' = mod_args md \<and> mod_ctl_args md' = mod_ctl_args md"
  by (auto simp: place_section_def Let_def split: prod.splits)

lemma layout_sections_args:
  "layout_sections p md secs = (md', secs') \<Longrightarrow> mod_args md' = mod_args md \<and> mod_ctl_args md' = mod_ctl_args md"
  by (auto simp: layout_sections_def Let_def split: prod.splits)

lemma layout_symtab_args:
  assumes "layout_symtab m md info = Some (md', info')"
  shows "mod_args md' = mod_args md \<and> mod_ctl_args md' = mod_ctl_args md"
  using assms by (auto simp: layout_symtab_def Let_def split: prod.splits option.splits dest!: place_section_args)

lemma note_section_args: "mod_args (note_section m p d md) = mod_args md" "mod_ctl_args (note_section m p d md) = mod_ctl_args md"
  by (simp_all add: note_section_def Let_def)

lemma move_fold_args:
  "fold (move_section strs) is (md, secs, m) = (md', secs', m') \<Longrightarrow>
     mod_args md' = mod_args md \<and> mod_ctl_args md' = mod_ctl_args md \<and> mod_start md' = mod_start md"
proof (induction "is" arbitrary: md secs m)
  case (Cons i "is")
  obtain md1 secs1 m1 where s: "move_section strs i (md, secs, m) = (md1, secs1, m1)"
    by (cases "move_section strs i (md, secs, m)") auto
  then have "mod_args md1 = mod_args md \<and> mod_ctl_args md1 = mod_ctl_args md \<and> mod_start md1 = mod_start md"
    by (auto simp: move_section_def Let_def note_section_args split: if_splits)
  with Cons s show ?case by simp
qed simp

lemma move_module_args:
  assumes "move_module al md info m = (rc, md', info', m')"
  shows "mod_args md' = mod_args md \<and> mod_ctl_args md' = mod_ctl_args md" "mod_start md' = al (mod_size md)"
    "rc = (if al (mod_size md) = 0 then - ENOMEM else 0)"
  using assms by (auto simp: move_module_def Let_def split: if_splits prod.splits dest!: move_fold_args)

declare scast_eq_0 [simp]

text \<open>The blocks a module owns.\<close>

definition owned :: "kmodule \<Rightarrow> nat" where
  "owned md = 1 + (if mod_args md = None then 0 else 1) + (if mod_ctl_args md = None then 0 else 1)"

lemma free_module_live:
  "mod_ctl_args md = None \<Longrightarrow>
     ms_modules (free_module md st) = ms_modules st \<and> vm_live (free_module md st) = vm_live st - owned md \<and>
     exec_live (free_module md st) = remove1 (mod_start md) (exec_live st) \<and> rcu_depth (free_module md st) = rcu_depth st"
  by (auto simp: free_module_def kvfree_def kp_free_exec_def owned_def split: option.splits)

lemma finish_load_outcome:
  assumes "finish_load env md info st = Some (rc, st')" "mod_ctl_args md = None"
  shows "rcu_depth st' = rcu_depth st \<and>
    (if rc = 0 then ms_modules st' = ms_modules st @ [md] \<and> vm_live st' = vm_live st \<and> exec_live st' = exec_live st
     else ms_modules st' = ms_modules st \<and> vm_live st' = vm_live st - owned md \<and>
          exec_live st' = remove1 (mod_start md) (exec_live st))"
  using assms
  by (auto simp: finish_load_def Let_def free_module_live scast_eq_0 split: option.splits prod.splits if_splits)


lemma place_module_outcome:
  assumes "place_module env args info st = Some (rc, st')" "0 \<notin> set (exec_live st)"
  shows "rcu_depth st' = rcu_depth st \<and>
    (if rc = 0 then \<exists>md. mod_args md = args \<and> mod_ctl_args md = None \<and> mod_start md \<noteq> 0 \<and>
         ms_modules st' = ms_modules st @ [md] \<and> vm_live st' = vm_live st \<and> exec_live st' = mod_start md # exec_live st
     else ms_modules st' = ms_modules st \<and> vm_live st' = vm_live st - (1 + (if args = None then 0 else 1)) \<and>
          exec_live st' = exec_live st)"
proof -
  obtain md1 secs where l: "layout_sections (env_page_size env) (new_module\<lparr>mod_args := args\<rparr>) (sechdrs info) = (md1, secs)"
    by (cases "layout_sections (env_page_size env) (new_module\<lparr>mod_args := args\<rparr>) (sechdrs info)")
  from assms(1) l obtain md2 info2 where s: "layout_symtab (ms_mem st) md1 (info\<lparr>sechdrs := secs\<rparr>) = Some (md2, info2)"
    by (auto simp: place_module_def Let_def split: option.splits)
  obtain r md3 info3 m where mv: "move_module (exec_alloc env) md2 info2 (ms_mem st) = (r, md3, info3, m)"
    by (cases "move_module (exec_alloc env) md2 info2 (ms_mem st)") auto
  have a: "mod_args md3 = args" "mod_ctl_args md3 = None"
    using layout_sections_args [OF l] layout_symtab_args [OF s] move_module_args(1) [OF mv] by (simp_all add: new_module_def)
  have o: "owned md3 = 1 + (if args = None then 0 else 1)" using a by (simp add: owned_def)
  let ?st = "st\<lparr>ms_mem := m, exec_live := (if mod_start md3 = 0 then exec_live st else mod_start md3 # exec_live st)\<rparr>"
  have run: "place_module env args info st =
      (if r \<noteq> 0 then Some (scast r, free_module md3 ?st) else finish_load env md3 info3 ?st)"
    by (simp add: place_module_def Let_def l s mv)
  note mm = move_module_args(2,3) [OF mv]
  show ?thesis
  proof (cases "r = 0")
    case True
    with mm have "mod_start md3 \<noteq> 0" by (auto split: if_splits)
    then show ?thesis
      using finish_load_outcome [of env md3 info3 ?st rc st'] assms(1) True a o unfolding run by (auto split: if_splits)
  next
    case False
    with mm have z: "mod_start md3 = 0" by (auto split: if_splits)
    from False assms(1) have "rc \<noteq> 0" "st' = free_module md3 ?st" unfolding run by auto
    then show ?thesis using free_module_live [OF a(2), of ?st] z o assms(2) by (simp add: remove1_idem)
  qed
qed

lemma load_module_outcome:
  assumes "load_module env data len args st = Some (rc, st')" "0 \<notin> set (exec_live st)"
  shows "rcu_depth st' = rcu_depth st \<and>
    (if rc = 0 then \<exists>md. mod_args md = args \<and> mod_ctl_args md = None \<and> mod_start md \<noteq> 0 \<and>
         ms_modules st' = ms_modules st @ [md] \<and> vm_live st' = vm_live st + owned md \<and> exec_live st' = mod_start md # exec_live st
     else ms_modules st' = ms_modules st \<and> vm_live st' = vm_live st \<and> exec_live st' = exec_live st)"
proof -
  have p: "rcu_depth st' = rcu_depth st \<and>
    (if rc = 0 then \<exists>md. mod_args md = args \<and> mod_ctl_args md = None \<and> mod_start md \<noteq> 0 \<and>
         ms_modules st' = ms_modules st @ [md] \<and> vm_live st' = vm_live st + owned md \<and> exec_live st' = mod_start md # exec_live st
     else ms_modules st' = ms_modules st \<and> vm_live st' = vm_live st \<and> exec_live st' = exec_live st)"
    if "place_module env args info (st\<lparr>vm_live := vm_live st + (1 + (if args = None then 0 else 1))\<rparr>) = Some (rc, st')" for info
  proof (cases "rc = 0")
    case True
    with place_module_outcome [OF that] assms(2) obtain md where
      "rcu_depth st' = rcu_depth st" "mod_args md = args" "mod_ctl_args md = None" "mod_start md \<noteq> 0"
      "ms_modules st' = ms_modules st @ [md]" "vm_live st' = vm_live st + (1 + (if args = None then 0 else 1))"
      "exec_live st' = mod_start md # exec_live st" by auto
    moreover from this have "owned md = 1 + (if args = None then 0 else 1)" by (simp add: owned_def)
    ultimately show ?thesis using True by auto
  next
    case False
    with place_module_outcome [OF that] assms(2) show ?thesis by auto
  qed
  show ?thesis
    using assms(1) p by (auto simp: load_module_def Let_def kvfree_def split: option.splits prod.splits if_splits)
qed

text \<open>A state reached by loading, unloading and controlling modules, whatever the surroundings do.\<close>

inductive module_reach :: "mstate \<Rightarrow> bool" where
  boot: "ms_modules st = [] \<Longrightarrow> vm_live st = 0 \<Longrightarrow> exec_live st = [] \<Longrightarrow> rcu_depth st = 0 \<Longrightarrow> module_reach st"
| load: "module_reach st \<Longrightarrow> load_module env data len args st = Some (rc, st') \<Longrightarrow> module_reach st'"
| load_path: "module_reach st \<Longrightarrow> load_module_path env fs buf got path args st = Some (rc, left_open, st') \<Longrightarrow> module_reach st'"
| unload: "module_reach st \<Longrightarrow> unload_module env name st = (rc, st') \<Longrightarrow> module_reach st'"
| control0: "module_reach st \<Longrightarrow> module_control0 env name args st = Some (rc, st') \<Longrightarrow> module_reach st'"
| control1: "module_reach st \<Longrightarrow> module_control1 env mname st = Some (rc, st') \<Longrightarrow> module_reach st'"

definition accounted :: "mstate \<Rightarrow> bool" where
  "accounted st \<longleftrightarrow>
     vm_live st = sum_list (map owned (ms_modules st)) \<and> mset (exec_live st) = mset (map mod_start (ms_modules st)) \<and>
     0 \<notin> set (exec_live st) \<and> rcu_depth st = 0"

lemma find_module_bound: "find_module st name = Some i \<Longrightarrow> i < length (ms_modules st)"
  by (auto simp: find_module_def find_Some_iff)

lemma sum_list_split: "i < length xs \<Longrightarrow> sum_list (map f xs) = (f (xs ! i) :: nat) + sum_list (map f (take i xs @ drop (Suc i) xs))"
  by (subst id_take_nth_drop [of i xs]) (auto simp: add.assoc)

lemma mset_split: "i < length xs \<Longrightarrow> mset (map f xs) = add_mset (f (xs ! i)) (mset (map f (take i xs @ drop (Suc i) xs)))"
  by (subst id_take_nth_drop [of i xs]) auto

lemma unload_accounted:
  assumes "accounted st" "unload_module env name st = (rc, st')"
  shows "accounted st'"
proof (cases "\<exists>n i. name = Some n \<and> find_module (st\<lparr>rcu_depth := rcu_depth st + 1\<rparr>) n = Some i")
  case False
  then show ?thesis using assms by (auto simp: unload_module_def Let_def accounted_def split: option.splits)
next
  case True
  then obtain n i where n: "name = Some n" "find_module (st\<lparr>rcu_depth := rcu_depth st + 1\<rparr>) n = Some i" by blast
  have i: "i < length (ms_modules st)" using find_module_bound [OF n(2)] by simp
  let ?md = "ms_modules st ! i" and ?rest = "take i (ms_modules st) @ drop (Suc i) (ms_modules st)"
  have v: "vm_live st = owned ?md + sum_list (map owned ?rest)"
    using assms(1) sum_list_split [OF i, of owned] by (simp add: accounted_def)
  have e: "mset (exec_live st) = add_mset (mod_start ?md) (mset (map mod_start ?rest))"
    using assms(1) mset_split [OF i, of mod_start] by (simp add: accounted_def)
  have st': "ms_modules st' = ?rest" "vm_live st' = vm_live st - owned ?md"
      "exec_live st' = remove1 (mod_start ?md) (exec_live st)" "rcu_depth st' = rcu_depth st"
    using assms(2) n
    by (auto simp: unload_module_def Let_def kvfree_def kp_free_exec_def owned_def split: option.splits prod.splits)
  have "mset (exec_live st') = mset (map mod_start (ms_modules st'))" unfolding st' mset_remove1 e by simp
  moreover have "0 \<notin> set (exec_live st')" "rcu_depth st' = 0"
    using assms(1) set_remove1_subset [of "mod_start ?md" "exec_live st"] by (auto simp: accounted_def st')
  moreover have "vm_live st' = sum_list (map owned (ms_modules st'))" unfolding st' v by simp
  ultimately show ?thesis by (simp add: accounted_def)
qed

lemma load_accounted:
  assumes "accounted st" "load_module env data len args st = Some (rc, st')"
  shows "accounted st'"
proof -
  have "0 \<notin> set (exec_live st)" using assms(1) by (simp add: accounted_def)
  from load_module_outcome [OF assms(2) this] assms(1) show ?thesis
    by (auto simp: accounted_def split: if_splits)
qed

lemma load_path_accounted:
  assumes "accounted st" "load_module_path env fs buf got path args st = Some (rc, left_open, st')"
  shows "accounted st'"
proof -
  have "accounted (kvfree (Some ()) st2)"
    if "load_module env d len args (st\<lparr>ms_mem := m, vm_live := vm_live st + 1\<rparr>) = Some (r, st2)" for d len m r st2
  proof -
    have "0 \<notin> set (exec_live (st\<lparr>ms_mem := m, vm_live := vm_live st + 1\<rparr>))" using assms(1) by (simp add: accounted_def)
    from load_module_outcome [OF that this] assms(1) show ?thesis
      by (auto simp: accounted_def kvfree_def split: if_splits)
  qed
  with assms show ?thesis
    by (auto simp: load_module_path_def Let_def kvfree_def accounted_def split: option.splits sum.splits if_splits)
qed

lemma control_accounted:
  assumes "accounted st"
  shows "module_control0 env name args st = Some (rc, st') \<Longrightarrow> accounted st'"
    "module_control1 env mname st = Some (rc, st') \<Longrightarrow> accounted st'"
proof -
  have upd: "accounted st''"
    if "i < length (ms_modules st)" "mod_start md' = mod_start (ms_modules st ! i)"
      "ms_modules st'' = (ms_modules st)[i := md']" "exec_live st'' = exec_live st" "rcu_depth st'' = rcu_depth st"
      "vm_live st'' + owned (ms_modules st ! i) = vm_live st + owned md'" for i md' st''
  proof -
    have "map mod_start ((ms_modules st)[i := md']) = map mod_start (ms_modules st)"
      using that(1,2) by (simp add: map_update list_update_same_conv)
    then show ?thesis using assms sum_list_set [OF that(1), of owned md'] that by (simp add: accounted_def)
  qed
  show "accounted st'" if "module_control1 env mname st = Some (rc, st')"
    using that assms by (auto simp: module_control1_def Let_def accounted_def split: option.splits prod.splits if_splits)
  show "accounted st'" if run: "module_control0 env name args st = Some (rc, st')"
  proof (cases "\<exists>n a i. name = Some n \<and> args = Some a \<and> a \<noteq> [] \<and> find_module st n = Some i")
    case False
    then show ?thesis using run assms by (auto simp: module_control0_def split: option.splits if_splits)
  next
    case True
    then obtain n a i where n: "name = Some n" "args = Some a" "a \<noteq> []" and f: "find_module st n = Some i" by blast
    note i = find_module_bound [OF f]
    let ?md = "ms_modules st ! i"
    have pos: "owned ?md \<le> vm_live st" using i assms by (auto simp: accounted_def intro!: member_le_sum_list)
    have r: "(if mod_ctl0 ?md = 0 then None
        else if load_le 8 (ms_mem st) (mod_ctl0 ?md) = 0 then Some (scast (- ENOSYS), st)
        else let st = kvfree (mod_ctl_args ?md) st
             in if \<not> vm_ok env 0 then Some (scast (- ENOMEM), st\<lparr>ms_modules := (ms_modules st)[i := ?md\<lparr>mod_ctl_args := None\<rparr>]\<rparr>)
                else let md = ?md\<lparr>mod_ctl_args := Some a\<rparr>;
                         st = st\<lparr>vm_live := vm_live st + 1, ms_modules := (ms_modules st)[i := md]\<rparr>
                     in (case run_ctl0 env md (ms_mem st) of (rc, m) \<Rightarrow> Some (rc, st\<lparr>ms_mem := m\<rparr>))) = Some (rc, st')"
      using run n f by (simp add: module_control0_def Let_def)
    consider "st' = st" | "st' = (kvfree (mod_ctl_args ?md) st)\<lparr>ms_modules := (ms_modules st)[i := ?md\<lparr>mod_ctl_args := None\<rparr>]\<rparr>"
      | m where "st' = (kvfree (mod_ctl_args ?md) st)\<lparr>vm_live := vm_live (kvfree (mod_ctl_args ?md) st) + 1,
            ms_modules := (ms_modules st)[i := ?md\<lparr>mod_ctl_args := Some a\<rparr>], ms_mem := m\<rparr>"
      using r by (cases "mod_ctl_args ?md") (auto simp: Let_def kvfree_def split: if_splits prod.splits)
    then show ?thesis
    proof cases
      case 1
      then show ?thesis using assms by simp
    next
      case 2
      show ?thesis
        by (rule upd [OF i, of "?md\<lparr>mod_ctl_args := None\<rparr>"])
           (use 2 pos in \<open>auto simp: kvfree_def owned_def split: option.splits if_splits\<close>)
    next
      case 3
      show ?thesis
        by (rule upd [OF i, of "?md\<lparr>mod_ctl_args := Some a\<rparr>"])
           (use 3 pos in \<open>auto simp: kvfree_def owned_def split: option.splits if_splits\<close>)
    qed
  qed
qed

lemma reach_accounted: "module_reach st \<Longrightarrow> accounted st"
proof (induction rule: module_reach.induct)
  case (boot st)
  then show ?case by (simp add: accounted_def)
qed (blast intro: load_accounted load_path_accounted unload_accounted control_accounted)+

text \<open>
  C27: In every state reached by loading, controlling and unloading modules, with whatever images,
  failing allocations and results of the modules' entry points, the live blocks of both
  allocators are exactly those the listed modules own, and the list is not left locked.
\<close>
theorem module_memory_accounted:
  assumes "module_reach st"
  shows "vm_live st = sum_list (map owned (ms_modules st)) \<and>
    mset (exec_live st) = mset (map mod_start (ms_modules st)) \<and> rcu_depth st = 0"
  using reach_accounted [OF assms] by (simp add: accounted_def)

definition boot_state :: mstate where
  "boot_state = \<lparr>ms_mem = (\<lambda>_. 0), ms_modules = [], vm_live = 0, exec_live = [], rcu_depth = 0\<rparr>"

definition quiet_env :: kernel_env where
  "quiet_env = \<lparr>vm_ok = \<lambda>_. True, exec_alloc = \<lambda>_. 0x40000000, env_page_size = 4096, kp_symbols = [], ub_shift = \<lambda>_. 0,
     run_init = \<lambda>md m. (0, m), run_exit = \<lambda>md m. (0, m), run_ctl0 = \<lambda>md m. (0, m), run_ctl1 = \<lambda>md m. (0, m)\<rparr>"

theorem module_memory_accounted_witness:
  "vm_live (snd (unload_module quiet_env (Some ''demo'') boot_state)) = 0 \<and> module_reach (snd (unload_module quiet_env (Some ''demo'') boot_state))"
proof -
  obtain rc st' where u: "unload_module quiet_env (Some ''demo'') boot_state = (rc, st')" by fastforce
  have "module_reach boot_state" by (rule boot) (simp_all add: boot_state_def)
  then have r: "module_reach st'" by (rule unload [OF _ u])
  have "ms_modules st' = []"
    using u by (auto simp: unload_module_def boot_state_def Let_def find_module_def split: option.splits)
  with module_memory_accounted [OF r] r show ?thesis by (simp add: u)
qed

text \<open>
  C28: Loading a module either appends it to the list as the last one, started by its own
  entry point with result zero, or reports an error and leaves the list and both allocators as they were.
\<close>
theorem load_module_all_or_nothing:
  assumes "load_module env data len args st = Some (rc, st')" "module_reach st"
  shows "if rc = 0
    then \<exists>md. ms_modules st' = ms_modules st @ [md] \<and> mod_args md = args \<and> mod_start md \<noteq> 0 \<and>
           vm_live st' = vm_live st + owned md \<and> exec_live st' = mod_start md # exec_live st
    else ms_modules st' = ms_modules st \<and> vm_live st' = vm_live st \<and> exec_live st' = exec_live st"
proof -
  have "0 \<notin> set (exec_live st)" using reach_accounted [OF assms(2)] by (simp add: accounted_def)
  from load_module_outcome [OF assms(1) this] show ?thesis by auto
qed

theorem load_module_all_or_nothing_witness:
  "ms_modules (snd (the (load_module quiet_env 0 0 None boot_state))) = []"
proof -
  have e: "load_module quiet_env 0 0 None boot_state = Some (scast (- ENOEXEC), boot_state)"
    by (simp add: load_module_def elf_header_check_def Let_def)
  have "module_reach boot_state" by (rule boot) (simp_all add: boot_state_def)
  moreover have "ms_modules boot_state = []" by (simp add: boot_state_def)
  ultimately show ?thesis using load_module_all_or_nothing [OF e] by (simp add: e)
qed

text \<open>
  A control call to a loaded module without a control section faults, and asking for the
  information of an unknown module leaves the list of modules locked for reading.
\<close>
theorem module_calls_without_checks:
  assumes "find_module st name = Some i" "mod_ctl0 (ms_modules st ! i) = 0" "mod_ctl1 (ms_modules st ! i) = 0" "a \<noteq> []" "0 < sz"
  shows "module_control0 env (Some name) (Some a) st = None \<and> module_control1 env name st = None \<and>
    get_module_info None sz buf depth = Some (- 2, buf, depth + 1)"
  using assms by (simp add: module_control0_def module_control1_def get_module_info_def)

theorem module_calls_without_checks_witness:
  "module_control0 env (Some ''a'') (Some ''x'')
     (boot_state\<lparr>ms_mem := (\<lambda>p. if p = 8 then 97 else 0), ms_modules := [new_module\<lparr>mod_name := 8\<rparr>]\<rparr>) = None"
proof -
  let ?st = "boot_state\<lparr>ms_mem := (\<lambda>p. if p = 8 then 97 else 0), ms_modules := [new_module\<lparr>mod_name := 8\<rparr>]\<rparr>"
  have "find_module ?st ''a'' = Some 0" by (simp add: find_module_def mem_str_def)
  from module_calls_without_checks [OF this, of "''x''" 1 env "[]" 0] show ?thesis by (simp add: new_module_def)
qed


section \<open>The text of a listing\<close>

lemma write_at_ok:
  "off + length s \<le> length buf \<Longrightarrow> write_at off s buf = Some (take off buf @ s @ drop (off + length s) buf)"
  by (simp add: write_at_def)

definition listing :: "string list \<Rightarrow> string" where
  "listing names = concat (map (\<lambda>n. n @ [CHR 0x0A]) names)"

lemma list_from_fits:
  assumes "int (off + length (listing names)) < sz - 1" "int (length buf) = sz"
  shows "\<exists>buf'. list_from sz names off buf = Some (off + length (listing names), buf') \<and> length buf' = length buf \<and>
    take (off + length (listing names)) buf' = take off buf @ listing names"
  using assms
proof (induction names arbitrary: off buf)
  case Nil
  then show ?case by (simp add: listing_def)
next
  case (Cons name names)
  let ?t = "name @ [CHR 0x0A]"
  have l: "listing (name # names) = ?t @ listing names" by (simp add: listing_def)
  let ?n = "sz - 1 - int off"
  have n: "0 < ?n" "length ?t \<le> nat ?n - 1" using Cons.prems(1) by (auto simp: l)
  have w: "off + length (take (nat ?n - 1) ?t @ [NUL]) \<le> length buf" using Cons.prems by (simp add: l)
  let ?b = "take off buf @ (?t @ [NUL]) @ drop (off + length (?t @ [NUL])) buf"
  have s: "snprintf_names off ?n ?t buf = Some (length ?t, ?b)"
    using n w by (simp add: snprintf_names_def write_at_ok)
  have lb: "length ?b = length buf" using Cons.prems by (simp add: l)
  have tk: "take (off + length ?t) ?b = take off buf @ ?t"
    using Cons.prems by (simp add: l)
  from Cons.IH [of "off + length ?t" ?b] Cons.prems lb obtain buf' where
    "list_from sz names (off + length ?t) ?b = Some (off + length ?t + length (listing names), buf')"
    "length buf' = length ?b" "take (off + length ?t + length (listing names)) buf' = take (off + length ?t) ?b @ listing names"
    by (auto simp: l)
  then show ?case using lb tk s by (simp add: l add.assoc)
qed

text \<open>
  C30: If the names with a newline each are shorter than the buffer by two, listing the modules
  yields them all, separated by newlines and terminated inside the buffer.  A single name as long as
  the buffer makes the code write the terminating NUL behind it.
\<close>
theorem list_modules_bounds:
  assumes "names \<noteq> []" "\<forall>n \<in> set names. no_nul n" "int (length (listing names)) < sz - 1" "int (length buf) = sz"
    and "int (length long) \<ge> sz" "2 \<le> sz"
  shows "(\<exists>buf'. list_modules sz names buf = Some (length (listing names), buf') \<and> cstr buf' = butlast (listing names)) \<and>
    list_modules sz [long] buf = None"
proof -
  let ?T = "listing names"
  obtain buf' where b: "list_from sz names 0 buf = Some (length ?T, buf')" "length buf' = length buf" "take (length ?T) buf' = ?T"
    using list_from_fits [of 0 names sz buf] assms(3,4) by auto
  have T: "?T \<noteq> []" using assms(1) by (cases names) (auto simp: listing_def)
  have fit: "length ?T < length buf'" using assms(3,4) b(2) by linarith
  let ?c = "take (length ?T - 1) buf' @ [NUL] @ drop (length ?T) buf'"
  have "terminate_at (length ?T) buf' = Some ?c" using T fit by (simp add: terminate_at_def write_at_ok)
  moreover have "cstr ?c = butlast ?T"
  proof -
    have "take (length ?T - 1) buf' = butlast ?T" using b(3) fit by (metis butlast_take less_imp_le One_nat_def)
    moreover have "no_nul ?T" using assms(2) by (auto simp: listing_def no_nul_def)
    then have "no_nul (butlast ?T)" by (auto simp: no_nul_def dest: in_set_butlastD)
    ultimately show ?thesis by (simp add: cstr_append)
  qed
  ultimately have 1: "list_modules sz names buf = Some (length ?T, ?c) \<and> cstr ?c = butlast ?T"
    using b(1) by (simp add: list_modules_def)
  have "list_modules sz [long] buf = None"
    using assms(4-6) by (auto simp: list_modules_def snprintf_names_def terminate_at_def write_at_def split: option.splits)
  with 1 show ?thesis by blast
qed

theorem list_modules_bounds_witness:
  "(\<exists>buf'. list_modules 8 [''ab''] (replicate 8 NUL) = Some (3, buf') \<and> cstr buf' = ''ab'') \<and>
   list_modules 8 [''abcdefgh''] (replicate 8 NUL) = None"
  using list_modules_bounds [of "[''ab'']" 8 "replicate 8 NUL" "''abcdefgh''"] by (simp add: listing_def numeral_3_eq_3)


section \<open>Unloading everything\<close>

definition unload_all :: "kernel_env \<Rightarrow> string list \<Rightarrow> mstate \<Rightarrow> mstate" where
  "unload_all env names st = foldl (\<lambda>st n. snd (unload_module env (Some n) st)) st names"

text \<open>The name of the module is a terminated string.\<close>

definition named :: "bmem \<Rightarrow> kmodule \<Rightarrow> bool" where
  "named m md \<longleftrightarrow> (\<exists>n. no_nul n \<and> mem_str m (mod_name md) n)"

lemma named_by_zero:
  "m (p + of_nat k) = 0 \<Longrightarrow> \<exists>n. no_nul n \<and> mem_str m p n"
proof (induction k arbitrary: p)
  case 0
  then show ?case by (intro exI [of _ "[]"]) (simp add: mem_str_def no_nul_def)
next
  case (Suc k)
  show ?case
  proof (cases "m p = 0")
    case True
    then show ?thesis by (intro exI [of _ "[]"]) (simp add: mem_str_def no_nul_def)
  next
    case False
    from Suc.prems have "m (p + 1 + of_nat k) = 0" by (simp add: ac_simps)
    from Suc.IH [OF this] obtain n where n: "no_nul n" "mem_str m (p + 1) n" by blast
    let ?c = "char_of (unat (m p)) :: char"
    have "unat (m p) < 256" by (rule unat_bounds)
    then have "(of_char ?c :: nat) = unat (m p)" by simp
    then have c: "of_char ?c = m p" by (metis of_nat_of_char of_nat_unat ucast_id)
    have "(of_char NUL :: u8) = 0" by simp
    with False c have "?c \<noteq> NUL" by metis
    with n c have "no_nul (?c # n)" "mem_str m p (?c # n)"
      by (simp_all add: no_nul_def mem_str_def ac_simps)
    then show ?thesis by blast
  qed
qed

lemma kvfree_keeps: "ms_modules (kvfree p st) = ms_modules st" "ms_mem (kvfree p st) = ms_mem st"
  by (simp_all add: kvfree_def split: option.split)

lemma unload_found:
  assumes "find_module st n = Some i"
  shows "ms_modules (snd (unload_module env (Some n) st)) = take i (ms_modules st) @ drop (Suc i) (ms_modules st)"
    "ms_mem (snd (unload_module env (Some n) st)) = snd (run_exit env (ms_modules st ! i) (ms_mem st))"
proof -
  have f: "find_module (st\<lparr>rcu_depth := d\<rparr>) n = Some i" for d using assms by (simp add: find_module_def)
  show "ms_modules (snd (unload_module env (Some n) st)) = take i (ms_modules st) @ drop (Suc i) (ms_modules st)"
    "ms_mem (snd (unload_module env (Some n) st)) = snd (run_exit env (ms_modules st ! i) (ms_mem st))"
    by (simp_all add: unload_module_def f Let_def kvfree_keeps kp_free_exec_def case_prod_beta)
qed

lemma unload_all_empties:
  assumes "\<forall>md \<in> M. \<forall>md' \<in> M. \<forall>m. named m md' \<longrightarrow> named (snd (run_exit env md m)) md'"
    "set (ms_modules st) \<subseteq> M" "\<forall>md \<in> set (ms_modules st). named (ms_mem st) md" "accounted st"
  shows "\<exists>names. length names = length (ms_modules st) \<and> (\<forall>n \<in> set names. no_nul n) \<and>
    ms_modules (unload_all env names st) = [] \<and> accounted (unload_all env names st)"
  using assms(2-)
proof (induction "length (ms_modules st)" arbitrary: st)
  case 0
  then show ?case by (intro exI [of _ "[]"]) (simp add: unload_all_def)
next
  case (Suc k)
  have "ms_modules st ! 0 \<in> set (ms_modules st)" using Suc.hyps(2) by (intro nth_mem) linarith
  with Suc.prems(2) obtain n where n: "no_nul n" "mem_str (ms_mem st) (mod_name (ms_modules st ! 0)) n"
    unfolding named_def by blast
  then have "find_module st n \<noteq> None" using Suc.hyps(2) by (auto simp: find_module_def find_None_iff intro!: exI [of _ 0])
  then obtain i where i: "find_module st n = Some i" by auto
  let ?st = "snd (unload_module env (Some n) st)"
  note f = unload_found [OF i, of env]
  have l: "length (ms_modules ?st) = k" using Suc.hyps(2) find_module_bound [OF i] by (simp add: f)
  have sub: "set (ms_modules ?st) \<subseteq> set (ms_modules st)" by (auto simp: f dest: in_set_takeD in_set_dropD)
  have mi: "ms_modules st ! i \<in> M" using find_module_bound [OF i] Suc.prems(1) by auto
  have "\<forall>md \<in> set (ms_modules ?st). named (ms_mem ?st) md"
    using sub Suc.prems(1,2) assms(1) mi unfolding f(2) by blast
  moreover have "accounted ?st" using unload_accounted [OF Suc.prems(3), of env "Some n"] by (metis prod.collapse)
  moreover have "set (ms_modules ?st) \<subseteq> M" using sub Suc.prems(1) by blast
  ultimately obtain names where "length names = k" "\<forall>n \<in> set names. no_nul n"
      "ms_modules (unload_all env names ?st) = []" "accounted (unload_all env names ?st)"
    using Suc.hyps(1) [of ?st] l by auto
  then show ?case using Suc.hyps(2) n(1) by (intro exI [of _ "n # names"]) (simp add: unload_all_def)
qed

text \<open>
  C29: From every state whose blocks are accounted for, as in all reachable ones, in which the names of the
  modules are terminated strings and no exit routine, whatever else it does to the memory, destroys the
  termination of the name of a loaded module, a sequence of unload calls, one for each loaded module, leads to a
  state without modules in which both allocators have got everything back and the list is not locked.
\<close>
theorem modules_can_be_unloaded:
  assumes "accounted st" "\<forall>md \<in> set (ms_modules st). named (ms_mem st) md"
    "\<forall>md \<in> set (ms_modules st). \<forall>md' \<in> set (ms_modules st). \<forall>m. named m md' \<longrightarrow> named (snd (run_exit env md m)) md'"
  shows "\<exists>names. length names = length (ms_modules st) \<and> (\<forall>n \<in> set names. no_nul n) \<and>
    ms_modules (unload_all env names st) = [] \<and> vm_live (unload_all env names st) = 0 \<and>
    exec_live (unload_all env names st) = [] \<and> rcu_depth (unload_all env names st) = 0"
  using unload_all_empties [OF assms(3) subset_refl assms(2,1)] by (auto simp: accounted_def)

definition two_modules :: mstate where
  "two_modules = boot_state\<lparr>ms_mem := (\<lambda>p. if p = 8 then 97 else 0), vm_live := 3, exec_live := [16, 32],
     ms_modules := [new_module\<lparr>mod_name := 8, mod_start := 32\<rparr>, new_module\<lparr>mod_name := 9, mod_args := Some ''x'', mod_start := 16\<rparr>]\<rparr>"

theorem modules_can_be_unloaded_witness:
  "\<exists>names. length names = 2 \<and> exec_live (unload_all (quiet_env\<lparr>run_exit := \<lambda>md m. (0, m(mod_start md := 1, 0x100 := 0))\<rparr>) names two_modules) = []"
proof -
  let ?env = "quiet_env\<lparr>run_exit := \<lambda>md m. (0, m(mod_start md := 1, 0x100 := 0))\<rparr>"
  have "accounted two_modules" by (simp add: two_modules_def accounted_def owned_def new_module_def boot_state_def)
  moreover have "mem_str (ms_mem two_modules) 8 ''a''" "mem_str (ms_mem two_modules) 9 []" by (simp_all add: two_modules_def mem_str_def)
  then have "\<forall>md \<in> set (ms_modules two_modules). named (ms_mem two_modules) md"
    unfolding named_def by (force simp: two_modules_def no_nul_def)
  moreover have "\<forall>md \<in> set (ms_modules two_modules). \<forall>md' \<in> set (ms_modules two_modules). \<forall>m.
      named m md' \<longrightarrow> named (snd (run_exit ?env md m)) md'"
  proof (intro ballI allI impI)
    fix md md' m
    assume "md' \<in> set (ms_modules two_modules)"
    then obtain k where k: "mod_name md' + of_nat k = 0x100"
      using that [of 247] that [of 248] by (auto simp: two_modules_def)
    have "snd (run_exit ?env md m) (mod_name md' + of_nat k) = 0" unfolding k by simp
    then show "named (snd (run_exit ?env md m)) md'" unfolding named_def by (rule named_by_zero)
  qed
  ultimately obtain names where "length names = length (ms_modules two_modules)" "exec_live (unload_all ?env names two_modules) = []"
    using modules_can_be_unloaded [of two_modules ?env] by blast
  then show ?thesis by (intro exI [of _ names]) (simp add: two_modules_def)
qed

end
