(* ===== verification/Accctl.thy ===== *)
theory Accctl
  imports Prelude
begin

text \<open>
  Becoming root and passing SELinux: \<^verbatim>\<open>kernel/patch/common/accctl.c\<close> with the task extension of
  \<^verbatim>\<open>kernel/patch/common/taskob.c\<close>.  The kernel's credential functions are parameters; what the code
  hands to \<open>commit_creds\<close> is recorded.
\<close>

section \<open>State\<close>

record cred =
  cap_inheritable :: u64
  cap_permitted :: u64
  cap_effective :: u64
  cap_bset :: u64
  cap_ambient :: u64
  cr_uid :: u32
  cr_euid :: u32
  cr_fsuid :: u32
  cr_suid :: u32
  cr_gid :: u32
  cr_egid :: u32
  cr_fsgid :: u32
  cr_sgid :: u32
  cr_sid :: u32

record task_ext =
  ext_valid :: bool
  ext_pid :: nat
  sel_allow :: bool
  priv_sel_allow :: bool

record task_struct =
  t_ext :: task_ext
  t_flags :: u64
  t_seccomp_mode :: u32
  t_cred :: nat
  t_real_cred :: nat

record acc_state =
  tasks :: "nat \<rightharpoonup> task_struct"
  creds :: "nat \<Rightarrow> cred"
  committed :: "(nat \<times> cred) list"
  all_allow_sctx :: "char list"
  all_allow_sid :: u32

text \<open>
  The kernel: copies of the current credentials, kernel credentials, dropping the groups, the two security
  overrides, the identifier of a context, the full capability set and the offset of \<open>comm\<close>.
\<close>

record kernel_cred =
  prepare_creds :: "nat \<Rightarrow> cred"
  prepare_kernel_cred :: cred
  set_no_groups :: "cred \<Rightarrow> cred"
  set_security_override :: "cred \<Rightarrow> u32 \<Rightarrow> cred"
  set_override_from_ctx :: "cred \<Rightarrow> string \<Rightarrow> s32 \<times> cred"
  secctx_to_secid :: "string \<Rightarrow> u32 \<Rightarrow> s32 \<times> u32"
  full_cap :: u64
  comm_offset :: s32

abbreviation (input) TIF_SECCOMP_BIT :: u64 where "TIF_SECCOMP_BIT \<equiv> 0x800"

section \<open>Changing credentials\<close>

definition su_cred :: "u64 \<Rightarrow> u32 \<Rightarrow> cred \<Rightarrow> cred" where
  "su_cred full uid c = c\<lparr>cap_inheritable := full, cap_permitted := full, cap_effective := full, cap_bset := full,
     cap_ambient := full, cr_uid := uid, cr_euid := uid, cr_fsuid := uid, cr_suid := uid, cr_gid := uid, cr_egid := uid,
     cr_fsgid := uid, cr_sgid := uid\<rparr>"

text \<open>A null or empty context clears the exemption; the identifier is written even when the look-up fails.\<close>

definition set_all_allow_sctx :: "kernel_cred \<Rightarrow> string option \<Rightarrow> acc_state \<Rightarrow> s32 \<times> acc_state" where
  "set_all_allow_sctx k sctx st =
     (case sctx of
        None \<Rightarrow> (0, st\<lparr>all_allow_sctx := (all_allow_sctx st)[0 := NUL], all_allow_sid := 0\<rparr>)
      | Some s \<Rightarrow>
          if s = [] then (0, st\<lparr>all_allow_sctx := (all_allow_sctx st)[0 := NUL], all_allow_sid := 0\<rparr>)
          else (case secctx_to_secid k s (all_allow_sid st) of
                  (rc, sid) \<Rightarrow>
                    let st = st\<lparr>all_allow_sid := sid\<rparr>
                    in (rc, if rc = 0 \<and> sid \<noteq> 0
                            then st\<lparr>all_allow_sctx := (c_strncpy 95 s (all_allow_sctx st))[95 := NUL]\<rparr> else st)))"

definition commit_kernel_su :: "kernel_cred \<Rightarrow> nat \<Rightarrow> acc_state \<Rightarrow> s32 \<times> acc_state" where
  "commit_kernel_su k cur st =
     (0, st\<lparr>committed := committed st @ [(cur, set_security_override k (prepare_kernel_cred k) (all_allow_sid st))]\<rparr>)"

text \<open>The seccomp flag and, when the test passes, the seccomp mode are cleared.\<close>

definition no_seccomp :: "kernel_cred \<Rightarrow> task_struct \<Rightarrow> task_struct" where
  "no_seccomp k t =
     (let t = t\<lparr>t_flags := t_flags t AND NOT TIF_SECCOMP_BIT\<rparr>
      in if 0 <s comm_offset k then t\<lparr>t_seccomp_mode := 0\<rparr> else t)"

definition commit_common_su :: "kernel_cred \<Rightarrow> nat \<Rightarrow> u32 \<Rightarrow> string option \<Rightarrow> acc_state \<Rightarrow> (s32 \<times> acc_state) option" where
  "commit_common_su k cur to_uid sctx st =
     (case tasks st cur of None \<Rightarrow> None
      | Some t \<Rightarrow>
          if \<not> ext_valid (t_ext t) then Some (- ENOMEM, st)
          else let t = no_seccomp k t;
                   new = set_no_groups k (su_cred (full_cap k) to_uid (prepare_creds k cur));
                   (allow, new) = (if sctx \<noteq> None \<and> sctx \<noteq> Some []
                     then (case set_override_from_ctx k new (the sctx) of (rc, new) \<Rightarrow> (rc \<noteq> 0, new)) else (True, new));
                   t = t\<lparr>t_ext := (t_ext t)\<lparr>sel_allow := allow\<rparr>\<rparr>
               in Some (0, st\<lparr>tasks := (tasks st)(cur \<mapsto> t), committed := committed st @ [(cur, new)]\<rparr>))"

definition commit_su :: "kernel_cred \<Rightarrow> nat \<Rightarrow> u32 \<Rightarrow> string option \<Rightarrow> acc_state \<Rightarrow> (s32 \<times> acc_state) option" where
  "commit_su k cur to_uid sctx st =
     (if all_allow_sid st \<noteq> 0 \<and> to_uid = 0 then Some (commit_kernel_su k cur st)
      else commit_common_su k cur to_uid sctx st)"

text \<open>Another task's credentials are changed in place; the two pointers may be the same.\<close>

definition su_in_place :: "kernel_cred \<Rightarrow> nat \<Rightarrow> u32 \<Rightarrow> acc_state \<Rightarrow> acc_state" where
  "su_in_place k i to_uid st = st\<lparr>creds := (creds st)(i := su_cred (full_cap k) to_uid (creds st i))\<rparr>"

definition override_in_place :: "kernel_cred \<Rightarrow> nat \<Rightarrow> string \<Rightarrow> acc_state \<Rightarrow> s32 \<times> acc_state" where
  "override_in_place k i ctx st =
     (case set_override_from_ctx k (creds st i) ctx of (rc, c) \<Rightarrow> (rc, st\<lparr>creds := (creds st)(i := c)\<rparr>))"

text \<open>The conjunction is evaluated from the left: after a failure the second override is not tried.\<close>

definition task_su :: "kernel_cred \<Rightarrow> nat \<Rightarrow> u32 \<Rightarrow> string option \<Rightarrow> acc_state \<Rightarrow> s32 \<times> acc_state" where
  "task_su k pid to_uid sctx st =
     (case tasks st pid of None \<Rightarrow> (- ESRCH, st)
      | Some t \<Rightarrow>
          if \<not> ext_valid (t_ext t) then (- ENOMEM, st)
          else let t = no_seccomp k t;
                   given = (sctx \<noteq> None \<and> sctx \<noteq> Some []);
                   st = su_in_place k (t_cred t) to_uid st;
                   (changed, st) = (if given
                     then (case override_in_place k (t_cred t) (the sctx) st of (rc, st) \<Rightarrow> (rc = 0, st)) else (False, st));
                   (changed, st) = (if t_cred t \<noteq> t_real_cred t
                     then (let st = su_in_place k (t_real_cred t) to_uid st
                           in if given \<and> changed
                              then (case override_in_place k (t_real_cred t) (the sctx) st of (rc, st) \<Rightarrow> (rc = 0, st))
                              else (changed, st))
                     else (changed, st))
               in (0, st\<lparr>tasks := (tasks st)(pid \<mapsto> t\<lparr>t_ext := (t_ext t)\<lparr>priv_sel_allow := \<not> changed\<rparr>\<rparr>)\<rparr>))"

text \<open>The exemption that the code gives the current task around its own file operations.\<close>

definition set_priv_sel_allow :: "nat \<Rightarrow> bool \<Rightarrow> acc_state \<Rightarrow> acc_state" where
  "set_priv_sel_allow cur val st =
     (case tasks st cur of None \<Rightarrow> st
      | Some t \<Rightarrow> st\<lparr>tasks := (tasks st)(cur \<mapsto> t\<lparr>t_ext := (t_ext t)\<lparr>priv_sel_allow := val\<rparr>\<rparr>)\<rparr>)"

section \<open>SELinux decisions\<close>

record av_decision =
  av_allowed :: u32
  auditallow :: u32
  auditdeny :: u32

text \<open>
  The arguments are words: on kernels without the state argument the first one is the source
  identifier, which shows in its size, and the decision is the argument before.
\<close>

definition source_sid :: "u64 \<Rightarrow> u64 \<Rightarrow> u32" where
  "source_sid state ssid = (if state \<le> 0xffffffff then ucast state else ucast ssid)"

definition exempt :: "acc_state \<Rightarrow> task_ext \<Rightarrow> u64 \<Rightarrow> u64 \<Rightarrow> bool" where
  "exempt st ext state ssid \<longleftrightarrow>
     (if all_allow_sid st \<noteq> 0 \<and> source_sid state ssid = all_allow_sid st then True
      else ext_valid ext \<and> (sel_allow ext \<or> priv_sel_allow ext))"

text \<open>The result and the decision record that is written; \<open>backup\<close> is the original function.\<close>

definition avc_denied_replace ::
    "acc_state \<Rightarrow> task_ext \<Rightarrow> (u64 list \<Rightarrow> (u64 \<Rightarrow> av_decision) \<Rightarrow> s32 \<times> (u64 \<Rightarrow> av_decision)) \<Rightarrow>
     u64 \<Rightarrow> u64 \<Rightarrow> u64 list \<Rightarrow> u64 \<Rightarrow> u64 \<Rightarrow> (u64 \<Rightarrow> av_decision) \<Rightarrow> s32 \<times> (u64 \<Rightarrow> av_decision)" where
  "avc_denied_replace st ext backup state ssid mid flags avd m =
     (if exempt st ext state ssid
      then (0, m((if state \<le> 0xffffffff then flags else avd) := \<lparr>av_allowed = 0xffffffff, auditallow = 0, auditdeny = 0\<rparr>))
      else backup ([state, ssid] @ mid @ [flags, avd]) m)"

definition slow_avc_audit_replace :: "acc_state \<Rightarrow> task_ext \<Rightarrow> (u64 list \<Rightarrow> s32) \<Rightarrow> u64 \<Rightarrow> u64 \<Rightarrow> u64 list \<Rightarrow> s32" where
  "slow_avc_audit_replace st ext backup state ssid rest =
     (if exempt st ext state ssid then 0 else backup ([state, ssid] @ rest))"

section \<open>The extension of new tasks\<close>

definition prepare_init_ext :: "task_ext \<Rightarrow> task_ext" where
  "prepare_init_ext ext = \<lparr>ext_valid = True, ext_pid = 0, sel_allow = False, priv_sel_allow = False\<rparr>"

text \<open>The extension of a new task: inherited from a valid one, otherwise what its stack happens to hold.\<close>

definition prepare_task_ext :: "nat \<Rightarrow> task_ext \<Rightarrow> task_ext \<Rightarrow> task_ext" where
  "prepare_task_ext pid old new =
     (if \<not> ext_valid old then new
      else \<lparr>ext_valid = True, ext_pid = pid, sel_allow = sel_allow old, priv_sel_allow = False\<rparr>)"

definition after_copy_process :: "nat \<Rightarrow> u64 \<Rightarrow> nat \<Rightarrow> task_struct \<Rightarrow> acc_state \<Rightarrow> acc_state" where
  "after_copy_process cur ret pid new st =
     (if ret = 0 \<or> IS_ERR ret then st
      else case tasks st cur of None \<Rightarrow> st
      | Some t \<Rightarrow> st\<lparr>tasks := (tasks st)(pid \<mapsto> new\<lparr>t_ext := prepare_task_ext pid (t_ext t) (t_ext new)\<rparr>)\<rparr>)"


section \<open>What becoming root does\<close>

definition all_root :: "u64 \<Rightarrow> u32 \<Rightarrow> cred \<Rightarrow> bool" where
  "all_root full uid c \<longleftrightarrow>
     (\<forall>f \<in> {cap_inheritable, cap_permitted, cap_effective, cap_bset, cap_ambient}. f c = full) \<and>
     (\<forall>f \<in> {cr_uid, cr_euid, cr_fsuid, cr_suid, cr_gid, cr_egid, cr_fsgid, cr_sgid}. f c = uid)"

lemma su_cred_all_root: "all_root full uid (su_cred full uid c)"
  by (simp add: all_root_def su_cred_def)

text \<open>The kernel's functions for groups and security change no capability and no identifier.\<close>

definition keeps_ids :: "kernel_cred \<Rightarrow> bool" where
  "keeps_ids k \<longleftrightarrow> (\<forall>c full uid. all_root full uid c \<longrightarrow> all_root full uid (set_no_groups k c) \<and>
     (\<forall>ctx. all_root full uid (snd (set_override_from_ctx k c ctx))))"

text \<open>
  A task with a valid extension that becomes another user commits one set of credentials: all capability
  sets are full and the eight identifiers are the user's.  The seccomp flag is cleared, and SELinux is
  bypassed for the task exactly when no context was given or setting it failed.
\<close>
theorem commit_common_su_outcome:
  assumes "tasks st cur = Some t" "ext_valid (t_ext t)" "keeps_ids k"
  shows "\<exists>st' t' c. commit_common_su k cur to_uid sctx st = Some (0, st') \<and> tasks st' = (tasks st)(cur \<mapsto> t') \<and>
    committed st' = committed st @ [(cur, c)] \<and> all_root (full_cap k) to_uid c \<and>
    t_flags t' AND TIF_SECCOMP_BIT = 0 \<and> priv_sel_allow (t_ext t') = priv_sel_allow (t_ext t) \<and>
    sel_allow (t_ext t') = (sctx = None \<or> sctx = Some [] \<or>
      fst (set_override_from_ctx k (set_no_groups k (su_cred (full_cap k) to_uid (prepare_creds k cur))) (the sctx)) \<noteq> 0)"
proof -
  let ?c = "set_no_groups k (su_cred (full_cap k) to_uid (prepare_creds k cur))"
  have c: "all_root (full_cap k) to_uid ?c" "all_root (full_cap k) to_uid (snd (set_override_from_ctx k ?c ctx))" for ctx
    using assms(3) su_cred_all_root by (auto simp: keeps_ids_def)
  have f: "t_flags (no_seccomp k t) AND TIF_SECCOMP_BIT = 0" "t_ext (no_seccomp k t) = t_ext t"
    by (auto simp: no_seccomp_def Let_def intro!: bit_word_eqI simp: bit_simps)
  show ?thesis
    using assms(1,2) c f by (auto simp: commit_common_su_def Let_def case_prod_beta)
qed

definition plain_cred :: cred where
  "plain_cred = \<lparr>cap_inheritable = 0, cap_permitted = 0, cap_effective = 0, cap_bset = 0, cap_ambient = 0, cr_uid = 1000,
     cr_euid = 1000, cr_fsuid = 1000, cr_suid = 1000, cr_gid = 1000, cr_egid = 1000, cr_fsgid = 1000, cr_sgid = 1000, cr_sid = 7\<rparr>"

definition plain_kernel :: kernel_cred where
  "plain_kernel = \<lparr>prepare_creds = \<lambda>_. plain_cred, prepare_kernel_cred = plain_cred, set_no_groups = \<lambda>c. c,
     set_security_override = \<lambda>c sid. c\<lparr>cr_sid := sid\<rparr>, set_override_from_ctx = \<lambda>c ctx. (0, c\<lparr>cr_sid := 9\<rparr>),
     secctx_to_secid = \<lambda>s sid. (0, 9), full_cap = 0x1ffffffffff, comm_offset = 1\<rparr>"

definition plain_task :: task_struct where
  "plain_task = \<lparr>t_ext = \<lparr>ext_valid = True, ext_pid = 5, sel_allow = False, priv_sel_allow = False\<rparr>,
     t_flags = 0x800, t_seccomp_mode = 2, t_cred = 0, t_real_cred = 0\<rparr>"

definition plain_state :: acc_state where
  "plain_state = \<lparr>tasks = [5 \<mapsto> plain_task], creds = \<lambda>_. plain_cred, committed = [], all_allow_sctx = replicate 96 NUL, all_allow_sid = 0\<rparr>"

theorem commit_common_su_outcome_witness:
  "\<exists>st' t'. commit_common_su plain_kernel 5 0 None plain_state = Some (0, st') \<and> tasks st' 5 = Some t' \<and> sel_allow (t_ext t')"
  using commit_common_su_outcome [of plain_state 5 plain_task plain_kernel 0 None]
  by (fastforce simp: plain_state_def plain_task_def plain_kernel_def keeps_ids_def all_root_def)

text \<open>
  The two SELinux hooks agree: what \<open>avc_denied\<close> grants to a source and a task is exactly what is not
  audited, and everything else goes to the original functions with the arguments unchanged.
\<close>
theorem selinux_hooks_agree:
  assumes "\<forall>args m. fst (backup args m) \<noteq> 0" "\<forall>args. audit args \<noteq> 0"
  shows "(fst (avc_denied_replace st ext backup state ssid mid flags avd m) = 0) =
      (slow_avc_audit_replace st ext audit state ssid rest = 0) \<and>
    (slow_avc_audit_replace st ext audit state ssid rest = 0 \<or>
     avc_denied_replace st ext backup state ssid mid flags avd m = backup ([state, ssid] @ mid @ [flags, avd]) m \<and>
     slow_avc_audit_replace st ext audit state ssid rest = audit ([state, ssid] @ rest))"
  using assms by (auto simp: avc_denied_replace_def slow_avc_audit_replace_def)

theorem selinux_hooks_agree_witness:
  "(fst (avc_denied_replace plain_state (t_ext plain_task) (\<lambda>args m. (- 13, m)) 0xffffff8000000000 3 [] 0 0 (\<lambda>_. \<lparr>av_allowed = 0, auditallow = 0, auditdeny = 0\<rparr>)) = 0) =
      (slow_avc_audit_replace plain_state (t_ext plain_task) (\<lambda>args. 1) 0xffffff8000000000 3 [] = 0)"
  using selinux_hooks_agree [of "\<lambda>args m. (- 13, m)" "\<lambda>args. 1" plain_state "t_ext plain_task"] by simp


section \<open>Who passes SELinux\<close>

text \<open>
  The life of the tasks: they are forked and end, change their user by either call, and the code switches the
  exemption of the current task on and off.  The second component is the set of the tasks that have been given
  a flag, by \<open>commit_su\<close> unless it goes the way of the exempt context, by \<open>task_su\<close> or by \<open>set_priv_sel_allow\<close>,
  with the tasks forked from one of them.
\<close>

inductive task_reach :: "kernel_cred \<Rightarrow> acc_state \<Rightarrow> nat set \<Rightarrow> bool" for k where
  boot: "tasks st = [0 \<mapsto> t\<lparr>t_ext := prepare_init_ext (t_ext t)\<rparr>] \<Longrightarrow> task_reach k st {}"
| fork: "task_reach k st R \<Longrightarrow> tasks st cur \<noteq> None \<Longrightarrow> tasks st pid = None \<Longrightarrow>
    task_reach k (after_copy_process cur ret pid new st) (if cur \<in> R then insert pid R else R - {pid})"
| ends: "task_reach k st R \<Longrightarrow> task_reach k (st\<lparr>tasks := (tasks st)(pid := None)\<rparr>) (R - {pid})"
| commit: "task_reach k st R \<Longrightarrow> commit_su k cur to_uid sctx st = Some (rc, st') \<Longrightarrow>
    task_reach k st' (if rc \<noteq> 0 \<or> all_allow_sid st \<noteq> 0 \<and> to_uid = 0 then R else insert cur R)"
| task: "task_reach k st R \<Longrightarrow> task_su k pid to_uid sctx st = (rc, st') \<Longrightarrow> task_reach k st' (if rc \<noteq> 0 then R else insert pid R)"
| priv: "task_reach k st R \<Longrightarrow> task_reach k (set_priv_sel_allow cur val st) (if val then insert cur R else R)"
| sctx: "task_reach k st R \<Longrightarrow> set_all_allow_sctx k ctx st = (rc, st') \<Longrightarrow> task_reach k st' R"

definition ext_ok :: "acc_state \<Rightarrow> nat set \<Rightarrow> bool" where
  "ext_ok st R \<longleftrightarrow> (\<forall>pid t. tasks st pid = Some t \<longrightarrow>
     ext_valid (t_ext t) \<and> (sel_allow (t_ext t) \<or> priv_sel_allow (t_ext t) \<longrightarrow> pid \<in> R))"

lemma no_seccomp_ext [simp]: "t_ext (no_seccomp k t) = t_ext t"
  by (simp add: no_seccomp_def Let_def)

lemma in_place_tasks [simp]:
  "tasks (su_in_place k i to_uid st) = tasks st" "tasks (snd (override_in_place k i ctx st)) = tasks st"
  by (simp_all add: su_in_place_def override_in_place_def case_prod_beta)

lemma ext_ok_update:
  assumes "ext_ok st R" "tasks st' = (tasks st)(pid \<mapsto> t)" "ext_valid (t_ext t)"
  shows "ext_ok st' (insert pid R)"
  using assms by (auto simp: ext_ok_def)

lemma ext_ok_same: "ext_ok st R \<Longrightarrow> tasks st' = tasks st \<Longrightarrow> ext_ok st' R"
  by (auto simp: ext_ok_def)

lemma fork_ext_ok:
  assumes "ext_ok st R" "tasks st cur \<noteq> None" "tasks st pid = None"
  shows "ext_ok (after_copy_process cur ret pid new st) (if cur \<in> R then insert pid R else R - {pid})"
  using assms by (auto simp: ext_ok_def after_copy_process_def prepare_task_ext_def split: option.splits)

lemma commit_tasks:
  assumes "commit_su k cur to_uid sctx st = Some (rc, st')"
  shows "if rc \<noteq> 0 \<or> all_allow_sid st \<noteq> 0 \<and> to_uid = 0 then tasks st' = tasks st
    else \<exists>t. tasks st' = (tasks st)(cur \<mapsto> t) \<and> ext_valid (t_ext t)"
  using assms by (auto simp: commit_su_def commit_kernel_su_def commit_common_su_def Let_def case_prod_beta
      split: if_splits option.splits)

lemma commit_ext_ok:
  assumes "ext_ok st R" "commit_su k cur to_uid sctx st = Some (rc, st')"
  shows "ext_ok st' (if rc \<noteq> 0 \<or> all_allow_sid st \<noteq> 0 \<and> to_uid = 0 then R else insert cur R)"
  using commit_tasks [OF assms(2)] ext_ok_same [OF assms(1)] ext_ok_update [OF assms(1)]
  by (auto split: if_splits)

lemma task_su_tasks:
  assumes "task_su k pid to_uid sctx st = (rc, st')"
  shows "if rc \<noteq> 0 then tasks st' = tasks st else \<exists>t. tasks st' = (tasks st)(pid \<mapsto> t) \<and> ext_valid (t_ext t)"
  using assms by (auto simp: task_su_def Let_def case_prod_beta split: if_splits option.splits)

lemma task_su_ext_ok:
  assumes "ext_ok st R" "task_su k pid to_uid sctx st = (rc, st')"
  shows "ext_ok st' (if rc \<noteq> 0 then R else insert pid R)"
  using task_su_tasks [OF assms(2)] ext_ok_same [OF assms(1)] ext_ok_update [OF assms(1)]
  by (auto split: if_splits)

lemma priv_ext_ok:
  "ext_ok st R \<Longrightarrow> ext_ok (set_priv_sel_allow cur val st) (if val then insert cur R else R)"
  by (auto simp: ext_ok_def set_priv_sel_allow_def split: option.splits)

lemma reach_ext_ok: "task_reach k st R \<Longrightarrow> ext_ok st R"
proof (induction rule: task_reach.induct)
  case (boot st t)
  then show ?case by (simp add: ext_ok_def prepare_init_ext_def)
next
  case (sctx st R ctx rc st')
  then show ?case by (auto simp: ext_ok_def set_all_allow_sctx_def Let_def split: option.splits if_splits prod.splits)
next
  case (ends st R pid)
  then show ?case by (auto simp: ext_ok_def)
qed (blast intro: fork_ext_ok commit_ext_ok task_su_ext_ok priv_ext_ok)+

text \<open>
  C38: However tasks are forked and end, change their user and get their exemption switched, every task has a
  valid extension, and a task for which one of the two SELinux hooks does not call the original function, the
  exempt context apart, has been given a flag by \<open>commit_su\<close>, \<open>task_su\<close> or \<open>set_priv_sel_allow\<close>, for whatever
  user, or descends from a task that had been given one.
\<close>
theorem selinux_bypass_granted:
  assumes "task_reach k st R" "tasks st pid = Some t" "source_sid state ssid \<noteq> all_allow_sid st \<or> all_allow_sid st = 0"
  shows "ext_valid (t_ext t) \<and>
    (pid \<in> R \<or> avc_denied_replace st (t_ext t) backup state ssid mid flags avd m = backup ([state, ssid] @ mid @ [flags, avd]) m \<and>
       slow_avc_audit_replace st (t_ext t) audit state ssid rest = audit ([state, ssid] @ rest))"
  using reach_ext_ok [OF assms(1)] assms(2,3)
  by (auto simp: ext_ok_def avc_denied_replace_def slow_avc_audit_replace_def exempt_def)

theorem selinux_bypass_granted_witness:
  "\<exists>R st'. task_reach plain_kernel st' R \<and> 5 \<in> R \<and> tasks st' 5 \<noteq> None"
proof -
  let ?t0 = "plain_task\<lparr>t_ext := prepare_init_ext (t_ext plain_task)\<rparr>"
  let ?s0 = "plain_state\<lparr>tasks := [0 \<mapsto> ?t0]\<rparr>"
  have r0: "task_reach plain_kernel ?s0 {}" by (rule boot) simp
  obtain s1 where s1: "commit_su plain_kernel 0 0 None ?s0 = Some (0, s1)" "tasks s1 0 \<noteq> None" "tasks s1 5 = None"
      "all_allow_sid s1 = 0" "\<forall>t. tasks s1 0 = Some t \<longrightarrow> ext_valid (t_ext t) \<and> sel_allow (t_ext t)"
    by (auto simp: commit_su_def commit_common_su_def plain_state_def prepare_init_ext_def Let_def)
  have r1: "task_reach plain_kernel s1 {0}" using commit [OF r0 s1(1)] by (simp add: plain_state_def)
  let ?s2 = "after_copy_process 0 8 5 plain_task s1"
  have r2: "task_reach plain_kernel ?s2 {5, 0}"
    using fork [OF r1 s1(2,3), of 8 plain_task] by simp
  obtain t where t: "tasks ?s2 5 = Some t" "ext_valid (t_ext t)" "sel_allow (t_ext t)"
    using s1 by (auto simp: after_copy_process_def prepare_task_ext_def IS_ERR_def)
  have sid: "all_allow_sid ?s2 = 0" using s1(4) by (simp add: after_copy_process_def split: option.splits)
  let ?m = "\<lambda>_. \<lparr>av_allowed = 0, auditallow = 0, auditdeny = 0\<rparr> :: av_decision"
  have "avc_denied_replace ?s2 (t_ext t) (\<lambda>args m. (- 13, m)) 0 3 [] 0 0 ?m \<noteq> (- 13, ?m)"
    using t by (simp add: avc_denied_replace_def exempt_def)
  then have "5 \<in> {5, 0 :: nat}"
    using selinux_bypass_granted [OF r2 t(1), of 0 3 "\<lambda>args m. (- 13, m)" "[]" 0 0 ?m] sid by simp
  then show ?thesis using r2 t(1) by blast
qed

end
