(* ===== verification/Supercall.thy ===== *)
theory Supercall
  imports Predata Su_List Module_Manage Accctl
begin

text \<open>
  The entry of user space: \<^verbatim>\<open>kernel/patch/common/supercall.c\<close> with the copy routines of \<^verbatim>\<open>utils.c\<close> and the
  path of the su command of \<^verbatim>\<open>sucompat.c\<close>.  The state puts the super key, the su list, the modules and the
  credentials together; what is copied to user space is recorded.  A fault of the kernel, a panic and a
  read outside a buffer are \<open>None\<close>.
\<close>

section \<open>Copies from and to user space\<close>

text \<open>The kernel's functions, where they are found: the result and the bytes written to the destination.\<close>

record user_access =
  kver_gt_670 :: bool
  k_strncpy :: "(u64 \<Rightarrow> int \<Rightarrow> int \<times> u8 list) option"
  k_nofault :: "(u64 \<Rightarrow> int \<Rightarrow> int \<times> u8 list) option"
  k_unsafe :: "(u64 \<Rightarrow> int \<Rightarrow> int \<times> u8 list) option"
  k_xt :: "(u64 \<Rightarrow> u8 list \<Rightarrow> int) option"
  k_seq :: "(u64 \<Rightarrow> u8 list \<Rightarrow> int) option"
  k_bits :: "(u64 \<Rightarrow> u8 list \<Rightarrow> int) option"
  k_trace :: "(u64 \<Rightarrow> u8 list \<Rightarrow> int) option"
  ua_page_size :: nat

definition compat_strncpy_from_user :: "user_access \<Rightarrow> u64 \<Rightarrow> int \<Rightarrow> int \<times> u8 list" where
  "compat_strncpy_from_user ua src n =
     (let direct = (case k_nofault ua of Some f \<Rightarrow> Some (f src n) | None \<Rightarrow> map_option (\<lambda>f. f src n) (k_unsafe ua))
      in if kver_gt_670 ua \<and> direct \<noteq> None then the direct
         else (case k_strncpy ua of
                 Some f \<Rightarrow>
                   (case f src n of
                      (rc, bs) \<Rightarrow> if rc \<ge> n then (n, bs[nat n - 1 := 0]) else if rc > 0 then (rc + 1, bs) else (rc, bs))
               | None \<Rightarrow> (case direct of Some r \<Rightarrow> r | None \<Rightarrow> (0, []))))"

definition xt_copy :: "(u64 \<Rightarrow> u8 list \<Rightarrow> int) \<Rightarrow> u64 \<Rightarrow> u8 list \<Rightarrow> int" where
  "xt_copy f to bs = (let n = f to bs in if n = 0 then int (length bs) else n)"

definition trace_seq_copy_to_user :: "user_access \<Rightarrow> (u64 \<Rightarrow> u8 list \<Rightarrow> int) \<Rightarrow> u64 \<Rightarrow> u8 list \<Rightarrow> int" where
  "trace_seq_copy_to_user ua f to bs = (if length bs > ua_page_size ua then 0 else f to bs)"

definition compat_copy_to_user :: "user_access \<Rightarrow> u64 \<Rightarrow> u8 list \<Rightarrow> int" where
  "compat_copy_to_user ua to bs =
     (if k_xt ua \<noteq> None \<and> kver_gt_670 ua then xt_copy (the (k_xt ua)) to bs
      else case k_seq ua of Some f \<Rightarrow> f to bs
      | None \<Rightarrow> (case k_bits ua of Some f \<Rightarrow> f to bs
      | None \<Rightarrow> (case k_trace ua of Some f \<Rightarrow> trace_seq_copy_to_user ua f to bs
      | None \<Rightarrow> (case k_xt ua of Some f \<Rightarrow> xt_copy f to bs | None \<Rightarrow> 0))))"

text \<open>The new address below the stack pointer, or the failed result as a pointer.\<close>

definition copy_to_user_stack :: "user_access \<Rightarrow> u64 \<Rightarrow> u8 list \<Rightarrow> u64 \<times> u64" where
  "copy_to_user_stack ua sp bs =
     (let a = (sp - of_nat (length bs)) AND 0xFFFFFFFFFFFFFFF8; n = compat_copy_to_user ua a bs
      in (if n > 0 then a else word_of_int n, a))"

definition str_of :: "u8 list \<Rightarrow> string" where
  "str_of bs = map (\<lambda>b. char_of (unat b)) (takeWhile (\<lambda>b. b \<noteq> 0) bs)"

definition bytes_of :: "string \<Rightarrow> u8 list" where
  "bytes_of s = map of_char s @ [0]"

section \<open>State and surroundings\<close>

record sys_state =
  sc_pd :: pd_state
  sc_su :: su_state
  sc_mod :: mstate
  sc_acc :: acc_state
  sc_path :: string
  sc_out :: "(u64 \<times> u8 list) list"

record call_env =
  ce_ua :: user_access
  ce_mod :: kernel_env
  ce_fs :: "string \<Rightarrow> u64 + u8 list"
  ce_file_buf :: u64
  ce_file_got :: nat
  ce_cred :: kernel_cred
  ce_profile :: "u64 \<Rightarrow> u64 + su_profile"
  ce_dup_path :: "u64 \<Rightarrow> u64 + string"
  ce_user :: "u64 \<Rightarrow> u8"
  ce_dup_err :: "int option"
  ce_alloc :: bool
  ce_cur :: nat
  ce_uid :: u32
  ce_kpver :: u32
  ce_kver :: u32
  ce_buildtime :: string
  ce_safemode :: "s32 option"
  ce_sha :: sha_ctx
  ce_key_at :: u64
  ce_stack :: "nat \<Rightarrow> string"

definition int_arg :: "u64 \<Rightarrow> int" where
  "int_arg a = sint (ucast a :: s32)"

definition strncpy_user :: "call_env \<Rightarrow> u64 \<Rightarrow> nat \<Rightarrow> int \<times> u8 list" where
  "strncpy_user e src n = compat_strncpy_from_user (ce_ua e) src (int n)"

definition copy_out :: "call_env \<Rightarrow> u64 \<Rightarrow> u8 list \<Rightarrow> sys_state \<Rightarrow> u64 \<times> sys_state" where
  "copy_out e to bs st = (word_of_int (compat_copy_to_user (ce_ua e) to bs), st\<lparr>sc_out := sc_out st @ [(to, bs)]\<rparr>)"

abbreviation (input) EPERM :: u64 where "EPERM \<equiv> 1"
abbreviation (input) E2BIG :: u64 where "E2BIG \<equiv> 7"

text \<open>A string copied out with its NUL if the buffer has room, else the error given.\<close>

definition copy_string :: "call_env \<Rightarrow> u64 \<Rightarrow> int \<Rightarrow> u64 \<Rightarrow> string \<Rightarrow> sys_state \<Rightarrow> u64 \<times> sys_state" where
  "copy_string e to room err s st =
     (if int (length s) \<ge> room then (- err, st) else copy_out e to (bytes_of s) st)"

section \<open>Calls everyone may make who gets through\<close>

definition call_klog :: "call_env \<Rightarrow> u64 \<Rightarrow> u64" where
  "call_klog e a = (if fst (strncpy_user e a 1024) \<le> 0 then - 22 else 0)"

definition call_buildtime :: "call_env \<Rightarrow> u64 \<Rightarrow> u64 \<Rightarrow> sys_state \<Rightarrow> u64 \<times> sys_state" where
  "call_buildtime e to len st = copy_string e to (int_arg len) 12 (ce_buildtime e) st"

definition with_profile :: "call_env \<Rightarrow> u64 \<Rightarrow> (su_profile \<Rightarrow> (u64 \<times> sys_state) option) \<Rightarrow> sys_state \<Rightarrow> (u64 \<times> sys_state) option" where
  "with_profile e p f st = (case ce_profile e p of Inl err \<Rightarrow> Some (err, st) | Inr prof \<Rightarrow> f prof)"

text \<open>The context of a profile as a string, terminated at its last byte.\<close>

definition prof_ctx :: "su_profile \<Rightarrow> string" where
  "prof_ctx p = str_of ((prof_scontext p)[95 := 0])"

definition call_su :: "call_env \<Rightarrow> u64 \<Rightarrow> sys_state \<Rightarrow> (u64 \<times> sys_state) option" where
  "call_su e p st =
     with_profile e p (\<lambda>prof. map_option (\<lambda>(rc, acc). (scast rc, st\<lparr>sc_acc := acc\<rparr>))
       (commit_su (ce_cred e) (ce_cur e) (prof_to_uid prof) (Some (prof_ctx prof)) (sc_acc st))) st"

definition call_su_task :: "call_env \<Rightarrow> u64 \<Rightarrow> u64 \<Rightarrow> sys_state \<Rightarrow> (u64 \<times> sys_state) option" where
  "call_su_task e pid p st =
     with_profile e p (\<lambda>prof. case task_su (ce_cred e) (nat (int_arg pid)) (prof_to_uid prof) (Some (prof_ctx prof)) (sc_acc st) of
       (rc, acc) \<Rightarrow> Some (scast rc, st\<lparr>sc_acc := acc\<rparr>)) st"

definition call_grant_uid :: "call_env \<Rightarrow> u64 \<Rightarrow> sys_state \<Rightarrow> (u64 \<times> sys_state) option" where
  "call_grant_uid e p st =
     with_profile e p (\<lambda>prof. map_option (\<lambda>(rc, su). (word_of_int rc, st\<lparr>sc_su := su\<rparr>))
       (su_add_allow_uid (ce_alloc e) (prof_uid prof) (prof_to_uid prof) (\<lambda>i. prof_scontext prof ! i) (sc_su st))) st"

definition call_revoke_uid :: "u64 \<Rightarrow> sys_state \<Rightarrow> u64 \<times> sys_state" where
  "call_revoke_uid uid st = (case su_remove_allow_uid (ucast uid) (sc_su st) of (rc, su) \<Rightarrow> (word_of_int rc, st\<lparr>sc_su := su\<rparr>))"

definition call_su_allow_uid_nums :: "sys_state \<Rightarrow> u64 \<times> sys_state" where
  "call_su_allow_uid_nums st = (word_of_int (su_allow_uid_nums (sc_su st)), st)"

text \<open>The users go out one by one, each copy to its own place.\<close>

definition call_su_list_allow_uid :: "call_env \<Rightarrow> u64 \<Rightarrow> u64 \<Rightarrow> sys_state \<Rightarrow> u64 \<times> sys_state" where
  "call_su_list_allow_uid e to num st =
     (case su_allow_uids (sc_su st) (Some (\<lambda>i. compat_copy_to_user (ce_ua e) (to + 4 * of_nat i) [0, 0, 0, 0])) (int_arg num) of
        (n, uids) \<Rightarrow> (word_of_int n, st\<lparr>sc_out := sc_out st @ map (\<lambda>i. (to + 4 * of_nat i, le32 (uids ! i))) [0..<length uids]\<rparr>))"

definition call_su_allow_uid_profile :: "call_env \<Rightarrow> u64 \<Rightarrow> u64 \<Rightarrow> sys_state \<Rightarrow> u64 \<times> sys_state" where
  "call_su_allow_uid_profile e uid to st =
     (case su_allow_uid_profile (sc_su st) None (ucast uid) of
        (rc, None) \<Rightarrow> (word_of_int rc, st)
      | (rc, Some p) \<Rightarrow> copy_out e to (profile_bytes p) st)"

definition call_reset_su_path :: "call_env \<Rightarrow> u64 \<Rightarrow> sys_state \<Rightarrow> u64 \<times> sys_state" where
  "call_reset_su_path e p st =
     (case ce_dup_path e p of
        Inl err \<Rightarrow> (if err = 0 then - 22 else err, st)
      | Inr path \<Rightarrow> (0, st\<lparr>sc_path := path\<rparr>))"

definition call_su_get_path :: "call_env \<Rightarrow> u64 \<Rightarrow> u64 \<Rightarrow> sys_state \<Rightarrow> u64 \<times> sys_state" where
  "call_su_get_path e to len st = copy_string e to (int_arg len) 105 (sc_path st) st"

definition call_su_get_allow_sctx :: "call_env \<Rightarrow> u64 \<Rightarrow> u64 \<Rightarrow> sys_state \<Rightarrow> u64 \<times> sys_state" where
  "call_su_get_allow_sctx e to len st = copy_string e to (int_arg len) 105 (cstr (all_allow_sctx (sc_acc st))) st"

text \<open>A copy that fills the buffer without a NUL is refused; a failed one leaves the empty string.\<close>

definition call_su_set_allow_sctx :: "call_env \<Rightarrow> u64 \<Rightarrow> sys_state \<Rightarrow> u64 \<times> sys_state" where
  "call_su_set_allow_sctx e p st =
     (case strncpy_user e p 96 of
        (len, bs) \<Rightarrow>
          if len \<ge> 96 \<and> bs ! 95 \<noteq> 0 then (- E2BIG, st)
          else case set_all_allow_sctx (ce_cred e) (Some (str_of (if bs = [] then [0] else bs))) (sc_acc st) of
                 (rc, acc) \<Rightarrow> (scast rc, st\<lparr>sc_acc := acc\<rparr>))"

definition call_kstorage_read :: "call_env \<Rightarrow> u64 \<Rightarrow> u64 \<Rightarrow> u64 \<Rightarrow> u64 \<Rightarrow> sys_state \<Rightarrow> (u64 \<times> sys_state) option" where
  "call_kstorage_read e gid did to a4 st =
     (case read_kstorage (su_store (sc_su st)) None (int_arg gid) did (int_arg (drop_bit 32 a4)) (int_arg a4) of
        None \<Rightarrow> None
      | Some (rc, bs) \<Rightarrow>
          if rc < 0 then Some (word_of_int rc, st)
          else case copy_out e to bs st of (n, st) \<Rightarrow> Some (if n \<le>s 0 then n else 0, st))"

definition call_kstorage_write :: "call_env \<Rightarrow> u64 \<Rightarrow> u64 \<Rightarrow> u64 \<Rightarrow> u64 \<Rightarrow> sys_state \<Rightarrow> (u64 \<times> sys_state) option" where
  "call_kstorage_write e gid did from a4 st =
     map_option (\<lambda>(rc, ks). (word_of_int rc, st\<lparr>sc_su := (sc_su st)\<lparr>su_store := ks\<rparr>\<rparr>))
       (write_kstorage (ce_alloc e) (\<lambda>i. ce_user e (from + word_of_int i)) (ce_dup_err e) (int_arg gid) did
          (int_arg (drop_bit 32 a4)) (int_arg a4) (su_store (sc_su st)))"

text \<open>The identifiers are written with \<open>memcpy\<close> to the address the user gives.\<close>

definition call_list_kstorage_ids :: "u64 \<Rightarrow> u64 \<Rightarrow> u64 \<Rightarrow> sys_state \<Rightarrow> u64 \<times> (u64 \<times> u64) list \<times> sys_state" where
  "call_list_kstorage_ids gid to len st =
     (case list_kstorage_ids (su_store (sc_su st)) None (int_arg gid) (int_arg len) of
        (n, out) \<Rightarrow> (word_of_int n, map (\<lambda>(i, did). (to + 8 * word_of_int i, did)) out, st))"

definition call_kstorage_remove :: "u64 \<Rightarrow> u64 \<Rightarrow> sys_state \<Rightarrow> u64 \<times> sys_state" where
  "call_kstorage_remove gid did st =
     (case remove_kstorage (int_arg gid) did (su_store (sc_su st)) of
        (rc, ks) \<Rightarrow> (word_of_int rc, st\<lparr>sc_su := (sc_su st)\<lparr>su_store := ks\<rparr>\<rparr>))"


section \<open>Calls that need the key\<close>

definition call_skey_get :: "call_env \<Rightarrow> u64 \<Rightarrow> u64 \<Rightarrow> sys_state \<Rightarrow> (u64 \<times> sys_state) option" where
  "call_skey_get e to len st =
     (let key = superkey (sc_pd st); m = pd_mem (sc_pd st)
      in case lib_strlen key m of None \<Rightarrow> None
         | Some klen \<Rightarrow>
             if int klen \<ge> int_arg len then Some (- 12, st)
             else Some (copy_out e to (map (\<lambda>i. m (key + of_nat i)) [0..<klen + 1]) st))"

text \<open>The copy is only tested; the key is then read through the pointer of the user.\<close>

definition call_skey_set :: "call_env \<Rightarrow> u64 \<Rightarrow> sys_state \<Rightarrow> (u64 \<times> sys_state) option" where
  "call_skey_set e a st =
     (case strncpy_user e a 64 of
        (len, bs) \<Rightarrow>
          if len \<ge> 64 \<and> bs ! 63 \<noteq> 0 then Some (- E2BIG, st)
          else map_option (\<lambda>pd. (0, st\<lparr>sc_pd := pd\<rparr>)) (reset_superkey a (sc_pd st)))"

definition call_skey_root_enable :: "u64 \<Rightarrow> sys_state \<Rightarrow> u64 \<times> sys_state" where
  "call_skey_root_enable a st = (0, st\<lparr>sc_pd := enable_auth_root_key (int_arg a \<noteq> 0) (sc_pd st)\<rparr>)"

text \<open>An optional string: a copy that fails or is empty is none.\<close>

definition opt_string :: "int \<times> u8 list \<Rightarrow> string option" where
  "opt_string r = (if fst r \<le> 0 then None else Some (str_of (snd r)))"

definition call_kpm_load :: "call_env \<Rightarrow> u64 \<Rightarrow> u64 \<Rightarrow> sys_state \<Rightarrow> (u64 \<times> sys_state) option" where
  "call_kpm_load e a1 a2 st =
     (case opt_string (strncpy_user e a1 1024) of None \<Rightarrow> Some (- 22, st)
      | Some path \<Rightarrow>
          map_option (\<lambda>(rc, left_open, md). (rc, st\<lparr>sc_mod := md\<rparr>))
            (load_module_path (ce_mod e) (ce_fs e) (ce_file_buf e) (ce_file_got e) (Some path)
               (opt_string (strncpy_user e a2 1024)) (sc_mod st)))"

definition call_kpm_control :: "call_env \<Rightarrow> u64 \<Rightarrow> u64 \<Rightarrow> sys_state \<Rightarrow> (u64 \<times> sys_state) option" where
  "call_kpm_control e a1 a2 st =
     (case opt_string (strncpy_user e a1 32) of None \<Rightarrow> Some (- 22, st)
      | Some name \<Rightarrow>
          map_option (\<lambda>(rc, md). (rc, st\<lparr>sc_mod := md\<rparr>))
            (module_control0 (ce_mod e) (Some name) (opt_string (strncpy_user e a2 1024)) (sc_mod st)))"

definition call_kpm_unload :: "call_env \<Rightarrow> u64 \<Rightarrow> sys_state \<Rightarrow> u64 \<times> sys_state" where
  "call_kpm_unload e a1 st =
     (case opt_string (strncpy_user e a1 32) of None \<Rightarrow> (- 22, st)
      | Some name \<Rightarrow> (case unload_module (ce_mod e) (Some name) (sc_mod st) of (rc, md) \<Rightarrow> (rc, st\<lparr>sc_mod := md\<rparr>)))"

definition call_kpm_nums :: "sys_state \<Rightarrow> u64 \<times> sys_state" where
  "call_kpm_nums st = (of_nat (get_module_nums (sc_mod st)), st)"

text \<open>\<open>len\<close> bytes of a buffer of 4096 are copied, which may reach beyond it: \<open>None\<close>.\<close>

definition call_kpm_list :: "call_env \<Rightarrow> u64 \<Rightarrow> u64 \<Rightarrow> sys_state \<Rightarrow> (u64 \<times> sys_state) option" where
  "call_kpm_list e to a2 st =
     (let len = int_arg a2
      in if len \<le> 0 then Some (- 22, st)
         else (case those (map (\<lambda>md. read_str (ms_mem (sc_mod st)) (mod_name md)) (ms_modules (sc_mod st))) of None \<Rightarrow> None
           | Some names \<Rightarrow>
               (case list_modules 4096 names (ce_stack e 4096) of None \<Rightarrow> None
                | Some (sz, buf) \<Rightarrow>
                    if int sz > len then Some (- 105, st)
                    else if len > 4096 then None
                    else Some (copy_out e to (map of_char (take (nat len) buf)) st))))"

text \<open>The values of a module as printed: absent strings as \<open>(null)\<close>.\<close>

definition module_values :: "bmem \<Rightarrow> kmodule \<Rightarrow> string list option" where
  "module_values m md =
     map_option (\<lambda>vs. vs @ [case mod_args md of None \<Rightarrow> ''(null)'' | Some a \<Rightarrow> a])
       (those (map (\<lambda>p. if p = 0 then Some ''(null)'' else read_str m p)
          [mod_name md, mod_version md, mod_license md, mod_author md, mod_description md]))"

definition call_kpm_info :: "call_env \<Rightarrow> u64 \<Rightarrow> u64 \<Rightarrow> u64 \<Rightarrow> sys_state \<Rightarrow> (u64 \<times> sys_state) option" where
  "call_kpm_info e a1 to a3 st =
     (let out_len = int_arg a3; md = sc_mod st
      in if out_len \<le> 0 then Some (- 22, st)
         else (case opt_string (strncpy_user e a1 64) of None \<Rightarrow> Some (- 22, st)
           | Some name \<Rightarrow>
               (case (case find_module md name of None \<Rightarrow> Some None
                      | Some i \<Rightarrow> map_option Some (module_values (ms_mem md) (ms_modules md ! i))) of None \<Rightarrow> None
                | Some vals \<Rightarrow>
                    (case get_module_info vals 2048 (ce_stack e 2048) (rcu_depth md) of None \<Rightarrow> None
                     | Some (sz, buf, depth) \<Rightarrow>
                         let st = st\<lparr>sc_mod := md\<lparr>rcu_depth := depth\<rparr>\<rparr>
                         in if sz < 0 then Some (word_of_int sz, st)
                            else if sz > out_len then Some (- 105, st)
                            else if sz > 2048 then None
                            else Some (copy_out e to (map of_char (take (nat sz) buf)) st)))))"

section \<open>The dispatch\<close>

definition write_ids :: "(u64 \<times> u64) list \<Rightarrow> bmem \<Rightarrow> bmem" where
  "write_ids ids m = fold (\<lambda>(a, did) m. store_le 8 a did m) ids m"

text \<open>The commands before the test of the key; outer \<open>None\<close> when there is no such command.\<close>

definition public_call :: "call_env \<Rightarrow> u64 \<Rightarrow> u64 \<Rightarrow> u64 \<Rightarrow> u64 \<Rightarrow> u64 \<Rightarrow> sys_state \<Rightarrow> (u64 \<times> sys_state) option option" where
  "public_call e cmd a1 a2 a3 a4 st =
     (if cmd = 0x1000 then Some (Some (0x11581158, st))
      else if cmd = 0x1004 then Some (Some (call_klog e a1, st))
      else if cmd = 0x1008 then Some (Some (ucast (ce_kpver e), st))
      else if cmd = 0x1009 then Some (Some (ucast (ce_kver e), st))
      else if cmd = 0x1007 then Some (Some (call_buildtime e a1 a2 st))
      else if cmd = 0x1010 then Some (call_su e a1 st)
      else if cmd = 0x1011 then Some (call_su_task e a1 a2 st)
      else if cmd = 0x1100 then Some (call_grant_uid e a1 st)
      else if cmd = 0x1101 then Some (Some (call_revoke_uid a1 st))
      else if cmd = 0x1102 then Some (Some (call_su_allow_uid_nums st))
      else if cmd = 0x1103 then Some (Some (call_su_list_allow_uid e a1 a2 st))
      else if cmd = 0x1104 then Some (Some (call_su_allow_uid_profile e a1 a2 st))
      else if cmd = 0x1111 then Some (Some (call_reset_su_path e a1 st))
      else if cmd = 0x1110 then Some (Some (call_su_get_path e a1 a2 st))
      else if cmd = 0x1105 then Some (Some (call_su_get_allow_sctx e a1 a2 st))
      else if cmd = 0x1106 then Some (Some (call_su_set_allow_sctx e a1 st))
      else if cmd = 0x1042 then Some (call_kstorage_read e a1 a2 a3 a4 st)
      else if cmd = 0x1041 then Some (call_kstorage_write e a1 a2 a3 a4 st)
      else if cmd = 0x1043
      then (case call_list_kstorage_ids a1 a2 a3 st of
              (rc, ids, st) \<Rightarrow>
                Some (Some (rc, st\<lparr>sc_pd := (sc_pd st)\<lparr>pd_mem := write_ids ids (pd_mem (sc_pd st))\<rparr>,
                                   sc_mod := (sc_mod st)\<lparr>ms_mem := write_ids ids (ms_mem (sc_mod st))\<rparr>\<rparr>)))
      else if cmd = 0x1044 then Some (Some (call_kstorage_remove a1 a2 st))
      else if cmd = 0x1112 \<and> ce_safemode e \<noteq> None then Some (Some (scast (the (ce_safemode e)), st))
      else if cmd = 0x10fd then Some (Some (0, st))
      else if cmd = 0x10fe then Some None
      else if cmd = 0x10ff then Some (Some (0, st))
      else None)"

definition key_call :: "call_env \<Rightarrow> u64 \<Rightarrow> u64 \<Rightarrow> u64 \<Rightarrow> u64 \<Rightarrow> u64 \<Rightarrow> sys_state \<Rightarrow> (u64 \<times> sys_state) option option" where
  "key_call e cmd a1 a2 a3 a4 st =
     (if cmd = 0x100a then Some (call_skey_get e a1 a2 st)
      else if cmd = 0x100b then Some (call_skey_set e a1 st)
      else if cmd = 0x100c then Some (Some (call_skey_root_enable a1 st))
      else if cmd = 0x1020 then Some (call_kpm_load e a1 a2 st)
      else if cmd = 0x1021 then Some (Some (call_kpm_unload e a1 st))
      else if cmd = 0x1022 then Some (call_kpm_control e a1 a2 st)
      else if cmd = 0x1030 then Some (Some (call_kpm_nums st))
      else if cmd = 0x1031 then Some (call_kpm_list e a1 a2 st)
      else if cmd = 0x1032 then Some (call_kpm_info e a1 a2 a3 st)
      else None)"

definition supercall :: "call_env \<Rightarrow> bool \<Rightarrow> u64 \<Rightarrow> u64 \<Rightarrow> u64 \<Rightarrow> u64 \<Rightarrow> u64 \<Rightarrow> sys_state \<Rightarrow> (u64 \<times> sys_state) option" where
  "supercall e is_key_auth cmd a1 a2 a3 a4 st =
     (case public_call e cmd a1 a2 a3 a4 st of Some r \<Rightarrow> r
      | None \<Rightarrow>
          if \<not> is_key_auth then Some (- EPERM, st)
          else case key_call e cmd a1 a2 a3 a4 st of Some r \<Rightarrow> r | None \<Rightarrow> Some (- 38, st))"

text \<open>The key as it stands in the buffer of 128 bytes on the stack.\<close>

definition put_key :: "u64 \<Rightarrow> u8 list \<Rightarrow> bmem \<Rightarrow> bmem" where
  "put_key at bs m = (\<lambda>a. if unat (a - at) < length bs then bs ! unat (a - at) else m a)"

text \<open>
  The hook before the system call: the result that replaces it, or none when the call goes on as if
  there were no hook.
\<close>

definition sc_before :: "call_env \<Rightarrow> u64 list \<Rightarrow> sys_state \<Rightarrow> (u64 option \<times> sys_state) option" where
  "sc_before e args st =
     (let cmd = args ! 1 AND 0xFFFF
      in if cmd < 0x1000 \<or> cmd > 0x1200 then Some (None, st)
         else case strncpy_user e (args ! 0) 128 of (len, bs) \<Rightarrow>
           if len \<le> 0 then Some (None, st)
           else let pd = (sc_pd st)\<lparr>pd_mem := put_key (ce_key_at e) bs (pd_mem (sc_pd st))\<rparr>
           in (case auth_superkey (ce_sha e) (ce_key_at e) pd of None \<Rightarrow> None
               | Some (rc, pd) \<Rightarrow>
                   let st = st\<lparr>sc_pd := pd\<rparr>;
                       run = (\<lambda>auth. map_option (\<lambda>(r, st). (Some r, st))
                                (supercall e auth cmd (args ! 2) (args ! 3) (args ! 4) (args ! 5) st))
                   in if rc = 0 then run True
                      else if str_of bs = ''su'' then (if \<not> is_su_allow_uid (sc_su st) (ce_uid e) then Some (None, st) else run False)
                      else Some (None, st)))"


section \<open>What a caller without the key can do\<close>

definition keeps :: "sys_state \<Rightarrow> (u64 \<times> sys_state) option \<Rightarrow> bool" where
  "keeps st r \<longleftrightarrow> (case r of None \<Rightarrow> True | Some (rc, st') \<Rightarrow> sc_pd st' = sc_pd st \<and> sc_mod st' = sc_mod st)"

lemma keeps_simps [simp]: "keeps st None" "keeps st (Some (rc, st'))  \<longleftrightarrow> sc_pd st' = sc_pd st \<and> sc_mod st' = sc_mod st"
  by (simp_all add: keeps_def)

lemma copy_out_keeps [simp]: "keeps st (Some (copy_out e to bs st))" "keeps st (Some (copy_string e to room err s st))"
  by (simp_all add: copy_out_def copy_string_def)

lemma profile_calls_keep:
  "keeps st (call_su e p st)" "keeps st (call_su_task e pid p st)" "keeps st (call_grant_uid e p st)"
  by (auto simp: call_su_def call_su_task_def call_grant_uid_def with_profile_def keeps_def split: sum.splits option.splits prod.splits)

lemma list_calls_keep:
  "keeps st (Some (call_revoke_uid uid st))" "keeps st (Some (call_su_allow_uid_nums st))"
  "keeps st (Some (call_su_list_allow_uid e to num st))" "keeps st (Some (call_su_allow_uid_profile e uid to st))"
  by (simp_all add: call_revoke_uid_def call_su_allow_uid_nums_def call_su_list_allow_uid_def call_su_allow_uid_profile_def
      copy_out_def split: prod.split option.split)

lemma path_calls_keep:
  "keeps st (Some (call_reset_su_path e p st))" "keeps st (Some (call_su_get_path e to len st))"
  "keeps st (Some (call_su_get_allow_sctx e to len st))" "keeps st (Some (call_su_set_allow_sctx e p st))"
  "keeps st (Some (call_buildtime e to len st))"
  by (simp_all add: call_reset_su_path_def call_su_get_path_def call_su_get_allow_sctx_def call_su_set_allow_sctx_def
      call_buildtime_def split: sum.split prod.split)

lemma storage_calls_keep:
  "keeps st (call_kstorage_read e gid did to a4 st)" "keeps st (call_kstorage_write e gid did to a4 st)"
  "keeps st (Some (call_kstorage_remove gid did st))"
  by (auto simp: call_kstorage_read_def call_kstorage_write_def call_kstorage_remove_def copy_out_def keeps_def
      split: option.splits prod.splits if_splits)

lemmas calls_keep = profile_calls_keep list_calls_keep path_calls_keep storage_calls_keep

lemma public_call_keeps:
  assumes "public_call e cmd a1 a2 a3 a4 st = Some r" "cmd \<noteq> 0x1043"
  shows "keeps st r"
  using assms unfolding public_call_def by (auto split: if_splits simp: calls_keep)

lemma supercall_keeps: "cmd \<noteq> 0x1043 \<Longrightarrow> keeps st (supercall e False cmd a1 a2 a3 a4 st)"
  using public_call_keeps [of e cmd a1 a2 a3 a4 st] by (auto simp: supercall_def split: option.splits)

lemma put_key_holds:
  assumes "holds m s sk" "\<forall>i \<le> length sk. length bs \<le> unat (s + of_nat i - at)"
  shows "holds (put_key at bs m) s sk"
proof -
  have "put_key at bs m (s + of_nat i) = m (s + of_nat i)" if "i \<le> length sk" for i
    using assms(2) that by (auto simp: put_key_def not_less)
  then show ?thesis using assms(1) by (simp add: holds_def)
qed

text \<open>
  C39: While the root key is disabled, a caller whose key does not begin with the super key changes neither the
  modules, nor the super key or any other byte outside the buffer his key is copied to, with any command but the
  listing of storage identifiers; and he gets a result only when the key is \<open>su\<close> and his user is on the list.
\<close>
theorem supercall_without_key:
  assumes "sc_before e args st = Some (r, st')" "strncpy_user e (args ! 0) 128 = (len, bs)"
    "holds (pd_mem (sc_pd st)) (superkey (sc_pd st)) sk" "\<not> enable_root_key (sc_pd st)"
    "\<forall>i \<le> length sk. length bs \<le> unat (superkey (sc_pd st) + of_nat i - ce_key_at e)"
    "\<not> begins (put_key (ce_key_at e) bs (pd_mem (sc_pd st))) (ce_key_at e) sk"
    "args ! 1 AND 0xFFFF \<noteq> 0x1043"
  shows "sc_mod st' = sc_mod st \<and> superkey (sc_pd st') = superkey (sc_pd st) \<and> \<not> enable_root_key (sc_pd st') \<and>
    (\<forall>a. length bs \<le> unat (a - ce_key_at e) \<longrightarrow> pd_mem (sc_pd st') a = pd_mem (sc_pd st) a) \<and>
    (r = None \<or> str_of bs = ''su'' \<and> is_su_allow_uid (sc_su st) (ce_uid e))"
proof -
  let ?pd = "(sc_pd st)\<lparr>pd_mem := put_key (ce_key_at e) bs (pd_mem (sc_pd st))\<rparr>"
  let ?st = "st\<lparr>sc_pd := ?pd\<rparr>" and ?cmd = "args ! 1 AND 0xFFFF"
  have auth: "auth_superkey (ce_sha e) (ce_key_at e) ?pd = Some (1, ?pd)"
    using auth_without_root [of ?pd sk] put_key_holds [OF assms(3,5)] assms(4,6) by simp
  have frame: "length bs \<le> unat (a - ce_key_at e) \<Longrightarrow> pd_mem ?pd a = pd_mem (sc_pd st) a" for a
    by (simp add: put_key_def)
  note k = supercall_keeps [OF assms(7), of ?st e "args ! 2" "args ! 3" "args ! 4" "args ! 5"]
  consider "st' = st" "r = None" | "st' = ?st" "r = None"
    | rc where "supercall e False ?cmd (args ! 2) (args ! 3) (args ! 4) (args ! 5) ?st = Some (rc, st')"
        "str_of bs = ''su''" "is_su_allow_uid (sc_su st) (ce_uid e)"
    using assms(1,2) auth by (auto simp: sc_before_def Let_def split: if_splits)
  then show ?thesis
  proof cases
    case 3
    then show ?thesis using k assms(4) frame by auto
  qed (use assms(4) frame in auto)
qed

text \<open>
  C40: The listing of storage identifiers takes the address of the result from the user and writes there as
  the kernel.  A caller with the key \<open>su\<close> only, who has stored an entry under 0 in some group, so
  makes the super key empty, after which every key is accepted.
\<close>
theorem list_ids_overwrites_super_key:
  assumes "ksgroup (su_store (sc_su st)) (int_arg gid) = pos # others" "\<not> bad_gid (int_arg gid)" "ks_did pos = 0"
    "int_arg len = 1" "\<not> enable_root_key (sc_pd st)"
  shows "\<exists>rc st'. supercall e False 0x1043 gid (superkey (sc_pd st)) len a4 st = Some (rc, st') \<and>
    (\<forall>ctx key. auth_superkey ctx key (sc_pd st') = Some (0, sc_pd st'))"
proof -
  let ?s = "superkey (sc_pd st)"
  let ?m = "store_le 8 ?s 0 (pd_mem (sc_pd st))"
  have "list_kstorage_ids (su_store (sc_su st)) None (int_arg gid) 1 = (1, [(0, 0)])"
    using assms(1-3) by (cases others) (simp_all add: list_kstorage_ids_def)
  then have ids: "call_list_kstorage_ids gid ?s len st = (1, [(?s, 0)], st)"
    by (simp add: call_list_kstorage_ids_def assms(4))
  have "store_le (Suc 7) ?s 0 (pd_mem (sc_pd st)) ?s = 0"
    unfolding store_le.simps using in_range_0 [of 7 ?s] by (simp add: store_le_frame)
  then have "?m ?s = 0" by simp
  then have "holds ?m ?s []" by (simp add: holds_def)
  then have "auth_superkey ctx key ((sc_pd st)\<lparr>pd_mem := ?m\<rparr>) = Some (0, (sc_pd st)\<lparr>pd_mem := ?m\<rparr>)" for ctx key
    using auth_without_root [of "(sc_pd st)\<lparr>pd_mem := ?m\<rparr>" "[]" ctx key] assms(5) by (simp add: begins_def)
  then show ?thesis by (simp add: supercall_def public_call_def ids write_ids_def)
qed


section \<open>A system\<close>

text \<open>A system in which user 1000 is on the list, his call and that of another user.\<close>

definition demo_ua :: user_access where
  "demo_ua = \<lparr>kver_gt_670 = False,
     k_strncpy = Some (\<lambda>src n. if src = 1 then (2, [115, 117, 0]) else if src = 2 then (1, [120, 0]) else (- 14, [])),
     k_nofault = None, k_unsafe = None, k_xt = None, k_seq = Some (\<lambda>to bs. int (length bs)), k_bits = None, k_trace = None,
     ua_page_size = 4096\<rparr>"

definition demo_env :: call_env where
  "demo_env = \<lparr>ce_ua = demo_ua, ce_mod = quiet_env, ce_fs = \<lambda>p. Inl (- 2), ce_file_buf = 0, ce_file_got = 0,
     ce_cred = plain_kernel, ce_profile = \<lambda>p. Inl (- 14), ce_dup_path = \<lambda>p. Inl (- 14), ce_user = \<lambda>p. 0, ce_dup_err = None,
     ce_alloc = True, ce_cur = 5, ce_uid = 1000, ce_kpver = 0xb00, ce_kver = 0x60100, ce_buildtime = ''now'', ce_safemode = None,
     ce_sha = blank_ctx, ce_key_at = 0x7000, ce_stack = \<lambda>n. replicate n NUL\<rparr>"

definition demo_system :: sys_state where
  "demo_system = \<lparr>sc_pd = demo_pd, sc_su = snd (the (su_add_allow_uid True 1000 0 (\<lambda>_. 0) fresh_su)), sc_mod = boot_state,
     sc_acc = plain_state, sc_path = ''/system/bin/kp'', sc_out = []\<rparr>"

lemma demo_strncpy: "strncpy_user demo_env 2 128 = (2, [120, 0])"
  by (simp add: strncpy_user_def compat_strncpy_from_user_def demo_env_def demo_ua_def)

lemma demo_auth:
  "auth_superkey blank_ctx 0x7000 (demo_pd\<lparr>pd_mem := put_key 0x7000 [120, 0] (pd_mem demo_pd)\<rparr>) =
     Some (1, demo_pd\<lparr>pd_mem := put_key 0x7000 [120, 0] (pd_mem demo_pd)\<rparr>)"
  using auth_without_root [of "demo_pd\<lparr>pd_mem := put_key 0x7000 [120, 0] (pd_mem demo_pd)\<rparr>" "[107]" blank_ctx "0x7000"]
  by (simp add: demo_pd_def holds_def begins_def put_key_def)

lemma demo_call:
  "sc_before demo_env [2, 0x1020, 0, 0, 0, 0] demo_system =
     Some (None, demo_system\<lparr>sc_pd := demo_pd\<lparr>pd_mem := put_key 0x7000 [120, 0] (pd_mem demo_pd)\<rparr>\<rparr>)"
proof -
  have e: "ce_sha demo_env = blank_ctx" "ce_key_at demo_env = 0x7000" by (simp_all add: demo_env_def)
  show ?thesis
    by (simp add: sc_before_def demo_strncpy e demo_system_def demo_auth str_of_def Let_def)
qed

theorem supercall_without_key_witness:
  "sc_mod (snd (the (sc_before demo_env [2, 0x1020, 0, 0, 0, 0] demo_system))) = boot_state"
proof -
  have k: "ce_key_at demo_env = 0x7000" by (simp add: demo_env_def)
  show ?thesis
    using supercall_without_key [OF demo_call, of 2 "[120, 0]" "[107]"] demo_strncpy
    by (simp add: demo_call) (simp add: demo_system_def)
qed

definition stored_zero :: sys_state where
  "stored_zero = demo_system\<lparr>sc_su := fresh_su\<lparr>su_store := kstorage_init\<lparr>
     ks_groups := [[], [], [\<lparr>ks_node = 0, ks_did = 0, ks_bytes = []\<rparr>], []]\<rparr>\<rparr>\<rparr>"

theorem list_ids_overwrites_super_key_witness:
  "\<exists>rc st'. supercall demo_env False 0x1043 2 0x100 1 0 stored_zero = Some (rc, st') \<and>
     auth_superkey blank_ctx 0x9000 (sc_pd st') = Some (0, sc_pd st')"
  using list_ids_overwrites_super_key [of stored_zero 2 "\<lparr>ks_node = 0, ks_did = 0, ks_bytes = []\<rparr>" "[]" 1 demo_env 0]
  by (fastforce simp: stored_zero_def demo_system_def demo_pd_def int_arg_def bad_gid_def)

end
