(* ===== verification/Tool_Image.thy ===== *)
theory Tool_Image
  imports Prelude "HOL-Library.Monad_Syntax"
begin

text \<open>
  The host tool that patches a kernel image: reading numbers from the image
  (\<^verbatim>\<open>tools/order.c\<close>, \<^verbatim>\<open>tools/common.c\<close>) and its header (\<^verbatim>\<open>tools/image.c\<close>).  An image is a list of
  bytes; positions are the \<open>int32_t\<close> offsets of the code as integers, and a read or write outside the
  image is \<open>None\<close>.  The tool runs on a little-endian host, so \<open>is_be ()\<close> is 0.
\<close>

section \<open>Byte order\<close>

definition u16swp :: "u16 \<Rightarrow> u16" where
  "u16swp val = push_bit 8 val OR drop_bit 8 val"

definition i16swp :: "u16 \<Rightarrow> u16" where
  "i16swp val = push_bit 8 val OR (signed_drop_bit 8 val AND 0xFF)"

definition u32swp :: "u32 \<Rightarrow> u32" where
  "u32swp val =
     (let val = (push_bit 8 val AND 0xFF00FF00) OR (drop_bit 8 val AND 0xFF00FF)
      in push_bit 16 val OR drop_bit 16 val)"

definition i32swp :: "s32 \<Rightarrow> s32" where
  "i32swp val =
     (let val = (push_bit 8 val AND 0xFF00FF00) OR (signed_drop_bit 8 val AND 0xFF00FF)
      in push_bit 16 val OR (signed_drop_bit 16 val AND 0xFFFF))"

definition u64swp :: "u64 \<Rightarrow> u64" where
  "u64swp val =
     (let val = (push_bit 8 val AND 0xFF00FF00FF00FF00) OR (drop_bit 8 val AND 0x00FF00FF00FF00FF);
          val = (push_bit 16 val AND 0xFFFF0000FFFF0000) OR (drop_bit 16 val AND 0x0000FFFF0000FFFF)
      in push_bit 32 val OR drop_bit 32 val)"

definition i64swp :: "u64 \<Rightarrow> u64" where
  "i64swp val =
     (let val = (push_bit 8 val AND 0xFF00FF00FF00FF00) OR (signed_drop_bit 8 val AND 0x00FF00FF00FF00FF);
          val = (push_bit 16 val AND 0xFFFF0000FFFF0000) OR (signed_drop_bit 16 val AND 0x0000FFFF0000FFFF)
      in push_bit 32 val OR (signed_drop_bit 32 val AND 0xFFFFFFFF))"

definition u16le :: "u16 \<Rightarrow> u16" where "u16le val = val"
definition u16be :: "u16 \<Rightarrow> u16" where "u16be val = u16swp val"
definition u32le :: "u32 \<Rightarrow> u32" where "u32le val = val"
definition u64le :: "u64 \<Rightarrow> u64" where "u64le val = val"

section \<open>Bytes of an image\<close>

type_synonym image = "u8 list"

definition img_byte :: "image \<Rightarrow> int \<Rightarrow> u8 option" where
  "img_byte img i = (if 0 \<le> i \<and> i < int (length img) then Some (img ! nat i) else None)"

fun le_value :: "u8 list \<Rightarrow> u64" where
  "le_value [] = 0"
| "le_value (b # bs) = ucast b OR push_bit 8 (le_value bs)"

definition img_load :: "nat \<Rightarrow> image \<Rightarrow> int \<Rightarrow> u64 option" where
  "img_load n img i =
     (if 0 \<le> i \<and> i + int n \<le> int (length img) then Some (le_value (take n (drop (nat i) img))) else None)"

fun le_bytes :: "nat \<Rightarrow> u64 \<Rightarrow> u8 list" where
  "le_bytes 0 v = []"
| "le_bytes (Suc n) v = ucast v # le_bytes n (drop_bit 8 v)"

definition img_store :: "nat \<Rightarrow> image \<Rightarrow> int \<Rightarrow> u64 \<Rightarrow> image option" where
  "img_store n img i v =
     (if 0 \<le> i \<and> i + int n \<le> int (length img)
      then Some (take (nat i) img @ le_bytes n v @ drop (nat i + n) img) else None)"

text \<open>A string of the image up to its NUL.\<close>

definition img_str :: "image \<Rightarrow> int \<Rightarrow> u8 list option" where
  "img_str img p =
     (if p < 0 then None
      else let s = takeWhile (\<lambda>b. b \<noteq> 0) (drop (nat p) img)
           in if nat p + length s < length img then Some s else None)"

definition uint_unpack :: "image \<Rightarrow> int \<Rightarrow> int \<Rightarrow> bool \<Rightarrow> u64 option" where
  "uint_unpack img p sz be =
     (if sz = 8 then map_option (\<lambda>v. if be then u64swp v else v) (img_load 8 img p)
      else if sz = 4 then map_option (\<lambda>v. ucast (if be then u32swp (ucast v) else ucast v)) (img_load 4 img p)
      else if sz = 2 then map_option (\<lambda>v. ucast (if be then u16swp (ucast v) else ucast v)) (img_load 2 img p)
      else map_option (\<lambda>b. ucast b) (img_byte img p))"

definition int_unpack :: "image \<Rightarrow> int \<Rightarrow> int \<Rightarrow> bool \<Rightarrow> u64 option" where
  "int_unpack img p sz be =
     (if sz = 8 then map_option (\<lambda>v. if be then i64swp v else v) (img_load 8 img p)
      else if sz = 4 then map_option (\<lambda>v. scast (if be then i32swp (ucast v) else ucast v)) (img_load 4 img p)
      else if sz = 2 then map_option (\<lambda>v. scast (if be then i16swp (ucast v) else ucast v)) (img_load 2 img p)
      else map_option (\<lambda>b. scast b) (img_byte img p))"

text \<open>The library's \<open>memmem\<close> on \<open>n\<close> bytes from position \<open>from\<close>: the first position of the pattern.\<close>

definition libc_memmem :: "image \<Rightarrow> nat \<Rightarrow> nat \<Rightarrow> u8 list \<Rightarrow> nat option" where
  "libc_memmem img from n pat =
     find (\<lambda>i. take (length pat) (drop i img) = pat) [from..<Suc (from + n) - length pat]"

definition align_ceil :: "u64 \<Rightarrow> u64 \<Rightarrow> u64" where
  "align_ceil x align = (x + align - 1) AND NOT (align - 1)"

definition align_floor :: "u64 \<Rightarrow> u64 \<Rightarrow> u64" where
  "align_floor x align = x AND NOT (align - 1)"

section \<open>Branches in the image\<close>

definition can_b_imm :: "u64 \<Rightarrow> u64 \<Rightarrow> bool" where
  "can_b_imm from to \<longleftrightarrow>
     (let imm26 = (0x8000000 :: u64)
      in (to \<ge> from \<and> to - from \<le> imm26) \<or> (from \<ge> to \<and> from - to \<le> imm26))"

definition b_insn :: "u64 \<Rightarrow> u64 \<Rightarrow> (u32 \<times> s32) option" where
  "b_insn from to =
     (if can_b_imm from to then Some (ucast (0x14000000 OR drop_bit 2 ((to - from) AND 0x0FFFFFFF)), 4) else None)"

definition tool_sign64_extend :: "u64 \<Rightarrow> nat \<Rightarrow> u64" where
  "tool_sign64_extend n len =
     (if drop_bit 63 (push_bit (63 - (len - 1)) n) \<noteq> 0 then n OR push_bit len (- 1) else n)"

definition relo_branch_func :: "image \<Rightarrow> s32 \<Rightarrow> s32 option" where
  "relo_branch_func img func_offset =
     do { inst \<leftarrow> img_load 4 img (sint func_offset);
          Some (if inst AND 0xFC000000 = 0x14000000
                then let imm26 = inst AND 0x3FFFFFF; imm64 = tool_sign64_extend (push_bit 2 imm26) 28
                     in func_offset + ucast imm64
                else func_offset) }"

section \<open>The header of the kernel image\<close>

text \<open>A call of \<open>exit\<close> with an error message, or an access outside the image.\<close>

datatype tool_stop = Exit_failure | Bad_access

definition of_access :: "'a option \<Rightarrow> tool_stop + 'a" where
  "of_access r = (case r of None \<Rightarrow> Inl Bad_access | Some x \<Rightarrow> Inr x)"

record kernel_info =
  ki_is_be :: bool
  ki_uefi :: bool
  ki_load_offset :: s32
  ki_kernel_size :: s32
  ki_page_shift :: s32
  ki_b_stext_insn_offset :: s32
  ki_primary_entry_offset :: s32

definition page_shift_of :: "u8 \<Rightarrow> s32" where
  "page_shift_of flag =
     (let k = drop_bit 1 (flag AND 6) in if k = 2 then 14 else if k = 3 then 16 else 12)"

definition get_kernel_info :: "image \<Rightarrow> tool_stop + kernel_info" where
  "get_kernel_info img =
     (if length img < 60 then Inl Bad_access
      else if take 4 (drop 56 img) \<noteq> [0x41, 0x52, 0x4D, 0x64] then Inl Exit_failure
      else let uefi = (take 2 img = [0x4D, 0x5A]);
               stext = (if uefi then 4 else 0);
               insn = u32le (ucast (le_value (take 4 (drop stext img))))
      in if insn AND 0xFC000000 \<noteq> 0x14000000 then Inl Exit_failure
      else let imm = push_bit 2 (insn AND 0x03ffffff);
               flag = ucast (u64le (le_value (take 8 (drop 24 img)))) AND (0x0f :: u8);
               is_be = (flag AND 1 \<noteq> 0)
      in if is_be then Inl Exit_failure
      else Inr \<lparr>ki_is_be = is_be, ki_uefi = uefi,
          ki_load_offset = ucast (u64le (le_value (take 8 (drop 8 img)))),
          ki_kernel_size = ucast (u64le (le_value (take 8 (drop 16 img)))),
          ki_page_shift = page_shift_of flag,
          ki_b_stext_insn_offset = of_nat stext, ki_primary_entry_offset = imm + of_nat stext\<rparr>)"

definition kernel_resize :: "kernel_info \<Rightarrow> image \<Rightarrow> s32 \<Rightarrow> image option" where
  "kernel_resize kinfo img sz =
     (let ksize = (if ki_is_be kinfo then u64swp (scast sz) else scast sz) in img_store 8 img 16 ksize)"

end
