(* ===== verification/Kallsyms.thy ===== *)
theory Kallsyms
  imports Tool_Image Insn
begin

text \<open>
  Recovering the kernel's symbol table from its image, \<^verbatim>\<open>tools/kallsym.c\<close>: the version banner, the table
  of tokens the names are compressed with, the tables of markers, names and addresses, and the look-up of
  a symbol.  The array of token pointers holds positions in the image \<open>org\<close> the analysis was given; the
  analysis itself works on a copy.  Loops are recursive functions; \<open>None\<close> is an access outside the image
  or an array, or a loop that does not end.
\<close>

abbreviation (input) KSYM_TOKEN_NUMS :: nat where "KSYM_TOKEN_NUMS \<equiv> 256"
abbreviation (input) KSYM_SYMBOL_LEN :: nat where "KSYM_SYMBOL_LEN \<equiv> 512"
abbreviation (input) KSYM_MIN_NEQ_SYMS :: int where "KSYM_MIN_NEQ_SYMS \<equiv> 25600"
abbreviation (input) KSYM_MIN_MARKER :: int where "KSYM_MIN_MARKER \<equiv> 100"
abbreviation (input) KSYM_FIND_NAMES_USED_MARKER :: int where "KSYM_FIND_NAMES_USED_MARKER \<equiv> 5"
abbreviation (input) ARM64_RELO_MIN_NUM :: int where "ARM64_RELO_MIN_NUM \<equiv> 4000"
abbreviation (input) ELF64_KERNEL_MIN_VA :: u64 where "ELF64_KERNEL_MIN_VA \<equiv> 0xffffff8008080000"
abbreviation (input) ELF64_KERNEL_MAX_VA :: u64 where "ELF64_KERNEL_MAX_VA \<equiv> 0xffffffffffffffff"

datatype current_type = SP_EL0 | SP

record kallsym =
  k_is_64 :: bool
  k_is_be :: bool
  k_major :: u8
  k_minor :: u8
  k_patch :: u8
  k_banners :: "int list" \<comment> \<open>\<open>banner_num\<close> and \<open>linux_banner_offset\<close>\<close>
  k_banner_idx :: int
  k_tokens :: "int list"
  k_long_size :: int
  k_ptr_size :: int
  k_markers_elem_size :: int
  k_num_syms :: int
  k_relative_base :: bool
  k_addresses_offset :: int
  k_offsets_offset :: int
  k_num_syms_offset :: int
  k_names_offset :: int
  k_markers_offset :: int
  k_token_table_offset :: int
  k_token_index_offset :: int
  k_approx_offset :: int
  k_approx_end :: int
  k_approx_num :: int
  k_marker_num :: int
  k_try_relo :: bool
  k_relo_applied :: bool
  k_kernel_base :: u64
  k_all_yes :: bool
  k_current_type :: current_type

definition zero_kallsym :: kallsym where
  "zero_kallsym = \<lparr>k_is_64 = False, k_is_be = False, k_major = 0, k_minor = 0, k_patch = 0, k_banners = [], k_banner_idx = 0,
     k_tokens = replicate KSYM_TOKEN_NUMS 0, k_long_size = 0, k_ptr_size = 0, k_markers_elem_size = 0, k_num_syms = 0,
     k_relative_base = False, k_addresses_offset = 0, k_offsets_offset = 0, k_num_syms_offset = 0, k_names_offset = 0,
     k_markers_offset = 0, k_token_table_offset = 0, k_token_index_offset = 0, k_approx_offset = 0, k_approx_end = 0,
     k_approx_num = 0, k_marker_num = 0, k_try_relo = False, k_relo_applied = False, k_kernel_base = 0, k_all_yes = False,
     k_current_type = SP_EL0\<rparr>"

definition init_arm64_kallsym :: kallsym where
  "init_arm64_kallsym = zero_kallsym\<lparr>k_is_64 := True, k_long_size := 4, k_ptr_size := 8, k_try_relo := True\<rparr>"

definition init_not_tested_arch_kallsym :: "bool \<Rightarrow> kallsym" where
  "init_not_tested_arch_kallsym is_64 =
     zero_kallsym\<lparr>k_is_64 := is_64, k_long_size := 4, k_ptr_size := (if is_64 then 8 else 4)\<rparr>"

section \<open>The version banner\<close>

definition is_space_byte :: "u8 \<Rightarrow> bool" where "is_space_byte c \<longleftrightarrow> c = 32 \<or> (9 \<le> c \<and> c \<le> 13)"
definition is_digit_byte :: "u8 \<Rightarrow> bool" where "is_digit_byte c \<longleftrightarrow> 48 \<le> c \<and> c \<le> 57"

definition digits_value :: "u8 list \<Rightarrow> nat" where
  "digits_value ds = foldl (\<lambda>v d. v * 10 + (unat d - 48)) 0 ds"

text \<open>The library's \<open>strtoul\<close> with base 10: the value and the position after the number.\<close>

definition strtoul :: "image \<Rightarrow> int \<Rightarrow> (u64 \<times> int) option" where
  "strtoul img p =
     (if p < 0 then None
      else let rest = drop (nat p) img; ws = takeWhile is_space_byte rest; rest1 = drop (length ws) rest;
               sgn = (rest1 \<noteq> [] \<and> (hd rest1 = 43 \<or> hd rest1 = 45));
               ds = takeWhile is_digit_byte (if sgn then tl rest1 else rest1);
               used = length ws + (if sgn then 1 else 0) + length ds;
               v = (if digits_value ds < 2 ^ 64 then of_nat (digits_value ds) else - 1)
           in if nat p + used \<ge> length img then None
              else if ds = [] then Some (0, p)
              else Some (if sgn \<and> hd rest1 = 45 then - v else v, p + int used))"

definition banner_prefix :: "u8 list" where
  "banner_prefix = map of_char ''Linux version ''"

lemma libc_memmem_bound:
  "libc_memmem img from n pat = Some i \<Longrightarrow> from \<le> i \<and> i + length pat \<le> from + n"
  by (auto simp: libc_memmem_def find_Some_iff)

text \<open>The banners: every position of the prefix that a digit and a dot follow, at most four.\<close>

function banner_loop :: "image \<Rightarrow> nat \<Rightarrow> int list \<Rightarrow> int list option" where
  "banner_loop img banner found =
     (case libc_memmem img (banner + 1) (length img - banner - 1) banner_prefix of
        None \<Rightarrow> Some found
      | Some banner \<Rightarrow>
          do { c \<leftarrow> img_byte img (int banner + 14);
               if \<not> is_digit_byte c then banner_loop img banner found
               else do { d \<leftarrow> img_byte img (int banner + 15);
                         if d \<noteq> 46 then banner_loop img banner found
                         else if length found \<ge> 4 then None
                         else banner_loop img banner (found @ [int banner]) } })"
  by pat_completeness auto
termination
  by (relation "measure (\<lambda>(img, banner, found). length img - banner)")
    (auto dest!: libc_memmem_bound simp: banner_prefix_def)

declare banner_loop.simps [simp del]

text \<open>The version of the last banner; the patch level is cut to one byte.\<close>

definition banner_version :: "image \<Rightarrow> int \<Rightarrow> (u8 \<times> u8 \<times> u8) option" where
  "banner_version img banner =
     do { (major, dot) \<leftarrow> strtoul img (banner + 14);
          (minor, dot) \<leftarrow> strtoul img (dot + 1);
          (patch, dot) \<leftarrow> strtoul img (dot + 1);
          let patch = (ucast patch :: s32);
          Some (ucast major, ucast minor, if patch \<le>s 256 then ucast patch else 255) }"

definition find_linux_banner :: "kallsym \<Rightarrow> image \<Rightarrow> (int \<times> kallsym) option" where
  "find_linux_banner info img =
     (if img = [] then None
      else do { found \<leftarrow> banner_loop img 0 [];
                if found = [] then None
                else do { (major, minor, patch) \<leftarrow> banner_version img (last found);
                          Some (0, info\<lparr>k_banners := found, k_major := major, k_minor := minor, k_patch := patch\<rparr>) } })"

definition kernel_if_need_patch :: "kallsym \<Rightarrow> image \<Rightarrow> (bool \<times> kallsym) option" where
  "kernel_if_need_patch info img =
     do { (rc, info) \<leftarrow> find_linux_banner info img;
          Some (\<not> k_major info < 6 \<and> \<not> k_minor info < 7, info) }"

section \<open>The token table\<close>

definition nums_syms :: "u8 list" where
  "nums_syms = concat (map (\<lambda>i. [48 + of_nat i, 0]) [0..<10])"

definition letters_syms :: "u8 list" where
  "letters_syms = concat (map (\<lambda>i. [97 + of_nat i, 0]) [0..<10])"

text \<open>The tokens between \<open>9\<close> and \<open>a\<close> are skipped by their terminators.\<close>

function skip_tokens :: "image \<Rightarrow> int \<Rightarrow> int \<Rightarrow> int option" where
  "skip_tokens img letter i =
     (if letter < int (length img) \<and> i < 39
      then do { c \<leftarrow> img_byte img letter; skip_tokens img (letter + 1) (if c = 0 then i + 1 else i) }
      else Some letter)"
  by pat_completeness auto
termination
  by (relation "measure (\<lambda>(img, letter, i). nat (int (length img) - letter))") auto

declare skip_tokens.simps [simp del]

definition bytes_at :: "image \<Rightarrow> int \<Rightarrow> nat \<Rightarrow> u8 list option" where
  "bytes_at img p n =
     (if 0 \<le> p \<and> p + int n \<le> int (length img) then Some (take n (drop (nat p) img)) else None)"

function token_search :: "image \<Rightarrow> nat \<Rightarrow> int option option" where
  "token_search img pos =
     (if pos \<ge> length img then None
      else case libc_memmem img pos (length img - pos) nums_syms of
        None \<Rightarrow> Some None
      | Some num_start \<Rightarrow>
          do { e \<leftarrow> img_byte img (int num_start + 20);
               f \<leftarrow> (if e = 0 then Some 0 else img_byte img (int num_start + 21));
               if e = 0 \<or> f = 0 then token_search img (num_start + 1)
               else do { letter \<leftarrow> skip_tokens img (int num_start + 20) 0;
                         s \<leftarrow> bytes_at img letter 20;
                         if s \<noteq> letters_syms then token_search img (num_start + 1)
                         else Some (Some (int num_start)) } })"
  by pat_completeness auto
termination
  by (relation "measure (\<lambda>(img, pos). length img - pos)") (auto dest!: libc_memmem_bound)

declare token_search.simps [simp del]

text \<open>Backward over 49 terminators to the start of the table.\<close>

function back_tokens :: "image \<Rightarrow> int \<Rightarrow> int \<Rightarrow> int option" where
  "back_tokens img pos i =
     (if 0 < pos \<and> i < 49
      then do { c \<leftarrow> img_byte img pos; back_tokens img (pos - 1) (if c = 0 then i + 1 else i) }
      else Some pos)"
  by pat_completeness auto
termination
  by (relation "measure (\<lambda>(img, pos, i). nat pos)") auto

declare back_tokens.simps [simp del]

fun rebuild_tokens :: "nat \<Rightarrow> image \<Rightarrow> int \<Rightarrow> int list option" where
  "rebuild_tokens 0 img pos = Some []"
| "rebuild_tokens (Suc n) img pos =
     do { s \<leftarrow> img_str img pos; ps \<leftarrow> rebuild_tokens n img (pos + int (length s) + 1); Some (pos # ps) }"

definition find_token_table :: "kallsym \<Rightarrow> image \<Rightarrow> (int \<times> kallsym) option" where
  "find_token_table info img =
     do { r \<leftarrow> token_search img 0;
          case r of None \<Rightarrow> Some (- 1, info)
          | Some num_start \<Rightarrow>
              do { pos \<leftarrow> back_tokens img num_start 0;
                   let offset = uint (align_ceil (of_int (pos + 2)) 4);
                   toks \<leftarrow> rebuild_tokens KSYM_TOKEN_NUMS img offset;
                   Some (0, info\<lparr>k_token_table_offset := offset, k_tokens := toks\<rparr>) } }"

fun token_indices :: "nat \<Rightarrow> image \<Rightarrow> int \<Rightarrow> int \<Rightarrow> u16 list option" where
  "token_indices 0 img start offset = Some []"
| "token_indices (Suc n) img start offset =
     do { s \<leftarrow> img_str img offset;
          is \<leftarrow> token_indices n img start (offset + int (length s) + 1);
          Some (of_int (offset - start) # is) }"

definition u16_bytes :: "u16 list \<Rightarrow> u8 list" where
  "u16_bytes xs = concat (map (\<lambda>x. [ucast x, ucast (drop_bit 8 x)]) xs)"

definition find_token_index :: "kallsym \<Rightarrow> image \<Rightarrow> (int \<times> kallsym) option" where
  "find_token_index info img =
     do { is \<leftarrow> token_indices KSYM_TOKEN_NUMS img (k_token_table_offset info) (k_token_table_offset info);
          let lepos = libc_memmem img 0 (length img) (u16_bytes (map u16le is));
          let bepos = libc_memmem img 0 (length img) (u16_bytes (map u16be is));
          Some (case (lepos, bepos) of
                  (None, None) \<Rightarrow> (- 1, info)
                | (Some p, _) \<Rightarrow> (0, info\<lparr>k_is_be := False, k_token_index_offset := int p\<rparr>)
                | (None, Some p) \<Rightarrow> (0, info\<lparr>k_is_be := True, k_token_index_offset := int p\<rparr>)) }"

section \<open>Sizes of the tables' elements\<close>

definition before_4_20 :: "kallsym \<Rightarrow> bool" where
  "before_4_20 info \<longleftrightarrow> k_major info < 4 \<or> (k_major info = 4 \<and> k_minor info < 20)"

definition get_markers_elem_size :: "kallsym \<Rightarrow> int" where
  "get_markers_elem_size info =
     (if k_markers_elem_size info \<noteq> 0 then k_markers_elem_size info
      else if before_4_20 info then k_ptr_size info else k_long_size info)"

definition get_num_syms_elem_size :: "kallsym \<Rightarrow> int" where
  "get_num_syms_elem_size info = (if before_4_20 info then k_ptr_size info else k_long_size info)"

definition get_addresses_elem_size :: "kallsym \<Rightarrow> int" where
  "get_addresses_elem_size info = k_ptr_size info"

definition get_offsets_elem_size :: "kallsym \<Rightarrow> int" where
  "get_offsets_elem_size info = k_long_size info"

definition table_elem_size :: "kallsym \<Rightarrow> int" where
  "table_elem_size info = (if k_relative_base info then get_offsets_elem_size info else get_addresses_elem_size info)"

section \<open>The relocation table of the image\<close>

definition rela_fields :: "kallsym \<Rightarrow> image \<Rightarrow> int \<Rightarrow> (u64 \<times> u64 \<times> u64) option" where
  "rela_fields info img cand =
     do { r_offset \<leftarrow> uint_unpack img cand 8 (k_is_be info);
          r_info \<leftarrow> uint_unpack img (cand + 8) 8 (k_is_be info);
          r_addend \<leftarrow> uint_unpack img (cand + 16) 8 (k_is_be info);
          Some (r_offset, r_info, r_addend) }"

text \<open>The scan for a run of entries; it yields where it ended, the entries counted and the lowest page address.\<close>

function rela_scan :: "kallsym \<Rightarrow> image \<Rightarrow> int \<Rightarrow> int \<Rightarrow> u64 \<Rightarrow> (int \<times> int \<times> u64) option" where
  "rela_scan info img cand rela_num kernel_va =
     (if cand < int (length img) - 24
      then do { (r_offset, r_info, r_addend) \<leftarrow> rela_fields info img cand;
                if r_offset AND 0xffff000000000000 = 0xffff000000000000 \<and> r_info = 0x403
                then rela_scan info img (cand + 24) (rela_num + 1)
                       (if r_addend AND 0xfff = 0 \<and> r_addend \<ge> ELF64_KERNEL_MIN_VA \<and> r_addend < kernel_va
                        then r_addend else kernel_va)
                else if rela_num \<noteq> 0 \<and> r_offset = 0 \<and> r_info = 0 \<and> r_addend = 0
                then rela_scan info img (cand + 24) (rela_num + 1) kernel_va
                else if rela_num \<ge> ARM64_RELO_MIN_NUM then Some (cand, rela_num, kernel_va)
                else rela_scan info img (cand + 8) 0 ELF64_KERNEL_MAX_VA }
      else Some (cand, rela_num, kernel_va))"
  by pat_completeness auto
termination
  by (relation "measure (\<lambda>(info, img, cand, rela_num, kernel_va). nat (int (length img) - cand))") auto

declare rela_scan.simps [simp del]

text \<open>Backward over trailing entries with an empty field, without a lower bound.\<close>

function rela_end :: "image \<Rightarrow> int \<Rightarrow> int option" where
  "rela_end img cand_end =
     (if cand_end < 0 then None
      else do { a \<leftarrow> img_load 8 img cand_end; b \<leftarrow> img_load 8 img (cand_end + 8); c \<leftarrow> img_load 8 img (cand_end + 16);
                if a \<noteq> 0 \<and> b \<noteq> 0 \<and> c \<noteq> 0 then Some cand_end else rela_end img (cand_end - 24) })"
  by pat_completeness auto
termination
  by (relation "measure (\<lambda>(img, cand_end). nat (cand_end + 1))") auto

declare rela_end.simps [simp del]

text \<open>Applying the entries: the result says whether a bad offset ended the loop, and counts the changes.\<close>

function rela_apply :: "kallsym \<Rightarrow> u64 \<Rightarrow> int \<Rightarrow> int \<Rightarrow> int \<Rightarrow> image \<Rightarrow> (bool \<times> int \<times> image) option" where
  "rela_apply info kernel_va cand_end cand num img =
     (if cand < cand_end
      then do { (r_offset, r_info, r_addend) \<leftarrow> rela_fields info img cand;
                let next = rela_apply info kernel_va cand_end (cand + 24);
                if r_offset = 0 \<and> r_info = 0 \<and> r_addend = 0 then next num img
                else if r_offset \<le> kernel_va \<or> r_offset \<ge> ELF64_KERNEL_MAX_VA - of_nat (length img) then next num img
                else let offset = sint (ucast (r_offset - kernel_va) :: s32)
                in if offset < 0 \<or> offset \<ge> int (length img) - 8 then Some (False, num, img)
                else do { val \<leftarrow> uint_unpack img offset 8 (k_is_be info);
                          if val = r_addend then next num img
                          else do { img \<leftarrow> img_store 8 img offset (val + r_addend); next (num + 1) img } } }
      else Some (True, num, img))"
  by pat_completeness auto
termination
  by (relation "measure (\<lambda>(info, kernel_va, cand_end, cand, num, img). nat (cand_end - cand))") auto

declare rela_apply.simps [simp del]

definition try_find_arm64_relo_table :: "kallsym \<Rightarrow> image \<Rightarrow> (int \<times> kallsym \<times> image) option" where
  "try_find_arm64_relo_table info img =
     (if \<not> k_try_relo info then Some (0, info, img)
      else do { (cand, rela_num, kernel_va) \<leftarrow> rela_scan info img 0 0 ELF64_KERNEL_MAX_VA;
                let info = (if k_kernel_base info \<noteq> 0 then info else info\<lparr>k_kernel_base := kernel_va\<rparr>);
                let kernel_va = k_kernel_base info;
                let cand_start = cand - 24 * rela_num;
                cand_end \<leftarrow> rela_end img (cand - 24);
                let cand_end = cand_end + 24;
                if (cand_end - cand_start) div 24 < ARM64_RELO_MIN_NUM then Some (0, info, img)
                else do { (ok, num, img) \<leftarrow> rela_apply info kernel_va cand_end cand_start 0 img;
                          Some (if \<not> ok then (- 1, info\<lparr>k_try_relo := False\<rparr>, img)
                                else let num = (if num \<noteq> 0 then num - 1 else num)
                                     in (0, if num \<noteq> 0 then info\<lparr>k_relo_applied := True\<rparr> else info, img)) } })"

section \<open>The tables of addresses and offsets\<close>

text \<open>A run of values that do not decrease; the scans use steps of one element.\<close>

partial_function (option) addresses_scan ::
    "kallsym \<Rightarrow> image \<Rightarrow> int \<Rightarrow> int \<Rightarrow> u64 \<Rightarrow> int \<Rightarrow> (int \<times> int) option" where
  "addresses_scan info img sz sym_num prev cand =
     (if cand < int (length img) - KSYM_MIN_NEQ_SYMS * sz
      then Option.bind (uint_unpack img cand sz (k_is_be info)) (\<lambda>address.
             if sym_num = 0
             then (if address AND 0xff \<noteq> 0 \<or> (sz = 4 \<and> address AND 0xff800000 \<noteq> 0xff800000) \<or>
                      (sz = 8 \<and> address AND 0xffff000000000000 \<noteq> 0xffff000000000000)
                   then addresses_scan info img sz 0 prev (cand + sz)
                   else addresses_scan info img sz 1 address (cand + sz))
             else if address \<ge> prev
             then (if sym_num \<ge> KSYM_MIN_NEQ_SYMS then Some (sym_num + 1, cand)
                   else addresses_scan info img sz (sym_num + 1) address (cand + sz))
             else addresses_scan info img sz 0 0 (cand + sz))
      else Some (sym_num, cand))"

partial_function (option) addresses_end :: "kallsym \<Rightarrow> image \<Rightarrow> int \<Rightarrow> u64 \<Rightarrow> int \<Rightarrow> int option" where
  "addresses_end info img sz prev cand =
     (if cand < int (length img)
      then Option.bind (uint_unpack img cand sz (k_is_be info)) (\<lambda>offset.
             if offset < prev then Some cand else addresses_end info img sz offset (cand + sz))
      else Some cand)"

definition find_approx_addresses :: "kallsym \<Rightarrow> image \<Rightarrow> (int \<times> kallsym) option" where
  "find_approx_addresses info img =
     (let sz = k_ptr_size info
      in do { (sym_num, cand) \<leftarrow> addresses_scan info img sz 0 0 0;
              if sym_num < KSYM_MIN_NEQ_SYMS then Some (- 1, info)
              else do { let start = cand - KSYM_MIN_NEQ_SYMS * sz;
                        e \<leftarrow> addresses_end info img sz 0 start;
                        Some (0, info\<lparr>k_approx_offset := start, k_approx_end := e, k_relative_base := False,
                                      k_approx_num := (e - start) div sz\<rparr>) } })"

partial_function (option) offsets_scan ::
    "kallsym \<Rightarrow> image \<Rightarrow> int \<Rightarrow> int \<Rightarrow> int \<Rightarrow> int \<Rightarrow> (int \<times> int) option" where
  "offsets_scan info img sz sym_num prev cand =
     (if cand < int (length img) - KSYM_MIN_NEQ_SYMS * sz
      then Option.bind (int_unpack img cand sz (k_is_be info)) (\<lambda>offset.
             if sint offset = prev then offsets_scan info img sz sym_num prev (cand + sz)
             else if sint offset > prev
             then (if sym_num \<ge> KSYM_MIN_NEQ_SYMS then Some (sym_num + 1, cand)
                   else offsets_scan info img sz (sym_num + 1) (sint offset) (cand + sz))
             else offsets_scan info img sz 0 0 (cand + sz))
      else Some (sym_num, cand))"

text \<open>Backward to the zeros in front of the table, and over at most ten of them.\<close>

partial_function (option) back_to_zero :: "kallsym \<Rightarrow> image \<Rightarrow> int \<Rightarrow> int \<Rightarrow> int option" where
  "back_to_zero info img sz cand =
     Option.bind (int_unpack img cand sz (k_is_be info)) (\<lambda>v.
       if v = 0 then Some cand else back_to_zero info img sz (cand - sz))"

partial_function (option) back_over_zeros :: "kallsym \<Rightarrow> image \<Rightarrow> int \<Rightarrow> int \<Rightarrow> int \<Rightarrow> int option" where
  "back_over_zeros info img sz zeros cand =
     Option.bind (int_unpack img cand sz (k_is_be info)) (\<lambda>v.
       if v \<noteq> 0 \<or> zeros \<ge> 10 then Some cand else back_over_zeros info img sz (zeros + 1) (cand - sz))"

partial_function (option) offsets_end :: "kallsym \<Rightarrow> image \<Rightarrow> int \<Rightarrow> int \<Rightarrow> int \<Rightarrow> int option" where
  "offsets_end info img sz prev cand =
     (if cand < int (length img)
      then Option.bind (int_unpack img cand sz (k_is_be info)) (\<lambda>offset.
             if sint offset < prev then Some cand else offsets_end info img sz (sint offset) (cand + sz))
      else Some cand)"

definition find_approx_offsets :: "kallsym \<Rightarrow> image \<Rightarrow> (int \<times> kallsym) option" where
  "find_approx_offsets info img =
     (let sz = k_long_size info
      in do { (sym_num, cand) \<leftarrow> offsets_scan info img sz 0 0 0;
              if sym_num < KSYM_MIN_NEQ_SYMS then Some (- 1, info)
              else do { z \<leftarrow> back_to_zero info img sz (cand - KSYM_MIN_NEQ_SYMS * sz);
                        z \<leftarrow> back_over_zeros info img sz 0 z;
                        let start = z + sz;
                        e \<leftarrow> offsets_end info img sz 0 start;
                        Some (0, info\<lparr>k_approx_offset := start, k_approx_end := e, k_relative_base := True,
                                      k_approx_num := (e - start) div sz\<rparr>) } })"

definition find_approx_addresses_or_offset :: "kallsym \<Rightarrow> image \<Rightarrow> (int \<times> kallsym) option" where
  "find_approx_addresses_or_offset info img =
     (if k_major info > 4 \<or> (k_major info = 4 \<and> k_minor info \<ge> 6)
      then do { (ret, info) \<leftarrow> find_approx_offsets info img;
                if ret = 0 then Some (0, info) else find_approx_addresses info img }
      else find_approx_addresses info img)"

text \<open>The number of symbols: a word before the names close to the approximate number.\<close>

function num_syms_scan :: "kallsym \<Rightarrow> image \<Rightarrow> int \<Rightarrow> (int \<times> int) option option" where
  "num_syms_scan info img cand =
     (if cand > k_names_offset info - 4096
      then do { v \<leftarrow> int_unpack img cand 4 (k_is_be info);
                let nsyms = sint (ucast v :: s32);
                if nsyms = 0 \<or> \<bar>k_approx_num info - nsyms\<bar> > 10 then num_syms_scan info img (cand - 4)
                else Some (Some (nsyms, cand)) }
      else Some None)"
  by pat_completeness auto
termination
  by (relation "measure (\<lambda>(info, img, cand). nat (cand - (k_names_offset info - 4096)))") auto

declare num_syms_scan.simps [simp del]

definition find_num_syms :: "kallsym \<Rightarrow> image \<Rightarrow> (int \<times> kallsym) option" where
  "find_num_syms info img =
     do { r \<leftarrow> num_syms_scan info img (k_names_offset info);
          let info = (case r of None \<Rightarrow> info
                      | Some (nsyms, cand) \<Rightarrow> info\<lparr>k_num_syms := nsyms, k_num_syms_offset := cand\<rparr>);
          Some (0, if k_num_syms_offset info = 0 \<or> k_num_syms info = 0
                   then info\<lparr>k_num_syms := k_approx_num info - 10\<rparr> else info) }"

section \<open>Markers and names\<close>

partial_function (option) markers_scan ::
    "kallsym \<Rightarrow> image \<Rightarrow> int \<Rightarrow> int \<Rightarrow> int \<Rightarrow> int \<Rightarrow> (int \<times> int) option" where
  "markers_scan info img sz last_marker count cand =
     (if cand > 0x10000
      then Option.bind (int_unpack img cand sz (k_is_be info)) (\<lambda>v.
             let marker = sint v
             in if last_marker > marker
                then (if marker = 0 \<and> count + 1 > KSYM_MIN_MARKER then Some (cand, count + 1)
                      else markers_scan info img sz marker (count + 1) (cand - sz))
                else markers_scan info img sz marker 0 (cand - sz))
      else Some (cand, count))"

definition find_markers_internal :: "kallsym \<Rightarrow> image \<Rightarrow> int \<Rightarrow> (int \<times> kallsym) option" where
  "find_markers_internal info img sz =
     do { (cand, count) \<leftarrow> markers_scan info img sz (int (length img)) 0 (k_token_table_offset info);
          Some (if count < KSYM_MIN_MARKER then (- 1, info)
                else (0, info\<lparr>k_markers_offset := cand, k_marker_num := count, k_markers_elem_size := sz\<rparr>)) }"

definition find_markers :: "kallsym \<Rightarrow> image \<Rightarrow> (int \<times> kallsym) option" where
  "find_markers info img =
     (let sz = get_markers_elem_size info
      in do { (rc, info) \<leftarrow> find_markers_internal info img sz;
              if rc \<noteq> 0 \<and> sz = 8 then find_markers_internal info img 4 else Some (rc, info) })"

text \<open>The length of a compressed name, in one byte or two, and the position behind it.\<close>

definition symbol_len :: "image \<Rightarrow> int \<Rightarrow> (int \<times> int) option" where
  "symbol_len img pos =
     do { b \<leftarrow> img_byte img pos;
          if b > 0x7F
          then do { c \<leftarrow> img_byte img (pos + 1); Some (uint (b AND 0x7F) + uint c * 128, pos + 2) }
          else Some (uint b, pos + 1) }"

definition bad_len :: "int \<Rightarrow> bool" where
  "bad_len len \<longleftrightarrow> len = 0 \<or> len \<ge> int KSYM_SYMBOL_LEN"

text \<open>
  Appending the tokens to the buffer of \<open>KSYM_SYMBOL_LEN\<close> bytes; \<open>strcat\<close> past its end is \<open>None\<close>.
  The first character of the first token is the type, not part of the name.
\<close>

definition token_text :: "kallsym \<Rightarrow> image \<Rightarrow> bool \<Rightarrow> u8 \<Rightarrow> u8 list option" where
  "token_text info org first t = img_str org (k_tokens info ! unat t + (if first then 1 else 0))"

fun expand_tokens :: "kallsym \<Rightarrow> image \<Rightarrow> bool \<Rightarrow> u8 list \<Rightarrow> u8 list \<Rightarrow> u8 list option" where
  "expand_tokens info org first [] out = Some out"
| "expand_tokens info org first (t # ts) out =
     do { s \<leftarrow> token_text info org first t;
          if length (out @ s) \<ge> KSYM_SYMBOL_LEN then None else expand_tokens info org False ts (out @ s) }"

text \<open>
  The result: the code, the position of the next name, the type and the name.  The buffer
  is empty before the call; a length that is zero or too large leaves everything as it was.
\<close>

definition decompress_symbol_name ::
    "kallsym \<Rightarrow> image \<Rightarrow> image \<Rightarrow> int \<Rightarrow> u8 \<Rightarrow> (int \<times> int \<times> u8 \<times> u8 list) option" where
  "decompress_symbol_name info org img pos_to_next ty =
     do { (len, pos) \<leftarrow> symbol_len img pos_to_next;
          if bad_len len then Some (- 1, pos_to_next, ty, [])
          else do { toks \<leftarrow> bytes_at img pos (nat len);
                    ty \<leftarrow> img_byte org (k_tokens info ! unat (hd toks));
                    name \<leftarrow> expand_tokens info org True toks [];
                    Some (0, pos + len, ty, name) } }"

fun match_tokens :: "kallsym \<Rightarrow> image \<Rightarrow> bool \<Rightarrow> u8 list \<Rightarrow> u8 list \<Rightarrow> nat \<Rightarrow> nat option" where
  "match_tokens info org first [] symbol symidx = Some symidx"
| "match_tokens info org first (t # ts) symbol symidx =
     do { s \<leftarrow> token_text info org first t;
          if take (length s) (drop symidx symbol) \<noteq> s then Some symidx
          else match_tokens info org False ts symbol (symidx + length s) }"

definition is_symbol_name_pos :: "kallsym \<Rightarrow> image \<Rightarrow> image \<Rightarrow> int \<Rightarrow> u8 list \<Rightarrow> bool option" where
  "is_symbol_name_pos info org img pos symbol =
     do { (len, pos) \<leftarrow> symbol_len img pos;
          if bad_len len then Some False
          else do { toks \<leftarrow> bytes_at img pos (nat len);
                    n \<leftarrow> match_tokens info org True toks symbol 0;
                    Some (length symbol = n) } }"

lemma symbol_len_bound: "symbol_len img pos = Some (len, pos1) \<Longrightarrow> pos < pos1 \<and> 0 \<le> len"
  by (auto simp: symbol_len_def split: bind_splits if_splits)

text \<open>The test of a candidate: the positions after every 256 names must be the markers; the markers left to test.\<close>

function names_test :: "kallsym \<Rightarrow> image \<Rightarrow> int \<Rightarrow> int \<Rightarrow> int \<Rightarrow> int \<Rightarrow> int option" where
  "names_test info img cand i pos left =
     (case symbol_len img pos of None \<Rightarrow> None
      | Some (len, pos1) \<Rightarrow>
          if bad_len len then Some left
          else if pos1 + len \<ge> k_markers_offset info then Some left
          else if i \<noteq> 0 \<and> i mod 256 = 255
          then do { v \<leftarrow> int_unpack img (k_markers_offset info + (i div 256 + 1) * get_markers_elem_size info)
                          (get_markers_elem_size info) (k_is_be info);
                    if pos1 + len - cand \<noteq> sint (ucast v :: s32) then Some left
                    else if left - 1 = 0 then Some 0
                    else names_test info img cand (i + 1) (pos1 + len) (left - 1) }
          else names_test info img cand (i + 1) (pos1 + len) left)"
  by pat_completeness auto
termination
  by (relation "measure (\<lambda>(info, img, cand, i, pos, left). nat (k_markers_offset info - pos))")
    (auto dest!: symbol_len_bound)

declare names_test.simps [simp del]

function names_scan :: "kallsym \<Rightarrow> image \<Rightarrow> int \<Rightarrow> int \<Rightarrow> (int \<times> int) option" where
  "names_scan info img cand left =
     (if cand < k_markers_offset info
      then do { left \<leftarrow> names_test info img cand 0 cand KSYM_FIND_NAMES_USED_MARKER;
                if left = 0 then Some (cand, 0) else names_scan info img (cand + 1) left }
      else Some (cand, left))"
  by pat_completeness auto
termination
  by (relation "measure (\<lambda>(info, img, cand, left). nat (k_markers_offset info - cand))") auto

declare names_scan.simps [simp del]

definition find_names :: "kallsym \<Rightarrow> image \<Rightarrow> (int \<times> kallsym) option" where
  "find_names info img =
     do { (cand, left) \<leftarrow> names_scan info img 0x4000 (- 1);
          Some (if left \<noteq> 0 then (- 1, info) else (0, info\<lparr>k_names_offset := cand\<rparr>)) }"

section \<open>Placing the table of addresses\<close>

definition insn_extract_system_reg :: "u32 \<Rightarrow> u32" where
  "insn_extract_system_reg insn = drop_bit 5 (insn AND 0x1FFFE0)"

definition insn_decode_register :: "register_type \<Rightarrow> u32 \<Rightarrow> u32" where
  "insn_decode_register type insn = drop_bit (register_shift type) insn AND 0x1F"

text \<open>The first six instructions of \<open>pid_vnr\<close>: one of them reads the current task.\<close>

fun verify_insns :: "nat \<Rightarrow> image \<Rightarrow> int \<Rightarrow> current_type option option" where
  "verify_insns 0 img offset = Some None"
| "verify_insns (Suc n) img offset =
     do { v \<leftarrow> uint_unpack img offset 4 False;
          let insn = (ucast v :: u32);
          if get_insn_class insn = CLS_BR_SYS \<and> insn_extract_system_reg insn = 0xC208 then Some (Some SP_EL0)
          else if get_insn_class insn = CLS_DP_IMM \<and> insn_decode_register REGTYPE_RN insn = 31 then Some (Some SP)
          else verify_insns n img (offset + 4) }"

definition arm64_verify_pid_vnr :: "kallsym \<Rightarrow> image \<Rightarrow> int \<Rightarrow> (int \<times> kallsym) option" where
  "arm64_verify_pid_vnr info img offset =
     do { r \<leftarrow> verify_insns 6 img offset;
          Some (case r of None \<Rightarrow> (- 1, info) | Some t \<Rightarrow> (0, info\<lparr>k_current_type := t\<rparr>)) }"

text \<open>The indices of \<open>vectors\<close> and \<open>pid_vnr\<close> in the table of names.\<close>

partial_function (option) vectors_scan ::
    "kallsym \<Rightarrow> image \<Rightarrow> image \<Rightarrow> int \<Rightarrow> int \<Rightarrow> int \<Rightarrow> int \<Rightarrow> (int \<times> int \<times> int \<times> int) option" where
  "vectors_scan info org img pos index vec pid =
     (if pos < k_markers_offset info
      then Option.bind (decompress_symbol_name info org img pos 0) (\<lambda>r.
             if fst r \<noteq> 0 then Some (fst r, pos, vec, pid)
             else let pos = fst (snd r); name = snd (snd (snd r));
                      vec1 = (if vec = 0 \<and> name = map of_char ''vectors'' then index else vec);
                      pid1 = (if \<not> (vec = 0 \<and> name = map of_char ''vectors'') \<and> pid = 0 \<and> name = map of_char ''pid_vnr''
                              then index else pid)
                  in if vec1 \<noteq> 0 \<and> pid1 \<noteq> 0 then Some (0, pos, vec1, pid1)
                     else vectors_scan info org img pos (index + 1) vec1 pid1)
      else Some (0, pos, vec, pid))"

definition off32 :: "u64 \<Rightarrow> u64 \<Rightarrow> int" where
  "off32 v base = sint (ucast (v - base) :: s32)"

text \<open>One base: the first position at which \<open>vectors\<close> looks right and \<open>pid_vnr\<close> is verified.\<close>

partial_function (option) vectors_place ::
    "kallsym \<Rightarrow> image \<Rightarrow> int \<Rightarrow> int \<Rightarrow> int \<Rightarrow> int \<Rightarrow> u64 \<Rightarrow> int \<Rightarrow> (bool \<times> int \<times> kallsym) option" where
  "vectors_place info img sz vec pid search_end base pos =
     (if pos < search_end
      then Option.bind (uint_unpack img (pos + vec * sz) sz (k_is_be info)) (\<lambda>v.
           Option.bind (uint_unpack img (pos + vec * sz + sz) sz (k_is_be info)) (\<lambda>w.
             if off32 w base - off32 v base \<ge> 0x600 \<and> off32 v base mod 2048 = 0
             then Option.bind (uint_unpack img (pos + pid * sz) sz (k_is_be info)) (\<lambda>p.
                  Option.bind (arm64_verify_pid_vnr info img (off32 p base)) (\<lambda>r.
                    if fst r = 0 then Some (True, pos, (snd r)\<lparr>k_kernel_base := base\<rparr>)
                    else vectors_place info img sz vec pid search_end base (pos + sz)))
             else vectors_place info img sz vec pid search_end base (pos + sz)))
      else Some (False, pos, info))"

fun vectors_bases ::
    "kallsym \<Rightarrow> image \<Rightarrow> int \<Rightarrow> int \<Rightarrow> int \<Rightarrow> int \<Rightarrow> u64 list \<Rightarrow> int \<Rightarrow> (int \<times> kallsym) option" where
  "vectors_bases info img sz vec pid search_end [] pos = Some (pos, info)"
| "vectors_bases info img sz vec pid search_end (base # bases) pos =
     do { (found, pos, info) \<leftarrow> vectors_place info img sz vec pid search_end base (k_approx_offset info);
          if found then Some (pos, info) else vectors_bases info img sz vec pid search_end bases pos }"

definition correct_addresses_or_offsets_by_vectors ::
    "kallsym \<Rightarrow> image \<Rightarrow> image \<Rightarrow> (int \<times> kallsym) option" where
  "correct_addresses_or_offsets_by_vectors info org img =
     do { (rc, pos, vec, pid) \<leftarrow> vectors_scan info org img (k_names_offset info) 0 0 0;
          if rc \<noteq> 0 then Some (rc, info)
          else if pos \<ge> k_markers_offset info then Some (- 1, info)
          else do { let sz = table_elem_size info;
                    bases \<leftarrow> (if k_relative_base info then Some [0]
                              else do { base \<leftarrow> uint_unpack img (k_approx_offset info) sz (k_is_be info);
                                        Some ([base] @ (if k_kernel_base info \<noteq> 0 then [k_kernel_base info] else []) @
                                              (if k_kernel_base info \<noteq> ELF64_KERNEL_MIN_VA then [ELF64_KERNEL_MIN_VA] else [])) });
                    let search_end = k_approx_end info - pid * sz;
                    (pos, info) \<leftarrow> vectors_bases info img sz vec pid search_end bases pos;
                    Some (if pos \<ge> search_end then (- 1, info)
                          else if k_relative_base info then (0, info\<lparr>k_offsets_offset := pos\<rparr>)
                          else (0, info\<lparr>k_addresses_offset := pos\<rparr>)) } }"

section \<open>Looking up symbols\<close>

definition get_symbol_index_offset :: "kallsym \<Rightarrow> image \<Rightarrow> int \<Rightarrow> int option" where
  "get_symbol_index_offset info img index =
     (let sz = table_elem_size info;
          pos = (if k_relative_base info then k_offsets_offset info else k_addresses_offset info)
      in do { target \<leftarrow> uint_unpack img (pos + index * sz) sz (k_is_be info);
              Some (if k_relative_base info then sint (ucast target :: s32) else off32 target (k_kernel_base info)) })"

text \<open>\<open>n\<close> names are left, the first of them with number \<open>i\<close>; a name that is refused is passed over as empty.\<close>

fun lookup_from :: "kallsym \<Rightarrow> image \<Rightarrow> image \<Rightarrow> u8 list \<Rightarrow> nat \<Rightarrow> int \<Rightarrow> int \<Rightarrow> u8 \<Rightarrow> int option option" where
  "lookup_from info org img symbol 0 i pos ty = Some None"
| "lookup_from info org img symbol (Suc n) i pos ty =
     do { (rc, pos, ty, decomp) \<leftarrow> decompress_symbol_name info org img pos ty;
          if decomp = symbol then Some (Some i) else lookup_from info org img symbol n (i + 1) pos ty }"

definition get_symbol_offset :: "kallsym \<Rightarrow> image \<Rightarrow> image \<Rightarrow> u8 list \<Rightarrow> int option" where
  "get_symbol_offset info org img symbol =
     do { r \<leftarrow> lookup_from info org img symbol (nat (k_num_syms info)) 0 (k_names_offset info) 0;
          case r of None \<Rightarrow> Some (- 1) | Some i \<Rightarrow> get_symbol_index_offset info img i }"

fun next_offset :: "kallsym \<Rightarrow> image \<Rightarrow> int \<Rightarrow> nat \<Rightarrow> int \<Rightarrow> int option" where
  "next_offset info img offset 0 j = Some 0"
| "next_offset info img offset (Suc n) j =
     do { next \<leftarrow> get_symbol_index_offset info img j;
          if next \<noteq> offset then Some (next - offset) else next_offset info img offset n (j + 1) }"

text \<open>The offset and the size, up to the next symbol with another offset.\<close>

definition get_symbol_offset_and_size :: "kallsym \<Rightarrow> image \<Rightarrow> image \<Rightarrow> u8 list \<Rightarrow> (int \<times> int) option" where
  "get_symbol_offset_and_size info org img symbol =
     do { r \<leftarrow> lookup_from info org img symbol (nat (k_num_syms info)) 0 (k_names_offset info) 0;
          case r of None \<Rightarrow> Some (- 1, 0)
          | Some i \<Rightarrow>
              do { offset \<leftarrow> get_symbol_index_offset info img i;
                   sz \<leftarrow> next_offset info img offset (nat (k_num_syms info - (i + 1))) (i + 1);
                   Some (offset, sz) } }"

fun each_symbol_from ::
    "kallsym \<Rightarrow> image \<Rightarrow> image \<Rightarrow> (int \<Rightarrow> u8 \<Rightarrow> u8 list \<Rightarrow> int \<Rightarrow> 's \<Rightarrow> int \<times> 's) \<Rightarrow> nat \<Rightarrow> int \<Rightarrow> int \<Rightarrow> u8 \<Rightarrow> 's \<Rightarrow> (int \<times> 's) option" where
  "each_symbol_from info org img fn 0 i pos ty st = Some (0, st)"
| "each_symbol_from info org img fn (Suc n) i pos ty st =
     do { (rc, pos, ty, symbol) \<leftarrow> decompress_symbol_name info org img pos ty;
          offset \<leftarrow> get_symbol_index_offset info img i;
          case fn i ty symbol offset st of
            (rc, st) \<Rightarrow> if rc \<noteq> 0 then Some (rc, st) else each_symbol_from info org img fn n (i + 1) pos ty st }"

definition on_each_symbol ::
    "kallsym \<Rightarrow> image \<Rightarrow> image \<Rightarrow> 's \<Rightarrow> (int \<Rightarrow> u8 \<Rightarrow> u8 list \<Rightarrow> int \<Rightarrow> 's \<Rightarrow> int \<times> 's) \<Rightarrow> (int \<times> 's) option" where
  "on_each_symbol info org img st fn =
     each_symbol_from info org img fn (nat (k_num_syms info)) 0 (k_names_offset info) 0 st"

text \<open>The lines \<open>dump_all_symbols\<close> prints: offset, type and name.\<close>

definition dump_all_symbols :: "kallsym \<Rightarrow> image \<Rightarrow> image \<Rightarrow> (int \<times> u8 \<times> u8 list) list option" where
  "dump_all_symbols info org img =
     map_option snd (each_symbol_from info org img (\<lambda>i ty symbol offset ls. (0, ls @ [(offset, ty, symbol)]))
       (nat (k_num_syms info)) 0 (k_names_offset info) 0 [])"

section \<open>Placing the table by the banner, and the whole analysis\<close>

partial_function (option) banner_scan ::
    "kallsym \<Rightarrow> image \<Rightarrow> image \<Rightarrow> int \<Rightarrow> int \<Rightarrow> (int \<times> int \<times> int) option" where
  "banner_scan info org img pos index =
     (if pos < k_markers_offset info
      then Option.bind (decompress_symbol_name info org img pos 0) (\<lambda>r.
             if fst r \<noteq> 0 then Some (fst r, pos, index)
             else if snd (snd (snd r)) = map of_char ''linux_banner'' then Some (0, fst (snd r), index)
             else banner_scan info org img (fst (snd r)) (index + 1))
      else Some (0, pos, index))"

text \<open>From each position of one page: is the banner's entry as far from it as the banner from the start?\<close>

partial_function (option) banner_place :: "kallsym \<Rightarrow> image \<Rightarrow> int \<Rightarrow> int \<Rightarrow> int \<Rightarrow> int \<Rightarrow> int \<Rightarrow> int option" where
  "banner_place info img sz index target e pos =
     (if pos < e
      then Option.bind (uint_unpack img pos sz (k_is_be info)) (\<lambda>base.
           Option.bind (uint_unpack img (pos + index * sz) sz (k_is_be info)) (\<lambda>v.
             if off32 v base = target then Some pos else banner_place info img sz index target e (pos + sz)))
      else Some pos)"

fun banner_try :: "kallsym \<Rightarrow> image \<Rightarrow> int \<Rightarrow> (int \<times> int) list \<Rightarrow> (int \<times> int) option option" where
  "banner_try info img index [] = Some None"
| "banner_try info img index ((i, target) # bs) =
     (let sz = table_elem_size info; e = k_approx_offset info + 4096 + sz
      in do { pos \<leftarrow> banner_place info img sz index target e (k_approx_offset info);
              if pos < e then Some (Some (i, pos)) else banner_try info img index bs })"

definition correct_addresses_or_offsets_by_banner ::
    "kallsym \<Rightarrow> image \<Rightarrow> image \<Rightarrow> (int \<times> kallsym) option" where
  "correct_addresses_or_offsets_by_banner info org img =
     do { (rc, pos, index) \<leftarrow> banner_scan info org img (k_names_offset info) 0;
          if rc \<noteq> 0 then Some (rc, info)
          else if pos \<ge> k_markers_offset info then Some (- 1, info)
          else do { r \<leftarrow> banner_try info img index (zip (map int [0..<length (k_banners info)]) (k_banners info));
                    case r of None \<Rightarrow> Some (- 1, info\<lparr>k_banner_idx := - 1\<rparr>)
                    | Some (i, pos) \<Rightarrow>
                        do { info \<leftarrow> (if k_relative_base info then Some (info\<lparr>k_banner_idx := i, k_offsets_offset := pos\<rparr>)
                               else do { base \<leftarrow> uint_unpack img pos (table_elem_size info) (k_is_be info);
                                         Some (info\<lparr>k_banner_idx := i, k_addresses_offset := pos, k_kernel_base := base\<rparr>) });
                             offset \<leftarrow> get_symbol_offset info org img (map of_char ''pid_vnr'');
                             (rc, info) \<leftarrow> arm64_verify_pid_vnr info img offset;
                             Some (0, info) } } }"

definition correct_addresses_or_offsets :: "kallsym \<Rightarrow> image \<Rightarrow> image \<Rightarrow> (int \<times> kallsym) option" where
  "correct_addresses_or_offsets info org img =
     do { (rc, info) \<leftarrow> correct_addresses_or_offsets_by_banner info org img;
          if rc = 0 then Some (0, info\<lparr>k_all_yes := True\<rparr>)
          else correct_addresses_or_offsets_by_vectors (info\<lparr>k_all_yes := False\<rparr>) org img }"

text \<open>The steps of one attempt; the first error ends it.\<close>

definition and_then :: "(int \<times> kallsym) option \<Rightarrow> (kallsym \<Rightarrow> (int \<times> kallsym) option) \<Rightarrow> (int \<times> kallsym) option" where
  "and_then r f = do { (rc, info) \<leftarrow> r; if rc \<noteq> 0 then Some (rc, info) else f info }"

definition retry_relo :: "kallsym \<Rightarrow> image \<Rightarrow> image \<Rightarrow> (int \<times> kallsym \<times> image) option" where
  "retry_relo info org img =
     do { (rc, info, img) \<leftarrow> try_find_arm64_relo_table info img;
          if rc \<noteq> 0 then Some (rc, info, img)
          else do { (rc, info) \<leftarrow>
                      and_then (and_then (and_then (and_then (find_markers info img)
                        (\<lambda>info. find_approx_addresses_or_offset info img)) (\<lambda>info. find_names info img))
                        (\<lambda>info. find_num_syms info img)) (\<lambda>info. correct_addresses_or_offsets info org img);
                    Some (rc, info, img) } }"

text \<open>Up to three attempts on fresh copies of the image; the last copy replaces the image.\<close>

definition analyze_kallsym_info :: "image \<Rightarrow> bool \<Rightarrow> bool \<Rightarrow> (int \<times> kallsym \<times> image) option" where
  "analyze_kallsym_info img arm64 is_64 =
     (let info = zero_kallsym\<lparr>k_is_64 := is_64, k_long_size := 4, k_ptr_size := (if is_64 then 8 else 4), k_try_relo := arm64\<rparr>
      in do { (rc, info) \<leftarrow> and_then (and_then (find_linux_banner info img) (\<lambda>info. find_token_table info img))
                               (\<lambda>info. find_token_index info img);
              if rc \<noteq> 0 then Some (rc, info, img)
              else do { (rc, info, copy) \<leftarrow> retry_relo info img img;
                        if rc = 0 then Some (0, info, copy)
                        else do { (rc, info, copy) \<leftarrow> (if k_try_relo info then Some (rc, info, copy) else retry_relo info img img);
                                  if rc = 0 then Some (0, info, copy)
                                  else if k_kernel_base info \<noteq> ELF64_KERNEL_MIN_VA
                                  then retry_relo (info\<lparr>k_kernel_base := ELF64_KERNEL_MIN_VA\<rparr>) img img
                                  else Some (rc, info, copy) } } })"

end
