(* ===== verification/Tool_Symbol.thy ===== *)
theory Tool_Symbol
  imports Kallsyms
begin

text \<open>
  The symbols the patched kernel needs, \<^verbatim>\<open>tools/symbol.c\<close>: look-ups that accept a missing symbol, end
  the program or try the name with a compiler's suffix, and the tables handed over to the kernel.
  The tool looks symbols up in the image it has analysed, so both images of the look-up are the same.
\<close>

definition bytes_of_string :: "string \<Rightarrow> u8 list" where "bytes_of_string s = map of_char s"

definition occurs_at :: "u8 list \<Rightarrow> u8 list \<Rightarrow> nat \<Rightarrow> bool" where
  "occurs_at s t i \<longleftrightarrow> take (length t) (drop i s) = t"

text \<open>\<open>strstr (symbol, name) == symbol\<close>, a dot or dollar behind the name, and no jump-table stub.\<close>

definition suffixed_match :: "u8 list \<Rightarrow> u8 list \<Rightarrow> bool" where
  "suffixed_match name symbol \<longleftrightarrow>
     occurs_at symbol name 0 \<and>
     (length name < length symbol \<and> (symbol ! length name = 0x2E \<or> symbol ! length name = 0x24)) \<and>
     \<not> (\<exists>i \<in> set [0..<Suc (length symbol)]. occurs_at symbol (bytes_of_string ''.cfi_jt'') i)"

definition on_each_symbol_callbackup :: "u8 list \<Rightarrow> int \<Rightarrow> u8 \<Rightarrow> u8 list \<Rightarrow> int \<Rightarrow> int \<Rightarrow> int \<times> int" where
  "on_each_symbol_callbackup name index type symbol offset addr =
     (if suffixed_match name symbol then (1, offset) else (0, addr))"

definition find_suffixed_symbol :: "kallsym \<Rightarrow> image \<Rightarrow> u8 list \<Rightarrow> int option" where
  "find_suffixed_symbol info img name =
     map_option snd (on_each_symbol info img img 0 (on_each_symbol_callbackup name))"

definition get_symbol_offset_zero :: "kallsym \<Rightarrow> image \<Rightarrow> string \<Rightarrow> int option" where
  "get_symbol_offset_zero info img symbol =
     do { offset \<leftarrow> get_symbol_offset info img img (bytes_of_string symbol); Some (if offset > 0 then offset else 0) }"

definition get_symbol_offset_exit :: "kallsym \<Rightarrow> image \<Rightarrow> string \<Rightarrow> tool_stop + int" where
  "get_symbol_offset_exit info img symbol =
     (case get_symbol_offset info img img (bytes_of_string symbol) of None \<Rightarrow> Inl Bad_access
      | Some offset \<Rightarrow> if offset \<ge> 0 then Inr offset else Inl Exit_failure)"

definition try_get_symbol_offset_zero :: "kallsym \<Rightarrow> image \<Rightarrow> string \<Rightarrow> int option" where
  "try_get_symbol_offset_zero info img symbol =
     do { offset \<leftarrow> get_symbol_offset info img img (bytes_of_string symbol);
          if offset > 0 then Some offset else find_suffixed_symbol info img (bytes_of_string symbol) }"

text \<open>The first of the candidates that is found.\<close>

fun get_cand_arr_symbol_offset_zero :: "kallsym \<Rightarrow> image \<Rightarrow> string list \<Rightarrow> int option" where
  "get_cand_arr_symbol_offset_zero info img [] = Some 0"
| "get_cand_arr_symbol_offset_zero info img (c # cs) =
     do { offset \<leftarrow> get_symbol_offset_zero info img c;
          if offset \<noteq> 0 \<or> cs = [] then Some offset else get_cand_arr_symbol_offset_zero info img cs }"

section \<open>The area for the map code\<close>

text \<open>
  The function \<open>tcp_init_sock\<close> is overwritten; its pointer-authentication instructions become NOPs.  An odd
  number of them means that one more follows in the next area.
\<close>

definition is_pac_hint :: "u64 \<Rightarrow> bool" where
  "is_pac_hint insn \<longleftrightarrow> insn AND 0xFFFFFD1F = 0xD503211F"

fun nop_pacs :: "image \<Rightarrow> int \<Rightarrow> nat \<Rightarrow> int \<Rightarrow> nat \<Rightarrow> (image \<times> nat) option" where
  "nop_pacs img addr 0 i count = Some (img, count)"
| "nop_pacs img addr (Suc n) i count =
     do { insn \<leftarrow> img_load 4 img (addr + i);
          if is_pac_hint insn
          then do { img \<leftarrow> img_store 4 img (addr + i) 0xD503201F; nop_pacs img addr n (i + 4) (count + 1) }
          else nop_pacs img addr n (i + 4) count }"

fun second_pac :: "image \<Rightarrow> int \<Rightarrow> nat \<Rightarrow> int \<Rightarrow> int option" where
  "second_pac img addr 0 j = Some 0"
| "second_pac img addr (Suc n) j =
     do { insn \<leftarrow> img_load 4 img (addr + j);
          if is_pac_hint insn then Some j else second_pac img addr n (j + 4) }"

definition select_map_area :: "kallsym \<Rightarrow> image \<Rightarrow> tool_stop + (image \<times> int \<times> int)" where
  "select_map_area info img =
     (case get_symbol_offset_exit info img ''tcp_init_sock'' of Inl e \<Rightarrow> Inl e
      | Inr addr \<Rightarrow>
          of_access (do { (img, count) \<leftarrow> nop_pacs img addr 512 0 0;
                          img \<leftarrow> (if odd count
                                   then do { pos \<leftarrow> second_pac img addr 512 0x800; img_store 4 img (addr + pos) 0xD503201F }
                                   else Some img);
                          Some (img, sint (ucast (align_floor (of_int addr) 16) :: s32), 0x800) }))"

section \<open>The tables of symbols\<close>

record map_symbol =
  memblock_reserve_relo :: u64
  memblock_free_relo :: u64
  memblock_phys_alloc_relo :: u64
  memblock_virt_alloc_relo :: u64
  memblock_mark_nomap_relo :: u64

text \<open>The loop that should change the byte order of all fields ends after the first.\<close>

definition fillin_map_symbol :: "kallsym \<Rightarrow> image \<Rightarrow> bool \<Rightarrow> tool_stop + map_symbol" where
  "fillin_map_symbol info img target_is_be =
     (case get_symbol_offset_exit info img ''memblock_reserve'' of Inl e \<Rightarrow> Inl e | Inr reserve \<Rightarrow>
      case get_symbol_offset_exit info img ''memblock_free'' of Inl e \<Rightarrow> Inl e | Inr free \<Rightarrow>
      case (do { nomap \<leftarrow> get_symbol_offset_zero info img ''memblock_mark_nomap'';
                 phys \<leftarrow> get_symbol_offset_zero info img ''memblock_phys_alloc_try_nid'';
                 virt \<leftarrow> get_symbol_offset_zero info img ''memblock_virt_alloc_try_nid'';
                 Some (nomap, phys, virt) }) of None \<Rightarrow> Inl Bad_access
      | Some (nomap, phys, virt) \<Rightarrow>
          if phys = 0 \<and> virt = 0 then Inl Exit_failure
          else case get_symbol_offset_zero info img ''memblock_alloc_try_nid'' of None \<Rightarrow> Inl Bad_access
          | Some alloc_nid \<Rightarrow>
              Inr \<lparr>memblock_reserve_relo = (if target_is_be then i64swp (of_int reserve) else of_int reserve),
                   memblock_free_relo = of_int free,
                   memblock_phys_alloc_relo = of_int (if phys = 0 then alloc_nid else phys),
                   memblock_virt_alloc_relo = of_int (if virt = 0 then alloc_nid else virt),
                   memblock_mark_nomap_relo = of_int nomap\<rparr>)"

record patch_symbols =
  ps_kallsyms_lookup_name :: u64
  ps_printk :: u64
  ps_panic :: u64
  ps_rest_init :: u64
  ps_cgroup_init :: u64
  ps_kernel_init :: u64
  ps_report_cfi_failure :: u64
  ps_cfi_slowpath_diag :: u64
  ps_cfi_slowpath :: u64
  ps_copy_process :: u64
  ps_cgroup_post_fork :: u64
  ps_avc_denied :: u64
  ps_slow_avc_audit :: u64
  ps_input_handle_event :: u64

text \<open>
  A second name is asked for only when the first one is missing; \<open>old\<close> is the table before the call.
  Here too only the first field changes its byte order.
\<close>

definition fillin_patch_config :: "kallsym \<Rightarrow> image \<Rightarrow> bool \<Rightarrow> bool \<Rightarrow> patch_symbols \<Rightarrow> tool_stop + patch_symbols" where
  "fillin_patch_config info img target_is_be is_android old =
     (case (do { panic \<leftarrow> get_symbol_offset_zero info img ''panic'';
                 rest_init \<leftarrow> try_get_symbol_offset_zero info img ''rest_init'';
                 cgroup_init \<leftarrow> (if rest_init = 0
                    then map_option of_int (try_get_symbol_offset_zero info img ''cgroup_init'') else Some (ps_cgroup_init old));
                 Some (panic, rest_init, cgroup_init) }) of None \<Rightarrow> Inl Bad_access
      | Some (panic, rest_init, cgroup_init) \<Rightarrow>
      if rest_init = 0 \<and> cgroup_init = 0 then Inl Exit_failure
      else case (do { kernel_init \<leftarrow> try_get_symbol_offset_zero info img ''kernel_init'';
                      report \<leftarrow> get_symbol_offset_zero info img ''report_cfi_failure'';
                      diag \<leftarrow> get_symbol_offset_zero info img ''__cfi_slowpath_diag'';
                      slowpath \<leftarrow> get_symbol_offset_zero info img ''__cfi_slowpath'';
                      copy_process \<leftarrow> try_get_symbol_offset_zero info img ''copy_process'';
                      post_fork \<leftarrow> (if copy_process = 0
                         then map_option of_int (get_symbol_offset_zero info img ''cgroup_post_fork'')
                         else Some (ps_cgroup_post_fork old));
                      Some (kernel_init, report, diag, slowpath, copy_process, post_fork) }) of None \<Rightarrow> Inl Bad_access
      | Some (kernel_init, report, diag, slowpath, copy_process, post_fork) \<Rightarrow>
      if copy_process = 0 \<and> post_fork = 0 then Inl Exit_failure
      else case try_get_symbol_offset_zero info img ''avc_denied'' of None \<Rightarrow> Inl Bad_access
      | Some avc_denied \<Rightarrow>
      if avc_denied = 0 \<and> is_android then Inl Exit_failure
      else of_access (do { slow_avc \<leftarrow> try_get_symbol_offset_zero info img ''slow_avc_audit'';
                           input \<leftarrow> get_symbol_offset_zero info img ''input_handle_event'';
                           Some (old\<lparr>ps_kallsyms_lookup_name := (if target_is_be then i64swp (ps_kallsyms_lookup_name old)
                               else ps_kallsyms_lookup_name old),
                             ps_panic := of_int panic, ps_rest_init := of_int rest_init, ps_cgroup_init := cgroup_init,
                             ps_kernel_init := of_int kernel_init, ps_report_cfi_failure := of_int report,
                             ps_cfi_slowpath_diag := of_int diag, ps_cfi_slowpath := of_int slowpath,
                             ps_copy_process := of_int copy_process, ps_cgroup_post_fork := post_fork,
                             ps_avc_denied := of_int avc_denied, ps_slow_avc_audit := of_int slow_avc,
                             ps_input_handle_event := of_int input\<rparr>) }))"

end
