(* ===== verification/Tool_Kpm.thy ===== *)
theory Tool_Kpm
  imports Tool_Image
begin

text \<open>
  What the tool reads of a module file, \<^verbatim>\<open>tools/kpm.c\<close>.  The file is a list of bytes, \<open>addr\<close> the address of
  its buffer; strings of the file are positions in it.  A read outside the file is \<open>None\<close>.
  The checks run on a 64-byte file header and section headers of 64 bytes.
\<close>

text \<open>A comparison of a string of the file with \<open>s\<close>, which stops at the first difference.\<close>

fun streq_at :: "image \<Rightarrow> int \<Rightarrow> u8 list \<Rightarrow> bool option" where
  "streq_at img p [] = map_option (\<lambda>b. b = 0) (img_byte img p)"
| "streq_at img p (c # cs) =
     do { b \<leftarrow> img_byte img p; if b = c then streq_at img (p + 1) cs else Some False }"

fun prefix_at :: "image \<Rightarrow> int \<Rightarrow> u8 list \<Rightarrow> bool option" where
  "prefix_at img p [] = Some True"
| "prefix_at img p (c # cs) =
     do { b \<leftarrow> img_byte img p; if b = c then prefix_at img (p + 1) cs else Some False }"

section \<open>The strings of the information section\<close>

text \<open>Over the bytes that are (or are not) NUL; the inner \<open>None\<close> is the null pointer at the end of the section.\<close>

function skip_file_chars :: "bool \<Rightarrow> image \<Rightarrow> int \<Rightarrow> u64 \<Rightarrow> (int \<times> u64) option option" where
  "skip_file_chars zero img p secsize =
     (case img_byte img p of None \<Rightarrow> None
      | Some b \<Rightarrow>
          if (b = 0) \<noteq> zero then Some (Some (p, secsize))
          else if secsize \<le> 1 then Some None
          else skip_file_chars zero img (p + 1) (secsize - 1))"
  by pat_completeness auto
termination
  by (relation "measure (\<lambda>(zero, img, p, secsize). nat (int (length img) - p))")
    (auto simp: img_byte_def split: if_splits)

declare skip_file_chars.simps [simp del]

definition next_file_string :: "image \<Rightarrow> int \<Rightarrow> u64 \<Rightarrow> (int \<times> u64) option option" where
  "next_file_string img string secsize =
     do { r \<leftarrow> skip_file_chars False img string secsize;
          case r of None \<Rightarrow> Some None | Some (string, secsize) \<Rightarrow> skip_file_chars True img string secsize }"

lemma skip_file_chars_le:
  "skip_file_chars zero img p sz = Some (Some (q, sz')) \<Longrightarrow> p \<le> q \<and> q < int (length img)"
proof (induction zero img p sz rule: skip_file_chars.induct)
  case (1 zero img p secsize)
  then show ?case
    by (subst (asm) (2) skip_file_chars.simps)
      (force simp: img_byte_def split: if_splits)
qed

lemma next_file_string_less:
  assumes "next_file_string img p sz = Some (Some (q, sz'))"
  shows "p < q \<and> q < int (length img)"
proof -
  obtain r s where r: "skip_file_chars False img p sz = Some (Some (r, s))" "skip_file_chars True img r s = Some (Some (q, sz'))"
    using assms by (auto simp: next_file_string_def split: bind_splits option.splits)
  have "img_byte img r = Some 0"
    using r(1) by (induction False img p sz rule: skip_file_chars.induct)
      (subst (asm) (2) skip_file_chars.simps, auto split: option.splits if_splits)
  then have "q \<noteq> r" using r(2)
    by (subst (asm) skip_file_chars.simps)
      (auto split: if_splits dest!: skip_file_chars_le)
  then show ?thesis using skip_file_chars_le [OF r(1)] skip_file_chars_le [OF r(2)] by simp
qed

function modinfo_strings :: "image \<Rightarrow> u8 list \<Rightarrow> int \<Rightarrow> u64 \<Rightarrow> int option option" where
  "modinfo_strings img tag p sz =
     (case prefix_at img p tag of None \<Rightarrow> None
      | Some hit \<Rightarrow>
          (case (if hit then map_option (\<lambda>b. b = 0x3D) (img_byte img (p + int (length tag))) else Some False) of
             None \<Rightarrow> None
           | Some True \<Rightarrow> Some (Some (p + int (length tag) + 1))
           | Some False \<Rightarrow>
               (case next_file_string img p sz of None \<Rightarrow> None | Some None \<Rightarrow> Some None
                | Some (Some (q, sz)) \<Rightarrow> modinfo_strings img tag q sz)))"
  by pat_completeness auto
termination
  by (relation "measure (\<lambda>(img, tag, p, sz). nat (int (length img) - p))")
    (auto dest!: next_file_string_less)

declare modinfo_strings.simps [simp del]

section \<open>Section headers\<close>

definition sh_field :: "image \<Rightarrow> int \<Rightarrow> nat \<Rightarrow> nat \<Rightarrow> int \<Rightarrow> u64 option" where
  "sh_field img sechdrs i n off = img_load n img (sechdrs + 64 * int i + off)"

fun find_file_sec :: "image \<Rightarrow> int \<Rightarrow> int \<Rightarrow> u8 list \<Rightarrow> nat list \<Rightarrow> nat option" where
  "find_file_sec img sechdrs secstrings name [] = Some 0"
| "find_file_sec img sechdrs secstrings name (i # is) =
     do { flags \<leftarrow> sh_field img sechdrs i 8 8;
          if flags AND 2 = 0 then find_file_sec img sechdrs secstrings name is
          else do { nm \<leftarrow> sh_field img sechdrs i 4 0;
                    same \<leftarrow> streq_at img (secstrings + uint nm) name;
                    if same then Some i else find_file_sec img sechdrs secstrings name is } }"

text \<open>
  The loop over the section headers: a section that leaves the file ends it with \<open>False\<close>; each header gets
  the address of its section in the buffer.
\<close>

fun place_file_secs :: "u64 \<Rightarrow> int \<Rightarrow> nat list \<Rightarrow> image \<Rightarrow> (bool \<times> image) option" where
  "place_file_secs addr sechdrs [] img = Some (True, img)"
| "place_file_secs addr sechdrs (i # is) img =
     do { type \<leftarrow> sh_field img sechdrs i 4 4; off \<leftarrow> sh_field img sechdrs i 8 24; sz \<leftarrow> sh_field img sechdrs i 8 32;
          if type \<noteq> 8 \<and> of_nat (length img) < off + sz then Some (False, img)
          else do { img \<leftarrow> img_store 8 img (sechdrs + 64 * int i + 16) (addr + off);
                    place_file_secs addr sechdrs is img } }"

record kpm_info =
  kpm_name :: "int option"
  kpm_version :: "int option"
  kpm_license :: "int option"
  kpm_author :: "int option"
  kpm_description :: "int option"

definition elf_header_ok :: "image \<Rightarrow> bool" where
  "elf_header_ok img \<longleftrightarrow>
     take 4 img = [0x7F, 0x45, 0x4C, 0x46] \<and> le_value (take 2 (drop 16 img)) = 1 \<and>
     le_value (take 2 (drop 18 img)) = 183 \<and> le_value (take 2 (drop 58 img)) = 64"

text \<open>
  The result, the buffer with its changed headers and the strings; -8 is \<open>-ENOEXEC\<close>.
\<close>

definition get_kpm_info :: "u64 \<Rightarrow> image \<Rightarrow> (int \<times> image \<times> kpm_info) option" where
  "get_kpm_info addr img =
     (let none = \<lparr>kpm_name = None, kpm_version = None, kpm_license = None, kpm_author = None, kpm_description = None\<rparr>;
          len = (of_nat (length img) :: u64); shoff = le_value (take 8 (drop 40 img));
          shnum = unat (le_value (take 2 (drop 60 img))); shstrndx = unat (le_value (take 2 (drop 62 img)))
      in if length img \<le> 64 then Some (- 8, img, none)
      else if \<not> elf_header_ok img then Some (- 8, img, none)
      else if shoff \<ge> len \<or> of_nat shnum * 64 > len - shoff then Some (- 8, img, none)
      else do { stroff \<leftarrow> sh_field img (uint shoff) shstrndx 8 24;
                img \<leftarrow> img_store 8 img (uint shoff + 16) 0;
                (ok, img) \<leftarrow> place_file_secs addr (uint shoff) [1..<shnum] img;
                if \<not> ok then Some (- 8, img, none)
                else do { i \<leftarrow> find_file_sec img (uint shoff) (uint stroff) (map of_char ''.kpm.info'') [1..<shnum];
                          if i = 0 then Some (- 8, img, none)
                          else do { off \<leftarrow> sh_field img (uint shoff) i 8 24; sz \<leftarrow> sh_field img (uint shoff) i 8 32;
                                    nm \<leftarrow> modinfo_strings img (map of_char ''name'') (uint off) sz;
                                    ver \<leftarrow> modinfo_strings img (map of_char ''version'') (uint off) sz;
                                    lic \<leftarrow> modinfo_strings img (map of_char ''license'') (uint off) sz;
                                    aut \<leftarrow> modinfo_strings img (map of_char ''author'') (uint off) sz;
                                    des \<leftarrow> modinfo_strings img (map of_char ''description'') (uint off) sz;
                                    Some (0, img, \<lparr>kpm_name = nm, kpm_version = ver, kpm_license = lic,
                                       kpm_author = aut, kpm_description = des\<rparr>) } } })"

end
