(* ===== verification/Image_Patch.thy ===== *)
theory Image_Patch
  imports Tool_Symbol Tool_Kpm Sha256 C_Format
begin

text \<open>
  Patching a kernel image, \<^verbatim>\<open>tools/patch.c\<close>: the image is followed by the patch code (with a preset area the
  code reads at boot) and by extra items; the first instruction is replaced by a branch to the patch code.
  Files are a map from paths to bytes.  Memory is a list of blocks: block 0 is the buffer of the kernel
  image, the others are allocated; a pointer is a block and an offset, an access outside its block is
  \<open>Bad_access\<close>, an \<open>exit\<close> with a message \<open>Exit_failure\<close>.  A big-endian image is refused by
  \<open>get_kernel_info\<close>, so the branches that swap bytes for one are never taken and are left out.
\<close>

definition tbind :: "tool_stop + 'a \<Rightarrow> ('a \<Rightarrow> tool_stop + 'b) \<Rightarrow> tool_stop + 'b" where
  "tbind r f = (case r of Inl e \<Rightarrow> Inl e | Inr x \<Rightarrow> f x)"

lemma tbind_simps [simp]: "tbind (Inl e) f = Inl e" "tbind (Inr x) f = f x"
  by (simp_all add: tbind_def)

lemma tbind_eq_Inr: "tbind r f = Inr y \<longleftrightarrow> (\<exists>x. r = Inr x \<and> f x = Inr y)"
  by (cases r) simp_all

lemma of_access_eq_Inr [simp]: "of_access r = Inr x \<longleftrightarrow> r = Some x"
  by (cases r) (simp_all add: of_access_def)

definition c_int :: "u64 \<Rightarrow> int" where
  "c_int x = sint (ucast x :: s32)"

definition align_4k :: "int \<Rightarrow> int" where
  "align_4k n = c_int (align_ceil (of_int n) 0x1000)"

definition img_write :: "image \<Rightarrow> int \<Rightarrow> u8 list \<Rightarrow> image option" where
  "img_write img p bs =
     (if 0 \<le> p \<and> p + int (length bs) \<le> int (length img)
      then Some (take (nat p) img @ bs @ drop (nat p + length bs) img) else None)"

definition img_int :: "image \<Rightarrow> int \<Rightarrow> int option" where
  "img_int img p = map_option c_int (img_load 4 img p)"

section \<open>Kernel image files\<close>

text \<open>
  \<open>kf_prefix\<close> are the bytes in front of the image (20 or none), \<open>kf_img\<close> the buffer from the image on and
  \<open>kf_img_len\<close> the length that counts; the length of the file is always their sum.
\<close>

record kernel_file =
  kf_prefix :: "u8 list"
  kf_img :: image
  kf_img_len :: int
  kf_uncompressed :: bool

type_synonym files = "u8 list \<Rightarrow> image option"

definition read_file_align :: "files \<Rightarrow> u8 list \<Rightarrow> u64 \<Rightarrow> tool_stop + image" where
  "read_file_align fs path align =
     (case fs path of None \<Rightarrow> Inl Exit_failure
      | Some con \<Rightarrow> Inr (con @ replicate (unat (align_ceil (of_nat (length con)) align) - length con) 0))"

definition read_file :: "files \<Rightarrow> u8 list \<Rightarrow> tool_stop + image" where
  "read_file fs path = read_file_align fs path 1"

definition split_kernel_file :: "image \<Rightarrow> kernel_file" where
  "split_kernel_file kfile =
     (let unc = length kfile \<ge> 20 \<and> take 16 kfile = map of_char ''UNCOMPRESSED_IMG''; n = (if unc then 20 else 0)
      in \<lparr>kf_prefix = take n kfile, kf_img = drop n kfile, kf_img_len = int (length kfile) - int n, kf_uncompressed = unc\<rparr>)"

definition read_kernel_file :: "files \<Rightarrow> u8 list \<Rightarrow> tool_stop + kernel_file" where
  "read_kernel_file fs path = tbind (read_file fs path) (\<lambda>kfile. Inr (split_kernel_file kfile))"

definition update_kernel_file_img_len :: "kernel_file \<Rightarrow> int \<Rightarrow> bool \<Rightarrow> kernel_file" where
  "update_kernel_file_img_len kf kimg_len is_different_endian =
     (let n = (of_int kimg_len :: s32)
      in kf\<lparr>kf_img_len := kimg_len,
            kf_prefix := (if kf_uncompressed kf
              then take 16 (kf_prefix kf) @ le_bytes 4 (ucast (if is_different_endian then i32swp n else n)) else kf_prefix kf)\<rparr>)"

text \<open>The allocated buffer holds what it held before; \<open>junk\<close> are those bytes.\<close>

definition new_kernel_file :: "(nat \<Rightarrow> u8) \<Rightarrow> kernel_file \<Rightarrow> int \<Rightarrow> bool \<Rightarrow> kernel_file" where
  "new_kernel_file junk old kimg_len is_different_endian =
     update_kernel_file_img_len
       \<lparr>kf_prefix = kf_prefix old, kf_img = map junk [0..<nat kimg_len], kf_img_len = 0, kf_uncompressed = kf_uncompressed old\<rparr>
       kimg_len is_different_endian"

definition kernel_file_bytes :: "kernel_file \<Rightarrow> image option" where
  "kernel_file_bytes kf =
     (if 0 \<le> kf_img_len kf \<and> kf_img_len kf \<le> int (length (kf_img kf))
      then Some (kf_prefix kf @ take (nat (kf_img_len kf)) (kf_img kf)) else None)"

definition write_kernel_file :: "kernel_file \<Rightarrow> u8 list \<Rightarrow> files \<Rightarrow> tool_stop + files" where
  "write_kernel_file kf path fs = tbind (of_access (kernel_file_bytes kf)) (\<lambda>bs. Inr (fs(path := Some bs)))"

section \<open>The preset area\<close>

text \<open>
  Offsets in the preset, from \<^verbatim>\<open>kernel/include/preset.h\<close>: the header of 64 bytes is followed by the fields
  of \<open>setup_preset_t\<close>.
\<close>

abbreviation (input) SETUP_AT :: int where "SETUP_AT \<equiv> 64"
abbreviation (input) PRESET_SIZE :: int where "PRESET_SIZE \<equiv> 1400"
abbreviation (input) ADDITIONAL_LEN :: int where "ADDITIONAL_LEN \<equiv> 512"

definition kp_magic :: "u8 list" where
  "kp_magic = map of_char ''KP1158'' @ [0, 0]"

definition get_preset :: "image \<Rightarrow> int option" where
  "get_preset kimg = map_option int (libc_memmem kimg 0 (length kimg) kp_magic)"

definition version_num :: "image \<Rightarrow> int \<Rightarrow> u32 option" where
  "version_num img p =
     do { pat \<leftarrow> img_byte img (p + 1); min \<leftarrow> img_byte img (p + 2); maj \<leftarrow> img_byte img (p + 3);
          Some (push_bit 16 (ucast maj) + push_bit 8 (ucast min) + ucast pat) }"

definition get_kpimg_version :: "files \<Rightarrow> u8 list \<Rightarrow> tool_stop + u32" where
  "get_kpimg_version fs path =
     tbind (read_file fs path) (\<lambda>kpimg.
       case get_preset kpimg of None \<Rightarrow> Inl Exit_failure | Some p \<Rightarrow> of_access (version_num kpimg (p + 8)))"

definition extra_str_type :: "string \<Rightarrow> s32" where
  "extra_str_type s =
     (if s = ''kpm'' then 1 else if s = ''exec'' then 3 else if s = ''shell'' then 2 else if s = ''raw'' then 4
      else if s = ''android_rc'' then 5 else 0)"

definition extra_type_str :: "s32 \<Rightarrow> string" where
  "extra_type_str t =
     (if t = 1 then ''kpm'' else if t = 3 then ''exec'' else if t = 2 then ''shell'' else if t = 4 then ''raw''
      else if t = 5 then ''android_rc'' else ''none'')"

definition bytes_to_hexstr :: "u8 list \<Rightarrow> string" where
  "bytes_to_hexstr data = concat (map fmt_02x data)"

text \<open>
  The key-value strings of the additional area, each behind its length.  A length above 127 is never stored,
  and the sign of its \<open>char\<close> is the host's choice: it is \<open>None\<close>.
\<close>

function additional_strings :: "image \<Rightarrow> int \<Rightarrow> int \<Rightarrow> u8 list list option" where
  "additional_strings img e pos =
     (if pos < e
      then (case img_byte img pos of None \<Rightarrow> None
            | Some len \<Rightarrow>
                if len = 0 then Some []
                else if len > 127 then None
                else do { s \<leftarrow> bytes_at img (pos + 1) (unat len); x \<leftarrow> img_byte img (pos + 1 + int (unat len));
                          ss \<leftarrow> additional_strings img e (pos + 1 + int (unat len));
                          Some (takeWhile (\<lambda>b. b \<noteq> 0) s # ss) })
      else Some [])"
  by pat_completeness auto
termination
  by (relation "measure (\<lambda>(img, e, pos). nat (e - pos))") (auto intro: less_le_trans [of _ 0])

declare additional_strings.simps [simp del]

definition text_line :: "string \<Rightarrow> u8 list \<Rightarrow> u8 list" where
  "text_line s bs = map of_char s @ bs @ [10]"

text \<open>What is printed of a preset.\<close>

definition print_preset_info :: "image \<Rightarrow> int \<Rightarrow> u8 list option" where
  "print_preset_info img p =
     do { ver \<leftarrow> version_num img (p + 8);
          flags \<leftarrow> img_load 8 img (p + 16);
          time \<leftarrow> img_str img (p + 24);
          key \<leftarrow> img_str img (p + SETUP_AT + 152);
          root \<leftarrow> bytes_at img (p + SETUP_AT + 216) 32;
          let add = p + SETUP_AT + (if ver \<le> 0xa04 then 824 - 96 else 824);
          ss \<leftarrow> additional_strings img (add + ADDITIONAL_LEN) add;
          Some (text_line ''[kpimg]'' [] @ text_line (''version=0x'' @ nat_str 16 (unat ver)) [] @
                text_line ''compile_time='' time @
                text_line (''config='' @ (if flags AND 2 \<noteq> 0 then ''android'' else ''linux'') @ '','' @
                           (if flags AND 1 \<noteq> 0 then ''debug'' else ''release'')) [] @
                text_line ''superkey='' key @
                (if ver > 0xa04 then text_line (''root_superkey='' @ bytes_to_hexstr root) [] else []) @
                text_line ''[additional]'' [] @ concat (map (text_line []) ss)) }"

definition print_kp_image_info_path :: "files \<Rightarrow> u8 list \<Rightarrow> tool_stop + (int \<times> u8 list)" where
  "print_kp_image_info_path fs path =
     tbind (read_file fs path) (\<lambda>kpimg.
       if get_preset kpimg \<noteq> Some 0 then Inr (- 2, [])
       else tbind (of_access (print_preset_info kpimg 0)) (\<lambda>out. Inr (0, out @ [10])))"


section \<open>Reading a patched image\<close>

text \<open>
  The first banner with a version.  The search takes the bytes from behind \<open>banner\<close> to one byte past the
  end of the image, a byte no banner can end in.
\<close>

function first_banner :: "image \<Rightarrow> nat \<Rightarrow> nat option option" where
  "first_banner img banner =
     (case libc_memmem img (banner + 1) (length img - banner) banner_prefix of None \<Rightarrow> Some None
      | Some banner \<Rightarrow>
          do { c \<leftarrow> img_byte img (int banner + 14);
               if \<not> is_digit_byte c then first_banner img banner
               else do { d \<leftarrow> img_byte img (int banner + 15);
                         if d \<noteq> 46 then first_banner img banner else Some (Some banner) } })"
  by pat_completeness auto
termination
  by (relation "measure (\<lambda>(img, banner). length img - banner)")
    (auto dest!: libc_memmem_bound simp: banner_prefix_def)

declare first_banner.simps [simp del]

text \<open>The items from \<open>pos\<close> on; the array of the caller has room for \<open>n\<close>.\<close>

fun parse_items :: "nat \<Rightarrow> image \<Rightarrow> int \<Rightarrow> int \<Rightarrow> int list option" where
  "parse_items n img pos e =
     (if pos < e
      then do { kpe \<leftarrow> streq_at img pos (map of_char ''kpe'');
                if \<not> kpe then Some []
                else do { type \<leftarrow> img_load 4 img (pos + 16);
                          if type = 0 then Some []
                          else if n = 0 then None
                          else do { args \<leftarrow> img_int img (pos + 8); con \<leftarrow> img_int img (pos + 12);
                                    ps \<leftarrow> parse_items (n - 1) img (pos + 128 + args + con) e; Some (pos # ps) } } }
      else Some [])"

declare parse_items.simps [simp del]

record patched_kimg =
  pk_img :: image \<comment> \<open>the image with its header restored\<close>
  pk_ori_len :: int
  pk_banner :: int
  pk_info :: kernel_info
  pk_preset :: "int option"
  pk_items :: "int list"

definition parse_image_patch_info :: "image \<Rightarrow> tool_stop + patched_kimg" where
  "parse_image_patch_info kimg =
     tbind (get_kernel_info kimg) (\<lambda>kinfo.
     tbind (of_access (first_banner kimg 0)) (\<lambda>banner.
       case banner of None \<Rightarrow> Inl Exit_failure
       | Some banner \<Rightarrow>
           let new = \<lparr>pk_img = kimg, pk_ori_len = int (length kimg), pk_banner = int banner, pk_info = kinfo,
                      pk_preset = get_preset kimg, pk_items = []\<rparr>
           in case get_preset kimg of None \<Rightarrow> Inr new
           | Some p \<Rightarrow>
               tbind (of_access (img_load 8 kimg (p + SETUP_AT + 8))) (\<lambda>saved.
                 if p \<noteq> align_4k (c_int saved) then Inl Exit_failure
                 else tbind (of_access (do { backup \<leftarrow> bytes_at kimg (p + SETUP_AT + 144) 8; img_write kimg 0 backup })) (\<lambda>img.
                      tbind (of_access (img_load 8 img (p + SETUP_AT + 16))) (\<lambda>kpimg_size.
                        let found = new\<lparr>pk_img := img, pk_ori_len := c_int saved\<rparr>; at = c_int (of_int p + kpimg_size)
                        in if at > int (length kimg) then Inl Exit_failure
                           else if at = int (length kimg) then Inr found
                           else of_access (do { extra_size \<leftarrow> img_load 8 img (p + SETUP_AT + 56);
                                                ps \<leftarrow> parse_items 32 img at (at + c_int extra_size);
                                                Some (found\<lparr>pk_items := ps\<rparr>) }))))))"

definition parse_image_patch_info_path :: "files \<Rightarrow> u8 list option \<Rightarrow> tool_stop + patched_kimg" where
  "parse_image_patch_info_path fs path =
     (case path of None \<Rightarrow> Inl Exit_failure
      | Some path \<Rightarrow> tbind (read_kernel_file fs path) (\<lambda>kf. parse_image_patch_info (kf_img kf)))"

text \<open>What is printed of an item, with the strings of a module's information; the image buffer is at \<open>addr\<close>.\<close>

definition print_item :: "u64 \<Rightarrow> image \<Rightarrow> nat \<Rightarrow> int \<Rightarrow> tool_stop + u8 list" where
  "print_item addr img i p =
     tbind (of_access (do { prio \<leftarrow> img_load 4 img (p + 4); args \<leftarrow> img_int img (p + 8); con \<leftarrow> img_int img (p + 12);
                            type \<leftarrow> img_load 4 img (p + 16); nm \<leftarrow> img_str img (p + 20); ev \<leftarrow> img_str img (p + 52);
                            s \<leftarrow> (if args > 0 then img_str img (p + 128) else Some []);
                            Some (prio, args, con, ucast type :: s32, nm, ev, s) }))
       (\<lambda>(prio, args, con, type, nm, ev, s).
          let lines = text_line (''[extra '' @ nat_str 10 i @ '']'') [] @ text_line (''index='' @ nat_str 10 i) [] @
                text_line (''type='' @ extra_type_str type) [] @ text_line ''name='' nm @ text_line ''event='' ev @
                text_line (''priority='' @ fmt_d (ucast prio)) [] @ text_line (''args_size=0x'' @ nat_str 16 (nat (args mod 2 ^ 32))) [] @
                text_line ''args='' s @ text_line (''con_size=0x'' @ nat_str 16 (nat (con mod 2 ^ 32))) []
          in if type \<noteq> 1 then Inr lines
             else tbind (of_access (bytes_at img (p + 128 + args) (nat con))) (\<lambda>kpm.
                  tbind (of_access (get_kpm_info (addr + of_int (p + 128 + args)) kpm)) (\<lambda>(rc, kpm, info).
                    if rc \<noteq> 0 then Inl Exit_failure
                    else of_access (do { v \<leftarrow> kpm_version info; l \<leftarrow> kpm_license info; a \<leftarrow> kpm_author info; d \<leftarrow> kpm_description info;
                           v \<leftarrow> img_str kpm v; l \<leftarrow> img_str kpm l; a \<leftarrow> img_str kpm a; d \<leftarrow> img_str kpm d;
                           Some (lines @ text_line ''version='' v @ text_line ''license='' l @ text_line ''author='' a @
                                 text_line ''description='' d) }))))"

fun print_items :: "u64 \<Rightarrow> image \<Rightarrow> nat \<Rightarrow> int list \<Rightarrow> tool_stop + u8 list" where
  "print_items addr img i [] = Inr []"
| "print_items addr img i (p # ps) =
     tbind (print_item addr img i p) (\<lambda>s. tbind (print_items addr img (i + 1) ps) (\<lambda>ss. Inr (s @ ss)))"

definition print_image_patch_info :: "u64 \<Rightarrow> patched_kimg \<Rightarrow> tool_stop + u8 list" where
  "print_image_patch_info addr pimg =
     tbind (of_access (img_str (pk_img pimg) (pk_banner pimg))) (\<lambda>banner.
       let lines = text_line ''[kernel]'' [] @ map of_char ''banner='' @ banner @ (if last banner \<noteq> 10 then [10] else []) @
                   text_line (''patched='' @ (if pk_preset pimg = None then ''false'' else ''true'')) []
       in case pk_preset pimg of None \<Rightarrow> Inr lines
          | Some p \<Rightarrow>
              tbind (of_access (print_preset_info (pk_img pimg) p)) (\<lambda>preset.
              tbind (print_items addr (pk_img pimg) 0 (pk_items pimg)) (\<lambda>items.
                Inr (lines @ preset @ text_line ''[extras]'' [] @
                     text_line (''num='' @ nat_str 10 (length (pk_items pimg))) [] @ items))))"


section \<open>Memory of the patch program\<close>

type_synonym c_heap = "image list"
type_synonym addr = "nat \<times> int"

definition h_load :: "nat \<Rightarrow> c_heap \<Rightarrow> addr \<Rightarrow> u64 option" where
  "h_load n h a = (if fst a < length h then img_load n (h ! fst a) (snd a) else None)"

definition h_write :: "c_heap \<Rightarrow> addr \<Rightarrow> u8 list \<Rightarrow> c_heap option" where
  "h_write h a bs =
     (if fst a < length h then map_option (\<lambda>img. h[fst a := img]) (img_write (h ! fst a) (snd a) bs) else None)"

definition h_bytes :: "c_heap \<Rightarrow> addr \<Rightarrow> int \<Rightarrow> u8 list option" where
  "h_bytes h a n = (if fst a < length h \<and> 0 \<le> n then bytes_at (h ! fst a) (snd a) (nat n) else None)"

definition h_str :: "c_heap \<Rightarrow> addr \<Rightarrow> u8 list option" where
  "h_str h a = (if fst a < length h then img_str (h ! fst a) (snd a) else None)"

definition h_int :: "c_heap \<Rightarrow> addr \<Rightarrow> int option" where
  "h_int h a = map_option c_int (h_load 4 h a)"

definition h_store32 :: "c_heap \<Rightarrow> addr \<Rightarrow> u64 \<Rightarrow> c_heap option" where
  "h_store32 h a v = h_write h a (le_bytes 4 v)"

definition h_strcpy :: "c_heap \<Rightarrow> addr \<Rightarrow> u8 list \<Rightarrow> c_heap option" where
  "h_strcpy h a s = h_write h a (s @ [0])"

definition h_strncpy :: "c_heap \<Rightarrow> addr \<Rightarrow> u8 list \<Rightarrow> nat \<Rightarrow> c_heap option" where
  "h_strncpy h a s n = h_write h a (take n s @ replicate (n - length s) 0)"

definition at_off :: "addr \<Rightarrow> int \<Rightarrow> addr" where
  "at_off a n = (fst a, snd a + n)"

section \<open>The extra items\<close>

text \<open>
  \<open>xc_path\<close> is the path of a file or the name of an item the image holds; \<open>xc_set_args\<close> points to the
  arguments, in the command line's memory or the image.
\<close>

record extra_config =
  xc_type :: s32
  xc_is_path :: bool
  xc_path :: "u8 list"
  xc_set_args :: "addr option"
  xc_set_name :: "u8 list option"
  xc_set_event :: "u8 list option"
  xc_priority :: s32
  xc_data :: "addr option"
  xc_item :: "addr option"

text \<open>A new item for a file: its name is the module's, or the last part of the path.\<close>

definition item_from_path :: "files \<Rightarrow> (nat \<Rightarrow> u64) \<Rightarrow> c_heap \<Rightarrow> extra_config \<Rightarrow> tool_stop + (c_heap \<times> extra_config \<times> addr option)" where
  "item_from_path fs addr_of h cfg =
     tbind (read_file_align fs (xc_path cfg) 0x10) (\<lambda>data.
       let item = (length h, 0); dat = length h + 1; cfg = cfg\<lparr>xc_data := Some (dat, 0)\<rparr>;
           done = (\<lambda>h. of_access (map_option (\<lambda>h. (h, cfg, Some item)) h))
       in tbind (of_access (h_store32 (h @ [replicate 128 0, data]) (at_off item 12) (of_nat (length data)))) (\<lambda>h.
            if xc_set_name cfg \<noteq> None then done (Some h)
            else if xc_type cfg = 1
            then tbind (of_access (get_kpm_info (addr_of dat) data)) (\<lambda>(rc, data, info).
                   if rc \<noteq> 0 then Inl Exit_failure
                   else done (do { nm \<leftarrow> kpm_name info; s \<leftarrow> img_str data nm; h_strcpy (h[dat := data]) (at_off item 20) s }))
            else done (h_strncpy h (at_off item 20) (rev (takeWhile (\<lambda>c. c \<noteq> 0x2F) (rev (xc_path cfg)))) 31)))"

text \<open>The first item of the name, or the last item if none has it.\<close>

fun find_item :: "image \<Rightarrow> u8 list \<Rightarrow> int option \<Rightarrow> int list \<Rightarrow> (bool \<times> int option) option" where
  "find_item img name prev [] = Some (False, prev)"
| "find_item img name prev (p # ps) =
     do { same \<leftarrow> streq_at img (p + 20) name; if same then Some (True, Some p) else find_item img name (Some p) ps }"

definition item_from_image :: "int list \<Rightarrow> c_heap \<Rightarrow> extra_config \<Rightarrow> tool_stop + (c_heap \<times> extra_config \<times> addr option)" where
  "item_from_image items h cfg =
     of_access (do { (found, p) \<leftarrow> find_item (hd h) (xc_path cfg) None items;
       if \<not> found then Some (h, cfg, map_option (\<lambda>p. (0, p)) p)
       else do { p \<leftarrow> p; args \<leftarrow> h_int h (0, p + 8); type \<leftarrow> h_load 4 h (0, p + 16);
                 Some (h, cfg\<lparr>xc_set_args := (if xc_set_args cfg = None \<and> args > 0 then Some (0, p + 128) else xc_set_args cfg),
                              xc_type := ucast type, xc_data := Some (0, p + 128 + args)\<rparr>, Some (0, p)) } })"

definition fill_extra :: "c_heap \<Rightarrow> extra_config \<Rightarrow> addr \<Rightarrow> c_heap option" where
  "fill_extra h cfg item =
     do { h \<leftarrow> h_strcpy h item (map of_char ''kpe'');
          h \<leftarrow> h_store32 h (at_off item 16) (ucast (xc_type cfg));
          h \<leftarrow> (case xc_set_args cfg of None \<Rightarrow> Some h
                 | Some a \<Rightarrow> do { s \<leftarrow> h_str h a; h_store32 h (at_off item 8) (align_ceil (of_nat (length s)) 0x10) });
          h \<leftarrow> (case xc_set_name cfg of None \<Rightarrow> Some h | Some s \<Rightarrow> h_strcpy h (at_off item 20) s);
          h \<leftarrow> (case xc_set_event cfg of None \<Rightarrow> Some h | Some s \<Rightarrow> h_strcpy h (at_off item 52) s);
          if xc_priority cfg \<noteq> 0 then h_store32 h (at_off item 4) (ucast (xc_priority cfg)) else Some h }"

definition prepare_config :: "files \<Rightarrow> (nat \<Rightarrow> u64) \<Rightarrow> int list \<Rightarrow> c_heap \<Rightarrow> extra_config \<Rightarrow> tool_stop + (c_heap \<times> extra_config)" where
  "prepare_config fs addr_of items h cfg =
     (if xc_is_path cfg \<and> xc_type cfg = 0 then Inl Exit_failure
      else if (\<exists>e. xc_set_event cfg = Some e \<and> length e \<ge> 32) \<or> (\<exists>n. xc_set_name cfg = Some n \<and> length n \<ge> 32)
      then Inl Exit_failure
      else tbind (if xc_is_path cfg then item_from_path fs addr_of h cfg else item_from_image items h cfg) (\<lambda>(h, cfg, item).
             case item of None \<Rightarrow> Inl Exit_failure
             | Some item \<Rightarrow> of_access (map_option (\<lambda>h. (h, cfg\<lparr>xc_item := Some item\<rparr>)) (fill_extra h cfg item))))"

fun prepare_configs :: "files \<Rightarrow> (nat \<Rightarrow> u64) \<Rightarrow> int list \<Rightarrow> c_heap \<Rightarrow> extra_config list \<Rightarrow> tool_stop + (c_heap \<times> extra_config list)" where
  "prepare_configs fs addr_of items h [] = Inr (h, [])"
| "prepare_configs fs addr_of items h (cfg # cfgs) =
     tbind (prepare_config fs addr_of items h cfg) (\<lambda>(h, cfg).
     tbind (prepare_configs fs addr_of items h cfgs) (\<lambda>(h, cfgs). Inr (h, cfg # cfgs)))"

text \<open>\<open>qsort\<close> with the highest priority first; the library keeps the order of equal ones.\<close>

definition sort_configs :: "extra_config list \<Rightarrow> extra_config list" where
  "sort_configs = sort_key (\<lambda>cfg. - sint (xc_priority cfg))"

text \<open>The sizes of the items and of the empty one behind them.\<close>

fun extra_sizes :: "c_heap \<Rightarrow> extra_config list \<Rightarrow> int option" where
  "extra_sizes h [] = Some 128"
| "extra_sizes h (cfg # cfgs) =
     do { item \<leftarrow> xc_item cfg; args \<leftarrow> h_int h (at_off item 8); con \<leftarrow> h_int h (at_off item 12);
          n \<leftarrow> extra_sizes h cfgs; Some (128 + args + con + n) }"

definition extra_append :: "image \<Rightarrow> u8 list \<Rightarrow> int \<Rightarrow> (image \<times> int) option" where
  "extra_append kimg data offset = map_option (\<lambda>img. (img, offset + int (length data))) (img_write kimg offset data)"

fun append_extras :: "c_heap \<Rightarrow> extra_config list \<Rightarrow> image \<Rightarrow> int \<Rightarrow> (image \<times> int) option" where
  "append_extras h [] out offset = extra_append out (replicate 128 0) offset"
| "append_extras h (cfg # cfgs) out offset =
     do { item \<leftarrow> xc_item cfg; args_len \<leftarrow> h_int h (at_off item 8); con_len \<leftarrow> h_int h (at_off item 12);
          bs \<leftarrow> h_bytes h item 128; (out, offset) \<leftarrow> extra_append out bs offset;
          (out, offset) \<leftarrow> (if args_len > 0
             then do { a \<leftarrow> xc_set_args cfg; bs \<leftarrow> h_bytes h a args_len; extra_append out bs offset } else Some (out, offset));
          (out, offset) \<leftarrow> (if con_len \<noteq> 0
             then do { a \<leftarrow> xc_data cfg; bs \<leftarrow> h_bytes h a con_len; extra_append out bs offset } else Some (out, offset));
          append_extras h cfgs out offset }"

text \<open>The code that maps the kernel position-independently is changed to copy another register.\<close>

definition disable_pi_map :: "image \<Rightarrow> image" where
  "disable_pi_map img =
     (let same = [0xE6, 0x03, 0x16, 0xAA, 0xE7, 0x03, 0x1F, 0x2A]
      in case libc_memmem img 0 (length img) (same @ [0x34, 0x11, 0x88, 0x9A]) of None \<Rightarrow> img
         | Some p \<Rightarrow> take p img @ same @ [0xF4, 0x03, 0x09, 0xAA] @ drop (p + 12) img)"


section \<open>Writing the patched image\<close>

text \<open>
  What the image is made of: the parsed image, the symbols and the image the analysis returned (\<open>kallsym_kimg\<close>),
  the patch code, the super key, the additional strings and the sorted items with their total size.
\<close>

record patch_job =
  pj_info :: kernel_info
  pj_img :: image
  pj_ori_len :: int
  pj_kallsym :: kallsym
  pj_kimg :: image
  pj_kpimg :: image
  pj_superkey :: "u8 list"
  pj_root_key :: bool
  pj_additional :: "u8 list list"
  pj_heap :: c_heap
  pj_configs :: "extra_config list"
  pj_extra_size :: int

definition align_kimg_len :: "patch_job \<Rightarrow> int" where
  "align_kimg_len job = align_4k (pj_ori_len job)"

definition out_img_len :: "patch_job \<Rightarrow> int" where
  "out_img_len job = align_kimg_len job + int (length (pj_kpimg job))"

definition out_all_len :: "patch_job \<Rightarrow> int" where
  "out_all_len job = out_img_len job + pj_extra_size job"

definition start_offset :: "patch_job \<Rightarrow> int" where
  "start_offset job =
     (let align_kernel_size = align_4k (sint (ki_kernel_size (pj_info job)))
      in if out_all_len job > align_kernel_size then align_4k (out_all_len job) else align_kernel_size)"

text \<open>Position of a field of the preset's setup part.\<close>

definition setup_field :: "patch_job \<Rightarrow> int \<Rightarrow> int" where
  "setup_field job off = align_kimg_len job + SETUP_AT + off"

definition place_images :: "patch_job \<Rightarrow> image \<Rightarrow> image option" where
  "place_images job out =
     do { kimg \<leftarrow> (if pj_ori_len job < 0 then None else bytes_at (pj_img job) 0 (nat (pj_ori_len job)));
          out \<leftarrow> img_write out 0 kimg;
          out \<leftarrow> img_write out (pj_ori_len job) (replicate (nat (align_kimg_len job - pj_ori_len job)) 0);
          img_write out (align_kimg_len job) (pj_kpimg job) }"

fun put_fields :: "patch_job \<Rightarrow> (int \<times> u64) list \<Rightarrow> image \<Rightarrow> image option" where
  "put_fields job [] out = Some out"
| "put_fields job ((off, v) # fs) out =
     do { out \<leftarrow> img_write out (setup_field job off) (le_bytes 8 v); put_fields job fs out }"

definition put_layout :: "patch_job \<Rightarrow> image \<Rightarrow> image option" where
  "put_layout job out =
     do { out \<leftarrow> img_write out (setup_field job 0) (replicate 1336 0);
          out \<leftarrow> img_write out (setup_field job 1) [k_patch (pj_kallsym job), k_minor (pj_kallsym job), k_major (pj_kallsym job)];
          put_fields job [(8, of_int (pj_ori_len job)), (16, of_nat (length (pj_kpimg job))),
            (24, scast (ki_kernel_size (pj_info job))), (32, scast (ki_page_shift (pj_info job))),
            (40, of_int (align_kimg_len job)), (48, of_int (start_offset job)), (56, of_int (pj_extra_size job))] out }"

text \<open>The code of \<open>tcp_init_sock\<close> is taken from the image of the analysis, as far as the original image goes.\<close>

definition sync_size :: "patch_job \<Rightarrow> int \<Rightarrow> int \<Rightarrow> int" where
  "sync_size job sync_start map_max_size =
     (if sync_start + map_max_size * 2 > pj_ori_len job then pj_ori_len job - sync_start else map_max_size * 2)"

definition sync_map_area :: "patch_job \<Rightarrow> image \<Rightarrow> int \<Rightarrow> int \<Rightarrow> image \<Rightarrow> image option" where
  "sync_map_area job kimg sync_start map_max_size out =
     (let n = sync_size job sync_start map_max_size
      in if n > 0 then do { bs \<leftarrow> bytes_at kimg sync_start (nat n); img_write out sync_start bs } else Some out)"

definition put_map_area :: "patch_job \<Rightarrow> image \<Rightarrow> tool_stop + (image \<times> image)" where
  "put_map_area job out =
     tbind (select_map_area (pj_kallsym job) (pj_kimg job)) (\<lambda>(kimg, map_start, map_max_size).
     tbind (of_access (put_fields job [(64, of_int map_start), (72, of_int map_max_size)] out)) (\<lambda>out.
     tbind (get_symbol_offset_exit (pj_kallsym job) kimg ''tcp_init_sock'') (\<lambda>tcp.
     tbind (of_access (sync_map_area job kimg tcp map_max_size out)) (\<lambda>out. Inr (kimg, out)))))"

definition put_symbols :: "patch_job \<Rightarrow> image \<Rightarrow> image \<Rightarrow> tool_stop + image" where
  "put_symbols job kimg out =
     tbind (get_symbol_offset_exit (pj_kallsym job) kimg ''kallsyms_lookup_name'') (\<lambda>kln.
     tbind (of_access (put_fields job [(80, of_int kln)] out)) (\<lambda>out.
     tbind (of_access (do { printk \<leftarrow> get_symbol_offset_zero (pj_kallsym job) kimg ''printk'';
                            if printk \<noteq> 0 then Some printk else get_symbol_offset_zero (pj_kallsym job) kimg ''_printk'' })) (\<lambda>printk.
     tbind (of_access (put_fields job [(96, of_int printk)] out)) (\<lambda>out.
       if printk = 0 then Inl Exit_failure
       else tbind (fillin_map_symbol (pj_kallsym job) kimg (ki_is_be (pj_info job))) (\<lambda>ms.
         of_access (put_fields job [(104, memblock_reserve_relo ms), (112, memblock_free_relo ms),
           (120, memblock_phys_alloc_relo ms), (128, memblock_virt_alloc_relo ms), (136, memblock_mark_nomap_relo ms)] out))))))"

text \<open>The backup of the header comes from the image of the analysis too.\<close>

definition put_backup :: "patch_job \<Rightarrow> image \<Rightarrow> image \<Rightarrow> image option" where
  "put_backup job kimg out = do { bs \<leftarrow> bytes_at kimg 0 8; img_write out (setup_field job 144) bs }"

definition no_patch_symbols :: patch_symbols where
  "no_patch_symbols = \<lparr>ps_kallsyms_lookup_name = 0, ps_printk = 0, ps_panic = 0, ps_rest_init = 0, ps_cgroup_init = 0,
     ps_kernel_init = 0, ps_report_cfi_failure = 0, ps_cfi_slowpath_diag = 0, ps_cfi_slowpath = 0, ps_copy_process = 0,
     ps_cgroup_post_fork = 0, ps_avc_denied = 0, ps_slow_avc_audit = 0, ps_input_handle_event = 0\<rparr>"

definition put_patch_config :: "patch_job \<Rightarrow> image \<Rightarrow> image \<Rightarrow> tool_stop + image" where
  "put_patch_config job kimg out =
     tbind (fillin_patch_config (pj_kallsym job) kimg (ki_is_be (pj_info job)) False no_patch_symbols) (\<lambda>ps.
       of_access (put_fields job
         (zip (map (\<lambda>i. 312 + 8 * int i) [0..<14])
           [ps_kallsyms_lookup_name ps, ps_printk ps, ps_panic ps, ps_rest_init ps, ps_cgroup_init ps, ps_kernel_init ps,
            ps_report_cfi_failure ps, ps_cfi_slowpath_diag ps, ps_cfi_slowpath ps, ps_copy_process ps, ps_cgroup_post_fork ps,
            ps_avc_denied ps, ps_slow_avc_audit ps, ps_input_handle_event ps]) out))"

text \<open>The super key itself, or its hash; \<open>ctx\<close> is what the context holds before it is initialised.\<close>

definition put_superkey :: "sha_ctx \<Rightarrow> patch_job \<Rightarrow> image \<Rightarrow> image option" where
  "put_superkey ctx job out =
     (let key = pj_superkey job
      in if \<not> pj_root_key job then img_write out (setup_field job 152) (take 63 key @ replicate (63 - length key) 0)
         else do { ctx \<leftarrow> sha256_update (\<lambda>i. (key @ [0]) ! i) (of_nat (min 64 (length key))) (sha256_init ctx);
                   img_write out (setup_field job 216) (snd (sha256_final ctx)) })"

text \<open>The entry of the kernel becomes a branch behind the first page of the patch code, if one can be encoded.\<close>

definition put_entry :: "patch_job \<Rightarrow> image \<Rightarrow> image \<Rightarrow> tool_stop + image" where
  "put_entry job kimg out =
     tbind (get_symbol_offset_exit (pj_kallsym job) kimg ''paging_init'') (\<lambda>paging_init.
     of_access (do { relo \<leftarrow> relo_branch_func kimg (of_int paging_init);
       out \<leftarrow> put_fields job [(88, scast relo)] out;
       let from = ki_b_stext_insn_offset (pj_info job);
       (case b_insn (scast from) (of_int (align_kimg_len job + 0x1000)) of None \<Rightarrow> Some out
        | Some (w, n) \<Rightarrow> img_write out (sint from) (le_bytes 4 (ucast w))) }))"

text \<open>Each string behind its length; the last byte \<open>strcpy\<close> writes may lie behind the area.\<close>

fun put_additional :: "int \<Rightarrow> int \<Rightarrow> u8 list list \<Rightarrow> image \<Rightarrow> tool_stop + image" where
  "put_additional e pos [] out = Inr out"
| "put_additional e pos (kv # kvs) out =
     (if 0x3D \<notin> set kv \<or> length kv > 127 \<or> pos + int (length kv) + 1 > e then Inl Exit_failure
      else tbind (of_access (img_write out pos (of_nat (length kv) # kv @ [0]))) (\<lambda>out.
             put_additional e (pos + 1 + int (length kv)) kvs out))"

definition assemble :: "sha_ctx \<Rightarrow> patch_job \<Rightarrow> image \<Rightarrow> tool_stop + image" where
  "assemble ctx job out =
     tbind (of_access (do { out \<leftarrow> place_images job out; put_layout job out })) (\<lambda>out.
     tbind (put_map_area job out) (\<lambda>(kimg, out).
     tbind (put_symbols job kimg out) (\<lambda>out.
     tbind (of_access (put_backup job kimg out)) (\<lambda>out.
     tbind (put_patch_config job kimg out) (\<lambda>out.
     tbind (of_access (put_superkey ctx job out)) (\<lambda>out.
     tbind (put_entry job kimg out) (\<lambda>out.
     tbind (put_additional (setup_field job (824 + ADDITIONAL_LEN)) (setup_field job 824) (pj_additional job) out) (\<lambda>out.
       of_access (map_option fst (append_extras (pj_heap job) (pj_configs job) out (out_img_len job)))))))))))"

text \<open>
  The whole program on the files \<open>fs\<close>.  \<open>args\<close> is the memory the arguments of the items lie in; \<open>junk\<close>, \<open>ctx\<close>
  and \<open>addr_of\<close> are the contents of fresh memory and the addresses of blocks.
\<close>

definition patch_update_img ::
    "(nat \<Rightarrow> u8) \<Rightarrow> sha_ctx \<Rightarrow> (nat \<Rightarrow> u64) \<Rightarrow> files \<Rightarrow> c_heap \<Rightarrow> u8 list \<Rightarrow> u8 list option \<Rightarrow> u8 list option \<Rightarrow>
     u8 list option \<Rightarrow> bool \<Rightarrow> u8 list list \<Rightarrow> extra_config list \<Rightarrow> tool_stop + files" where
  "patch_update_img junk ctx addr_of fs args kimg_path kpimg_path out_path superkey root_key additional configs =
     (case (kpimg_path, out_path, superkey) of
        (Some kpimg_path, Some out_path, Some superkey) \<Rightarrow>
          tbind (read_kernel_file fs kimg_path) (\<lambda>kf.
          tbind (parse_image_patch_info (kf_img kf)) (\<lambda>pimg.
          tbind (of_access (if pk_ori_len pimg < 0 then None else bytes_at (pk_img pimg) 0 (nat (pk_ori_len pimg)))) (\<lambda>kimg.
          tbind (of_access (kernel_if_need_patch zero_kallsym kimg)) (\<lambda>(need, _).
          let img = (if need then disable_pi_map (pk_img pimg) else pk_img pimg)
          in tbind (of_access (analyze_kallsym_info kimg True True)) (\<lambda>(rc, kallsym, kimg).
             if rc \<noteq> 0 then Inl Exit_failure
             else tbind (read_file_align fs kpimg_path 0x10) (\<lambda>kpimg.
                  tbind (prepare_configs fs addr_of (pk_items pimg) (img # args) configs) (\<lambda>(h, configs).
                  let configs = sort_configs configs
                  in tbind (of_access (extra_sizes h configs)) (\<lambda>extra_size.
                     let job = \<lparr>pj_info = pk_info pimg, pj_img = hd h, pj_ori_len = pk_ori_len pimg, pj_kallsym = kallsym,
                                pj_kimg = kimg, pj_kpimg = kpimg, pj_superkey = superkey, pj_root_key = root_key,
                                pj_additional = additional, pj_heap = h, pj_configs = configs, pj_extra_size = extra_size\<rparr>;
                         out = new_kernel_file junk kf (out_all_len job) False
                     in tbind (assemble ctx job (kf_img out)) (\<lambda>bs.
                          write_kernel_file (out\<lparr>kf_img := bs\<rparr>) out_path fs)))))))))
      | _ \<Rightarrow> Inl Exit_failure)"

section \<open>Undoing and changing a patch\<close>

definition unpatch_kernel :: "kernel_file \<Rightarrow> tool_stop + kernel_file" where
  "unpatch_kernel kf =
     (case get_preset (kf_img kf) of None \<Rightarrow> Inl Exit_failure
      | Some p \<Rightarrow>
          of_access (do { backup \<leftarrow> bytes_at (kf_img kf) (p + SETUP_AT + 144) 8;
            img \<leftarrow> img_write (kf_img kf) 0 backup;
            saved \<leftarrow> img_load 8 img (p + SETUP_AT + 8);
            Some (update_kernel_file_img_len (kf\<lparr>kf_img := img\<rparr>) (if saved \<noteq> 0 then c_int saved else p) False) }))"

definition unpatch_img :: "files \<Rightarrow> u8 list option \<Rightarrow> u8 list option \<Rightarrow> tool_stop + files" where
  "unpatch_img fs kimg_path out_path =
     (case (kimg_path, out_path) of
        (Some kimg_path, Some out_path) \<Rightarrow>
          tbind (read_kernel_file fs kimg_path) (\<lambda>kf. tbind (unpatch_kernel kf) (\<lambda>kf. write_kernel_file kf out_path fs))
      | _ \<Rightarrow> Inl Exit_failure)"

definition reset_key :: "files \<Rightarrow> u8 list option \<Rightarrow> u8 list option \<Rightarrow> u8 list option \<Rightarrow> tool_stop + files" where
  "reset_key fs kimg_path out_path superkey =
     (case (kimg_path, out_path, superkey) of
        (Some kimg_path, Some out_path, Some superkey) \<Rightarrow>
          if superkey = [] \<or> length superkey \<ge> 64 then Inl Exit_failure
          else tbind (read_kernel_file fs kimg_path) (\<lambda>kf.
            case get_preset (kf_img kf) of None \<Rightarrow> Inl Exit_failure
            | Some p \<Rightarrow>
                tbind (of_access (do { old \<leftarrow> img_str (kf_img kf) (p + SETUP_AT + 152);
                                       img_write (kf_img kf) (p + SETUP_AT + 152) (superkey @ [0]) })) (\<lambda>img.
                  write_kernel_file (kf\<lparr>kf_img := img\<rparr>) out_path fs))
      | _ \<Rightarrow> Inl Exit_failure)"

text \<open>The symbols printed, and -1 for an image without them.\<close>

definition dump_kallsym :: "files \<Rightarrow> u8 list option \<Rightarrow> tool_stop + (int \<times> (int \<times> u8 \<times> u8 list) list)" where
  "dump_kallsym fs kimg_path =
     (case kimg_path of None \<Rightarrow> Inl Exit_failure
      | Some path \<Rightarrow>
          tbind (read_kernel_file fs path) (\<lambda>kf.
          tbind (of_access (analyze_kallsym_info (kf_img kf) True True)) (\<lambda>(rc, info, img).
            if rc \<noteq> 0 then Inr (- 1, [])
            else tbind (of_access (dump_all_symbols info img img)) (\<lambda>ls. Inr (0, ls)))))"

end
