(* ===== verification/Kallsyms_Spec.thy ===== *)
theory Kallsyms_Spec
  imports Tool_Symbol
begin

text \<open>
  The inverse of the kernel's build: names compressed with a table of tokens, their lengths in one byte or
  two, and the table of offsets; and the proof that \<^verbatim>\<open>tools/kallsym.c\<close> reads back what was written.
\<close>

section \<open>Reading what the kernel's build wrote\<close>

definition enc_name :: "u8 list \<Rightarrow> u8 list" where
  "enc_name ts =
     (if length ts < 128 then [of_nat (length ts)]
      else [of_nat (length ts mod 128) OR 0x80, of_nat (length ts div 128)]) @ ts"

definition tokens_hold :: "kallsym \<Rightarrow> image \<Rightarrow> (u8 \<Rightarrow> u8 list) \<Rightarrow> bool" where
  "tokens_hold info org tok \<longleftrightarrow>
     (\<forall>t. 0 \<le> k_tokens info ! unat t \<and> tok t \<noteq> [] \<and> 0 \<notin> set (tok t) \<and>
          (\<exists>rest. drop (nat (k_tokens info ! unat t)) org = tok t @ 0 # rest))"

definition full_name :: "(u8 \<Rightarrow> u8 list) \<Rightarrow> u8 list \<Rightarrow> u8 list" where
  "full_name tok ts = concat (map tok ts)"

lemma img_str_at:
  assumes "drop (nat p) img = s @ 0 # rest" "0 \<notin> set s" "0 \<le> p"
  shows "img_str img p = Some s"
proof -
  have "takeWhile (\<lambda>b. b \<noteq> 0) (s @ 0 # rest) = s"
    using assms(2) by (subst takeWhile_append2) auto
  moreover have "nat p + length s < length img"
    using arg_cong [OF assms(1), of length] by (cases "nat p < length img") auto
  ultimately show ?thesis using assms(1,3) by (simp add: img_str_def)
qed

lemma img_byte_at:
  assumes "drop (nat p) img = s @ b # rest" "0 \<le> p"
  shows "img_byte img (p + int (length s)) = Some b"
proof -
  have l: "nat p + length s < length img"
    using arg_cong [OF assms(1), of length] by (cases "nat p < length img") auto
  have "img ! (nat p + length s) = drop (nat p) img ! length s" using l by simp
  also have "\<dots> = b" using assms(1) by simp
  finally show ?thesis using l assms(2) by (simp add: img_byte_def nat_add_distrib)
qed

lemma bytes_at_drop:
  assumes "drop (nat p) img = s @ xs @ rest" "0 \<le> p" "xs \<noteq> []"
  shows "bytes_at img (p + int (length s)) (length xs) = Some xs"
proof -
  have l: "nat p + length s + length xs \<le> length img"
    using arg_cong [OF assms(1), of length] assms(3) by (cases "nat p < length img") auto
  have "drop (nat p + length s) img = xs @ rest"
    using arg_cong [OF assms(1), of "drop (length s)"] by (simp add: add.commute)
  then show ?thesis using l assms(2)
    by (auto simp: bytes_at_def nat_add_distrib)
qed

lemma token_text_first:
  assumes "tokens_hold info org tok"
  shows "token_text info org first t = Some (if first then tl (tok t) else tok t)"
    "img_byte org (k_tokens info ! unat t) = Some (hd (tok t))"
proof -
  obtain rest where r: "drop (nat (k_tokens info ! unat t)) org = tok t @ 0 # rest"
    and w: "0 \<le> k_tokens info ! unat t" "tok t \<noteq> []" "0 \<notin> set (tok t)"
    using assms unfolding tokens_hold_def by blast
  obtain c cs where c: "tok t = c # cs" using w(2) by (cases "tok t") auto
  have d: "drop (nat (k_tokens info ! unat t + 1)) org = cs @ 0 # rest"
    using arg_cong [OF r, of "drop 1"] w(1) c by (simp add: nat_add_distrib)
  show "token_text info org first t = Some (if first then tl (tok t) else tok t)"
    using img_str_at [OF r w(3,1)] img_str_at [OF d] w c by (simp add: token_text_def)
  show "img_byte org (k_tokens info ! unat t) = Some (hd (tok t))"
    using img_byte_at [of "k_tokens info ! unat t" org "[]" c "cs @ 0 # rest"] r w(1) c by simp
qed

lemma expand_tokens_rest:
  assumes "tokens_hold info org tok"
  shows "expand_tokens info org False ts out =
    (if ts = [] \<or> length (out @ full_name tok ts) < KSYM_SYMBOL_LEN then Some (out @ full_name tok ts) else None)"
  by (induction ts arbitrary: out) (auto simp: full_name_def token_text_first [OF assms])

lemma expand_tokens_name:
  assumes "tokens_hold info org tok" "ts \<noteq> []"
  shows "expand_tokens info org True ts [] =
    (if length (full_name tok ts) \<le> KSYM_SYMBOL_LEN then Some (tl (full_name tok ts)) else None)"
proof -
  obtain t us where t: "ts = t # us" using assms(2) by (cases ts) auto
  have "tok t \<noteq> []" using assms(1) by (auto simp: tokens_hold_def)
  then show ?thesis
    by (cases "tok t") (auto simp: t full_name_def token_text_first [OF assms(1)] expand_tokens_rest [OF assms(1)])
qed

lemma symbol_len_enc:
  assumes "drop (nat pos) img = enc_name ts @ rest" "0 \<le> pos" "length ts < KSYM_SYMBOL_LEN"
  shows "symbol_len img pos = Some (int (length ts), pos + int (length (enc_name ts)) - int (length ts))"
proof (cases "length ts < 128")
  case True
  then have u: "unat (of_nat (length ts) :: u8) = length ts" by (simp add: unat_of_nat take_bit_nat_eq_self)
  have "\<not> (of_nat (length ts) :: u8) > 0x7F" using True u by (simp add: word_less_nat_alt)
  then show ?thesis
    using img_byte_at [of pos img "[]" "of_nat (length ts)" "ts @ rest"] assms True
    by (simp add: symbol_len_def enc_name_def uint_nat u)
next
  case False
  let ?a = "of_nat (length ts mod 128) OR 0x80 :: u8" and ?b = "of_nat (length ts div 128) :: u8"
  have d: "length ts div 128 < 4" using assms(3) by (simp add: less_mult_imp_div_less)
  have ub: "uint ?b = int (length ts div 128)" using d by (simp add: uint_nat unat_of_nat take_bit_nat_eq_self)
  have "uint (0x80 :: u8) \<le> uint (0x80 :: u8) OR uint (of_nat (length ts mod 128) :: u8)" by (rule or_greater_eq) simp
  also have "\<dots> = uint ?a" by (simp add: unsigned_or_eq or.commute)
  finally have a1: "?a > 0x7F" by (simp add: word_less_def)
  have "?a AND 0x7F = (of_nat (length ts mod 128) AND 0x7F) OR (0x80 AND 0x7F)" by (rule bit.conj_disj_distrib2)
  also have "\<dots> = take_bit 7 (of_nat (length ts mod 128))" by (simp add: take_bit_eq_mask mask_eq_exp_minus_1)
  also have "\<dots> = of_nat (take_bit 7 (length ts mod 128))" by (simp add: of_nat_take_bit)
  also have "\<dots> = of_nat (length ts mod 128)" by (simp add: take_bit_nat_eq_self)
  finally have ua: "uint (?a AND 0x7F) = int (length ts mod 128)"
    by (simp add: uint_nat unat_of_nat take_bit_nat_eq_self)
  have "length ts mod 128 + length ts div 128 * 128 = length ts" by (rule mod_div_mult_eq)
  then have sum: "int (length ts mod 128) + int (length ts div 128) * 128 = int (length ts)"
    by (metis of_nat_add of_nat_mult of_nat_numeral)
  have e: "enc_name ts = ?a # ?b # ts" using False by (simp add: enc_name_def)
  have b0: "img_byte img pos = Some ?a" and b1: "img_byte img (pos + 1) = Some ?b"
    using img_byte_at [of pos img "[]" ?a "?b # ts @ rest"] img_byte_at [of pos img "[?a]" ?b "ts @ rest"] assms(1,2) e by simp_all
  show ?thesis by (simp add: symbol_len_def b0 b1 a1 ua ub sum e)
qed

lemma decompress_enc:
  assumes "tokens_hold info org tok" "drop (nat pos) img = enc_name ts @ rest" "0 \<le> pos" "ts \<noteq> []" "length ts < KSYM_SYMBOL_LEN"
  shows "decompress_symbol_name info org img pos ty =
    (if length (full_name tok ts) \<le> KSYM_SYMBOL_LEN
     then Some (0, pos + int (length (enc_name ts)), hd (full_name tok ts), tl (full_name tok ts)) else None)"
proof -
  let ?h = "take (length (enc_name ts) - length ts) (enc_name ts)"
  have e: "enc_name ts = ?h @ ts" "length (enc_name ts) = length ?h + length ts" by (auto simp: enc_name_def)
  have "bytes_at img (pos + int (length ?h)) (length ts) = Some ts"
    using assms(2,3,4) e(1) by (intro bytes_at_drop) (simp_all add: append_assoc [symmetric] del: append_assoc)
  moreover have "hd (full_name tok ts) = hd (tok (hd ts))"
    using assms(1,4) by (cases ts) (auto simp: full_name_def tokens_hold_def)
  moreover have p: "pos + int (length (enc_name ts)) - int (length ts) = pos + int (length ?h)" using e(2) by simp
  moreover have "\<not> bad_len (int (length ts))" using assms(4,5) by (simp add: bad_len_def)
  ultimately show ?thesis
    using assms(4) e(2)
    by (simp add: decompress_symbol_name_def symbol_len_enc [OF assms(2,3,5)] p token_text_first(2) [OF assms(1)]
      expand_tokens_name [OF assms(1,4)] del: expand_tokens.simps length_take)
qed


lemma le_value_bytes: "le_value (le_bytes n v) = take_bit (8 * n) v"
proof (induction n arbitrary: v)
  case (Suc n)
  show ?case
  proof (rule bit_word_eqI)
    fix k assume "k < LENGTH(64)"
    then show "bit (le_value (le_bytes (Suc n) v)) k = bit (take_bit (8 * Suc n) v) k"
      by (cases "k < 8") (auto simp: Suc bit_simps)
  qed
qed simp

lemma length_le_bytes [simp]: "length (le_bytes n v) = n"
  by (induction n arbitrary: v) simp_all

lemma img_load_at:
  assumes "drop (nat p) img = s @ le_bytes n v @ rest" "0 \<le> p" "0 < n"
  shows "img_load n img (p + int (length s)) = Some (take_bit (8 * n) v)"
proof -
  have "length (le_bytes n v) = n" by simp
  then have ne: "le_bytes n v \<noteq> []" using assms(3) by (metis length_0_conv less_numeral_extra(3))
  show ?thesis
    using bytes_at_drop [OF assms(1,2) ne]
    by (auto simp: bytes_at_def img_load_def le_value_bytes split: if_splits)
qed

lemma drop_index:
  assumes "i < length xs" "\<forall>x \<in> set xs. length (f x) = n"
  shows "concat (map f xs) = concat (map f (take i xs)) @ f (xs ! i) @ concat (map f (drop (Suc i) xs))"
    "length (concat (map f (take i xs))) = i * n"
proof -
  have x: "xs = take i xs @ xs ! i # drop (Suc i) xs" using assms(1) by (rule id_take_nth_drop)
  show "concat (map f xs) = concat (map f (take i xs)) @ f (xs ! i) @ concat (map f (drop (Suc i) xs))"
    by (subst x) (simp del: append_take_drop_id)
  have "\<forall>x \<in> set (take i xs). length (f x) = n" using assms(2) by (auto dest: in_set_takeD)
  then have "sum_list (map (\<lambda>x. length (f x)) (take i xs)) = sum_list (map (\<lambda>x. n) (take i xs))"
    by (metis (mono_tags, lifting) map_eq_conv)
  then show "length (concat (map f (take i xs))) = i * n"
    using assms(1) by (simp add: length_concat comp_def sum_list_triv)
qed

text \<open>A table of symbols as the build lays it out: compressed names one after another, and 32-bit offsets.\<close>

definition good_name :: "(u8 \<Rightarrow> u8 list) \<Rightarrow> u8 list \<Rightarrow> bool" where
  "good_name tok ts \<longleftrightarrow> ts \<noteq> [] \<and> length ts < KSYM_SYMBOL_LEN \<and> length (full_name tok ts) \<le> KSYM_SYMBOL_LEN"

fun name_index :: "u8 list \<Rightarrow> u8 list list \<Rightarrow> nat option" where
  "name_index symbol [] = None"
| "name_index symbol (n # ns) = (if n = symbol then Some 0 else map_option Suc (name_index symbol ns))"

lemma name_index_map_of:
  "length ns = length vs \<Longrightarrow> map_of (zip ns vs) symbol = map_option (\<lambda>i. vs ! i) (name_index symbol ns)"
  by (induction ns vs rule: list_induct2) (auto simp: option.map_comp comp_def)

lemma name_index_less: "name_index symbol ns = Some i \<Longrightarrow> i < length ns"
  by (induction ns arbitrary: i) (auto split: if_splits)

lemma lookup_enc:
  assumes "tokens_hold info org tok" "\<forall>ts \<in> set names. good_name tok ts"
    "drop (nat pos) img = concat (map enc_name names) @ rest" "0 \<le> pos"
  shows "lookup_from info org img symbol (length names) i pos ty =
    Some (map_option (\<lambda>k. i + int k) (name_index symbol (map (\<lambda>ts. tl (full_name tok ts)) names)))"
  using assms(2-4)
proof (induction names arbitrary: i pos ty)
  case (Cons ts names)
  have g: "ts \<noteq> []" "length ts < KSYM_SYMBOL_LEN" "length (full_name tok ts) \<le> KSYM_SYMBOL_LEN"
    using Cons.prems(1) by (simp_all add: good_name_def)
  have d: "drop (nat pos) img = enc_name ts @ concat (map enc_name names) @ rest" using Cons.prems(2) by simp
  have r: "drop (nat (pos + int (length (enc_name ts)))) img = concat (map enc_name names) @ rest"
    using arg_cong [OF d, of "drop (length (enc_name ts))"] Cons.prems(3) by (simp add: nat_add_distrib add.commute)
  show ?case
    using Cons.IH [OF _ r] Cons.prems(1,3) decompress_enc [OF assms(1) d Cons.prems(3) g(1,2)] g(3)
    by (auto simp: option.map_comp comp_def algebra_simps)
qed simp

lemma get_symbol_offset_table:
  assumes "tokens_hold info org tok" "\<forall>ts \<in> set names. good_name tok ts"
    and "drop (nat (k_names_offset info)) img = concat (map enc_name names) @ rest" "0 \<le> k_names_offset info"
    and "k_num_syms info = int (length names)" "length offs = length names"
    and "k_relative_base info" "k_long_size info = 4" "\<not> k_is_be info" "0 \<le> k_offsets_offset info"
    and "drop (nat (k_offsets_offset info)) img = concat (map (\<lambda>x :: s32. le_bytes 4 (ucast x)) offs) @ rest'"
  shows "get_symbol_offset info org img symbol =
    Some (case map_of (zip (map (\<lambda>ts. tl (full_name tok ts)) names) offs) symbol of None \<Rightarrow> - 1 | Some x \<Rightarrow> sint x)"
proof -
  let ?ns = "map (\<lambda>ts. tl (full_name tok ts)) names"
  have entry: "get_symbol_index_offset info img (int i) = Some (sint (offs ! i))" if i: "i < length offs" for i
  proof -
    let ?f = "\<lambda>x :: s32. le_bytes 4 (ucast x)"
    have "drop (nat (k_offsets_offset info)) img =
        concat (map ?f (take i offs)) @ ?f (offs ! i) @ concat (map ?f (drop (Suc i) offs)) @ rest'"
      using assms(11) drop_index(1) [OF i, of ?f 4] by simp
    from img_load_at [OF this assms(10)]
    have "img_load 4 img (k_offsets_offset info + int i * 4) = Some (take_bit 32 (ucast (offs ! i)))"
      using drop_index(2) [OF i, of ?f 4] by simp
    moreover have "(ucast (ucast (ucast (take_bit 32 (ucast x :: u64)) :: u32) :: u64) :: s32) = x" for x :: s32
      by (rule bit_word_eqI) (simp add: bit_simps)
    ultimately show ?thesis
      using assms(7-9) by (simp add: get_symbol_index_offset_def table_elem_size_def get_offsets_elem_size_def uint_unpack_def)
  qed
  have "lookup_from info org img symbol (nat (k_num_syms info)) 0 (k_names_offset info) 0 =
      Some (map_option int (name_index symbol ?ns))"
    using lookup_enc [OF assms(1-4), of symbol 0 0] by (simp add: assms(5))
  moreover have "map_of (zip ?ns offs) symbol = map_option (\<lambda>i. offs ! i) (name_index symbol ?ns)"
    using assms(6) by (intro name_index_map_of) simp
  ultimately show ?thesis
    using name_index_less [of symbol ?ns] assms(6) entry
    by (auto simp: get_symbol_offset_def split: option.splits)
qed

text \<open>
  C18: From an image with the tables as the kernel's build lays them out, the look-up returns the offset of the
  first symbol of the name, and -1 when there is none, for every choice of the 256 tokens and every way
  the names are cut into them.
\<close>
theorem get_symbol_offset_correct:
  assumes "tokens_hold info org tok" "\<forall>ts \<in> set names. good_name tok ts"
    and "drop (nat (k_names_offset info)) img = concat (map enc_name names) @ rest" "0 \<le> k_names_offset info"
    and "k_num_syms info = int (length names)" "length offs = length names"
    and "k_relative_base info" "k_long_size info = 4" "\<not> k_is_be info" "0 \<le> k_offsets_offset info"
    and "drop (nat (k_offsets_offset info)) img = concat (map (\<lambda>x :: s32. le_bytes 4 (ucast x)) offs) @ rest'"
  shows "get_symbol_offset info org img symbol =
    Some (case map_of (zip (map (\<lambda>ts. tl (full_name tok ts)) names) offs) symbol of None \<Rightarrow> - 1 | Some x \<Rightarrow> sint x)"
  by (rule get_symbol_offset_table [OF assms])

definition demo_tok :: "u8 \<Rightarrow> u8 list" where
  "demo_tok t = [if t = 0 then 1 else t]"

definition demo_org :: image where
  "demo_org = concat (map (\<lambda>i. [if i = 0 then 1 else of_nat i, 0]) [0..<256])"

definition demo_table :: kallsym where
  "demo_table = zero_kallsym\<lparr>k_tokens := map (\<lambda>i. 2 * int i) [0..<256], k_num_syms := 2, k_relative_base := True,
     k_long_size := 4, k_names_offset := 0, k_offsets_offset := 6\<rparr>"

lemma drop_append_at: "xs = a @ b \<Longrightarrow> length a = n \<Longrightarrow> drop n xs = b"
  by simp

lemma le_bytes_4: "le_bytes 4 v = [ucast v, ucast (drop_bit 8 v), ucast (drop_bit 16 v), ucast (drop_bit 24 v)]"
proof -
  have "(4 :: nat) = Suc (Suc (Suc (Suc 0)))" by simp
  then show ?thesis by (simp only: le_bytes.simps) (simp add: drop_bit_drop_bit)
qed

lemma demo_org_token: "\<exists>rest. drop (2 * unat t) demo_org = demo_tok t @ 0 # rest"
proof -
  let ?f = "\<lambda>i. [if i = 0 then 1 else of_nat i, 0 :: u8]"
  have u: "unat t < length [0..<256]" using unat_bounds(1) [of t] by (simp del: upt_rec_numeral)
  have nth: "[0..<256] ! unat t = unat t" using u by (simp del: upt_rec_numeral)
  have n: "\<forall>x \<in> set [0..<256]. length (?f x) = 2" by (simp del: upt_rec_numeral)
  have l: "length (concat (map ?f (take (unat t) [0..<256]))) = 2 * unat t"
      using drop_index(2) [OF u n] by (simp del: upt_rec_numeral)
  have "demo_org = concat (map ?f (take (unat t) [0..<256])) @ ?f (unat t) @ concat (map ?f (drop (Suc (unat t)) [0..<256]))"
      using drop_index(1) [OF u n] unfolding demo_org_def nth .
  then have "drop (2 * unat t) demo_org = ?f (unat t) @ concat (map ?f (drop (Suc (unat t)) [0..<256]))"
      using l by (rule drop_append_at)
  moreover have "?f (unat t) = demo_tok t @ [0]" by (simp add: demo_tok_def unat_eq_0)
  ultimately show ?thesis by auto
qed

lemma demo_tokens_hold: "tokens_hold demo_table demo_org demo_tok"
proof -
  have "k_tokens demo_table ! unat t = 2 * int (unat t)" for t :: u8
    using unat_bounds(1) [of t] by (simp add: demo_table_def del: upt_rec_numeral)
  then show ?thesis using demo_org_token by (simp add: tokens_hold_def demo_tok_def nat_mult_distrib del: upt_rec_numeral)
qed

theorem get_symbol_offset_correct_witness:
  "get_symbol_offset demo_table demo_org [2, 84, 97, 2, 84, 98, 0, 0x10, 0, 0, 4, 0x20, 0, 0] [98] = Some 0x2004"
proof -
  let ?names = "[[84, 97], [84, 98]] :: u8 list list" and ?offs = "[0x1000, 0x2004] :: s32 list"
  let ?img = "[2, 84, 97, 2, 84, 98, 0, 0x10, 0, 0, 4, 0x20, 0, 0] :: u8 list"
  have f: "k_names_offset demo_table = 0" "k_num_syms demo_table = 2" "k_relative_base demo_table" "k_long_size demo_table = 4"
    "\<not> k_is_be demo_table" "k_offsets_offset demo_table = 6"
    by (simp_all add: demo_table_def zero_kallsym_def del: upt_rec_numeral)
  have g: "\<forall>ts \<in> set ?names. good_name demo_tok ts" by (simp add: good_name_def full_name_def demo_tok_def)
  have n: "drop (nat (k_names_offset demo_table)) ?img = concat (map enc_name ?names) @ [0, 0x10, 0, 0, 4, 0x20, 0, 0]"
    by (simp add: f enc_name_def)
  have o: "drop (nat (k_offsets_offset demo_table)) ?img = concat (map (\<lambda>x :: s32. le_bytes 4 (ucast x)) ?offs) @ []"
    by (simp add: f le_bytes_4)
  have "get_symbol_offset demo_table demo_org ?img [98] =
      Some (case map_of (zip (map (\<lambda>ts. tl (full_name demo_tok ts)) ?names) ?offs) [98] of None \<Rightarrow> - 1 | Some x \<Rightarrow> sint x)"
    by (rule get_symbol_offset_correct [OF demo_tokens_hold g n _ _ _ f(3-5) _ o]) (simp_all add: f)
  then show ?thesis by (simp add: full_name_def demo_tok_def)
qed

end
