(* ===== verification/Image_Patch_Spec.thy ===== *)
theory Image_Patch_Spec
  imports Image_Patch Kallsyms_Spec
begin

text \<open>
  What a patched image holds and what unpatching gives back (\<^verbatim>\<open>tools/patch.c\<close>): every step of the program
  writes to a range of the output; \<open>same_at P\<close> says that the positions with \<open>P\<close> keep their bytes.
\<close>

section \<open>Ranges that are kept\<close>

definition same_at :: "(int \<Rightarrow> bool) \<Rightarrow> image \<Rightarrow> image \<Rightarrow> bool" where
  "same_at P a b \<longleftrightarrow> length b = length a \<and> (\<forall>i < length a. P (int i) \<longrightarrow> b ! i = a ! i)"

lemma same_at_refl [simp]: "same_at P a a"
  by (simp add: same_at_def)

lemma same_at_trans: "same_at P a b \<Longrightarrow> same_at P b c \<Longrightarrow> same_at P a c"
  by (simp add: same_at_def)

lemma same_at_length: "same_at P a b \<Longrightarrow> length b = length a"
  by (simp add: same_at_def)

lemma img_write_nth:
  assumes "img_write img p bs = Some out"
  shows "length out = length img" "0 \<le> p" "p + int (length bs) \<le> int (length img)"
    "i < length img \<Longrightarrow> out ! i = (if nat p \<le> i \<and> i < nat p + length bs then bs ! (i - nat p) else img ! i)"
proof -
  have o: "out = take (nat p) img @ bs @ drop (nat p + length bs) img" and b: "0 \<le> p" "p + int (length bs) \<le> int (length img)"
    using assms by (auto simp: img_write_def split: if_splits)
  show "0 \<le> p" "p + int (length bs) \<le> int (length img)" by (fact b)+
  have n: "nat p + length bs \<le> length img" using b by linarith
  show "length out = length img" using n by (simp add: o)
  show "out ! i = (if nat p \<le> i \<and> i < nat p + length bs then bs ! (i - nat p) else img ! i)" if "i < length img"
    using n that by (auto simp: o nth_append min_def)
qed

lemma img_write_same:
  assumes "img_write img p bs = Some out" "\<And>i. P i \<Longrightarrow> i < p \<or> p + int (length bs) \<le> i"
  shows "same_at P img out"
proof -
  have "out ! i = img ! i" if "i < length img" "P (int i)" for i
    using img_write_nth(2) [OF assms(1)] img_write_nth(4) [OF assms(1) that(1)] assms(2) [OF that(2)] by auto
  then show ?thesis using img_write_nth(1) [OF assms(1)] by (simp add: same_at_def)
qed

lemma img_write_bytes:
  assumes "img_write img p bs = Some out" "k < length bs"
  shows "out ! (nat p + k) = bs ! k"
proof -
  have "nat p + k < length img" using img_write_nth(2,3) [OF assms(1)] assms(2) by linarith
  then show ?thesis using img_write_nth(4) [OF assms(1)] assms(2) by simp
qed

lemma put_fields_same:
  "put_fields job fs out = Some out' \<Longrightarrow>
   (\<And>off v i. (off, v) \<in> set fs \<Longrightarrow> P i \<Longrightarrow> i < setup_field job off \<or> setup_field job off + 8 \<le> i) \<Longrightarrow> same_at P out out'"
proof (induction fs arbitrary: out)
  case (Cons f fs)
  obtain off v where f: "f = (off, v)" by (cases f)
  obtain out1 where o: "img_write out (setup_field job off) (le_bytes 8 v) = Some out1" "put_fields job fs out1 = Some out'"
    using Cons.prems(1) by (auto simp: f split: bind_splits)
  have "same_at P out out1"
    using o(1) by (rule img_write_same) (use Cons.prems(2) [of off v] in \<open>simp add: f length_le_bytes\<close>)
  moreover have "same_at P out1 out'" using Cons.IH [OF o(2)] Cons.prems(2) by (meson list.set_intros(2))
  ultimately show ?case by (rule same_at_trans)
qed simp

text \<open>
  The kernel's part of the output and the header of the patch code, with the saved length (and the backup of
  the kernel's header) behind it.
\<close>

definition kept1 :: "patch_job \<Rightarrow> int \<Rightarrow> bool" where
  "kept1 job i \<longleftrightarrow> i < setup_field job 0 \<or> setup_field job 8 \<le> i \<and> i < setup_field job 16"

definition kept2 :: "patch_job \<Rightarrow> int \<Rightarrow> bool" where
  "kept2 job i \<longleftrightarrow> kept1 job i \<or> setup_field job 144 \<le> i \<and> i < setup_field job 152"

lemmas kept_defs = kept1_def kept2_def setup_field_def

lemma put_map_area_same:
  assumes "put_map_area job out = Inr (kimg, out')"
    and "select_map_area (pj_kallsym job) (pj_kimg job) = Inr (k, start, mx)"
    and "get_symbol_offset_exit (pj_kallsym job) k ''tcp_init_sock'' = Inr tcp"
  shows "kimg = k" "same_at (\<lambda>i. kept1 job i \<and> (i < tcp \<or> tcp + sync_size job tcp mx \<le> i)) out out'"
    "\<And>i. tcp \<le> int i \<Longrightarrow> int i < tcp + sync_size job tcp mx \<Longrightarrow> out' ! i = k ! i"
proof -
  let ?n = "sync_size job tcp mx"
  obtain out1 where o: "put_fields job [(64, of_int start), (72, of_int mx)] out = Some out1"
    "sync_map_area job k tcp mx out1 = Some out'" and k: "kimg = k"
    using assms by (auto simp: put_map_area_def tbind_eq_Inr)
  show "kimg = k" by (rule k)
  have s1: "same_at (kept1 job) out out1"
    using o(1) by (rule put_fields_same) (auto simp: kept_defs)
  have w: "out1 = out'" if "?n \<le> 0" using o(2) that by (simp add: sync_map_area_def)
  have b: "\<exists>bs. bytes_at k tcp (nat ?n) = Some bs \<and> img_write out1 tcp bs = Some out'" if "0 < ?n"
    using o(2) that by (auto simp: sync_map_area_def split: bind_splits)
  have len: "length bs = m \<and> (\<forall>j < m. bs ! j = k ! (nat p + j)) \<and> 0 \<le> p" if "bytes_at k p m = Some bs" for p m bs
    using that by (auto simp: bytes_at_def split: if_splits)
  show "same_at (\<lambda>i. kept1 job i \<and> (i < tcp \<or> tcp + ?n \<le> i)) out out'"
  proof (cases "0 < ?n")
    case True
    then obtain bs where bs: "bytes_at k tcp (nat ?n) = Some bs" "img_write out1 tcp bs = Some out'" using b by blast
    have "same_at (\<lambda>i. kept1 job i \<and> (i < tcp \<or> tcp + ?n \<le> i)) out1 out'"
      using bs(2) by (rule img_write_same) (use len [OF bs(1)] True in auto)
    then show ?thesis using s1 by (auto simp: same_at_def)
  next
    case False
    then show ?thesis using w s1 by (auto simp: same_at_def)
  qed
  show "out' ! i = k ! i" if i: "tcp \<le> int i" "int i < tcp + ?n" for i
  proof -
    obtain bs where bs: "bytes_at k tcp (nat ?n) = Some bs" "img_write out1 tcp bs = Some out'" using b i by force
    then have "i = nat tcp + (i - nat tcp)" "i - nat tcp < length bs" using len [OF bs(1)] i by auto
    then show ?thesis using img_write_bytes [OF bs(2), of "i - nat tcp"] len [OF bs(1)] by metis
  qed
qed

lemma put_symbols_same:
  assumes "put_symbols job kimg out = Inr out'"
  shows "same_at (kept1 job) out out'"
proof -
  obtain kln printk out1 out2 and ms :: map_symbol where
    "put_fields job [(80, of_int kln)] out = Some out1" "put_fields job [(96, of_int printk)] out1 = Some out2"
    "put_fields job [(104, memblock_reserve_relo ms), (112, memblock_free_relo ms),
           (120, memblock_phys_alloc_relo ms), (128, memblock_virt_alloc_relo ms), (136, memblock_mark_nomap_relo ms)] out2 = Some out'"
    using assms unfolding put_symbols_def by (auto simp: tbind_eq_Inr simp del: put_fields.simps split: if_splits)
  note o = this
  have "same_at (kept1 job) out out1" using o(1) by (rule put_fields_same) (auto simp: kept_defs)
  moreover have "same_at (kept1 job) out1 out2" using o(2) by (rule put_fields_same) (auto simp: kept_defs)
  moreover have "same_at (kept1 job) out2 out'" using o(3) by (rule put_fields_same) (auto simp: kept_defs)
  ultimately show ?thesis using same_at_trans by blast
qed

lemma put_patch_config_same:
  assumes "put_patch_config job kimg out = Inr out'"
  shows "same_at (kept2 job) out out'"
proof -
  obtain fs where "put_fields job (zip (map (\<lambda>i. 312 + 8 * int i) [0..<14]) fs) out = Some out'"
    using assms unfolding put_patch_config_def by (auto simp: tbind_eq_Inr)
  then show ?thesis
    by (rule put_fields_same) (auto dest!: set_zip_leftD simp: kept_defs simp del: upt_rec_numeral)
qed

lemma put_superkey_same:
  assumes "put_superkey ctx job out = Some out'"
  shows "same_at (kept2 job) out out'"
proof (cases "pj_root_key job")
  case True
  then obtain c where "img_write out (setup_field job 216) (snd (sha256_final c)) = Some out'"
    using assms by (auto simp: put_superkey_def Let_def split: bind_splits)
  then show ?thesis by (rule img_write_same) (auto simp: kept_defs)
next
  case False
  then have "img_write out (setup_field job 152) (take 63 (pj_superkey job) @ replicate (63 - length (pj_superkey job)) 0) = Some out'"
    using assms by (simp add: put_superkey_def Let_def)
  then show ?thesis by (rule img_write_same) (auto simp: kept_defs)
qed

text \<open>The byte of the branch at a position of the kernel's entry.\<close>

definition entry_at :: "patch_job \<Rightarrow> nat \<Rightarrow> u8 option" where
  "entry_at job i =
     (let from = ki_b_stext_insn_offset (pj_info job); p = nat (sint from)
      in case b_insn (scast from) (of_int (align_kimg_len job + 0x1000)) of None \<Rightarrow> None
         | Some (w, n) \<Rightarrow> if p \<le> i \<and> i < p + 4 then Some (le_bytes 4 (ucast w) ! (i - p)) else None)"

lemma entry_at_first:
  "ki_b_stext_insn_offset (pj_info job) \<in> {0, 4} \<Longrightarrow> 8 \<le> i \<Longrightarrow> entry_at job i = None"
  by (auto simp: entry_at_def Let_def split: option.splits)

lemma put_entry_bytes:
  assumes "put_entry job kimg out = Inr out'"
  shows "length out' = length out"
    "i < length out \<Longrightarrow> kept2 job (int i) \<Longrightarrow> out' ! i = (case entry_at job i of Some b \<Rightarrow> b | None \<Rightarrow> out ! i)"
proof -
  let ?from = "ki_b_stext_insn_offset (pj_info job)"
  obtain relo out1 where o: "put_fields job [(88, relo)] out = Some out1"
    and b: "(case b_insn (scast ?from) (of_int (align_kimg_len job + 0x1000)) of None \<Rightarrow> Some out1
        | Some (w, n) \<Rightarrow> img_write out1 (sint ?from) (le_bytes 4 (ucast w))) = Some out'"
    using assms(1) unfolding put_entry_def by (auto simp: tbind_eq_Inr Let_def bind_eq_Some_conv simp del: put_fields.simps)
  have s: "same_at (kept2 job) out out1" using o by (rule put_fields_same) (auto simp: kept_defs)
  have "length out' = length out1 \<and>
      (\<forall>i < length out1. out' ! i = (case entry_at job i of Some b \<Rightarrow> b | None \<Rightarrow> out1 ! i))"
  proof (cases "b_insn (scast ?from) (of_int (align_kimg_len job + 0x1000))")
    case None
    then show ?thesis using b by (simp add: entry_at_def)
  next
    case (Some wn)
    then obtain w n where w: "wn = (w, n)" "img_write out1 (sint ?from) (le_bytes 4 (ucast w)) = Some out'"
      using b by (cases wn) auto
    show ?thesis using img_write_nth(1) [OF w(2)] img_write_nth(4) [OF w(2)] Some w(1) by (simp add: entry_at_def Let_def)
  qed
  then show "length out' = length out"
    "i < length out \<Longrightarrow> kept2 job (int i) \<Longrightarrow> out' ! i = (case entry_at job i of Some b \<Rightarrow> b | None \<Rightarrow> out ! i)"
    using s by (simp_all add: same_at_def split: option.splits)
qed

lemma put_additional_same:
  "put_additional e pos kvs out = Inr out' \<Longrightarrow> (\<And>i. P i \<Longrightarrow> i < pos) \<Longrightarrow> same_at P out out'"
proof (induction kvs arbitrary: pos out)
  case (Cons kv kvs)
  obtain out1 where o: "img_write out pos (of_nat (length kv) # kv @ [0]) = Some out1"
    "put_additional e (pos + 1 + int (length kv)) kvs out1 = Inr out'"
    using Cons.prems(1) by (auto simp: tbind_eq_Inr split: if_splits)
  have "same_at P out out1" using o(1) by (rule img_write_same) (use Cons.prems(2) in auto)
  moreover have "same_at P out1 out'" using Cons.IH [OF o(2)] Cons.prems(2) by force
  ultimately show ?case by (rule same_at_trans)
qed simp

lemma extra_append_same:
  "extra_append out bs off = Some (out', off') \<Longrightarrow> (\<And>i. P i \<Longrightarrow> i < off) \<Longrightarrow> same_at P out out' \<and> off' = off + int (length bs)"
  by (auto simp: extra_append_def intro!: img_write_same)

lemma append_extras_same:
  "append_extras h cfgs out off = Some (out', off') \<Longrightarrow> (\<And>i. P i \<Longrightarrow> i < off) \<Longrightarrow> same_at P out out'"
proof (induction cfgs arbitrary: out off)
  case Nil
  then show ?case using extra_append_same by fastforce
next
  case (Cons cfg cfgs)
  obtain bs args con out1 off1 out2 off2 out3 off3 where
    o: "extra_append out bs off = Some (out1, off1)"
       "(if args > 0 then do { a \<leftarrow> xc_set_args cfg; bs \<leftarrow> h_bytes h a args; extra_append out1 bs off1 } else Some (out1, off1)) = Some (out2, off2)"
       "(if con \<noteq> 0 then do { a \<leftarrow> xc_data cfg; bs \<leftarrow> h_bytes h a con; extra_append out2 bs off2 } else Some (out2, off2)) = Some (out3, off3)"
       "append_extras h cfgs out3 off3 = Some (out', off')"
    using Cons.prems(1) by (auto simp: bind_eq_Some_conv)
  have 1: "same_at P out out1" "off \<le> off1" using extra_append_same [OF o(1)] Cons.prems(2) by auto
  then have p1: "P i \<Longrightarrow> i < off1" for i using Cons.prems(2) by force
  have 2: "same_at P out1 out2 \<and> off1 \<le> off2" using o(2) extra_append_same p1 by (fastforce split: if_splits bind_splits)
  then have p2: "P i \<Longrightarrow> i < off2" for i using p1 by force
  have 3: "same_at P out2 out3 \<and> off2 \<le> off3" using o(3) extra_append_same p2 by (fastforce split: if_splits bind_splits)
  then have p3: "P i \<Longrightarrow> i < off3" for i using p2 by force
  show ?case using 1 2 3 Cons.IH [OF o(4) p3] same_at_trans by blast
qed


section \<open>What is written, and what unpatching reads\<close>

lemma and_minus_4096: "uint (w AND - 4096 :: u64) = uint w div 4096 * 4096"
proof -
  have m: "- 4096 = NOT (mask 12 :: u64)" by (simp add: mask_eq_exp_minus_1)
  have "w AND - 4096 = push_bit 12 (drop_bit 12 w)"
    unfolding m by (rule bit_word_eqI) (auto simp: bit_simps)
  moreover have "take_bit 64 (uint w) = uint w" using uint_bounded [of w] by (simp add: take_bit_int_eq_self)
  ultimately have "uint (w AND - 4096) = take_bit 64 (push_bit 12 (drop_bit 12 (uint w)))"
    by (simp only: unsigned_push_bit_eq unsigned_drop_bit_eq) simp
  moreover have "uint w div 4096 * 4096 mod 2 ^ 64 = uint w div 4096 * 4096"
    using uint_bounded [of w] by (intro mod_pos_pos_trivial) (simp_all add: pos_imp_zdiv_nonneg_iff)
  ultimately show ?thesis
    by (simp add: take_bit_eq_mod push_bit_eq_mult drop_bit_eq_div)
qed

lemma c_int_small: "0 \<le> n \<Longrightarrow> n < 2 ^ 31 \<Longrightarrow> uint x = n \<Longrightarrow> c_int x = n"
  by (simp add: c_int_def sint_uint unsigned_ucast_eq signed_take_bit_eq_if_positive bit_iff_odd take_bit_eq_mod
      signed_take_bit_eq_take_bit_minus)

lemma align_4k_bounds:
  assumes "0 \<le> n" "n < 2 ^ 31 - 4096"
  shows "n \<le> align_4k n" "align_4k n < n + 4096"
proof -
  have "uint (of_int n + 0xFFF :: u64) = n + 4095"
    using assms by (simp add: uint_word_ariths take_bit_eq_mod unsigned_of_int)
  then have u: "uint (align_ceil (of_int n) 0x1000) = (n + 4095) div 4096 * 4096"
    by (simp add: align_ceil_def and_minus_4096 add.commute)
  have "align_4k n = (n + 4095) div 4096 * 4096"
    unfolding align_4k_def using assms by (intro c_int_small u) linarith+
  then show "n \<le> align_4k n" "align_4k n < n + 4096" by linarith+
qed


lemma take_bit_64: "take_bit 64 (w :: u64) = w"
  by (rule bit_word_eqI) (simp add: bit_simps)

lemma bytes_eqI:
  assumes "0 \<le> p" "nat p + n \<le> length img" "length bs = n" "\<And>j. j < n \<Longrightarrow> img ! (nat p + j) = bs ! j"
  shows "bytes_at img p n = Some bs" "take n (drop (nat p) img) = bs"
proof -
  show t: "take n (drop (nat p) img) = bs" using assms by (intro nth_equalityI) auto
  show "bytes_at img p n = Some bs" using t assms by (simp add: bytes_at_def)
qed

lemma bytes_at_nth:
  "bytes_at img p n = Some bs \<Longrightarrow> length bs = n \<and> (\<forall>j < n. bs ! j = img ! (nat p + j)) \<and> 0 \<le> p \<and> nat p + n \<le> length img"
  by (auto simp: bytes_at_def split: if_splits)

text \<open>After the images and the layout are written: the kernel's bytes and the saved length.\<close>

lemma placed:
  assumes "place_images job out = Some out1" "put_layout job out1 = Some out2"
    and "0 \<le> pj_ori_len job" "pj_ori_len job < 2 ^ 31 - 4096"
  shows "length out2 = length out" "setup_field job 1336 \<le> int (length out)"
    "\<And>i. int i < pj_ori_len job \<Longrightarrow> out2 ! i = pj_img job ! i"
    "\<And>i. pj_ori_len job \<le> int i \<Longrightarrow> int i < align_kimg_len job \<Longrightarrow> out2 ! i = 0"
    "\<And>j. j < 8 \<Longrightarrow> out2 ! (nat (setup_field job 8) + j) = le_bytes 8 (of_int (pj_ori_len job)) ! j"
    "\<And>j. j < 64 \<Longrightarrow> j < length (pj_kpimg job) \<Longrightarrow> out2 ! (nat (align_kimg_len job) + j) = pj_kpimg job ! j"
proof -
  let ?n = "pj_ori_len job" and ?A = "align_kimg_len job"
  have A: "?n \<le> ?A" using align_4k_bounds [OF assms(3,4)] by (simp add: align_kimg_len_def)
  obtain kimg o1 o2 where p: "bytes_at (pj_img job) 0 (nat ?n) = Some kimg" "img_write out 0 kimg = Some o1"
    "img_write o1 ?n (replicate (nat (?A - ?n)) 0) = Some o2" "img_write o2 ?A (pj_kpimg job) = Some out1"
    using assms(1,3) by (auto simp: place_images_def bind_eq_Some_conv split: if_splits)
  obtain l1 l2 fs where q: "img_write out1 (setup_field job 0) (replicate 1336 0) = Some l1"
    "img_write l1 (setup_field job 1) [k_patch (pj_kallsym job), k_minor (pj_kallsym job), k_major (pj_kallsym job)] = Some l2"
    "put_fields job ((8, of_int ?n) # fs) l2 = Some out2"
    "fs = [(16, of_nat (length (pj_kpimg job))),
            (24, scast (ki_kernel_size (pj_info job))), (32, scast (ki_page_shift (pj_info job))),
            (40, of_int (align_kimg_len job)), (48, of_int (start_offset job)), (56, of_int (pj_extra_size job))]"
    using assms(2) unfolding put_layout_def by (auto simp: bind_eq_Some_conv simp del: put_fields.simps)
  obtain l3 where r: "img_write l2 (setup_field job 8) (le_bytes 8 (of_int ?n)) = Some l3" "put_fields job fs l3 = Some out2"
    using q(3) by (auto simp: bind_eq_Some_conv)
  have k: "length kimg = nat ?n" "\<And>j. j < nat ?n \<Longrightarrow> kimg ! j = pj_img job ! j" using bytes_at_nth [OF p(1)] by auto
  have s1: "same_at (\<lambda>i. i < ?A) o2 out1" using p(4) by (rule img_write_same) auto
  have s2: "same_at (\<lambda>i. i < setup_field job 0) out1 l1" using q(1) by (rule img_write_same) auto
  have s3: "same_at (\<lambda>i. i < setup_field job 0) l1 l2" using q(2) by (rule img_write_same) (auto simp: setup_field_def)
  have s4: "same_at (\<lambda>i. i < setup_field job 0) l2 out2" using q(3) by (rule put_fields_same) (auto simp: setup_field_def q(4))
  have s14: "same_at (\<lambda>i. i < setup_field job 0) out1 out2" using s2 s3 s4 same_at_trans by blast
  have s5: "same_at (\<lambda>i. setup_field job 8 \<le> i \<and> i < setup_field job 16) l3 out2"
    using r(2) by (rule put_fields_same) (auto simp: setup_field_def q(4))
  have s: "same_at (\<lambda>i. i < ?A) o2 out2" using s1 s14 by (auto simp: same_at_def setup_field_def)
  have l: "length o1 = length out" "length o2 = length out" "length out1 = length out" "length l3 = length out"
    using img_write_nth(1) [OF p(2)] img_write_nth(1) [OF p(3)] same_at_length [OF s1] same_at_length [OF s2]
      same_at_length [OF s3] img_write_nth(1) [OF r(1)] by simp_all
  show lo: "length out2 = length out" using same_at_length [OF s] l by simp
  show b: "setup_field job 1336 \<le> int (length out)"
    using img_write_nth(3) [OF q(1)] l by (simp add: setup_field_def)
  have A0: "0 \<le> ?A" using A assms(3) by simp
  have sA: "out2 ! i = o2 ! i" if "int i < ?A" for i
    using s that b A0 l by (auto simp: same_at_def setup_field_def)
  show "out2 ! i = pj_img job ! i" if i: "int i < ?n" for i
  proof -
    have "\<not> nat ?n \<le> i" using i by linarith
    then have "out2 ! i = o1 ! i" using sA i A img_write_nth(4) [OF p(3), of i] b l by (simp add: setup_field_def)
    also have "\<dots> = kimg ! i" using img_write_bytes [OF p(2), of i] i k by simp
    finally show ?thesis using k i by simp
  qed
  show "out2 ! i = 0" if i: "?n \<le> int i" "int i < ?A" for i
    using sA [OF i(2)] img_write_bytes [OF p(3), of "i - nat ?n"] i assms(3) by (simp add: nat_less_iff)
  show "out2 ! (nat (setup_field job 8) + j) = le_bytes 8 (of_int ?n) ! j" if j: "j < 8" for j
  proof -
    have "out2 ! (nat (setup_field job 8) + j) = l3 ! (nat (setup_field job 8) + j)"
      using s5 j b l A0 unfolding same_at_def setup_field_def by (simp add: nat_add_distrib)
    then show ?thesis using img_write_bytes [OF r(1), of j] j by simp
  qed
  show "out2 ! (nat ?A + j) = pj_kpimg job ! j" if j: "j < 64" "j < length (pj_kpimg job)" for j
    using s14 j A0 b l img_write_bytes [OF p(4) j(2)] unfolding same_at_def by (simp add: setup_field_def)
qed


lemma assemble_steps:
  assumes "assemble ctx job out0 = Inr out"
    and "select_map_area (pj_kallsym job) (pj_kimg job) = Inr (k, start, mx)"
    and "get_symbol_offset_exit (pj_kallsym job) k ''tcp_init_sock'' = Inr tcp"
    and "ki_b_stext_insn_offset (pj_info job) \<in> {0, 4}" "8 \<le> pj_ori_len job" "pj_ori_len job < 2 ^ 31 - 4096"
    and "152 + 64 \<le> length (pj_kpimg job)"
  shows "length out = length out0" "setup_field job 1336 \<le> int (length out)" "pj_ori_len job \<le> align_kimg_len job"
    "\<And>j. j < 8 \<Longrightarrow> out ! (nat (setup_field job 8) + j) = le_bytes 8 (of_int (pj_ori_len job)) ! j"
    "\<And>j. j < 8 \<Longrightarrow> out ! (nat (setup_field job 144) + j) = k ! j"
    "\<And>i. int i < align_kimg_len job \<Longrightarrow>
       out ! i = (case entry_at job i of Some b \<Rightarrow> b | None \<Rightarrow>
                  if tcp \<le> int i \<and> int i < tcp + sync_size job tcp mx then k ! i
                  else if int i < pj_ori_len job then pj_img job ! i else 0)"
    "\<And>j. j < 64 \<Longrightarrow> out ! (nat (align_kimg_len job) + j) = pj_kpimg job ! j"
proof -
  let ?n = "pj_ori_len job" and ?A = "align_kimg_len job"
  obtain p1 p2 m s b c u e a off where steps:
    "place_images job out0 = Some p1" "put_layout job p1 = Some p2" "put_map_area job p2 = Inr (k, m)"
    "put_symbols job k m = Inr s" "put_backup job k s = Some b" "put_patch_config job k b = Inr c"
    "put_superkey ctx job c = Some u" "put_entry job k u = Inr e"
    "put_additional (setup_field job (824 + ADDITIONAL_LEN)) (setup_field job 824) (pj_additional job) e = Inr a"
    "append_extras (pj_heap job) (pj_configs job) a (out_img_len job) = Some (out, off)"
  proof -
    assume h: thesis if "place_images job out0 = Some p1" "put_layout job p1 = Some p2" "put_map_area job p2 = Inr (k, m)"
      "put_symbols job k m = Inr s" "put_backup job k s = Some b" "put_patch_config job k b = Inr c"
      "put_superkey ctx job c = Some u" "put_entry job k u = Inr e"
      "put_additional (setup_field job (824 + ADDITIONAL_LEN)) (setup_field job 824) (pj_additional job) e = Inr a"
      "append_extras (pj_heap job) (pj_configs job) a (out_img_len job) = Some (out, off)" for p1 p2 m s b c u e a off
    show thesis
      using assms(1) put_map_area_same(1) [OF _ assms(2,3)] unfolding assemble_def
      by (fastforce simp: tbind_eq_Inr bind_eq_Some_conv intro: h)
  qed
  have A: "?n \<le> ?A" using align_4k_bounds [of ?n] assms(5,6) by (simp add: align_kimg_len_def)
  then show "?n \<le> ?A" .
  note pl = placed [OF steps(1,2) _ assms(6)]
  have n0: "0 \<le> ?n" using assms(5) by simp
  note m = put_map_area_same(2,3) [OF steps(3) assms(2,3)]
  have sb: "same_at (kept1 job) s b"
    using steps(5) unfolding put_backup_def
    by (auto simp: bind_eq_Some_conv kept_defs dest!: bytes_at_nth elim!: img_write_same)
  have kc: "same_at (kept2 job) b u" using put_patch_config_same [OF steps(6)] put_superkey_same [OF steps(7)] same_at_trans by blast
  note eu = put_entry_bytes [OF steps(8)]
  have ae: "same_at (kept2 job) e a"
    using steps(9) by (rule put_additional_same) (auto simp: kept_defs)
  have ao: "same_at (kept2 job) a out"
    using steps(10) by (rule append_extras_same) (use assms(7) in \<open>auto simp: kept_defs out_img_len_def\<close>)
  have bl: "length b = length out" using eu(1) kc ae ao by (simp add: same_at_def)
  have bo: "out ! i = (case entry_at job i of Some x \<Rightarrow> x | None \<Rightarrow> b ! i)" if "i < length out" "kept2 job (int i)" for i
    using eu(1) eu(2) [of i] kc ae ao that bl by (simp add: same_at_def split: option.split)
  have mb: "same_at (kept1 job) m b" using put_symbols_same [OF steps(4)] sb same_at_trans by blast
  have lm: "length m = length out" using same_at_length [OF mb] bl by simp
  show lo: "length out = length out0" using same_at_length [OF m(1)] lm pl(1) [OF n0] by simp
  show lb: "setup_field job 1336 \<le> int (length out)" using pl(2) [OF n0] lo by simp
  have A8: "8 \<le> ?A" using A assms(5) by simp
  have p2m: "m ! i = p2 ! i" if "kept1 job (int i)" "int i < tcp \<or> tcp + sync_size job tcp mx \<le> int i" "i < length out" for i
    using m(1) that lm same_at_length [OF m(1)] unfolding same_at_def by simp
  have moi: "out ! i = (case entry_at job i of Some x \<Rightarrow> x | None \<Rightarrow> m ! i)" if "kept1 job (int i)" "i < length out" for i
    using bo [of i] mb that lm unfolding same_at_def kept2_def by (simp split: option.split)
  note e8 = entry_at_first [OF assms(4)]
  have sync: "tcp + sync_size job tcp mx \<le> ?n \<or> sync_size job tcp mx \<le> 0" by (auto simp: sync_size_def)
  show "out ! (nat (setup_field job 8) + j) = le_bytes 8 (of_int ?n) ! j" if j: "j < 8" for j
  proof -
    let ?i = "nat (setup_field job 8) + j"
    have i: "kept1 job (int ?i)" "8 \<le> ?i" "?i < length out" "\<not> int ?i < ?A" "int ?i < setup_field job 16"
      using j A8 lb by (auto simp: kept_defs)
    moreover have "int ?i < tcp \<or> tcp + sync_size job tcp mx \<le> int ?i" using sync i(4) A by linarith
    ultimately have "out ! ?i = p2 ! ?i" using moi [of ?i] p2m [of ?i] e8 [of ?i] by simp
    then show ?thesis using pl(5) [OF n0 j] by simp
  qed
  show "out ! (nat (setup_field job 144) + j) = k ! j" if j: "j < 8" for j
  proof -
    let ?i = "nat (setup_field job 144) + j"
    obtain bs where bs: "bytes_at k 0 8 = Some bs" "img_write s (setup_field job 144) bs = Some b"
      using steps(5) by (auto simp: put_backup_def bind_eq_Some_conv)
    have "b ! ?i = k ! j" using img_write_bytes [OF bs(2), of j] bytes_at_nth [OF bs(1)] j by simp
    moreover have "out ! ?i = b ! ?i"
      using bo [of ?i] e8 [of ?i] j lb A8 by (simp add: kept_defs)
    ultimately show ?thesis by simp
  qed
  show "out ! i = (case entry_at job i of Some b \<Rightarrow> b | None \<Rightarrow>
                  if tcp \<le> int i \<and> int i < tcp + sync_size job tcp mx then k ! i
                  else if int i < ?n then pj_img job ! i else 0)" if i: "int i < ?A" for i
  proof -
    have il: "i < length out" using i lb by (simp add: setup_field_def)
    have "kept1 job (int i)" using i by (simp add: kept1_def setup_field_def)
    then show ?thesis
      using moi [OF _ il] p2m [OF _ _ il] m(2) [of i] pl(3) [OF n0, of i] pl(4) [OF n0, of i] i
      by (auto split: option.split)
  qed
  show "out ! (nat ?A + j) = pj_kpimg job ! j" if j: "j < 64" for j
  proof -
    let ?i = "nat ?A + j"
    have i: "?i < length out" "kept1 job (int ?i)" "8 \<le> ?i" using j A8 lb by (simp_all add: kept_defs)
    moreover have "int ?i < tcp \<or> tcp + sync_size job tcp mx \<le> int ?i" using sync A A8 by linarith
    ultimately have "out ! ?i = p2 ! ?i" using moi [of ?i] p2m [of ?i] e8 [of ?i] by simp
    then show ?thesis using pl(6) [OF n0 j] assms(7) j by simp
  qed
qed

section \<open>What the analysis and the preparation change\<close>

text \<open>Every byte that differs lies in a word, counted from \<open>addr\<close>, that has become a NOP.\<close>

definition nopped :: "image \<Rightarrow> image \<Rightarrow> int \<Rightarrow> bool" where
  "nopped img k addr \<longleftrightarrow> length k = length img \<and>
     (\<forall>i < length img. k ! i \<noteq> img ! i \<longrightarrow>
       (\<exists>m. addr + 4 * m \<le> int i \<and> int i < addr + 4 * m + 4 \<and> img_load 4 k (addr + 4 * m) = Some 0xD503201F))"

lemma img_store_write: "img_store n img p v = img_write img p (le_bytes n v)"
  by (simp add: img_store_def img_write_def)

lemma load_after_store:
  assumes "img_store 4 img p v = Some img'"
  shows "img_load 4 img' p = Some (take_bit 32 v)" "q + 4 \<le> p \<or> p + 4 \<le> q \<Longrightarrow> img_load 4 img' q = img_load 4 img q"
proof -
  note w = img_write_nth [OF assms [unfolded img_store_write]]
  have "take 4 (drop (nat p) img') = le_bytes 4 v"
    using w(1-3) img_write_bytes [OF assms [unfolded img_store_write]] by (intro bytes_eqI(2)) auto
  then show "img_load 4 img' p = Some (take_bit 32 v)" using w(1-3) by (simp add: img_load_def le_value_bytes)
  show "img_load 4 img' q = img_load 4 img q" if "q + 4 \<le> p \<or> p + 4 \<le> q"
  proof (cases "0 \<le> q \<and> q + 4 \<le> int (length img)")
    case True
    have "take 4 (drop (nat q) img') = take 4 (drop (nat q) img)"
      by (rule bytes_eqI(2)) (use True that w(1-3) w(4) in auto)
    then show ?thesis using True w(1) by (simp add: img_load_def)
  qed (use w(1) in \<open>auto simp: img_load_def\<close>)
qed

lemma nopped_store:
  assumes "nopped img k addr" "img_store 4 k (addr + 4 * m) 0xD503201F = Some k'"
  shows "nopped img k' addr"
proof -
  note w = img_write_nth [OF assms(2) [unfolded img_store_write]]
  have "\<exists>m. addr + 4 * m \<le> int i \<and> int i < addr + 4 * m + 4 \<and> img_load 4 k' (addr + 4 * m) = Some 0xD503201F"
    if i: "i < length img" "k' ! i \<noteq> img ! i" for i
  proof (cases "addr + 4 * m \<le> int i \<and> int i < addr + 4 * m + 4")
    case True
    then show ?thesis using load_after_store(1) [OF assms(2)] by auto
  next
    case False
    have "i < length k" using assms(1) i by (simp add: nopped_def)
    then have "k' ! i = k ! i" using False w(2) w(4) [of i] by (simp, linarith)
    then obtain m' where m': "addr + 4 * m' \<le> int i" "int i < addr + 4 * m' + 4" "img_load 4 k (addr + 4 * m') = Some 0xD503201F"
      using assms(1) i by (auto simp: nopped_def)
    then have "m' \<noteq> m" using False by auto
    then have "addr + 4 * m' + 4 \<le> addr + 4 * m \<or> addr + 4 * m + 4 \<le> addr + 4 * m'" by linarith
    then show ?thesis using load_after_store(2) [OF assms(2)] m' by auto
  qed
  moreover have "length k' = length img" using assms(1) w(1) by (simp add: nopped_def)
  ultimately show ?thesis by (simp add: nopped_def)
qed

lemma nop_pacs_nopped:
  "nop_pacs k addr n (4 * q) count = Some (k', count') \<Longrightarrow> nopped img k addr \<Longrightarrow> nopped img k' addr"
proof (induction n arbitrary: k q count)
  case (Suc n)
  have q: "4 * q + 4 = 4 * (q + 1)" by simp
  from Suc.prems obtain insn where insn: "img_load 4 k (addr + 4 * q) = Some insn" by (auto simp: bind_eq_Some_conv)
  show ?case
  proof (cases "is_pac_hint insn")
    case True
    with Suc.prems(1) insn obtain k1 where k1: "img_store 4 k (addr + 4 * q) 0xD503201F = Some k1"
      "nop_pacs k1 addr n (4 * (q + 1)) (count + 1) = Some (k', count')"
      unfolding q [symmetric] by (auto simp: bind_eq_Some_conv)
    show ?thesis by (rule Suc.IH [OF k1(2) nopped_store [OF Suc.prems(2) k1(1)]])
  next
    case False
    with Suc.prems(1) insn have "nop_pacs k addr n (4 * (q + 1)) count = Some (k', count')"
      unfolding q [symmetric] by simp
    then show ?thesis by (rule Suc.IH [OF _ Suc.prems(2)])
  qed
qed simp

lemma second_pac_word: "second_pac img addr n (4 * q) = Some pos \<Longrightarrow> \<exists>m. pos = 4 * m"
proof (induction n arbitrary: q)
  case (Suc n)
  from Suc.prems Suc.IH [of "q + 1"] show ?case by (auto simp: bind_eq_Some_conv algebra_simps split: if_splits)
qed (auto intro: exI [of _ 0])

lemma select_map_area_nopped:
  assumes "select_map_area ks img = Inr (k, start, mx)"
  shows "\<exists>addr. get_symbol_offset_exit ks img ''tcp_init_sock'' = Inr addr \<and> nopped img k addr"
proof -
  obtain addr where addr: "get_symbol_offset_exit ks img ''tcp_init_sock'' = Inr addr"
    using assms by (auto simp: select_map_area_def split: sum.splits)
  obtain k1 count where k1: "nop_pacs img addr 512 (4 * 0) 0 = Some (k1, count)"
    and k: "(if odd count then do { pos \<leftarrow> second_pac k1 addr 512 0x800; img_store 4 k1 (addr + pos) 0xD503201F } else Some k1) = Some k"
    using assms by (auto simp: select_map_area_def addr bind_eq_Some_conv)
  have n1: "nopped img k1 addr" by (rule nop_pacs_nopped [OF k1]) (simp add: nopped_def)
  have "nopped img k addr"
  proof (cases "odd count")
    case True
    with k obtain pos where pos: "second_pac k1 addr 512 0x800 = Some pos" "img_store 4 k1 (addr + pos) 0xD503201F = Some k"
      by (auto simp: bind_eq_Some_conv)
    obtain m where "pos = 4 * m" using second_pac_word [of k1 addr 512 512 pos] pos(1) by auto
    with pos(2) nopped_store [OF n1] show ?thesis by simp
  qed (use k n1 in simp)
  with addr show ?thesis by blast
qed

text \<open>The instructions \<open>disable_pi_map\<close> looks for; it replaces the third.\<close>

definition pi_map_code :: "u8 list" where
  "pi_map_code = [0xE6, 0x03, 0x16, 0xAA, 0xE7, 0x03, 0x1F, 0x2A, 0x34, 0x11, 0x88, 0x9A]"

lemma disable_pi_map_nth:
  assumes "i < length img" "disable_pi_map img ! i \<noteq> img ! i"
  shows "\<exists>p. libc_memmem img 0 (length img) pi_map_code = Some p \<and> p + 8 \<le> i \<and> i < p + 12"
proof -
  let ?same = "[0xE6, 0x03, 0x16, 0xAA, 0xE7, 0x03, 0x1F, 0x2A] :: u8 list"
  have pat: "?same @ [0x34, 0x11, 0x88, 0x9A] = pi_map_code" by (simp add: pi_map_code_def)
  obtain p where p: "libc_memmem img 0 (length img) pi_map_code = Some p"
    using assms(2) by (cases "libc_memmem img 0 (length img) pi_map_code") (auto simp: disable_pi_map_def Let_def pi_map_code_def)
  have len: "p + 12 \<le> length img" using libc_memmem_bound [OF p] by (simp add: pi_map_code_def)
  have pl: "length pi_map_code = 12" by (simp add: pi_map_code_def)
  have found: "take 12 (drop p img) = pi_map_code"
    using p unfolding libc_memmem_def pl by (auto simp: find_Some_iff)
  have d: "disable_pi_map img = take p img @ ?same @ [0xF4, 0x03, 0x09, 0xAA] @ drop (p + 12) img"
    using p by (simp add: disable_pi_map_def Let_def pi_map_code_def)
  have same: "img ! (p + j) = ?same ! j" if "j < 8" for j
  proof -
    have "img ! (p + j) = take 12 (drop p img) ! j" using that len by simp
    also have "\<dots> = ?same ! j" unfolding found pat [symmetric] nth_append using that by simp
    finally show ?thesis .
  qed
  have "disable_pi_map img ! i = img ! i" if "\<not> (p + 8 \<le> i \<and> i < p + 12)"
  proof -
    have "i < p \<or> (\<exists>j. i = p + j \<and> j < 8) \<or> p + 12 \<le> i" using that by presburger
    then consider "i < p" | j where "i = p + j" "j < 8" | "p + 12 \<le> i" by blast
    then show ?thesis
    proof cases
      case 1
      then show ?thesis using len by (simp add: d nth_append)
    next
      case 2
      have "disable_pi_map img ! (p + j) = (?same @ [0xF4, 0x03, 0x09, 0xAA] @ drop (p + 12) img) ! j"
        using len unfolding d by (simp add: nth_append min_def)
      also have "\<dots> = ?same ! j" using 2(2) by (subst nth_append) simp
      finally show ?thesis using same 2 by simp
    next
      case 3
      then have "disable_pi_map img ! i = drop (p + 12) img ! (i - (p + 12))"
        using len unfolding d by (simp add: nth_append min_def)
      then show ?thesis using 3 assms(1) by simp
    qed
  qed
  with assms(2) p show ?thesis by blast
qed

text \<open>The bytes of the unpatched image, in terms of the images the program worked on.\<close>

lemma unpatch_bytes:
  assumes "assemble ctx job out0 = Inr out" "get_preset out = Some (align_kimg_len job)" "kf_img kf = out"
    and "select_map_area (pj_kallsym job) (pj_kimg job) = Inr (k, start, mx)"
    and "get_symbol_offset_exit (pj_kallsym job) k ''tcp_init_sock'' = Inr tcp"
    and "ki_b_stext_insn_offset (pj_info job) \<in> {0, 4}" "8 \<le> pj_ori_len job" "pj_ori_len job < 2 ^ 31 - 4096"
    and "216 \<le> length (pj_kpimg job)"
  shows "\<exists>kf'. unpatch_kernel kf = Inr kf' \<and> kf_img_len kf' = pj_ori_len job \<and>
    (\<forall>i < nat (pj_ori_len job). kf_img kf' ! i =
      (if i < 8 \<or> tcp \<le> int i \<and> int i < tcp + sync_size job tcp mx then k ! i else pj_img job ! i))"
proof -
  let ?n = "pj_ori_len job" and ?A = "align_kimg_len job"
  note st = assemble_steps [OF assms(1,4-8)]
  have len: "152 + 64 \<le> length (pj_kpimg job)" using assms(9) by simp
  note st = st [OF len]
  have A8: "8 \<le> ?A" using st(3) assms(7) by simp
  have nat_field: "nat (?A + SETUP_AT + d) = nat ?A + 64 + nat d" if "0 \<le> d" for d
    using A8 that by (simp add: nat_add_distrib)
  obtain bk where bk: "length bk = 8" "\<And>j. j < 8 \<Longrightarrow> bk ! j = k ! j" by (rule that [of "map (\<lambda>j. k ! j) [0..<8]"]) auto
  have b: "bytes_at out (?A + SETUP_AT + 144) 8 = Some bk"
    using st(2,5) A8 bk by (intro bytes_eqI(1)) (simp_all add: setup_field_def)
  have w: "img_write out 0 bk = Some (bk @ drop 8 out)"
    using st(2) A8 bk by (simp add: img_write_def setup_field_def)
  let ?img = "bk @ drop 8 out"
  have nth: "?img ! i = (if i < 8 then k ! i else out ! i)" if "i < length out" for i
    using bk that by (auto simp: nth_append)
  have "take 8 (drop (nat (?A + SETUP_AT + 8)) ?img) = le_bytes 8 (of_int ?n)"
  proof (rule bytes_eqI(2))
    fix j :: nat assume j: "j < 8"
    have "nat (?A + SETUP_AT + 8) + j < length out" "\<not> nat (?A + SETUP_AT + 8) + j < 8"
      using st(2) A8 j by (simp_all add: setup_field_def)
    then show "?img ! (nat (?A + SETUP_AT + 8) + j) = le_bytes 8 (of_int ?n) ! j"
      using nth st(4) [OF j] A8 by (simp add: setup_field_def)
  qed (use st(2) A8 bk in \<open>simp_all add: setup_field_def\<close>)
  then have l: "img_load 8 ?img (?A + SETUP_AT + 8) = Some (of_int ?n)"
    using st(2) A8 bk by (simp add: img_load_def setup_field_def le_value_bytes take_bit_64)
  have nz: "(of_int ?n :: u64) \<noteq> 0" and ci: "c_int (of_int ?n) = ?n"
  proof -
    have u: "uint (of_int ?n :: u64) = ?n" using assms(7,8) by (simp add: unsigned_of_int take_bit_int_eq_self)
    then show "c_int (of_int ?n) = ?n" using assms(7,8) by (intro c_int_small) simp_all
    show "(of_int ?n :: u64) \<noteq> 0" using u assms(7) by auto
  qed
  have "unpatch_kernel kf = Inr (update_kernel_file_img_len (kf\<lparr>kf_img := ?img\<rparr>) ?n False)"
    using assms(2,3) b w l nz ci by (simp add: unpatch_kernel_def of_access_def)
  moreover have "?img ! i = (if i < 8 \<or> tcp \<le> int i \<and> int i < tcp + sync_size job tcp mx then k ! i else pj_img job ! i)"
    if i: "i < nat ?n" for i
    using nth [of i] st(6) [of i] entry_at_first [OF assms(6), of i] i st(2,3) by (auto simp: setup_field_def)
  ultimately show ?thesis by (simp add: update_kernel_file_img_len_def Let_def)
qed

text \<open>
  C19: undoing a patch gives back an image of the original length.  A byte that differs from the original
  image \<open>img\<close> is one of three: in the instruction that \<open>disable_pi_map\<close> replaced; or, in the first eight bytes or
  the 4 KiB from \<open>tcp_init_sock\<close> on, a byte the analysis had relocated in its copy of the image, or a byte of an
  instruction the program has replaced by a NOP there.
\<close>
theorem unpatch_restores:
  assumes "assemble ctx job out0 = Inr out" "get_preset out = Some (align_kimg_len job)" "kf_img kf = out"
    and "pj_img job = img \<or> pj_img job = disable_pi_map img" "pj_ori_len job = int n" "n \<le> length img" "length (pj_kimg job) = n"
    and "select_map_area (pj_kallsym job) (pj_kimg job) = Inr (k, start, mx)"
    and "get_symbol_offset_exit (pj_kallsym job) k ''tcp_init_sock'' = Inr tcp"
    and "ki_b_stext_insn_offset (pj_info job) \<in> {0, 4}" "8 \<le> n" "n < 2 ^ 31 - 4096" "216 \<le> length (pj_kpimg job)"
  shows "\<exists>kf'. unpatch_kernel kf = Inr kf' \<and> kf_img_len kf' = int n \<and>
    (\<forall>i < n. kf_img kf' ! i = img ! i \<or>
      pj_img job \<noteq> img \<and> (\<exists>p. libc_memmem img 0 (length img) pi_map_code = Some p \<and> p + 8 \<le> i \<and> i < p + 12) \<or>
      (i < 8 \<or> tcp \<le> int i \<and> int i < tcp + 2 * mx) \<and>
        (pj_kimg job ! i \<noteq> img ! i \<or>
         (\<exists>q. k ! i \<noteq> pj_kimg job ! i \<and> q \<le> int i \<and> int i < q + 4 \<and> img_load 4 k q = Some 0xD503201F)))"
proof -
  have o: "8 \<le> pj_ori_len job" "pj_ori_len job < 2 ^ 31 - 4096" using assms(5,11,12) by simp_all
  obtain kf' where kf': "unpatch_kernel kf = Inr kf'" "kf_img_len kf' = int n"
    and bytes: "\<forall>i < n. kf_img kf' ! i =
      (if i < 8 \<or> tcp \<le> int i \<and> int i < tcp + sync_size job tcp mx then k ! i else pj_img job ! i)"
    using unpatch_bytes [OF assms(1-3,8-10) o assms(13)] assms(5) by auto
  obtain addr where "nopped (pj_kimg job) k addr" using select_map_area_nopped [OF assms(8)] by blast
  then have nop: "\<exists>q. q \<le> int i \<and> int i < q + 4 \<and> img_load 4 k q = Some 0xD503201F" if "i < n" "k ! i \<noteq> pj_kimg job ! i" for i
    using that assms(7) by (auto simp: nopped_def)
  have pi: "pj_img job ! i = img ! i \<or> pj_img job \<noteq> img \<and>
      (\<exists>p. libc_memmem img 0 (length img) pi_map_code = Some p \<and> p + 8 \<le> i \<and> i < p + 12)" if "i < n" for i
    using disable_pi_map_nth [of i img] that assms(4,6) by auto
  have "sync_size job tcp mx \<le> 2 * mx" by (auto simp: sync_size_def)
  then have "kf_img kf' ! i = img ! i \<or>
      pj_img job \<noteq> img \<and> (\<exists>p. libc_memmem img 0 (length img) pi_map_code = Some p \<and> p + 8 \<le> i \<and> i < p + 12) \<or>
      (i < 8 \<or> tcp \<le> int i \<and> int i < tcp + 2 * mx) \<and>
        (pj_kimg job ! i \<noteq> img ! i \<or>
         (\<exists>q. k ! i \<noteq> pj_kimg job ! i \<and> q \<le> int i \<and> int i < q + 4 \<and> img_load 4 k q = Some 0xD503201F))" if i: "i < n" for i
  proof (cases "i < 8 \<or> tcp \<le> int i \<and> int i < tcp + sync_size job tcp mx")
    case True
    then have "kf_img kf' ! i = k ! i" "i < 8 \<or> tcp \<le> int i \<and> int i < tcp + 2 * mx"
      using bytes i \<open>sync_size job tcp mx \<le> 2 * mx\<close> by auto
    then show ?thesis using nop [OF i] by metis
  next
    case False
    then have "kf_img kf' ! i = pj_img job ! i" using bytes i by auto
    then show ?thesis using pi [OF i] by metis
  qed
  with kf' show ?thesis by blast
qed


section \<open>A small image\<close>

text \<open>
  An image with a header, the table of one-letter tokens (256 tokens from byte 64 on), twelve names with their
  offsets and 2 KiB of code of \<open>tcp_init_sock\<close>.
\<close>

definition demo_symbols :: "(string \<times> s32) list" where
  "demo_symbols =
     [(''tcp_init_sock'', 0x400), (''kallsyms_lookup_name'', 0x300), (''printk'', 0x310), (''memblock_reserve'', 0x320),
      (''memblock_free'', 0x330), (''memblock_phys_alloc_try_nid'', 0x340), (''rest_init'', 0x350), (''copy_process'', 0x360),
      (''paging_init'', 0x370), (''kernel_init'', 0x380), (''avc_denied'', 0x390), (''slow_avc_audit'', 0x3A0)]"

definition demo_names :: "u8 list list" where
  "demo_names = map (\<lambda>(s, x). 84 # map of_char s) demo_symbols"

definition demo_kimg :: image where
  "demo_kimg = replicate 64 7 @ demo_org @ concat (map enc_name demo_names) @
     concat (map (\<lambda>(s, x). le_bytes 4 (ucast x)) demo_symbols) @ replicate 2286 0"

definition demo_kallsym :: kallsym where
  "demo_kallsym = zero_kallsym\<lparr>k_tokens := map (\<lambda>i. 64 + 2 * int i) [0..<256], k_num_syms := 12, k_relative_base := True,
     k_long_size := 4, k_names_offset := 576, k_offsets_offset := 762\<rparr>"

lemma length_demo_org: "length demo_org = 512"
  unfolding demo_org_def by code_simp


lemma unat_of_char: "unat (of_char c :: u8) = of_char c"
proof -
  have l: "(of_char c :: nat) < 256" by simp
  have "(of_char c :: u8) = of_nat (of_char c)" by (rule of_nat_of_char [symmetric])
  also have "unat \<dots> = of_char c" using l by (subst unat_of_nat) simp
  finally show ?thesis .
qed

lemma map_of_char_inj: "(map of_char s :: u8 list) = map of_char t \<longleftrightarrow> s = t"
proof (rule inj_eq, rule inj_mapI, rule injI)
  fix c d :: char
  assume "(of_char c :: u8) = of_char d"
  then have "(of_char c :: nat) = of_char d" using unat_of_char by metis
  then show "c = d" by simp
qed

lemma demo_image_parts: "length (concat (map enc_name demo_names)) = 186" "length demo_kimg = 3096"
  by code_simp+

lemma demo_drop:
  "drop 576 demo_kimg = concat (map enc_name demo_names) @ concat (map (\<lambda>(s, x). le_bytes 4 (ucast x)) demo_symbols) @ replicate 2286 0"
  "drop 762 demo_kimg = concat (map (\<lambda>(s, x). le_bytes 4 (ucast x)) demo_symbols) @ replicate 2286 0"
  by (simp_all add: demo_kimg_def length_demo_org demo_image_parts(1) del: replicate.simps)


lemma demo_drop_zeros: "drop 880 demo_kimg = replicate 2216 0"
  by (simp add: demo_kimg_def length_demo_org demo_image_parts(1) demo_symbols_def del: replicate.simps)

lemma demo_tokens: "tokens_hold demo_kallsym demo_kimg demo_tok"
proof -
  have "\<exists>rest. drop (64 + 2 * unat t) demo_kimg = demo_tok t @ 0 # rest" for t :: u8
  proof -
    obtain rest where r: "drop (2 * unat t) demo_org = demo_tok t @ 0 # rest"
      using demo_org_token by blast
    have "2 * unat t \<le> length demo_org" using unat_bounds(1) [of t] by (simp add: length_demo_org)
    then have "drop (64 + 2 * unat t) demo_kimg = (demo_tok t @ 0 # rest) @ drop 576 demo_kimg"
      using r by (simp add: demo_kimg_def length_demo_org demo_image_parts(1) flip: drop_drop)
    then show ?thesis by auto
  qed
  moreover have "k_tokens demo_kallsym ! unat t = 64 + 2 * int (unat t)" for t :: u8
    using unat_bounds(1) [of t] by (simp add: demo_kallsym_def del: upt_rec_numeral)
  ultimately show ?thesis by (simp add: tokens_hold_def demo_tok_def nat_add_distrib nat_mult_distrib del: upt_rec_numeral)
qed

lemma map_of_inj: "inj f \<Longrightarrow> map_of (zip (map (\<lambda>(a, b). f a) xs) (map snd xs)) (f s) = map_of xs s"
  by (induction xs) (auto dest: injD)

lemma demo_lookup:
  "get_symbol_offset demo_kallsym demo_kimg demo_kimg (bytes_of_string s) =
     Some (case map_of demo_symbols s of None \<Rightarrow> - 1 | Some x \<Rightarrow> sint x)"
proof -
  have names: "map (\<lambda>ts. tl (full_name demo_tok ts)) demo_names = map (\<lambda>(s, x). map of_char s) demo_symbols"
    by (simp add: demo_names_def demo_symbols_def full_name_def demo_tok_def)
  have good: "\<forall>ts \<in> set demo_names. good_name demo_tok ts"
    by (simp add: demo_names_def demo_symbols_def good_name_def full_name_def demo_tok_def)
  have "get_symbol_offset demo_kallsym demo_kimg demo_kimg (map of_char s) =
    Some (case map_of (zip (map (\<lambda>ts. tl (full_name demo_tok ts)) demo_names) (map snd demo_symbols)) (map of_char s) of
            None \<Rightarrow> - 1 | Some x \<Rightarrow> sint x)"
    by (rule get_symbol_offset_table [OF demo_tokens good])
      (simp_all add: demo_kallsym_def zero_kallsym_def demo_drop demo_names_def demo_symbols_def del: upt_rec_numeral replicate.simps)
  also have "map_of (zip (map (\<lambda>ts. tl (full_name demo_tok ts)) demo_names) (map snd demo_symbols)) (map of_char s) = map_of demo_symbols s"
    unfolding names by (rule map_of_inj) (simp add: inj_def map_of_char_inj)
  finally show ?thesis by (simp add: bytes_of_string_def)
qed


lemma nop_pacs_none:
  "(\<And>j. j < n \<Longrightarrow> \<exists>v. img_load 4 img (addr + i + 4 * int j) = Some v \<and> \<not> is_pac_hint v) \<Longrightarrow>
   nop_pacs img addr n i count = Some (img, count)"
proof (induction n arbitrary: i)
  case (Suc n)
  have "\<exists>v. img_load 4 img (addr + (i + 4) + 4 * int j) = Some v \<and> \<not> is_pac_hint v" if "j < n" for j
    using Suc.prems [of "Suc j"] that by (simp add: algebra_simps)
  with Suc.prems [of 0] Suc.IH show ?case by fastforce
qed simp

lemma demo_load_zero:
  assumes "880 \<le> p" "p + 4 \<le> 3096"
  shows "img_load 4 demo_kimg p = Some 0"
proof -
  have "drop (nat p) demo_kimg = drop (nat p - 880) (drop 880 demo_kimg)" using assms(1) by simp
  then have "take 4 (drop (nat p) demo_kimg) = replicate 4 0"
    using assms by (simp add: demo_drop_zeros min_def del: replicate.simps)
  moreover have "le_value (replicate 4 0) = 0" by code_simp
  ultimately show ?thesis using assms by (simp add: img_load_def demo_image_parts(2))
qed

lemma demo_map_area: "select_map_area demo_kallsym demo_kimg = Inr (demo_kimg, 0x400, 0x800)"
proof -
  have "nop_pacs demo_kimg 0x400 512 0 0 = Some (demo_kimg, 0)"
  proof (rule nop_pacs_none)
    fix j :: nat assume "j < 512"
    then have "img_load 4 demo_kimg (0x400 + 0 + 4 * int j) = Some 0" by (intro demo_load_zero) simp_all
    then show "\<exists>v. img_load 4 demo_kimg (0x400 + 0 + 4 * int j) = Some v \<and> \<not> is_pac_hint v"
      by (simp add: is_pac_hint_def)
  qed
  moreover have "sint (ucast (align_floor 0x400 16) :: s32) = 0x400" by (simp add: align_floor_def)
  ultimately show ?thesis
    by (simp add: select_map_area_def get_symbol_offset_exit_def demo_lookup demo_symbols_def of_access_def)
qed

definition demo_job :: patch_job where
  "demo_job = \<lparr>pj_info = \<lparr>ki_is_be = False, ki_uefi = True, ki_load_offset = 0, ki_kernel_size = 0x2000, ki_page_shift = 12,
       ki_b_stext_insn_offset = 4, ki_primary_entry_offset = 4\<rparr>,
     pj_img = demo_kimg, pj_ori_len = 3096, pj_kallsym = demo_kallsym, pj_kimg = demo_kimg,
     pj_kpimg = kp_magic @ replicate 1400 0, pj_superkey = [115, 117], pj_root_key = False, pj_additional = [[97, 61, 98]],
     pj_heap = [], pj_configs = [], pj_extra_size = 128\<rparr>"

lemma demo_job_simps [simp]:
  "pj_info demo_job = \<lparr>ki_is_be = False, ki_uefi = True, ki_load_offset = 0, ki_kernel_size = 0x2000, ki_page_shift = 12,
       ki_b_stext_insn_offset = 4, ki_primary_entry_offset = 4\<rparr>"
  "pj_img demo_job = demo_kimg" "pj_ori_len demo_job = 3096" "pj_kallsym demo_job = demo_kallsym" "pj_kimg demo_job = demo_kimg"
  "length (pj_kpimg demo_job) = 1408" "pj_superkey demo_job = [115, 117]" "\<not> pj_root_key demo_job"
  "pj_additional demo_job = [[97, 61, 98]]" "pj_configs demo_job = []" "pj_extra_size demo_job = 128"
  "align_kimg_len demo_job = 4096"
  by (simp_all add: demo_job_def kp_magic_def align_kimg_len_def align_4k_def align_ceil_def c_int_def)

lemma img_write_ok:
  "0 \<le> p \<Longrightarrow> p + int (length bs) \<le> int (length img) \<Longrightarrow> \<exists>out. img_write img p bs = Some out \<and> length out = length img"
proof -
  assume "0 \<le> p" "p + int (length bs) \<le> int (length img)"
  then obtain out where "img_write img p bs = Some out" by (simp add: img_write_def)
  then show ?thesis using img_write_nth(1) by blast
qed

lemma put_fields_ok:
  "(\<And>off v. (off, v) \<in> set fs \<Longrightarrow> 0 \<le> setup_field job off \<and> setup_field job off + 8 \<le> int (length out)) \<Longrightarrow>
   \<exists>out'. put_fields job fs out = Some out' \<and> length out' = length out"
proof (induction fs arbitrary: out)
  case (Cons f fs)
  obtain off v where f: "f = (off, v)" by (cases f)
  obtain o1 where o: "img_write out (setup_field job off) (le_bytes 8 v) = Some o1" "length o1 = length out"
    using img_write_ok [of "setup_field job off" "le_bytes 8 v" out] Cons.prems [of off v] by (auto simp: f)
  obtain o2 where "put_fields job fs o1 = Some o2" "length o2 = length o1"
    using Cons.IH [of o1] Cons.prems o(2) by fastforce
  then show ?case using o by (simp add: f)
qed simp


lemma bytes_at_ok: "0 \<le> p \<Longrightarrow> p + int n \<le> int (length img) \<Longrightarrow> \<exists>bs. bytes_at img p n = Some bs \<and> length bs = n"
proof -
  assume b: "0 \<le> p" "p + int n \<le> int (length img)"
  then obtain bs where "bytes_at img p n = Some bs" by (simp add: bytes_at_def)
  then show ?thesis using bytes_at_nth by blast
qed

lemma demo_assembles: "\<exists>out. assemble blank_ctx demo_job (replicate 5632 0) = Inr out"
proof -
  obtain kimg where k: "bytes_at demo_kimg 0 3096 = Some kimg" "length kimg = 3096"
    using bytes_at_ok [of 0 3096 demo_kimg] by (auto simp: demo_image_parts(2))
  obtain o1 where o1: "img_write (replicate 5632 0) 0 kimg = Some o1" "length o1 = 5632"
    using img_write_ok [of 0 kimg "replicate 5632 0"] k by auto
  obtain o2 where o2: "img_write o1 3096 (replicate 1000 0) = Some o2" "length o2 = 5632"
    using img_write_ok [of 3096 "replicate 1000 0" o1] o1 by auto
  obtain o3 where o3: "img_write o2 4096 (pj_kpimg demo_job) = Some o3" "length o3 = 5632"
    using img_write_ok [of 4096 "pj_kpimg demo_job" o2] o2 by auto
  have place: "place_images demo_job (replicate 5632 0) = Some o3"
    using k o1 o2 o3 by (simp add: place_images_def del: replicate.simps)
  have fields: "\<exists>out'. put_fields demo_job fs out = Some out' \<and> length out' = 5632"
    if "length out = 5632" "\<forall>f \<in> set fs. 0 \<le> fst f \<and> fst f \<le> 1328" for fs out
    using put_fields_ok [of fs demo_job out] that by (force simp: setup_field_def)
  obtain o4 where o4: "img_write o3 4160 (replicate 1336 0) = Some o4" "length o4 = 5632"
    using img_write_ok [of 4160 "replicate 1336 0" o3] o3 by auto
  obtain o5 where o5: "img_write o4 4161 [k_patch demo_kallsym, k_minor demo_kallsym, k_major demo_kallsym] = Some o5" "length o5 = 5632"
    using img_write_ok [of 4161 "[k_patch demo_kallsym, k_minor demo_kallsym, k_major demo_kallsym]" o4] o4 by auto
  obtain o6 where o6: "put_layout demo_job o3 = Some o6" "length o6 = 5632"
    using fields [OF o5(2), of "[(8, of_int (pj_ori_len demo_job)), (16, of_nat (length (pj_kpimg demo_job))),
            (24, scast (ki_kernel_size (pj_info demo_job))), (32, scast (ki_page_shift (pj_info demo_job))),
            (40, of_int (align_kimg_len demo_job)), (48, of_int (start_offset demo_job)), (56, of_int (pj_extra_size demo_job))]"] o4 o5
    by (auto simp: put_layout_def setup_field_def simp del: put_fields.simps replicate.simps)
  obtain o7 where o7: "put_fields demo_job [(64, of_int 0x400), (72, of_int 0x800)] o6 = Some o7" "length o7 = 5632"
    using fields [OF o6(2), of "[(64, of_int 0x400), (72, of_int 0x800)]"] by auto
  obtain bs where bs: "bytes_at demo_kimg 0x400 2072 = Some bs" "length bs = 2072"
    using bytes_at_ok [of 1024 2072 demo_kimg] by (auto simp: demo_image_parts(2))
  obtain o8 where o8: "img_write o7 0x400 bs = Some o8" "length o8 = 5632"
    using img_write_ok [of 1024 bs o7] o7 bs by auto
  have area: "put_map_area demo_job o6 = Inr (demo_kimg, o8)"
    using o7(1) o8 bs
    by (simp add: put_map_area_def demo_map_area sync_map_area_def sync_size_def get_symbol_offset_exit_def demo_lookup
        demo_symbols_def of_access_def del: put_fields.simps)
  note look = get_symbol_offset_exit_def get_symbol_offset_zero_def try_get_symbol_offset_zero_def demo_lookup demo_symbols_def
  obtain o9 where o9: "put_fields demo_job [(80, of_int 0x300)] o8 = Some o9" "length o9 = 5632"
    using fields [OF o8(2), of "[(80, of_int 0x300)]"] by auto
  obtain o10 where o10: "put_fields demo_job [(96, of_int 0x310)] o9 = Some o10" "length o10 = 5632"
    using fields [OF o9(2), of "[(96, of_int 0x310)]"] by auto
  have "\<exists>ms. fillin_map_symbol demo_kallsym demo_kimg False = Inr ms"
    by (simp add: fillin_map_symbol_def look)
  then obtain ms where ms: "fillin_map_symbol demo_kallsym demo_kimg False = Inr ms" ..
  obtain o11 where o11: "put_fields demo_job [(104, memblock_reserve_relo ms), (112, memblock_free_relo ms),
           (120, memblock_phys_alloc_relo ms), (128, memblock_virt_alloc_relo ms), (136, memblock_mark_nomap_relo ms)] o10 = Some o11"
      "length o11 = 5632"
    using fields [OF o10(2), of "[(104, memblock_reserve_relo ms), (112, memblock_free_relo ms),
           (120, memblock_phys_alloc_relo ms), (128, memblock_virt_alloc_relo ms), (136, memblock_mark_nomap_relo ms)]"] by auto
  have syms: "put_symbols demo_job demo_kimg o8 = Inr o11"
    using o9(1) o10(1) o11(1) ms by (simp add: put_symbols_def look of_access_def del: put_fields.simps)
  obtain bk where bk: "bytes_at demo_kimg 0 8 = Some bk" "length bk = 8"
    using bytes_at_ok [of 0 8 demo_kimg] by (auto simp: demo_image_parts(2))
  obtain o12 where o12: "put_backup demo_job demo_kimg o11 = Some o12" "length o12 = 5632"
    using img_write_ok [of 4304 bk o11] o11 bk by (auto simp: put_backup_def setup_field_def)
  have "\<exists>ps. fillin_patch_config demo_kallsym demo_kimg False False no_patch_symbols = Inr ps"
    by (simp add: fillin_patch_config_def look of_access_def)
  then obtain ps where ps: "fillin_patch_config demo_kallsym demo_kimg False False no_patch_symbols = Inr ps" ..
  have "\<exists>o13. put_patch_config demo_job demo_kimg o12 = Inr o13 \<and> length o13 = 5632"
    using ps unfolding put_patch_config_def
    by (simp add: of_access_eq_Inr del: put_fields.simps upt_rec_numeral) (rule fields [OF o12(2)], auto dest!: set_zip_leftD simp del: upt_rec_numeral)
  then obtain o13 where o13: "put_patch_config demo_job demo_kimg o12 = Inr o13" "length o13 = 5632" by blast
  obtain o14 where o14: "put_superkey blank_ctx demo_job o13 = Some o14" "length o14 = 5632"
    using img_write_ok [of 4312 "[115, 117] @ replicate 61 0" o13] o13
    by (auto simp: put_superkey_def setup_field_def Let_def)
  obtain o15 where o15: "put_fields demo_job [(88, scast (of_int 0x370 :: s32))] o14 = Some o15" "length o15 = 5632"
    using fields [OF o14(2), of "[(88, scast (of_int 0x370 :: s32))]"] by auto
  obtain w n where b: "b_insn 4 0x2000 = Some (w, n)" by (simp add: b_insn_def can_b_imm_def)
  obtain o16 where o16: "img_write o15 4 (le_bytes 4 (ucast w)) = Some o16" "length o16 = 5632"
    using img_write_ok [of 4 "le_bytes 4 (ucast w)" o15] o15 by auto
  have relo: "relo_branch_func demo_kimg 0x370 = Some 0x370"
    using demo_load_zero [of 880] by (simp add: relo_branch_func_def)
  have entry: "put_entry demo_job demo_kimg o14 = Inr o16"
    using o15(1) o16(1) b relo by (simp add: put_entry_def look of_access_def del: put_fields.simps)
  obtain o17 where o17: "img_write o16 4984 [3, 97, 61, 98, 0] = Some o17" "length o17 = 5632"
    using img_write_ok [of 4984 "[3, 97, 61, 98, 0]" o16] o16 by auto
  obtain o18 where o18: "img_write o17 5504 (replicate 128 0) = Some o18" "length o18 = 5632"
    using img_write_ok [of 5504 "replicate 128 0" o17] o17 by auto
  have "assemble blank_ctx demo_job (replicate 5632 0) = Inr o18"
    using place o6(1) area syms o12(1) o13(1) o14(1) entry o17(1) o18(1)
    by (simp add: assemble_def of_access_def setup_field_def out_img_len_def extra_append_def
        del: put_fields.simps replicate.simps)
  then show ?thesis by blast
qed


fun no_KP :: "u8 list \<Rightarrow> bool" where
  "no_KP (a # b # bs) \<longleftrightarrow> \<not> (a = 75 \<and> b = 80) \<and> no_KP (b # bs)"
| "no_KP [a] \<longleftrightarrow> True"
| "no_KP [] \<longleftrightarrow> True"

lemma no_KP_nth: "no_KP bs \<Longrightarrow> Suc i < length bs \<Longrightarrow> bs ! i = 75 \<Longrightarrow> bs ! Suc i \<noteq> 80"
  by (induction bs arbitrary: i rule: no_KP.induct) (auto simp: nth_Cons split: nat.splits)

lemma no_KP_append: "no_KP xs \<Longrightarrow> no_KP ys \<Longrightarrow> xs = [] \<or> last xs \<noteq> 75 \<Longrightarrow> no_KP (xs @ ys)"
proof (induction xs rule: no_KP.induct)
  case (2 a)
  then show ?case by (cases ys) simp_all
qed simp_all

lemma no_KP_replicate: "x \<noteq> 75 \<Longrightarrow> no_KP (replicate n x)"
proof (induction n)
  case (Suc n)
  then show ?case by (cases n) simp_all
qed simp

lemma no_KP_pairs: "no_KP (concat (map (\<lambda>i. [g i, 0]) xs))"
proof (induction xs)
  case (Cons x xs)
  have "no_KP ([g x, 0] @ concat (map (\<lambda>i. [g i, 0]) xs))" by (rule no_KP_append) (use Cons in simp_all)
  then show ?case by simp
qed simp

lemma last_pairs: "xs = [] \<or> last (concat (map (\<lambda>i. [g i, 0 :: u8]) xs)) = 0"
  by (induction xs) auto

lemma no_KP_demo: "no_KP demo_kimg"
proof -
  let ?t = "concat (map enc_name demo_names) @ concat (map (\<lambda>(s, x). le_bytes 4 (ucast x)) demo_symbols)"
  have t: "no_KP ?t" "last ?t \<noteq> 75" by code_simp+
  have o: "no_KP demo_org" unfolding demo_org_def by (rule no_KP_pairs)
  have l: "demo_org = [] \<or> last demo_org \<noteq> 75"
    using last_pairs [of "[0..<256]"] unfolding demo_org_def by (auto simp del: upt_rec_numeral)
  have "no_KP (?t @ replicate 2286 0)" by (rule no_KP_append) (use t no_KP_replicate in simp_all)
  then have d: "no_KP (demo_org @ ?t @ replicate 2286 0)" by (rule no_KP_append [OF o _ l])
  have "no_KP (replicate 64 7 @ demo_org @ ?t @ replicate 2286 0)"
    by (rule no_KP_append [OF _ d]) (simp_all add: no_KP_replicate)
  then show ?thesis unfolding demo_kimg_def by (simp only: append_assoc)
qed

lemma length_kp_magic: "length kp_magic = 8"
  by (simp add: kp_magic_def)

lemma get_presetI:
  assumes "p + 8 \<le> length out" "take 8 (drop p out) = kp_magic" "\<And>i. i < p \<Longrightarrow> \<not> (out ! i = 75 \<and> out ! Suc i = 80)"
  shows "get_preset out = Some (int p)"
proof -
  have "take 8 (drop i out) \<noteq> kp_magic" if "i < p" for i
  proof
    assume t: "take 8 (drop i out) = kp_magic"
    have "out ! i = take 8 (drop i out) ! 0" "out ! Suc i = take 8 (drop i out) ! 1" using that assms(1) by simp_all
    then show False using assms(3) [OF that] t by (simp add: kp_magic_def)
  qed
  moreover have "length kp_magic = 8" by (simp add: kp_magic_def)
  ultimately have "libc_memmem out 0 (length out) kp_magic = Some p"
    using assms(1,2) unfolding libc_memmem_def find_Some_iff by (intro exI [of _ p]) simp
  then show ?thesis by (simp add: get_preset_def)
qed

lemma demo_tcp: "get_symbol_offset_exit demo_kallsym demo_kimg ''tcp_init_sock'' = Inr 1024"
  by (simp add: get_symbol_offset_exit_def demo_lookup demo_symbols_def)

lemma demo_preset:
  assumes "assemble blank_ctx demo_job (replicate 5632 0) = Inr out"
  shows "get_preset out = Some 4096"
proof -
  have st: "select_map_area (pj_kallsym demo_job) (pj_kimg demo_job) = Inr (demo_kimg, 0x400, 0x800)"
    "get_symbol_offset_exit (pj_kallsym demo_job) demo_kimg ''tcp_init_sock'' = Inr 1024"
    "ki_b_stext_insn_offset (pj_info demo_job) \<in> {0, 4}" "8 \<le> pj_ori_len demo_job" "pj_ori_len demo_job < 2 ^ 31 - 4096"
    "152 + 64 \<le> length (pj_kpimg demo_job)"
    by (simp_all add: demo_map_area demo_tcp)
  note as = assemble_steps [OF assms st]
  have b: "entry_at demo_job i = Some x \<Longrightarrow> x \<noteq> 75 \<and> x \<noteq> 80" for i x
    by (auto simp: entry_at_def b_insn_def can_b_imm_def le_bytes_4 nth_Cons split: if_splits nat.splits)
  have bytes: "out ! i = (case entry_at demo_job i of Some b \<Rightarrow> b | None \<Rightarrow> if i < 3096 then demo_kimg ! i else 0)" if "i < 4096" for i
    using as(6) [of i] that by (auto simp: sync_size_def split: option.split)
  have kp: "no_KP demo_kimg" by (rule no_KP_demo)
  have kpimg: "pj_kpimg demo_job = kp_magic @ replicate 1400 0" by (simp add: demo_job_def)
  have len: "length out = 5632" using as(1) by simp
  have "get_preset out = Some (int 4096)"
  proof (rule get_presetI)
    show "take 8 (drop 4096 out) = kp_magic"
    proof (rule nth_equalityI)
      fix j assume "j < length (take 8 (drop 4096 out))"
      then have j: "j < 8" by simp
      have "out ! (4096 + j) = (kp_magic @ replicate 1400 0) ! j"
        using as(7) [of j] j kpimg by simp
      then show "take 8 (drop 4096 out) ! j = kp_magic ! j"
        using j len by (simp add: nth_append length_kp_magic)
    qed (simp add: len kp_magic_def)
    show "\<not> (out ! i = 75 \<and> out ! Suc i = 80)" if i: "i < 4096" for i
    proof
      assume a: "out ! i = 75 \<and> out ! Suc i = 80"
      then have i1: "i < 3096" "demo_kimg ! i = 75" "entry_at demo_job i = None"
        using bytes [OF i] b [of i] by (auto split: option.splits if_splits)
      then have "Suc i < 3096" "demo_kimg ! Suc i = 80"
        using a bytes [of "Suc i"] b [of "Suc i"] by (auto split: option.splits if_splits)
      then show False using no_KP_nth [OF kp, of i] i1 by (simp add: demo_image_parts(2))
    qed
  qed (simp add: len)
  then show ?thesis by simp
qed

theorem unpatch_restores_witness:
  "\<exists>out kf'. assemble blank_ctx demo_job (replicate 5632 0) = Inr out \<and>
     unpatch_kernel \<lparr>kf_prefix = [], kf_img = out, kf_img_len = 5632, kf_uncompressed = False\<rparr> = Inr kf' \<and>
     kf_img_len kf' = 3096 \<and> (\<forall>i < 3096. kf_img kf' ! i = demo_kimg ! i)"
proof -
  obtain out where out: "assemble blank_ctx demo_job (replicate 5632 0) = Inr out" using demo_assembles ..
  have st: "get_preset out = Some (align_kimg_len demo_job)"
    "select_map_area (pj_kallsym demo_job) (pj_kimg demo_job) = Inr (demo_kimg, 0x400, 0x800)"
    "get_symbol_offset_exit (pj_kallsym demo_job) demo_kimg ''tcp_init_sock'' = Inr 1024"
    "ki_b_stext_insn_offset (pj_info demo_job) \<in> {0, 4}" "216 \<le> length (pj_kpimg demo_job)"
    using demo_preset [OF out] by (simp_all add: demo_map_area demo_tcp)
  let ?kf = "\<lparr>kf_prefix = [], kf_img = out, kf_img_len = 5632, kf_uncompressed = False\<rparr>"
  have "pj_img demo_job = demo_kimg" "pj_ori_len demo_job = int 3096" "3096 \<le> length demo_kimg" "length (pj_kimg demo_job) = 3096"
    by (simp_all add: demo_image_parts(2))
  from unpatch_restores [OF out st(1) _ disjI1 [OF this(1)] this(2-4) st(2-4) _ _ st(5), of ?kf] out
  show ?thesis by auto
qed


section \<open>The extra items are found again\<close>

definition item_ok :: "c_heap \<Rightarrow> extra_config \<Rightarrow> bool" where
  "item_ok h cfg \<longleftrightarrow>
     (\<exists>item bs type args con. xc_item cfg = Some item \<and> h_bytes h item 128 = Some bs \<and>
        take 4 bs = map of_char ''kpe'' @ [0] \<and> h_load 4 h (at_off item 16) = Some type \<and> type \<noteq> 0 \<and>
        h_int h (at_off item 8) = Some args \<and> h_int h (at_off item 12) = Some con \<and> 0 \<le> args \<and> 0 \<le> con)"

text \<open>The item, its arguments and its content stand at position \<open>p\<close> of the image.\<close>

definition embedded :: "image \<Rightarrow> c_heap \<Rightarrow> extra_config \<Rightarrow> int \<Rightarrow> bool" where
  "embedded img h cfg p \<longleftrightarrow>
     (\<exists>item args con. xc_item cfg = Some item \<and> h_int h (at_off item 8) = Some args \<and> h_int h (at_off item 12) = Some con \<and>
        bytes_at img p 128 = h_bytes h item 128 \<and>
        (0 < args \<longrightarrow> bytes_at img (p + 128) (nat args) = h_bytes h (the (xc_set_args cfg)) args) \<and>
        (0 < con \<longrightarrow> bytes_at img (p + 128 + args) (nat con) = h_bytes h (the (xc_data cfg)) con))"

lemma bytes_at_same:
  assumes "same_at (\<lambda>i. i < q) a b" "p + int n \<le> q"
  shows "bytes_at b p n = bytes_at a p n"
proof (cases "0 \<le> p \<and> p + int n \<le> int (length a)")
  case True
  have l: "length b = length a" using assms(1) by (simp add: same_at_def)
  have n: "nat p + n \<le> length a" using True by linarith
  have "take n (drop (nat p) b) = take n (drop (nat p) a)"
  proof (rule nth_equalityI)
    fix j assume "j < length (take n (drop (nat p) b))"
    then have "nat p + j < length a" "int (nat p + j) < q" "j < n" using l n True assms(2) by auto
    then show "take n (drop (nat p) b) ! j = take n (drop (nat p) a) ! j"
      using assms(1) l n by (auto simp: same_at_def)
  qed (simp add: l)
  then show ?thesis using True l by (simp add: bytes_at_def)
qed (use assms(1) in \<open>auto simp: same_at_def bytes_at_def\<close>)

lemma img_load_bytes: "img_load n img p = map_option le_value (bytes_at img p n)"
  by (simp add: img_load_def bytes_at_def)

lemma bytes_at_part:
  assumes "bytes_at img p n = Some bs" "d + m \<le> n"
  shows "bytes_at img (p + int d) m = Some (take m (drop d bs))"
proof -
  have b: "0 \<le> p" "p + int n \<le> int (length img)" "bs = take n (drop (nat p) img)"
    using assms(1) by (auto simp: bytes_at_def split: if_splits)
  then have "take m (drop d bs) = take m (drop (nat (p + int d)) img)"
    using assms(2) by (simp add: nat_add_distrib drop_take min_def add.commute)
  then show ?thesis using b assms(2) by (simp add: bytes_at_def)
qed

lemma extra_append_bytes:
  assumes "extra_append out bs off = Some (out', off')"
  shows "bytes_at out' off (length bs) = Some bs" "off' = off + int (length bs)" "same_at (\<lambda>i. i < off) out out'" "0 \<le> off"
proof -
  have w: "img_write out off bs = Some out'" and o: "off' = off + int (length bs)"
    using assms by (auto simp: extra_append_def)
  show "off' = off + int (length bs)" "0 \<le> off" using o img_write_nth(2) [OF w] by simp_all
  show "same_at (\<lambda>i. i < off) out out'" using w by (rule img_write_same) auto
  show "bytes_at out' off (length bs) = Some bs"
    using img_write_nth(1-3) [OF w] img_write_bytes [OF w] by (intro bytes_eqI(1)) simp_all
qed

lemma append_extras_found:
  assumes "append_extras h cfgs out off = Some (out', off')" "list_all (item_ok h) cfgs" "length cfgs \<le> n"
  shows "0 \<le> off \<and> off < off' \<and> (\<exists>ps. parse_items n out' off off' = Some ps \<and> list_all2 (embedded out' h) cfgs ps)"
  using assms
proof (induction cfgs arbitrary: out off n)
  case Nil
  then have a: "extra_append out (replicate 128 0) off = Some (out', off')" by simp
  note e = extra_append_bytes [OF a]
  have z: "\<forall>j < 128. out' ! (nat off + j) = 0" "0 \<le> off" "nat off + 128 \<le> length out'"
    using bytes_at_nth [OF e(1)] by auto
  from z(1) have "out' ! (nat off + 0) = 0" by (rule allE [of _ 0]) simp
  then have "img_byte out' off = Some 0" using z(2,3) by (simp add: img_byte_def nat_less_iff)
  then have "parse_items n out' off off' = Some []" using e(2) by (simp add: parse_items.simps)
  then show ?case using e(2,4) by auto
next
  case (Cons cfg cfgs)
  obtain item bs type args con where it: "xc_item cfg = Some item" "h_bytes h item 128 = Some bs"
    "take 4 bs = map of_char ''kpe'' @ [0]" "h_load 4 h (at_off item 16) = Some type" "type \<noteq> 0"
    "h_int h (at_off item 8) = Some args" "h_int h (at_off item 12) = Some con" "0 \<le> args" "0 \<le> con"
    using Cons.prems(2) by (auto simp: item_ok_def)
  obtain out1 off1 out2 off2 out3 off3 where
    o1: "extra_append out bs off = Some (out1, off1)" and
    o2: "(if args > 0 then do { a \<leftarrow> xc_set_args cfg; bs \<leftarrow> h_bytes h a args; extra_append out1 bs off1 } else Some (out1, off1)) = Some (out2, off2)" and
    o3: "(if con \<noteq> 0 then do { a \<leftarrow> xc_data cfg; bs \<leftarrow> h_bytes h a con; extra_append out2 bs off2 } else Some (out2, off2)) = Some (out3, off3)" and
    o4: "append_extras h cfgs out3 off3 = Some (out', off')"
    using Cons.prems(1) it by (auto simp: bind_eq_Some_conv)
  have hl: "length xs = nat k" if "h_bytes h a k = Some xs" for a k xs
    using that bytes_at_nth by (auto simp: h_bytes_def split: if_splits)
  have lb: "length bs = 128" using hl [OF it(2)] by simp
  note e1 = extra_append_bytes [OF o1]
  have e2: "off2 = off1 + args" "same_at (\<lambda>i. i < off1) out1 out2"
    "0 < args \<Longrightarrow> bytes_at out2 off1 (nat args) = h_bytes h (the (xc_set_args cfg)) args"
    using o2 it(8) hl extra_append_bytes by (fastforce simp: bind_eq_Some_conv split: if_splits)+
  have e3: "off3 = off2 + con" "same_at (\<lambda>i. i < off2) out2 out3"
    "0 < con \<Longrightarrow> bytes_at out3 off2 (nat con) = h_bytes h (the (xc_data cfg)) con"
    using o3 it(9) hl extra_append_bytes by (fastforce simp: bind_eq_Some_conv split: if_splits)+
  have s3: "same_at (\<lambda>i. i < off3) out3 out'" using o4 by (rule append_extras_same)
  have f: "bytes_at out' off 128 = Some bs"
    "0 < args \<Longrightarrow> bytes_at out' off1 (nat args) = h_bytes h (the (xc_set_args cfg)) args"
    "0 < con \<Longrightarrow> bytes_at out' off2 (nat con) = h_bytes h (the (xc_data cfg)) con"
    using e1(1,2) e2 e3 it(8,9) lb bytes_at_same [OF s3] bytes_at_same [OF e3(2)] bytes_at_same [OF e2(2)] by auto
  obtain m where m: "n = Suc m" "length cfgs \<le> m" using Cons.prems(3) by (cases n) auto
  obtain ps where ps: "0 \<le> off3" "off3 < off'" "parse_items m out' off3 off' = Some ps" "list_all2 (embedded out' h) cfgs ps"
    using Cons.IH [OF o4 _ m(2)] Cons.prems(2) by auto
  have blk: "fst item < length h" "bytes_at (h ! fst item) (snd item) 128 = Some bs"
    using it(2) by (auto simp: h_bytes_def split: if_splits)
  have same: "bytes_at out' (off + int d) 4 = bytes_at (h ! fst item) (snd item + int d) 4" if "d + 4 \<le> 128" for d
    using bytes_at_part [OF f(1) that] bytes_at_part [OF blk(2) that] by simp
  have fields: "img_int out' (off + 8) = Some args" "img_int out' (off + 12) = Some con" "img_load 4 out' (off + 16) = Some type"
    using it(4,6,7) blk(1) same [of 8] same [of 12] same [of 16]
    by (simp_all add: h_int_def h_load_def img_int_def img_load_bytes at_off_def)
  have "bytes_at out' off 4 = Some (map of_char ''kpe'' @ [0])" using bytes_at_part [OF f(1), of 0 4] it(3) by simp
  then have "img_byte out' (off + int j) = Some ((map of_char ''kpe'' @ [0]) ! j)" if "j < 4" for j
    using bytes_at_nth [of out' off 4] that by (auto simp: img_byte_def nat_add_distrib)
  from this [of 0] this [of 1] this [of 2] this [of 3] have "streq_at out' off (map of_char ''kpe'') = Some True"
    by (simp add: add.assoc)
  moreover have "off < off'" using ps(2) e1(2) e2(1) e3(1) it(8,9) lb by simp
  ultimately have "parse_items n out' off off' = Some (off # ps)"
    using fields it(5) ps(3) e1(2) e2(1) e3(1) lb unfolding m(1) by (simp add: parse_items.simps [of "Suc m"] algebra_simps)
  moreover have "embedded out' h cfg off"
    using it f e1(2) e2(1) lb by (auto simp: embedded_def)
  ultimately show ?case using ps(4) e1(4) \<open>off < off'\<close> by auto
qed

text \<open>
  C20: The items the program appends are found again when the patched image is read: as many as were appended, in
  their order, each with its header, arguments and content.
\<close>
theorem embedded_items_found:
  assumes "append_extras h cfgs out off = Some (out', off')" "list_all (item_ok h) cfgs" "length cfgs \<le> 32"
  shows "\<exists>ps. parse_items 32 out' off off' = Some ps \<and> list_all2 (embedded out' h) cfgs ps"
  using append_extras_found [OF assms] by blast


text \<open>One shell command with two bytes of arguments, which take 16 bytes.\<close>

definition demo_config :: extra_config where
  "demo_config = \<lparr>xc_type = 2, xc_is_path = True, xc_path = [], xc_set_args = Some (2, 0), xc_set_name = None,
     xc_set_event = None, xc_priority = 0, xc_data = Some (3, 0), xc_item = Some (1, 0)\<rparr>"

definition demo_heap :: c_heap where
  "demo_heap = [[], [107, 112, 101, 0, 0, 0, 0, 0, 16, 0, 0, 0, 4, 0, 0, 0, 2] @ replicate 111 0, [45, 99] @ replicate 14 0, [1, 2, 3, 4]]"

theorem embedded_items_found_witness:
  "\<exists>out' off' ps. append_extras demo_heap [demo_config] (replicate 276 0) 0 = Some (out', off') \<and>
     parse_items 32 out' 0 off' = Some ps \<and> list_all2 (embedded out' demo_heap) [demo_config] ps"
proof -
  have "append_extras demo_heap [demo_config] (replicate 276 0) 0 \<noteq> None" by code_simp
  then obtain out' off' where a: "append_extras demo_heap [demo_config] (replicate 276 0) 0 = Some (out', off')" by auto
  have "h_bytes demo_heap (1, 0) 128 = Some (demo_heap ! 1)" "take 4 (demo_heap ! 1) = [107, 112, 101, 0]"
    "h_load 4 demo_heap (1, 16) = Some 2" "h_int demo_heap (1, 8) = Some 16" "h_int demo_heap (1, 12) = Some 4"
    by code_simp+
  then have "list_all (item_ok demo_heap) [demo_config]"
    by (simp add: item_ok_def demo_config_def at_off_def)
  then show ?thesis using embedded_items_found [OF a] a by auto
qed

end
