(* ===== verification/Kptools.thy ===== *)
theory Kptools
  imports Image_Patch
begin

text \<open>
  The command line of the patch tool, \<^verbatim>\<open>tools/kptools.c\<close>.  The library's \<open>getopt_long\<close> is the list of options
  it delivers, each with its argument; of the argument of \<open>-A\<close> the list has the memory from the pointer on.
  The result is the exit status, the text printed and the files; the help text is not modelled.
\<close>

record tool_opts =
  to_cmd :: char
  to_kimg :: "u8 list option"
  to_kpimg :: "u8 list option"
  to_out :: "u8 list option"
  to_key :: "u8 list option"
  to_root_key :: bool
  to_additional :: "u8 list list"
  to_configs :: "extra_config list"
  to_args :: c_heap

definition no_opts :: tool_opts where
  "no_opts = \<lparr>to_cmd = NUL, to_kimg = None, to_kpimg = None, to_out = None, to_key = None, to_root_key = False,
     to_additional = [], to_configs = [], to_args = []\<rparr>"

definition new_config :: "bool \<Rightarrow> u8 list \<Rightarrow> extra_config" where
  "new_config is_path path = \<lparr>xc_type = 0, xc_is_path = is_path, xc_path = path, xc_set_args = None, xc_set_name = None,
     xc_set_event = None, xc_priority = 0, xc_data = None, xc_item = None\<rparr>"

text \<open>A change of the item the last \<open>-M\<close> or \<open>-E\<close> has begun; without one the null pointer is followed.\<close>

definition change_last :: "(extra_config \<Rightarrow> extra_config) \<Rightarrow> tool_opts \<Rightarrow> tool_stop + tool_opts" where
  "change_last f st =
     (if to_configs st = [] then Inl Bad_access
      else Inr (st\<lparr>to_configs := butlast (to_configs st) @ [f (last (to_configs st))]\<rparr>))"

text \<open>The arrays hold 32 items and 16 additional strings; the name of \<open>-N\<close> shares its place with the path.\<close>

definition tool_option :: "char \<Rightarrow> u8 list \<Rightarrow> tool_opts \<Rightarrow> tool_stop + tool_opts" where
  "tool_option opt arg st =
     (if opt \<in> set ''hvpurdfl'' then Inr (st\<lparr>to_cmd := opt\<rparr>)
      else if opt = CHR ''i'' then Inr (st\<lparr>to_kimg := Some arg\<rparr>)
      else if opt = CHR ''k'' then Inr (st\<lparr>to_kpimg := Some arg\<rparr>)
      else if opt = CHR ''S'' then Inr (st\<lparr>to_root_key := True, to_key := Some arg\<rparr>)
      else if opt = CHR ''s'' then Inr (st\<lparr>to_key := Some arg\<rparr>)
      else if opt = CHR ''o'' then Inr (st\<lparr>to_out := Some arg\<rparr>)
      else if opt = CHR ''a''
      then (if length (to_additional st) \<ge> 16 then Inl Bad_access else Inr (st\<lparr>to_additional := to_additional st @ [arg]\<rparr>))
      else if opt = CHR ''M'' \<or> opt = CHR ''E''
      then (if length (to_configs st) \<ge> 32 then Inl Bad_access
            else Inr (st\<lparr>to_configs := to_configs st @ [new_config (opt = CHR ''M'') arg]\<rparr>))
      else if opt = CHR ''T''
      then (let t = extra_str_type (map (\<lambda>b. char_of (unat b)) arg)
            in tbind (change_last (\<lambda>c. c\<lparr>xc_type := t\<rparr>) st) (\<lambda>st. if t = 0 then Inl Exit_failure else Inr st))
      else if opt = CHR ''V'' then change_last (\<lambda>c. c\<lparr>xc_set_event := Some arg\<rparr>) st
      else if opt = CHR ''N'' then change_last (\<lambda>c. c\<lparr>xc_path := arg\<rparr>) st
      else if opt = CHR ''A''
      then change_last (\<lambda>c. c\<lparr>xc_set_args := Some (1 + length (to_args st), 0)\<rparr>) (st\<lparr>to_args := to_args st @ [arg]\<rparr>)
      else Inr st)"

fun tool_options :: "(char \<times> u8 list) list \<Rightarrow> tool_opts \<Rightarrow> tool_stop + tool_opts" where
  "tool_options [] st = Inr st"
| "tool_options ((opt, arg) # os) st = tbind (tool_option opt arg st) (tool_options os)"

definition fmt_08x :: "int \<Rightarrow> string" where
  "fmt_08x v = (let s = nat_str 16 (nat (v mod 2 ^ 32)) in replicate (8 - length s) CHR ''0'' @ s)"

definition symbol_lines :: "(int \<times> u8 \<times> u8 list) list \<Rightarrow> u8 list" where
  "symbol_lines ls = concat (map (\<lambda>(offset, ty, s). text_line (''0x'' @ fmt_08x offset @ '' '') ([ty, 32] @ s)) ls)"

text \<open>The strings of a module; \<open>-8\<close> prints only the first line.\<close>

definition print_kpm_info_path :: "u64 \<Rightarrow> files \<Rightarrow> u8 list \<Rightarrow> tool_stop + (int \<times> u8 list)" where
  "print_kpm_info_path addr fs path =
     tbind (read_file fs path) (\<lambda>img.
     tbind (of_access (get_kpm_info addr img)) (\<lambda>(rc, img, info).
       if rc \<noteq> 0 then Inr (rc, text_line ''[kpm]'' [])
       else of_access (do { n \<leftarrow> kpm_name info; v \<leftarrow> kpm_version info; l \<leftarrow> kpm_license info; a \<leftarrow> kpm_author info; d \<leftarrow> kpm_description info;
              n \<leftarrow> img_str img n; v \<leftarrow> img_str img v; l \<leftarrow> img_str img l; a \<leftarrow> img_str img a; d \<leftarrow> img_str img d;
              Some (0, text_line ''[kpm]'' [] @ text_line ''name='' n @ text_line ''version='' v @ text_line ''license='' l @
                       text_line ''author='' a @ text_line ''description='' d) })))"

definition print_image_patch_info_path :: "u64 \<Rightarrow> files \<Rightarrow> u8 list \<Rightarrow> tool_stop + (int \<times> u8 list)" where
  "print_image_patch_info_path addr fs path =
     tbind (read_kernel_file fs path) (\<lambda>kf. tbind (parse_image_patch_info (kf_img kf)) (\<lambda>pimg.
     tbind (print_image_patch_info addr pimg) (\<lambda>out. Inr (0, out))))"

text \<open>\<open>ikconfig\<close> prints the kernel configuration, which zlib unpacks.\<close>

definition kptools_main ::
    "(nat \<Rightarrow> u8) \<Rightarrow> sha_ctx \<Rightarrow> (nat \<Rightarrow> u64) \<Rightarrow> (files \<Rightarrow> u8 list option \<Rightarrow> tool_stop + (int \<times> u8 list)) \<Rightarrow> u32 \<Rightarrow>
     (char \<times> u8 list) list \<Rightarrow> files \<Rightarrow> tool_stop + (int \<times> u8 list \<times> files)" where
  "kptools_main junk ctx addr_of ikconfig version os fs =
     tbind (tool_options os no_opts) (\<lambda>st.
       let cmd = to_cmd st; printed = (\<lambda>r. tbind r (\<lambda>(rc, out). Inr (rc, out, fs)));
           hex = (\<lambda>v :: u32. map of_char (nat_str 16 (unat v)) @ [10])
       in if cmd = CHR ''v''
          then (case to_kpimg st of Some path \<Rightarrow> tbind (get_kpimg_version fs path) (\<lambda>v. Inr (0, hex v, fs))
                | None \<Rightarrow> Inr (0, hex version, fs))
          else if cmd = CHR ''p''
          then if length (to_additional st) = 16 then Inl Bad_access \<comment> \<open>no null pointer ends the array\<close>
               else (case to_kimg st of None \<Rightarrow>
                  Inl (if to_kpimg st = None \<or> to_out st = None \<or> to_key st = None then Exit_failure else Bad_access)
                | Some kimg \<Rightarrow>
                    tbind (patch_update_img junk ctx addr_of fs (to_args st) kimg (to_kpimg st) (to_out st) (to_key st) (to_root_key st)
                             (to_additional st) (to_configs st)) (\<lambda>fs. Inr (0, [], fs)))
          else if cmd = CHR ''d''
          then printed (tbind (dump_kallsym fs (to_kimg st)) (\<lambda>(rc, ls). Inr (rc, if rc = 0 then symbol_lines ls
                 else text_line ''analyze_kallsym_info error'' [])))
          else if cmd = CHR ''f'' then printed (ikconfig fs (to_kimg st))
          else if cmd = CHR ''u'' then tbind (unpatch_img fs (to_kimg st) (to_out st)) (\<lambda>fs. Inr (0, [], fs))
          else if cmd = CHR ''r'' then tbind (reset_key fs (to_kimg st) (to_out st) (to_key st)) (\<lambda>fs. Inr (0, [], fs))
          else if cmd = CHR ''l''
          then (case to_kimg st of Some path \<Rightarrow> printed (print_image_patch_info_path (addr_of 0) fs path)
                | None \<Rightarrow>
                    if to_configs st \<noteq> [] then printed (print_kpm_info_path (addr_of 0) fs (xc_path (last (to_configs st))))
                    else (case to_kpimg st of Some path \<Rightarrow> printed (print_kp_image_info_path fs path) | None \<Rightarrow> Inr (0, [], fs)))
          else Inr (0, [], fs))"

end
