(* ===== verification/Spec2Isabelle.thy ===== *)
theory Spec2Isabelle
  imports Kpm_Cli A64 Branch_Follow Hook_Wrap Insn_Exec Baselib Supercall Image_Patch_Spec Kptools
begin

text \<open>
  Verification of KernelPatch and of its module for inline access.

  \<^bold>\<open>The program.\<close>  A host tool (\<^verbatim>\<open>tools/\<close>) recovers the symbol table of an AArch64 kernel image and appends the
  patch code to the image.  At boot the patch code (\<^verbatim>\<open>kernel/base/\<close>, \<^verbatim>\<open>kernel/patch/\<close>) finds its configuration
  and the super key, hooks kernel functions by overwriting their first instructions, loads modules, and
  answers privileged requests of user space through one hooked system call.  The module of
  \<^verbatim>\<open>kpms/demo_accessOffstinlineHook/\<close> wraps three kernel functions, filters processes, sets hardware
  breakpoints, reads process memory and prints user stacks; a control program sends it text commands.

  The parts depend on each other in this way.  The hook engine relocates instructions, writes through the page
  tables and keeps its hooks in the hook memory; callback chains wrap hooked functions and function pointers.  The
  module loader uses the ELF relocations, these the instruction encoders and the table of exported symbols.  The
  system call puts the super key, the list of permitted users (kept in the keyed storage), the modules and the
  credentials together.  The tool's patcher uses its symbol search, this the analysis of the image.

  \<^bold>\<open>Theories and sources\<close> (paths below \<^verbatim>\<open>src/\<close>).

  \<^item> \<^verbatim>\<open>Prelude\<close>, \<^verbatim>\<open>C_Format\<close>, \<^verbatim>\<open>Byte_Memory\<close>: words, error numbers, C strings and buffers; \<open>snprintf\<close> and the loops that
    scan digits; byte-addressed memory with little-endian access.
  \<^item> The module (\<^verbatim>\<open>kpms/demo_accessOffstinlineHook/\<close>).  \<^verbatim>\<open>Hw_Breakpoint\<close>: \<^verbatim>\<open>hw_breakpoint.c\<close>; the state has the
    four slots with their events, tasks and next addresses, and the calls made to the kernel, from which the live
    and armed events are computed.  \<^verbatim>\<open>Process_Memory\<close>: \<^verbatim>\<open>process_info.c\<close>, \<^verbatim>\<open>process_memory.c\<close>, with the references to
    tasks and address spaces counted.  \<^verbatim>\<open>Stack_Unwind\<close>: \<^verbatim>\<open>stack_unwind.c\<close>, with locks and pages counted.  \<^verbatim>\<open>Control\<close>:
    \<^verbatim>\<open>accessOffstinlineHook.c\<close>, filters, callbacks, text commands, initialisation and exit.  \<^verbatim>\<open>Control_Spec\<close>: their
    properties.  \<^verbatim>\<open>Kpm_Cli\<close>: \<^verbatim>\<open>userspace/jni/kpm_control.c\<close>.
  \<^item> Hooks (\<^verbatim>\<open>kernel/base/\<close>).  \<^verbatim>\<open>Relocate\<close>: the relocation routines of \<^verbatim>\<open>hook.c\<close>.  \<^verbatim>\<open>A64\<close>: the instructions they write,
    as a step function after the architecture.  \<^verbatim>\<open>Page_Table\<close>: the walk and the edits of \<^verbatim>\<open>start.c\<close> and
    \<^verbatim>\<open>kernel/include/pgtable.h\<close>.  \<^verbatim>\<open>Hook_Memory\<close>: \<^verbatim>\<open>hmem.c\<close> and the structures of \<^verbatim>\<open>kernel/include/hook.h\<close>; a list of slots.
    \<^verbatim>\<open>Hook_Engine\<close>: preparing, installing and removing a hook; the state joins text, page tables and hook memory.
    \<^verbatim>\<open>Branch_Follow\<close>: the search for the function behind branches, against the processor.  \<^verbatim>\<open>Callback_Chain\<close>, \<^verbatim>\<open>Transit\<close>,
    \<^verbatim>\<open>Hook_Wrap\<close>: the chains, the transit routines and the wrapping of \<^verbatim>\<open>hook.c\<close> and \<^verbatim>\<open>fphook.c\<close>.
  \<^item> Modules (\<^verbatim>\<open>kernel/patch/module/\<close>).  \<^verbatim>\<open>Insn\<close>: \<^verbatim>\<open>insn.c\<close>.  \<^verbatim>\<open>Elf_Relo\<close>: \<^verbatim>\<open>relo.c\<close>.  \<^verbatim>\<open>Insn_Exec\<close>: relocated code run by
    the step function.  \<^verbatim>\<open>Kp_Symbol\<close>: \<^verbatim>\<open>kernel/base/symbol.c\<close>.  \<^verbatim>\<open>Module_Load\<close>, \<^verbatim>\<open>Module_Layout\<close>, \<^verbatim>\<open>Module_Manage\<close>: \<^verbatim>\<open>module.c\<close>, the
    image and its sections, their layout and copying, and loading, calling, listing and unloading.  The state is
    the memory, the list of modules, the live blocks of both allocators and the nesting of the lock.
  \<^item> Services.  \<^verbatim>\<open>Kstorage\<close>: \<^verbatim>\<open>kernel/patch/common/kstorage.c\<close>, lists of nodes refined to a map for each group.  \<^verbatim>\<open>Su_List\<close>:
    \<^verbatim>\<open>sucompat.c\<close> of the same directory on top of it.  \<^verbatim>\<open>Baselib\<close>, \<^verbatim>\<open>Sha256\<close>, \<^verbatim>\<open>Predata\<close>: \<^verbatim>\<open>kernel/base/\<close>\<^verbatim>\<open>baselib.c\<close>,
    \<^verbatim>\<open>sha256.c\<close>, \<^verbatim>\<open>predata.c\<close>.  \<^verbatim>\<open>Accctl\<close>: \<^verbatim>\<open>accctl.c\<close>, \<^verbatim>\<open>taskob.c\<close> and \<^verbatim>\<open>kernel/patch/include/accctl.h\<close>.  \<^verbatim>\<open>Supercall\<close>:
    \<^verbatim>\<open>supercall.c\<close> and \<^verbatim>\<open>utils.c\<close>, the state of the services side by side.
  \<^item> The tool (\<^verbatim>\<open>tools/\<close>).  \<^verbatim>\<open>Tool_Image\<close>: \<^verbatim>\<open>order.c\<close>, \<^verbatim>\<open>common.c\<close>, \<^verbatim>\<open>image.c\<close>.  \<^verbatim>\<open>Kallsyms\<close>: \<^verbatim>\<open>kallsym.c\<close>.  \<^verbatim>\<open>Tool_Symbol\<close>:
    \<^verbatim>\<open>symbol.c\<close>.  \<^verbatim>\<open>Kallsyms_Spec\<close>: the build's compression of names and its inversion.  \<^verbatim>\<open>Tool_Kpm\<close>: \<^verbatim>\<open>kpm.c\<close>.
    \<^verbatim>\<open>Image_Patch\<close>, \<^verbatim>\<open>Image_Patch_Spec\<close>: \<^verbatim>\<open>patch.c\<close> and what patching and undoing leave.  \<^verbatim>\<open>Kptools\<close>: \<^verbatim>\<open>kptools.c\<close>.

  \<^bold>\<open>Conventions.\<close>  Integers have the width of the code; offsets of the tool are integers.  An error is the number the
  code returns.  \<open>None\<close> is a fault, a panic, an access outside a buffer or a loop that does not end, as each theory
  says; loops that may not end are partial functions, so no fuel is chosen anywhere.  The kernel's functions, the
  entry points of modules, callbacks, allocators and files are parameters or records of functions.  Where a proof
  needs something of them it is a named hypothesis, as \<open>good_kernel\<close> (breakpoint events are fresh) or \<open>keeps_ids\<close>
  (setting groups and contexts changes no user number).

  \<^bold>\<open>What is shown.\<close>
  \<^item> Breakpoint module: events live exactly for the enabled slots, a request is refused or becomes an event of the
    kind asked for, the cycle over the next instruction and its effect on watchpoints, the meaning of the filters,
    commands from the command line to the call, and nothing left behind at exit.
  \<^item> Hooks: relocated branches and address computations do what the original instructions do; what preparing a hook
    writes; hooking and unhooking, wrapping and unwrapping restore text, page tables and hook memory; the transit
    routines run the callbacks held around the original function.
  \<^item> Modules: relocated calls and addresses reach the symbol, signed moves do not take negative values as they should,
    sections are laid out apart and copied with the pointers to them, all memory is accounted for, a failed load
    changes nothing, and all modules can be unloaded again.
  \<^item> Services: the storage is a map, the user list the last grants, the search for bytes finds the first place, the
    digest is that of the standard and is computed exactly for lengths below \<open>2 ^ 32\<close>, which keys are accepted,
    who passes SELinux, and what the system call allows without the key, with the way round it.
  \<^item> Tool: symbols are found at the addresses the build gave them, embedded items are read back, and undoing a
    patch restores the image but for the bytes named.

  The interfaces are three locales with interpretations on the model: \<open>origin_store\<close> (look-up of hooks by the
  address hooked), \<open>callback_chain\<close> and \<open>keyed_store\<close>.

  \<^bold>\<open>Not modelled.\<close>  The headers of the Linux kernel; \<^verbatim>\<open>kernel/base/tlsf.c\<close>, a third-party allocator; the boot and
  mapping code (\<^verbatim>\<open>map.c\<close>, \<^verbatim>\<open>setup.c\<close>, \<^verbatim>\<open>log.c\<close>, \<^verbatim>\<open>hotpatch.c\<close> and most of \<^verbatim>\<open>start.c\<close>), which works on registers and page tables
  before the kernel runs; the tables of resolved kernel symbols (\<^verbatim>\<open>kernel/patch/ksyms/\<close>); the registration of
  system-call hooks and the super command (\<^verbatim>\<open>syscall.c\<close>, \<^verbatim>\<open>sysname.c\<close>, \<^verbatim>\<open>supercmd.c\<close>, \<^verbatim>\<open>user_event.c\<close>, \<^verbatim>\<open>secpass.c\<close>); the
  Android scripts of \<^verbatim>\<open>userd.c\<close>; \<^verbatim>\<open>tools/insn.c\<close> and \<^verbatim>\<open>tools/sha256.c\<close>, which repeat modelled code; decompression of the
  embedded configuration; \<^verbatim>\<open>user_deprecated/\<close>.  Log output, cache maintenance and barriers are left out everywhere, and
  locks are only counted.  Operations are sequential, except that a write to the keyed storage is two steps.
\<close>

end
